(* ===== verification/IE_Prelude.thy ===== *)
theory IE_Prelude
  imports Main "HOL-Library.Word" "HOL-Library.Signed_Division"
begin

unbundle bit_operations_syntax

text \<open>
  Shared vocabulary of the development: the C integer types as machine words, the errno values of
  Zephyr's \<open>errno.h\<close>, the little- and big-endian accessors of \<open>sys/byteorder.h\<close>, and the generic
  lemmas on words and byte lists that the component theories share.

  Conventions. A C function that returns an error code returns an \<open>int\<close> (0 or a negative errno).
  A C function that reads or writes a module's static variables takes the record of these variables
  and returns it updated. A call into Zephyr (driver, kernel, network stack) is not modelled: what it
  returns is an argument of the definition that calls it.
\<close>

section \<open>C integer types\<close>

type_synonym u8 = "8 word"
type_synonym u16 = "16 word"
type_synonym u32 = "32 word"

text \<open>Facts that push word comparisons and casts to natural numbers.\<close>

named_theorems to_nat_simps
named_theorems c_def

lemmas [to_nat_simps] = word_le_nat_alt word_less_nat_alt

lemma unat_u16_bound: "unat (x :: u16) < 65536"
  using unsigned_less [of x] by simp

lemma unat_u32_bound: "unat (x :: u32) < 4294967296"
  using unsigned_less [of x] by simp

lemma unat_u8_bound: "unat (x :: u8) < 256"
  using unsigned_less [of x] by simp

lemma unat_sub_u16: "unat a \<le> unat (b :: u16) \<Longrightarrow> unat (b - a) = unat b - unat a"
  by (simp add: unat_sub word_le_nat_alt)

lemma unat_add_u16: "unat a + unat (b :: u16) < 65536 \<Longrightarrow> unat (a + b) = unat a + unat b"
  by (simp add: unat_word_ariths)

lemma unat_ucast_16_32 [simp]: "unat (ucast (x :: u16) :: u32) = unat x"
  using unat_u16_bound [of x] by (simp add: unsigned_ucast_eq take_bit_nat_eq_self_iff)

section \<open>Error codes\<close>

text \<open>The values of Zephyr's \<open>errno.h\<close> that the sources use.\<close>

abbreviation (input) ENOENT :: int where "ENOENT \<equiv> 2"
abbreviation (input) EIO :: int where "EIO \<equiv> 5"
abbreviation (input) EAGAIN :: int where "EAGAIN \<equiv> 11"
abbreviation (input) EACCES :: int where "EACCES \<equiv> 13"
abbreviation (input) EBUSY :: int where "EBUSY \<equiv> 16"
abbreviation (input) ENODEV :: int where "ENODEV \<equiv> 19"
abbreviation (input) EINVAL :: int where "EINVAL \<equiv> 22"
abbreviation (input) ENOSPC :: int where "ENOSPC \<equiv> 28"
abbreviation (input) ERANGE :: int where "ERANGE \<equiv> 34"
abbreviation (input) ENODATA :: int where "ENODATA \<equiv> 61"
abbreviation (input) EBADMSG :: int where "EBADMSG \<equiv> 77"
abbreviation (input) ENOBUFS :: int where "ENOBUFS \<equiv> 105"
abbreviation (input) ENETDOWN :: int where "ENETDOWN \<equiv> 115"
abbreviation (input) ETIMEDOUT :: int where "ETIMEDOUT \<equiv> 116"
abbreviation (input) EALREADY :: int where "EALREADY \<equiv> 120"
abbreviation (input) EMSGSIZE :: int where "EMSGSIZE \<equiv> 122"
abbreviation (input) ENOTCONN :: int where "ENOTCONN \<equiv> 128"
abbreviation (input) ENOTSUP :: int where "ENOTSUP \<equiv> 134"
abbreviation (input) ECANCELED :: int where "ECANCELED \<equiv> 140"

text \<open>The cast \<open>(uint16_t)ret\<close> of an \<open>int\<close> error code.\<close>

definition u16_of_int :: "int \<Rightarrow> u16" where
  "u16_of_int i = word_of_int i"

text \<open>The cast \<open>(int16_t)w\<close> of a 16-bit word.\<close>

definition s16_of_u16 :: "u16 \<Rightarrow> int" where
  "s16_of_u16 w = sint w"

lemma s16_u16_roundtrip:
  assumes "- 32768 \<le> i" and "i < 32768"
  shows "s16_of_u16 (u16_of_int i) = i"
proof -
  have "signed_take_bit 15 i = i"
    using assms by (intro signed_take_bit_int_eq_self) simp_all
  then show ?thesis by (simp add: s16_of_u16_def u16_of_int_def sint_word_ariths signed_of_int)
qed

section \<open>Byte order\<close>

text \<open>\<open>sys_put_le16\<close>, \<open>sys_put_le32\<close>, \<open>sys_put_be16\<close>, \<open>sys_put_be32\<close> give the bytes of a word;
  \<open>sys_get_le16\<close> and so on read them at an offset.\<close>

definition le16 :: "u16 \<Rightarrow> u8 list" where
  "le16 w = [ucast w, ucast (drop_bit 8 w)]"

definition le32 :: "u32 \<Rightarrow> u8 list" where
  "le32 w = [ucast w, ucast (drop_bit 8 w), ucast (drop_bit 16 w), ucast (drop_bit 24 w)]"

definition be16 :: "u16 \<Rightarrow> u8 list" where
  "be16 w = [ucast (drop_bit 8 w), ucast w]"

definition be32 :: "u32 \<Rightarrow> u8 list" where
  "be32 w = [ucast (drop_bit 24 w), ucast (drop_bit 16 w), ucast (drop_bit 8 w), ucast w]"

definition get_le16 :: "u8 list \<Rightarrow> nat \<Rightarrow> u16" where
  "get_le16 bs i = ucast (bs ! i) OR push_bit 8 (ucast (bs ! (i + 1)))"

definition get_le32 :: "u8 list \<Rightarrow> nat \<Rightarrow> u32" where
  "get_le32 bs i = ucast (bs ! i) OR push_bit 8 (ucast (bs ! (i + 1)))
     OR push_bit 16 (ucast (bs ! (i + 2))) OR push_bit 24 (ucast (bs ! (i + 3)))"

definition get_be16 :: "u8 list \<Rightarrow> nat \<Rightarrow> u16" where
  "get_be16 bs i = push_bit 8 (ucast (bs ! i)) OR ucast (bs ! (i + 1))"

definition get_be32 :: "u8 list \<Rightarrow> nat \<Rightarrow> u32" where
  "get_be32 bs i = push_bit 24 (ucast (bs ! i)) OR push_bit 16 (ucast (bs ! (i + 1)))
     OR push_bit 8 (ucast (bs ! (i + 2))) OR ucast (bs ! (i + 3))"

lemma length_le_be [simp]: "length (le16 w) = 2" "length (le32 x) = 4" "length (be16 w) = 2" "length (be32 x) = 4"
  by (simp_all add: le16_def le32_def be16_def be32_def)

text \<open>A field at offset \<open>i\<close> of a buffer depends on its bytes only.\<close>

lemma get_le16_append: "i = length xs \<Longrightarrow> get_le16 (xs @ le16 w @ ys) i = w"
  by (rule bit_word_eqI) (auto simp: get_le16_def le16_def nth_append bit_simps)

lemma get_be16_append: "i = length xs \<Longrightarrow> get_be16 (xs @ be16 w @ ys) i = w"
  by (rule bit_word_eqI) (auto simp: get_be16_def be16_def nth_append bit_simps)

lemma bit_u8_high [simp]: "8 \<le> n \<Longrightarrow> \<not> bit (x :: u8) n"
  using bit_imp_le_length [of x n] by auto

lemma byte_index_cases:
  assumes "n < (32 :: nat)"
  obtains "n < 8" | "8 \<le> n" "n < 16" | "16 \<le> n" "n < 24" | "24 \<le> n" "n < 32"
  using assms by linarith

lemma get_le32_append:
  assumes "i = length xs"
  shows "get_le32 (xs @ le32 w @ ys) i = w"
proof (rule bit_word_eqI)
  fix n assume "n < LENGTH(32)"
  then have "n < 32" by simp
  then show "bit (get_le32 (xs @ le32 w @ ys) i) n \<longleftrightarrow> bit w n"
    by (cases rule: byte_index_cases)
      (auto simp: assms get_le32_def le32_def nth_append bit_simps)
qed

lemma get_be32_append:
  assumes "i = length xs"
  shows "get_be32 (xs @ be32 w @ ys) i = w"
proof (rule bit_word_eqI)
  fix n assume "n < LENGTH(32)"
  then have "n < 32" by simp
  then show "bit (get_be32 (xs @ be32 w @ ys) i) n \<longleftrightarrow> bit w n"
    by (cases rule: byte_index_cases)
      (auto simp: assms get_be32_def be32_def nth_append bit_simps)
qed

lemma le16_get: "le16 (get_le16 bs i) = [bs ! i, bs ! (i + 1)]"
proof -
  have "ucast (get_le16 bs i) = bs ! i" "ucast (drop_bit 8 (get_le16 bs i)) = bs ! (i + 1)"
    by (rule bit_word_eqI; simp add: get_le16_def bit_simps)+
  then show ?thesis by (simp add: le16_def)
qed

lemma le32_get: "le32 (get_le32 bs i) = [bs ! i, bs ! (i + 1), bs ! (i + 2), bs ! (i + 3)]"
proof -
  have "ucast (get_le32 bs i) = bs ! i" "ucast (drop_bit 8 (get_le32 bs i)) = bs ! (i + 1)"
    "ucast (drop_bit 16 (get_le32 bs i)) = bs ! (i + 2)" "ucast (drop_bit 24 (get_le32 bs i)) = bs ! (i + 3)"
    by (rule bit_word_eqI; simp add: get_le32_def bit_simps)+
  then show ?thesis by (simp add: le32_def)
qed

text \<open>A packed array of little-endian 16-bit words.\<close>

definition le16_words :: "u16 list \<Rightarrow> u8 list" where
  "le16_words ws = concat (List.map le16 ws)"

definition get_le16_words :: "nat \<Rightarrow> u8 list \<Rightarrow> nat \<Rightarrow> u16 list" where
  "get_le16_words n bs off = List.map (\<lambda>i. get_le16 bs (off + 2 * i)) [0..<n]"

lemma length_le16_words [simp]: "length (le16_words ws) = 2 * length ws"
  by (induction ws) (simp_all add: le16_words_def)

lemma length_get_le16_words [simp]: "length (get_le16_words n bs off) = n"
  by (simp add: get_le16_words_def)

lemma get_le16_words_append:
  "off = length xs \<Longrightarrow> get_le16_words (length ws) (xs @ le16_words ws @ ys) off = ws"
proof (induction ws arbitrary: xs off)
  case Nil
  then show ?case by (simp add: get_le16_words_def)
next
  case (Cons w ws)
  have "get_le16_words (length ws) ((xs @ le16 w) @ le16_words ws @ ys) (off + 2) = ws"
    by (rule Cons.IH) (simp add: Cons.prems)
  then show ?case
    using get_le16_append [OF Cons.prems, of w "le16_words ws @ ys"]
    by (simp add: get_le16_words_def le16_words_def upt_rec [of 0] map_Suc_upt [symmetric] comp_def
        add.assoc del: upt_Suc)
qed

lemma le16_words_get: "le16_words (get_le16_words n bs off) = List.map (\<lambda>i. bs ! (off + i)) [0..<2 * n]"
  by (induction n) (simp_all add: le16_words_def get_le16_words_def le16_get)

end
