(* ===== verification/Ipc_Protocol.thy ===== *)
theory Ipc_Protocol
  imports IE_Prelude
begin

unbundle bit_operations_syntax

text \<open>
  The contract between the two cores, \<open>app_shared/app_ipc_protocol.h\<close> and
  \<open>app_shared/app_motor_contract.h\<close>: the frame header, the motor command message and the motor state
  message, with the word indices, bit masks and limits that both sides compile in.

  The C structures hold little-endian fields; here a record holds the decoded values and
  \<open>frame_bytes\<close>, \<open>command_bytes\<close>, \<open>state_bytes\<close> give the bytes on the wire. The pointer cast of a
  received buffer is \<open>frame_of\<close>, \<open>command_of\<close>, \<open>state_of\<close>. Both directions are proved inverse.
\<close>

section \<open>Frame\<close>

definition APP_IPC_FRAME_MAGIC :: u32 where [c_def]: "APP_IPC_FRAME_MAGIC = 0x49504331"
definition APP_IPC_FRAME_VERSION :: u16 where [c_def]: "APP_IPC_FRAME_VERSION = 1"
definition APP_IPC_FRAME_PING :: u16 where [c_def]: "APP_IPC_FRAME_PING = 1"
definition APP_IPC_FRAME_PONG :: u16 where [c_def]: "APP_IPC_FRAME_PONG = 2"
definition APP_IPC_FRAME_MOTOR_COMMAND :: u16 where [c_def]: "APP_IPC_FRAME_MOTOR_COMMAND = 3"
definition APP_IPC_FRAME_MOTOR_STATE :: u16 where [c_def]: "APP_IPC_FRAME_MOTOR_STATE = 4"

record app_ipc_frame =
  frame_magic :: u32
  frame_version :: u16
  frame_type :: u16
  frame_sequence :: u32
  frame_payload_length :: u32

definition sizeof_frame :: nat where "sizeof_frame = 16"

definition frame_bytes :: "app_ipc_frame \<Rightarrow> u8 list" where
  "frame_bytes f = le32 (frame_magic f) @ le16 (frame_version f) @ le16 (frame_type f)
     @ le32 (frame_sequence f) @ le32 (frame_payload_length f)"

definition frame_of :: "u8 list \<Rightarrow> app_ipc_frame" where
  "frame_of bs = \<lparr>frame_magic = get_le32 bs 0, frame_version = get_le16 bs 4,
     frame_type = get_le16 bs 6, frame_sequence = get_le32 bs 8, frame_payload_length = get_le32 bs 12\<rparr>"

section \<open>Motor command\<close>

definition APP_MOTOR_COMMAND_WORD_COUNT :: nat where "APP_MOTOR_COMMAND_WORD_COUNT = 10"
definition APP_MOTOR_STATE_WORD_COUNT :: nat where "APP_MOTOR_STATE_WORD_COUNT = 12"

abbreviation (input) APP_MOTOR_COMMAND_CONTROL :: nat where "APP_MOTOR_COMMAND_CONTROL \<equiv> 0"
abbreviation (input) APP_MOTOR_COMMAND_DUTY_PERMILLE :: nat where "APP_MOTOR_COMMAND_DUTY_PERMILLE \<equiv> 1"
abbreviation (input) APP_MOTOR_COMMAND_ACCEL_RAMP :: nat where "APP_MOTOR_COMMAND_ACCEL_RAMP \<equiv> 2"
abbreviation (input) APP_MOTOR_COMMAND_DECEL_RAMP :: nat where "APP_MOTOR_COMMAND_DECEL_RAMP \<equiv> 3"
abbreviation (input) APP_MOTOR_COMMAND_MODE :: nat where "APP_MOTOR_COMMAND_MODE \<equiv> 4"
abbreviation (input) APP_MOTOR_COMMAND_TIMEOUT_MS :: nat where "APP_MOTOR_COMMAND_TIMEOUT_MS \<equiv> 5"
abbreviation (input) APP_MOTOR_COMMAND_RESERVED_0 :: nat where "APP_MOTOR_COMMAND_RESERVED_0 \<equiv> 6"
abbreviation (input) APP_MOTOR_COMMAND_RESERVED_1 :: nat where "APP_MOTOR_COMMAND_RESERVED_1 \<equiv> 7"
abbreviation (input) APP_MOTOR_COMMAND_RESERVED_2 :: nat where "APP_MOTOR_COMMAND_RESERVED_2 \<equiv> 8"
abbreviation (input) APP_MOTOR_COMMAND_SEQUENCE :: nat where "APP_MOTOR_COMMAND_SEQUENCE \<equiv> 9"

definition APP_MOTOR_COMMAND_ENABLE :: u16 where [c_def]: "APP_MOTOR_COMMAND_ENABLE = push_bit 0 1"
definition APP_MOTOR_COMMAND_RUN :: u16 where [c_def]: "APP_MOTOR_COMMAND_RUN = push_bit 1 1"
definition APP_MOTOR_COMMAND_DIRECTION_REVERSE :: u16 where
  [c_def]: "APP_MOTOR_COMMAND_DIRECTION_REVERSE = push_bit 2 1"
definition APP_MOTOR_COMMAND_RESET_FAULT :: u16 where
  [c_def]: "APP_MOTOR_COMMAND_RESET_FAULT = push_bit 3 1"
definition APP_MOTOR_COMMAND_QUICK_STOP :: u16 where
  [c_def]: "APP_MOTOR_COMMAND_QUICK_STOP = push_bit 4 1"
definition APP_MOTOR_COMMAND_MODE_REMOTE :: u16 where
  [c_def]: "APP_MOTOR_COMMAND_MODE_REMOTE = push_bit 0 1"
definition APP_MOTOR_COMMAND_SOURCE_NONE :: u16 where [c_def]: "APP_MOTOR_COMMAND_SOURCE_NONE = 0"
definition APP_MOTOR_COMMAND_SOURCE_SHELL :: u16 where [c_def]: "APP_MOTOR_COMMAND_SOURCE_SHELL = 1"
definition APP_MOTOR_COMMAND_SOURCE_MODBUS :: u16 where [c_def]: "APP_MOTOR_COMMAND_SOURCE_MODBUS = 2"

definition APP_MOTOR_COMMAND_MODE_SOURCE :: "u16 \<Rightarrow> u16" where
  "APP_MOTOR_COMMAND_MODE_SOURCE source = push_bit 8 source"

definition APP_MOTOR_COMMAND_ACCEL_MIN_PERMILLE_PER_SECOND :: u16 where
  [c_def]: "APP_MOTOR_COMMAND_ACCEL_MIN_PERMILLE_PER_SECOND = 1"
definition APP_MOTOR_COMMAND_ACCEL_MAX_PERMILLE_PER_SECOND :: u16 where
  [c_def]: "APP_MOTOR_COMMAND_ACCEL_MAX_PERMILLE_PER_SECOND = 10000"
definition APP_MOTOR_COMMAND_DUTY_MIN_PERMILLE :: u16 where
  [c_def]: "APP_MOTOR_COMMAND_DUTY_MIN_PERMILLE = 800"
definition APP_MOTOR_COMMAND_DUTY_MAX_PERMILLE :: u16 where
  [c_def]: "APP_MOTOR_COMMAND_DUTY_MAX_PERMILLE = 1000"
definition APP_MOTOR_COMMAND_TIMEOUT_MIN_MS :: u16 where [c_def]: "APP_MOTOR_COMMAND_TIMEOUT_MIN_MS = 100"
definition APP_MOTOR_COMMAND_TIMEOUT_MAX_MS :: u16 where [c_def]: "APP_MOTOR_COMMAND_TIMEOUT_MAX_MS = 10000"

record app_motor_command_message =
  command_header :: app_ipc_frame
  command_words :: "u16 list"

definition sizeof_command :: nat where "sizeof_command = 36"

definition command_bytes :: "app_motor_command_message \<Rightarrow> u8 list" where
  "command_bytes c = frame_bytes (command_header c) @ le16_words (command_words c)"

definition command_of :: "u8 list \<Rightarrow> app_motor_command_message" where
  "command_of bs = \<lparr>command_header = frame_of bs,
     command_words = get_le16_words APP_MOTOR_COMMAND_WORD_COUNT bs sizeof_frame\<rparr>"

section \<open>Motor state\<close>

abbreviation (input) APP_MOTOR_STATE_FLAGS :: nat where "APP_MOTOR_STATE_FLAGS \<equiv> 0"
abbreviation (input) APP_MOTOR_STATE_APPLIED_DUTY_PERMILLE :: nat where
  "APP_MOTOR_STATE_APPLIED_DUTY_PERMILLE \<equiv> 1"
abbreviation (input) APP_MOTOR_STATE_TARGET_DUTY_PERMILLE :: nat where
  "APP_MOTOR_STATE_TARGET_DUTY_PERMILLE \<equiv> 2"
abbreviation (input) APP_MOTOR_STATE_DIRECTION :: nat where "APP_MOTOR_STATE_DIRECTION \<equiv> 3"
abbreviation (input) APP_MOTOR_STATE_FAULT_CODE :: nat where "APP_MOTOR_STATE_FAULT_CODE \<equiv> 4"
abbreviation (input) APP_MOTOR_STATE_BUTTONS :: nat where "APP_MOTOR_STATE_BUTTONS \<equiv> 5"
abbreviation (input) APP_MOTOR_STATE_POTENTIOMETER_RAW :: nat where "APP_MOTOR_STATE_POTENTIOMETER_RAW \<equiv> 6"
abbreviation (input) APP_MOTOR_STATE_COMMAND_AGE_MS :: nat where "APP_MOTOR_STATE_COMMAND_AGE_MS \<equiv> 7"
abbreviation (input) APP_MOTOR_STATE_LOOP_TIME_MS :: nat where "APP_MOTOR_STATE_LOOP_TIME_MS \<equiv> 8"
abbreviation (input) APP_MOTOR_STATE_HEARTBEAT :: nat where "APP_MOTOR_STATE_HEARTBEAT \<equiv> 9"
abbreviation (input) APP_MOTOR_STATE_LAST_ACCEPTED_SEQUENCE :: nat where
  "APP_MOTOR_STATE_LAST_ACCEPTED_SEQUENCE \<equiv> 10"
abbreviation (input) APP_MOTOR_STATE_RESERVED :: nat where "APP_MOTOR_STATE_RESERVED \<equiv> 11"

definition APP_MOTOR_STATE_FLAG_DISABLED :: u16 where [c_def]: "APP_MOTOR_STATE_FLAG_DISABLED = push_bit 0 1"
definition APP_MOTOR_STATE_FLAG_READY :: u16 where [c_def]: "APP_MOTOR_STATE_FLAG_READY = push_bit 1 1"
definition APP_MOTOR_STATE_FLAG_RUNNING :: u16 where [c_def]: "APP_MOTOR_STATE_FLAG_RUNNING = push_bit 2 1"
definition APP_MOTOR_STATE_FLAG_STOPPING :: u16 where [c_def]: "APP_MOTOR_STATE_FLAG_STOPPING = push_bit 3 1"
definition APP_MOTOR_STATE_FLAG_FAULT :: u16 where [c_def]: "APP_MOTOR_STATE_FLAG_FAULT = push_bit 4 1"
definition APP_MOTOR_STATE_FLAG_LOCAL :: u16 where [c_def]: "APP_MOTOR_STATE_FLAG_LOCAL = push_bit 5 1"
definition APP_MOTOR_STATE_FLAG_REMOTE :: u16 where [c_def]: "APP_MOTOR_STATE_FLAG_REMOTE = push_bit 6 1"
definition APP_MOTOR_STATE_FLAG_IPC_VALID :: u16 where [c_def]: "APP_MOTOR_STATE_FLAG_IPC_VALID = push_bit 7 1"
definition APP_MOTOR_STATE_FLAG_REMOTE_TIMEOUT :: u16 where
  [c_def]: "APP_MOTOR_STATE_FLAG_REMOTE_TIMEOUT = push_bit 8 1"
definition APP_MOTOR_STATE_FLAG_REMOTE_STOP_LATCH :: u16 where
  [c_def]: "APP_MOTOR_STATE_FLAG_REMOTE_STOP_LATCH = push_bit 9 1"

record app_motor_state_message =
  state_header :: app_ipc_frame
  state_words :: "u16 list"

definition sizeof_state :: nat where "sizeof_state = 40"

definition state_bytes :: "app_motor_state_message \<Rightarrow> u8 list" where
  "state_bytes s = frame_bytes (state_header s) @ le16_words (state_words s)"

definition state_of :: "u8 list \<Rightarrow> app_motor_state_message" where
  "state_of bs = \<lparr>state_header = frame_of bs,
     state_words = get_le16_words APP_MOTOR_STATE_WORD_COUNT bs sizeof_frame\<rparr>"

lemmas sizeof_defs = sizeof_frame_def sizeof_command_def sizeof_state_def
  APP_MOTOR_COMMAND_WORD_COUNT_def APP_MOTOR_STATE_WORD_COUNT_def

section \<open>Round trips\<close>

lemma length_frame_bytes [simp]: "length (frame_bytes f) = 16"
  by (simp add: frame_bytes_def)

lemma length_command_bytes [simp]: "length (command_bytes c) = 16 + 2 * length (command_words c)"
  by (simp add: command_bytes_def)

lemma length_state_bytes [simp]: "length (state_bytes s) = 16 + 2 * length (state_words s)"
  by (simp add: state_bytes_def)

lemma frame_of_bytes [simp]: "frame_of (frame_bytes f @ ys) = f"
  using get_le32_append [of 0 "[]" "frame_magic f"]
    get_le16_append [of 4 "le32 (frame_magic f)" "frame_version f"]
    get_le16_append [of 6 "le32 (frame_magic f) @ le16 (frame_version f)" "frame_type f"]
    get_le32_append [of 8 "le32 (frame_magic f) @ le16 (frame_version f) @ le16 (frame_type f)" "frame_sequence f"]
    get_le32_append [of 12 "le32 (frame_magic f) @ le16 (frame_version f) @ le16 (frame_type f) @ le32 (frame_sequence f)"
      "frame_payload_length f"]
  by (simp add: frame_of_def frame_bytes_def)

lemma frame_of_bytes' [simp]: "frame_of (frame_bytes f) = f"
  using frame_of_bytes [of f "[]"] by simp

lemma command_of_bytes [simp]: "length (command_words c) = 10 \<Longrightarrow> command_of (command_bytes c) = c"
  using get_le16_words_append [of 16 "frame_bytes (command_header c)" "command_words c" "[]"]
  by (simp add: command_of_def command_bytes_def sizeof_defs)

lemma state_of_bytes [simp]: "length (state_words s) = 12 \<Longrightarrow> state_of (state_bytes s) = s"
  using get_le16_words_append [of 16 "frame_bytes (state_header s)" "state_words s" "[]"]
  by (simp add: state_of_def state_bytes_def sizeof_defs)

lemma upt_16: "[0..<16] = [0, 1, 2, 3, 4, 5, 6, 7, 8, 9, 10, 11, 12, 13, 14, 15]"
  by (simp add: upt_conv_Cons)

lemma frame_bytes_of: "frame_bytes (frame_of bs) = List.map (\<lambda>i. bs ! i) [0..<16]"
  by (simp add: frame_bytes_def frame_of_def le16_get le32_get upt_16 numeral_2_eq_2)

lemma command_bytes_of: "length bs = 36 \<Longrightarrow> command_bytes (command_of bs) = bs"
  by (rule nth_equalityI)
    (auto simp: command_bytes_def command_of_def frame_bytes_of le16_words_get sizeof_defs nth_append)

lemma state_bytes_of: "length bs = 40 \<Longrightarrow> state_bytes (state_of bs) = bs"
  by (rule nth_equalityI)
    (auto simp: state_bytes_def state_of_def frame_bytes_of le16_words_get sizeof_defs nth_append)

section \<open>The wire format as an interface\<close>

text \<open>What sender and receiver rely on: a fixed size, and an encoder and a decoder that are inverse on
  well-formed messages and on buffers of that size.\<close>

locale wire_format =
  fixes enc :: "'m \<Rightarrow> u8 list" and dec :: "u8 list \<Rightarrow> 'm" and well_formed :: "'m \<Rightarrow> bool" and wire_size :: nat
  assumes dec_enc: "well_formed x \<Longrightarrow> dec (enc x) = x"
    and enc_dec: "length bs = wire_size \<Longrightarrow> enc (dec bs) = bs"
    and enc_size: "well_formed x \<Longrightarrow> length (enc x) = wire_size"
    and dec_well_formed: "well_formed (dec bs)"
begin

lemma enc_inj: "well_formed x \<Longrightarrow> well_formed y \<Longrightarrow> enc x = enc y \<longleftrightarrow> x = y"
  by (metis dec_enc)

lemma dec_inj: "length bs = wire_size \<Longrightarrow> length cs = wire_size \<Longrightarrow> dec bs = dec cs \<longleftrightarrow> bs = cs"
  by (metis enc_dec)

lemma enc_onto: "length bs = wire_size \<Longrightarrow> \<exists>!x. well_formed x \<and> enc x = bs"
  by (metis dec_enc dec_well_formed enc_dec)

end

interpretation frame_wire: wire_format frame_bytes frame_of "\<lambda>_. True" sizeof_frame
proof unfold_locales
  fix bs :: "u8 list"
  assume "length bs = sizeof_frame"
  then show "frame_bytes (frame_of bs) = bs"
    by (intro nth_equalityI) (auto simp: frame_bytes_of sizeof_defs)
qed (simp_all add: sizeof_defs)

lemma length_words_of [simp]:
  "length (command_words (command_of bs)) = APP_MOTOR_COMMAND_WORD_COUNT"
  "length (state_words (state_of bs)) = APP_MOTOR_STATE_WORD_COUNT"
  by (simp_all add: command_of_def state_of_def)

interpretation command_wire: wire_format command_bytes command_of
  "\<lambda>c. length (command_words c) = APP_MOTOR_COMMAND_WORD_COUNT" sizeof_command
  by unfold_locales (simp_all add: sizeof_defs command_bytes_of)

interpretation state_wire: wire_format state_bytes state_of
  "\<lambda>s. length (state_words s) = APP_MOTOR_STATE_WORD_COUNT" sizeof_state
  by unfold_locales (simp_all add: sizeof_defs state_bytes_of)

section \<open>Properties\<close>

text \<open>The messages of the inter-core link are encoded without loss: every 36-byte buffer is the
  encoding of exactly one command message with ten words and every 40-byte buffer of exactly one state
  message with twelve words, so what one core decodes is what the other core encoded.\<close>

theorem ipc_messages_roundtrip:
  "(length bs = 36 \<longrightarrow> (\<exists>!c. length (command_words c) = 10 \<and> command_bytes c = bs))
   \<and> (length bs = 40 \<longrightarrow> (\<exists>!s. length (state_words s) = 12 \<and> state_bytes s = bs))
   \<and> (length (command_words c) = 10 \<longrightarrow> command_of (command_bytes c) = c)
   \<and> (length (state_words s) = 12 \<longrightarrow> state_of (state_bytes s) = s)"
  using command_wire.enc_onto [of bs] state_wire.enc_onto [of bs] by (simp add: sizeof_defs)

theorem ipc_messages_roundtrip_witness:
  "command_of (command_bytes \<lparr>command_header = frame_of (replicate 16 7), command_words = replicate 10 1\<rparr>)
     = \<lparr>command_header = frame_of (replicate 16 7), command_words = replicate 10 1\<rparr>"
  using ipc_messages_roundtrip [of "[]" "\<lparr>command_header = frame_of (replicate 16 7), command_words = replicate 10 1\<rparr>"
      "\<lparr>state_header = frame_of [], state_words = []\<rparr>"] by simp

end
