(* ===== verification/Motor_Control.thy ===== *)
theory Motor_Control
  imports IE_Prelude
begin

unbundle bit_operations_syntax

text \<open>
  The Cortex-M4 motor controller, \<open>app_m4/src/motor_control.c\<close>: a DC motor behind an L293D
  half-bridge pair, driven by two direction pins (\<open>IN1\<close>, \<open>IN2\<close>) and one PWM channel.

  The record \<open>motor\<close> holds the module's static variables. Calls into Zephyr's GPIO and PWM drivers
  are answered by a parameter \<open>drv\<close>: the return value of a call may depend on the call and on
  everything that was called before, so every sequence of successes and failures is covered.
  Each call is appended with its return value to the ghost field \<open>motor_io\<close> (newest first),
  from which the electrical level of each output is computed.
\<close>

section \<open>Data\<close>

datatype app_motor_state =
    APP_MOTOR_STATE_DISABLED
  | APP_MOTOR_STATE_READY
  | APP_MOTOR_STATE_RUNNING
  | APP_MOTOR_STATE_STOPPING
  | APP_MOTOR_STATE_FAULT

datatype app_motor_direction =
    APP_MOTOR_DIRECTION_FORWARD
  | APP_MOTOR_DIRECTION_REVERSE

text \<open>The numeric values of the C enumerators.\<close>

fun direction_code :: "app_motor_direction \<Rightarrow> nat" where
  "direction_code APP_MOTOR_DIRECTION_FORWARD = 0"
| "direction_code APP_MOTOR_DIRECTION_REVERSE = 1"

definition APP_MOTOR_DUTY_MIN_PERMILLE :: u16 where [c_def]: "APP_MOTOR_DUTY_MIN_PERMILLE = 800"
definition APP_MOTOR_DUTY_MAX_PERMILLE :: u16 where [c_def]: "APP_MOTOR_DUTY_MAX_PERMILLE = 1000"
definition MOTOR_START_BOOST_PERMILLE :: u16 where [c_def]: "MOTOR_START_BOOST_PERMILLE = 1000"
definition MOTOR_START_BOOST_MS :: u32 where [c_def]: "MOTOR_START_BOOST_MS = 250"
definition MOTOR_RUN_RAMP_PERMILLE_PER_SECOND :: u16 where
  [c_def]: "MOTOR_RUN_RAMP_PERMILLE_PER_SECOND = 1000"
definition MOTOR_STOP_RAMP_PERMILLE_PER_SECOND :: u16 where
  [c_def]: "MOTOR_STOP_RAMP_PERMILLE_PER_SECOND = 4000"

text \<open>\<open>motor_pwm.period\<close>: the board overlay declares \<open>PWM_USEC(200)\<close>, in nanoseconds.\<close>

definition motor_pwm_period :: u32 where [c_def]: "motor_pwm_period = 200000"

text \<open>The driver calls the module makes.\<close>

datatype motor_call =
    Pwm_set_pulse u32
  | Gpio_set_in1 int
  | Gpio_set_in2 int
  | Gpio_configure_in1
  | Gpio_configure_in2

type_synonym motor_trace = "(motor_call \<times> int) list"
type_synonym motor_drv = "motor_trace \<Rightarrow> motor_call \<Rightarrow> int"

record motor =
  motor_state :: app_motor_state
  motor_direction :: app_motor_direction
  motor_duty_permille :: u16
  motor_target_duty_permille :: u16
  motor_boost_remaining_ms :: u32
  motor_last_error :: int
  motor_run_ramp_permille_per_second :: u16
  motor_stop_ramp_permille_per_second :: u16
  motor_io :: motor_trace

text \<open>The initial values of the static variables.\<close>

definition motor_boot :: motor where
  "motor_boot = \<lparr>motor_state = APP_MOTOR_STATE_DISABLED,
     motor_direction = APP_MOTOR_DIRECTION_FORWARD,
     motor_duty_permille = 0,
     motor_target_duty_permille = APP_MOTOR_DUTY_MIN_PERMILLE,
     motor_boost_remaining_ms = 0,
     motor_last_error = 0,
     motor_run_ramp_permille_per_second = MOTOR_RUN_RAMP_PERMILLE_PER_SECOND,
     motor_stop_ramp_permille_per_second = MOTOR_STOP_RAMP_PERMILLE_PER_SECOND,
     motor_io = []\<rparr>"

section \<open>Operations\<close>

definition motor_call_drv :: "motor_drv \<Rightarrow> motor_call \<Rightarrow> motor \<Rightarrow> int \<times> motor" where
  "motor_call_drv drv c m =
     (let ret = drv (motor_io m) c in (ret, m\<lparr>motor_io := (c, ret) # motor_io m\<rparr>))"

definition motor_make_safe :: "motor_drv \<Rightarrow> motor \<Rightarrow> int \<times> motor" where
  "motor_make_safe drv m =
     (let (ret, m) = motor_call_drv drv (Pwm_set_pulse 0) m;
          first_error = (if ret < 0 then ret else 0);
          (ret, m) = motor_call_drv drv (Gpio_set_in1 0) m;
          first_error = (if ret < 0 \<and> first_error = 0 then ret else first_error);
          (ret, m) = motor_call_drv drv (Gpio_set_in2 0) m;
          first_error = (if ret < 0 \<and> first_error = 0 then ret else first_error)
      in (first_error, m\<lparr>motor_duty_permille := 0, motor_boost_remaining_ms := 0\<rparr>))"

definition motor_record_fault :: "motor_drv \<Rightarrow> int \<Rightarrow> motor \<Rightarrow> motor" where
  "motor_record_fault drv error m =
     (snd (motor_make_safe drv m))
       \<lparr>motor_last_error := (if error < 0 then error else - EIO),
        motor_state := APP_MOTOR_STATE_FAULT\<rparr>"

text \<open>\<open>(uint32_t)(((uint64_t)motor_pwm.period * duty_permille) / 1000U)\<close>\<close>

definition motor_pulse :: "u16 \<Rightarrow> u32" where
  "motor_pulse duty_permille =
     ucast (((ucast motor_pwm_period :: 64 word) * ucast duty_permille) div 1000)"

definition motor_set_pwm :: "motor_drv \<Rightarrow> u16 \<Rightarrow> motor \<Rightarrow> int \<times> motor" where
  "motor_set_pwm drv duty_permille m =
     (if APP_MOTOR_DUTY_MAX_PERMILLE < duty_permille then (- EINVAL, m)
      else
        let pulse = motor_pulse duty_permille;
            (ret, m) = motor_call_drv drv (Pwm_set_pulse pulse) m
        in if ret < 0 then (ret, motor_record_fault drv ret m)
           else (0, m\<lparr>motor_duty_permille := duty_permille\<rparr>))"

definition motor_apply_direction :: "motor_drv \<Rightarrow> motor \<Rightarrow> int \<times> motor" where
  "motor_apply_direction drv m =
     (let in1 = (if motor_direction m = APP_MOTOR_DIRECTION_FORWARD then 1 else 0);
          in2 = (if motor_direction m = APP_MOTOR_DIRECTION_FORWARD then 0 else 1);
          (ret, m) = motor_call_drv drv (Gpio_set_in1 in1) m
      in if ret < 0 then (ret, motor_record_fault drv ret m)
         else
           let (ret, m) = motor_call_drv drv (Gpio_set_in2 in2) m
           in if ret < 0 then (ret, motor_record_fault drv ret m) else (0, m))"

text \<open>The product is a 32-bit one and the result is cut to 16 bits, as in the source.\<close>

definition motor_ramp_step :: "u32 \<Rightarrow> u32 \<Rightarrow> u16" where
  "motor_ramp_step rate_per_second elapsed_ms =
     (let step = (rate_per_second * elapsed_ms) div 1000;
          step = (if step = 0 \<and> elapsed_ms \<noteq> 0 then 1 else step)
      in ucast step)"

definition motor_ramp_next :: "u16 \<Rightarrow> u16 \<Rightarrow> u16 \<Rightarrow> u16" where
  "motor_ramp_next next target step =
     (if next < target then (if target - next \<le> step then target else next + step)
      else if target < next then (if next - target \<le> step then target else next - step)
      else next)"

definition motor_ramp_towards :: "motor_drv \<Rightarrow> u16 \<Rightarrow> u16 \<Rightarrow> motor \<Rightarrow> int \<times> motor" where
  "motor_ramp_towards drv target step m =
     motor_set_pwm drv (motor_ramp_next (motor_duty_permille m) target step) m"

text \<open>The booleans are the answers of \<open>gpio_is_ready_dt\<close> (twice) and \<open>pwm_is_ready_dt\<close>.\<close>

definition app_motor_init :: "motor_drv \<Rightarrow> bool \<Rightarrow> bool \<Rightarrow> bool \<Rightarrow> motor \<Rightarrow> int \<times> motor" where
  "app_motor_init drv in1_ready in2_ready pwm_ready m =
     (if \<not> in1_ready \<or> \<not> in2_ready \<or> \<not> pwm_ready
      then (- ENODEV, motor_record_fault drv (- ENODEV) m)
      else
        let (ret, m) = motor_call_drv drv Gpio_configure_in1 m
        in if ret < 0 then (ret, motor_record_fault drv ret m)
           else
             let (ret, m) = motor_call_drv drv Gpio_configure_in2 m
             in if ret < 0 then (ret, motor_record_fault drv ret m)
                else
                  let (ret, m) = motor_make_safe drv m
                  in if ret < 0 then (ret, motor_record_fault drv ret m)
                     else (0, m\<lparr>motor_direction := APP_MOTOR_DIRECTION_FORWARD,
                                motor_last_error := 0,
                                motor_state := APP_MOTOR_STATE_READY\<rparr>))"

definition app_motor_start :: "motor_drv \<Rightarrow> motor \<Rightarrow> int \<times> motor" where
  "app_motor_start drv m =
     (if motor_state m = APP_MOTOR_STATE_FAULT then (- EIO, m)
      else if motor_state m = APP_MOTOR_STATE_RUNNING then (0, m)
      else if motor_state m \<noteq> APP_MOTOR_STATE_READY then (- EBUSY, m)
      else
        let (ret, m) = motor_apply_direction drv m
        in if ret < 0 then (ret, m)
           else
             let (ret, m) = motor_set_pwm drv MOTOR_START_BOOST_PERMILLE m
             in if ret < 0 then (ret, m)
                else (0, m\<lparr>motor_boost_remaining_ms := MOTOR_START_BOOST_MS,
                           motor_state := APP_MOTOR_STATE_RUNNING\<rparr>))"

definition app_motor_stop :: "motor \<Rightarrow> int \<times> motor" where
  "app_motor_stop m =
     (if motor_state m = APP_MOTOR_STATE_FAULT then (- EIO, m)
      else if motor_state m = APP_MOTOR_STATE_READY \<or> motor_state m = APP_MOTOR_STATE_DISABLED
      then (0, m)
      else (0, m\<lparr>motor_boost_remaining_ms := 0, motor_state := APP_MOTOR_STATE_STOPPING\<rparr>))"

definition app_motor_toggle_direction :: "motor \<Rightarrow> int \<times> motor" where
  "app_motor_toggle_direction m =
     (if motor_state m = APP_MOTOR_STATE_FAULT then (- EIO, m)
      else if motor_state m \<noteq> APP_MOTOR_STATE_READY then (- EBUSY, m)
      else (0, m\<lparr>motor_direction :=
                   (if motor_direction m = APP_MOTOR_DIRECTION_FORWARD
                    then APP_MOTOR_DIRECTION_REVERSE else APP_MOTOR_DIRECTION_FORWARD)\<rparr>))"

text \<open>The argument is the C enum value, which need not be one of the two enumerators.\<close>

definition app_motor_set_direction :: "nat \<Rightarrow> motor \<Rightarrow> int \<times> motor" where
  "app_motor_set_direction direction m =
     (if direction \<noteq> direction_code APP_MOTOR_DIRECTION_FORWARD
         \<and> direction \<noteq> direction_code APP_MOTOR_DIRECTION_REVERSE then (- EINVAL, m)
      else if motor_state m = APP_MOTOR_STATE_FAULT then (- EIO, m)
      else if motor_state m \<noteq> APP_MOTOR_STATE_READY then (- EBUSY, m)
      else (0, m\<lparr>motor_direction :=
                   (if direction = direction_code APP_MOTOR_DIRECTION_FORWARD
                    then APP_MOTOR_DIRECTION_FORWARD else APP_MOTOR_DIRECTION_REVERSE)\<rparr>))"

definition app_motor_reset :: "motor_drv \<Rightarrow> motor \<Rightarrow> int \<times> motor" where
  "app_motor_reset drv m =
     (let (ret, m) = motor_make_safe drv m
      in if ret < 0 then (ret, motor_record_fault drv ret m)
         else (0, m\<lparr>motor_direction := APP_MOTOR_DIRECTION_FORWARD, motor_last_error := 0,
                    motor_state := APP_MOTOR_STATE_READY\<rparr>))"

definition app_motor_quick_stop :: "motor_drv \<Rightarrow> motor \<Rightarrow> int \<times> motor" where
  "app_motor_quick_stop drv m =
     (if motor_state m = APP_MOTOR_STATE_FAULT then (- EIO, m)
      else
        let (ret, m) = motor_make_safe drv m
        in if ret < 0 then (ret, motor_record_fault drv ret m)
           else (0, m\<lparr>motor_state := APP_MOTOR_STATE_READY\<rparr>))"

definition app_motor_set_target_duty :: "u16 \<Rightarrow> motor \<Rightarrow> int \<times> motor" where
  "app_motor_set_target_duty duty_permille m =
     (if duty_permille < APP_MOTOR_DUTY_MIN_PERMILLE
         \<or> APP_MOTOR_DUTY_MAX_PERMILLE < duty_permille then (- ERANGE, m)
      else (0, m\<lparr>motor_target_duty_permille := duty_permille\<rparr>))"

definition app_motor_set_ramps :: "u16 \<Rightarrow> u16 \<Rightarrow> motor \<Rightarrow> int \<times> motor" where
  "app_motor_set_ramps accel decel m =
     (if accel = 0 \<or> decel = 0 then (- EINVAL, m)
      else (0, m\<lparr>motor_run_ramp_permille_per_second := accel,
                 motor_stop_ramp_permille_per_second := decel\<rparr>))"

definition app_motor_restore_default_ramps :: "motor \<Rightarrow> motor" where
  "app_motor_restore_default_ramps m =
     m\<lparr>motor_run_ramp_permille_per_second := MOTOR_RUN_RAMP_PERMILLE_PER_SECOND,
       motor_stop_ramp_permille_per_second := MOTOR_STOP_RAMP_PERMILLE_PER_SECOND\<rparr>"

definition app_motor_process :: "motor_drv \<Rightarrow> u32 \<Rightarrow> motor \<Rightarrow> int \<times> motor" where
  "app_motor_process drv elapsed_ms m =
     (if motor_state m = APP_MOTOR_STATE_RUNNING then
        if motor_boost_remaining_ms m \<noteq> 0 then
          if motor_boost_remaining_ms m \<le> elapsed_ms
          then (0, m\<lparr>motor_boost_remaining_ms := 0\<rparr>)
          else (0, m\<lparr>motor_boost_remaining_ms := motor_boost_remaining_ms m - elapsed_ms\<rparr>)
        else
          let step = motor_ramp_step (ucast (motor_run_ramp_permille_per_second m)) elapsed_ms
          in motor_ramp_towards drv (motor_target_duty_permille m) step m
      else if motor_state m = APP_MOTOR_STATE_STOPPING then
        let step = motor_ramp_step (ucast (motor_stop_ramp_permille_per_second m)) elapsed_ms;
            (ret, m) = motor_ramp_towards drv 0 step m
        in if ret < 0 then (ret, m)
           else if motor_duty_permille m = 0 then
             let (ret, m) = motor_make_safe drv m
             in if ret < 0 then (ret, motor_record_fault drv ret m)
                else (0, m\<lparr>motor_state := APP_MOTOR_STATE_READY\<rparr>)
           else (0, m)
      else (0, m))"

definition app_motor_fail :: "motor_drv \<Rightarrow> int \<Rightarrow> motor \<Rightarrow> motor" where
  "app_motor_fail drv error m = motor_record_fault drv error m"

definition app_motor_get_state :: "motor \<Rightarrow> app_motor_state" where
  [c_def]: "app_motor_get_state m = motor_state m"

definition app_motor_get_direction :: "motor \<Rightarrow> app_motor_direction" where
  [c_def]: "app_motor_get_direction m = motor_direction m"

definition app_motor_get_duty_permille :: "motor \<Rightarrow> u16" where
  [c_def]: "app_motor_get_duty_permille m = motor_duty_permille m"

definition app_motor_get_target_duty_permille :: "motor \<Rightarrow> u16" where
  [c_def]: "app_motor_get_target_duty_permille m = motor_target_duty_permille m"

definition app_motor_get_last_error :: "motor \<Rightarrow> int" where
  [c_def]: "app_motor_get_last_error m = motor_last_error m"

section \<open>The electrical outputs\<close>

text \<open>
  The level of an output after a history of driver calls: the one the last successful call set;
  a failed call leaves the output as it was. Configuring a pin as \<open>GPIO_OUTPUT_INACTIVE\<close> drives it low.
\<close>

fun in1_level :: "motor_trace \<Rightarrow> int" where
  "in1_level [] = 0"
| "in1_level ((Gpio_set_in1 v, r) # t) = (if r < 0 then in1_level t else v)"
| "in1_level ((Gpio_configure_in1, r) # t) = (if r < 0 then in1_level t else 0)"
| "in1_level (_ # t) = in1_level t"

fun in2_level :: "motor_trace \<Rightarrow> int" where
  "in2_level [] = 0"
| "in2_level ((Gpio_set_in2 v, r) # t) = (if r < 0 then in2_level t else v)"
| "in2_level ((Gpio_configure_in2, r) # t) = (if r < 0 then in2_level t else 0)"
| "in2_level (_ # t) = in2_level t"

fun pwm_level :: "motor_trace \<Rightarrow> u32" where
  "pwm_level [] = 0"
| "pwm_level ((Pwm_set_pulse p, r) # t) = (if r < 0 then pwm_level t else p)"
| "pwm_level (_ # t) = pwm_level t"

text \<open>At no point of the history were both bridge inputs driven high.\<close>

fun bridge_safe :: "motor_trace \<Rightarrow> bool" where
  "bridge_safe [] = True"
| "bridge_safe (e # t) =
     (\<not> (in1_level (e # t) \<noteq> 0 \<and> in2_level (e # t) \<noteq> 0) \<and> bridge_safe t)"

definition outputs_off :: "motor_trace \<Rightarrow> bool" where
  "outputs_off t \<longleftrightarrow> pwm_level t = 0 \<and> in1_level t = 0 \<and> in2_level t = 0"

definition outputs_drive :: "app_motor_direction \<Rightarrow> u16 \<Rightarrow> motor_trace \<Rightarrow> bool" where
  "outputs_drive d duty t \<longleftrightarrow> pwm_level t = motor_pulse duty
     \<and> in1_level t = (if d = APP_MOTOR_DIRECTION_FORWARD then 1 else 0)
     \<and> in2_level t = (if d = APP_MOTOR_DIRECTION_FORWARD then 0 else 1)"

section \<open>The controller's invariant\<close>

text \<open>
  The values: duty and target in range, non-zero ramps, an error code exactly in \<open>FAULT\<close>, a boost
  only while running. The outputs: all off in \<open>DISABLED\<close> and \<open>READY\<close>; one bridge input high and the
  PWM at the recorded duty in \<open>RUNNING\<close> and \<open>STOPPING\<close>; never a shoot-through of the bridge.
\<close>

definition motor_values_ok :: "motor \<Rightarrow> bool" where
  "motor_values_ok m \<longleftrightarrow>
     motor_duty_permille m \<le> APP_MOTOR_DUTY_MAX_PERMILLE
     \<and> APP_MOTOR_DUTY_MIN_PERMILLE \<le> motor_target_duty_permille m
     \<and> motor_target_duty_permille m \<le> APP_MOTOR_DUTY_MAX_PERMILLE
     \<and> motor_run_ramp_permille_per_second m \<noteq> 0 \<and> motor_stop_ramp_permille_per_second m \<noteq> 0
     \<and> motor_boost_remaining_ms m \<le> MOTOR_START_BOOST_MS
     \<and> (motor_boost_remaining_ms m \<noteq> 0 \<longrightarrow>
          motor_state m = APP_MOTOR_STATE_RUNNING
          \<and> motor_duty_permille m = MOTOR_START_BOOST_PERMILLE)
     \<and> (motor_last_error m < 0 \<longleftrightarrow> motor_state m = APP_MOTOR_STATE_FAULT)
     \<and> (motor_state m \<noteq> APP_MOTOR_STATE_FAULT \<longrightarrow> motor_last_error m = 0)
     \<and> (motor_state m = APP_MOTOR_STATE_RUNNING \<longrightarrow>
          APP_MOTOR_DUTY_MIN_PERMILLE \<le> motor_duty_permille m)
     \<and> (motor_state m \<in> {APP_MOTOR_STATE_DISABLED, APP_MOTOR_STATE_READY, APP_MOTOR_STATE_FAULT}
          \<longrightarrow> motor_duty_permille m = 0)"

definition motor_outputs_ok :: "motor \<Rightarrow> bool" where
  "motor_outputs_ok m \<longleftrightarrow> bridge_safe (motor_io m)
     \<and> \<not> (in1_level (motor_io m) \<noteq> 0 \<and> in2_level (motor_io m) \<noteq> 0)
     \<and> (motor_state m \<in> {APP_MOTOR_STATE_DISABLED, APP_MOTOR_STATE_READY}
          \<longrightarrow> outputs_off (motor_io m))
     \<and> (motor_state m \<in> {APP_MOTOR_STATE_RUNNING, APP_MOTOR_STATE_STOPPING}
          \<longrightarrow> outputs_drive (motor_direction m) (motor_duty_permille m) (motor_io m))"

definition motor_inv :: "motor \<Rightarrow> bool" where
  "motor_inv m \<longleftrightarrow> motor_values_ok m \<and> motor_outputs_ok m"

text \<open>The operations other modules call, with their arguments.\<close>

datatype motor_op =
    Motor_init bool bool bool
  | Motor_start
  | Motor_stop
  | Motor_toggle_direction
  | Motor_set_direction nat
  | Motor_reset
  | Motor_quick_stop
  | Motor_set_target_duty u16
  | Motor_set_ramps u16 u16
  | Motor_restore_default_ramps
  | Motor_process u32
  | Motor_fail int

fun motor_step :: "motor_drv \<Rightarrow> motor_op \<Rightarrow> motor \<Rightarrow> motor" where
  "motor_step drv (Motor_init a b c) m = snd (app_motor_init drv a b c m)"
| "motor_step drv Motor_start m = snd (app_motor_start drv m)"
| "motor_step drv Motor_stop m = snd (app_motor_stop m)"
| "motor_step drv Motor_toggle_direction m = snd (app_motor_toggle_direction m)"
| "motor_step drv (Motor_set_direction d) m = snd (app_motor_set_direction d m)"
| "motor_step drv Motor_reset m = snd (app_motor_reset drv m)"
| "motor_step drv Motor_quick_stop m = snd (app_motor_quick_stop drv m)"
| "motor_step drv (Motor_set_target_duty d) m = snd (app_motor_set_target_duty d m)"
| "motor_step drv (Motor_set_ramps a d) m = snd (app_motor_set_ramps a d m)"
| "motor_step drv Motor_restore_default_ramps m = app_motor_restore_default_ramps m"
| "motor_step drv (Motor_process e) m = snd (app_motor_process drv e m)"
| "motor_step drv (Motor_fail e) m = app_motor_fail drv e m"

fun motor_run :: "motor_drv \<Rightarrow> motor_op list \<Rightarrow> motor \<Rightarrow> motor" where
  "motor_run drv [] m = m"
| "motor_run drv (x # xs) m = motor_run drv xs (motor_step drv x m)"

section \<open>Driver calls and safe state\<close>

lemma motor_call_drv_eq:
  "motor_call_drv drv c m =
     (drv (motor_io m) c, m\<lparr>motor_io := (c, drv (motor_io m) c) # motor_io m\<rparr>)"
  by (simp add: motor_call_drv_def Let_def)

text \<open>What \<open>motor_make_safe\<close> does to the outputs, in one place for every caller.\<close>

definition safe_trace :: "motor_drv \<Rightarrow> motor_trace \<Rightarrow> motor_trace" where
  "safe_trace drv t =
     (let t1 = (Pwm_set_pulse 0, drv t (Pwm_set_pulse 0)) # t;
          t2 = (Gpio_set_in1 0, drv t1 (Gpio_set_in1 0)) # t1
      in (Gpio_set_in2 0, drv t2 (Gpio_set_in2 0)) # t2)"

lemma motor_make_safe_state:
  "snd (motor_make_safe drv m) =
     m\<lparr>motor_io := safe_trace drv (motor_io m), motor_duty_permille := 0,
       motor_boost_remaining_ms := 0\<rparr>"
  by (simp add: motor_make_safe_def motor_call_drv_eq safe_trace_def Let_def)

lemma motor_make_safe_le_0: "fst (motor_make_safe drv m) \<le> 0"
  by (simp add: motor_make_safe_def motor_call_drv_eq Let_def)

lemma motor_make_safe_off:
  "\<not> fst (motor_make_safe drv m) < 0 \<Longrightarrow> outputs_off (safe_trace drv (motor_io m))"
  by (auto simp: motor_make_safe_def motor_call_drv_eq safe_trace_def outputs_off_def Let_def
      split: if_splits)

lemma safe_trace_bridge:
  assumes "bridge_safe t" and "\<not> (in1_level t \<noteq> 0 \<and> in2_level t \<noteq> 0)"
  shows "bridge_safe (safe_trace drv t)"
    and "\<not> (in1_level (safe_trace drv t) \<noteq> 0 \<and> in2_level (safe_trace drv t) \<noteq> 0)"
  using assms by (auto simp: safe_trace_def Let_def)

lemma motor_make_safe_eq:
  "motor_make_safe drv m = (fst (motor_make_safe drv m),
     m\<lparr>motor_io := safe_trace drv (motor_io m), motor_duty_permille := 0,
       motor_boost_remaining_ms := 0\<rparr>)"
  by (metis motor_make_safe_state prod.collapse)

lemma motor_record_fault_eq:
  "motor_record_fault drv e m =
     m\<lparr>motor_io := safe_trace drv (motor_io m), motor_duty_permille := 0,
       motor_boost_remaining_ms := 0, motor_last_error := (if e < 0 then e else - EIO),
       motor_state := APP_MOTOR_STATE_FAULT\<rparr>"
  by (simp add: motor_record_fault_def motor_make_safe_state)

lemmas motor_drv_eqs = motor_call_drv_eq motor_record_fault_eq Let_def

text \<open>A recorded fault ends in a state that satisfies the invariant, whatever happened before it,
  as long as the bridge was not shorted.\<close>

lemma motor_record_fault_inv:
  assumes "motor_values_ok m" and "bridge_safe (motor_io m)"
    and "\<not> (in1_level (motor_io m) \<noteq> 0 \<and> in2_level (motor_io m) \<noteq> 0)"
  shows "motor_inv (motor_record_fault drv e m)"
  using assms safe_trace_bridge [of "motor_io m" drv]
  by (auto simp: motor_record_fault_eq motor_inv_def motor_values_ok_def motor_outputs_ok_def)

lemma motor_record_fault_state [simp]:
  "motor_state (motor_record_fault drv e m) = APP_MOTOR_STATE_FAULT"
  by (simp add: motor_record_fault_eq)

section \<open>Ramps\<close>

lemma motor_ramp_next_unat:
  "unat (motor_ramp_next next target step) =
     (if unat next < unat target then min (unat target) (unat next + unat step)
      else max (unat target) (unat next - unat step))"
proof (cases "next < target \<and> step < target - next")
  case True
  then have "unat step < unat target - unat next"
    by (auto simp: word_less_nat_alt unat_sub_u16)
  moreover have "unat target < 65536" by (rule unat_u16_bound)
  ultimately have "unat (next + step) = unat next + unat step"
    by (intro unat_add_u16) linarith
  with True \<open>unat step < unat target - unat next\<close> show ?thesis
    by (auto simp: motor_ramp_next_def to_nat_simps)
next
  case False
  show ?thesis
  proof (cases "target < next \<and> step < next - target")
    case True
    then have "step \<le> next"
      by (auto simp: to_nat_simps unat_sub_u16)
    with True show ?thesis
      by (auto simp: motor_ramp_next_def to_nat_simps unat_sub_u16)
  next
    case False
    with \<open>\<not> (next < target \<and> step < target - next)\<close> show ?thesis
      by (auto simp: motor_ramp_next_def to_nat_simps unat_sub_u16)
  qed
qed

text \<open>The 32-bit product and the 16-bit cut lose nothing for the loop's period.\<close>

lemma motor_ramp_step_unat:
  assumes "unat rate * unat elapsed < 4294967296"
    and "unat rate * unat elapsed div 1000 < 65536" and "elapsed \<noteq> 0"
  shows "unat (motor_ramp_step rate elapsed) = max 1 (unat rate * unat elapsed div 1000)"
proof -
  have p: "unat (rate * elapsed) = unat rate * unat elapsed"
    using assms(1) by (simp add: unat_word_ariths)
  then have q: "unat (rate * elapsed div 1000) = unat rate * unat elapsed div 1000"
    by (simp add: unat_div_distrib)
  show ?thesis
  proof (cases "unat rate * unat elapsed div 1000 = 0")
    case True
    then have "rate * elapsed div 1000 = 0" using q by (metis unat_eq_zero)
    with assms(3) True show ?thesis by (simp add: motor_ramp_step_def)
  next
    case False
    then have "rate * elapsed div 1000 \<noteq> 0" using q by auto
    with q assms(2) False show ?thesis
      by (simp add: motor_ramp_step_def unsigned_ucast_eq take_bit_nat_eq_self_iff)
  qed
qed

lemma motor_ramp_step_loop:
  "unat (motor_ramp_step (ucast (r :: u16)) 10) = max 1 (unat r div 100)"
proof -
  have "unat r < 65536" by (rule unat_u16_bound)
  then have "unat r * 10 div 1000 < 65536" by simp
  moreover have "unat r * 10 div 1000 = unat r div 100" by simp
  ultimately show ?thesis
    using motor_ramp_step_unat [of "ucast r" 10] \<open>unat r < 65536\<close> by simp
qed

section \<open>Every operation keeps the invariant\<close>

lemma motor_set_pwm_eq:
  "d \<le> APP_MOTOR_DUTY_MAX_PERMILLE \<Longrightarrow> motor_set_pwm drv d m =
     (let c = Pwm_set_pulse (motor_pulse d); r = drv (motor_io m) c;
          m' = m\<lparr>motor_io := (c, r) # motor_io m\<rparr>
      in if r < 0 then (r, motor_record_fault drv r m')
         else (0, m'\<lparr>motor_duty_permille := d\<rparr>))"
  by (auto simp: motor_set_pwm_def motor_call_drv_eq Let_def dest: leD)

lemma motor_set_pwm_inv:
  assumes inv: "motor_inv m"
    and st: "motor_state m \<in> {APP_MOTOR_STATE_RUNNING, APP_MOTOR_STATE_STOPPING}"
    and b: "motor_boost_remaining_ms m = 0" and d: "d \<le> APP_MOTOR_DUTY_MAX_PERMILLE"
    and r: "motor_state m = APP_MOTOR_STATE_RUNNING \<longrightarrow> APP_MOTOR_DUTY_MIN_PERMILLE \<le> d"
  shows "motor_inv (snd (motor_set_pwm drv d m))"
proof -
  let ?c = "Pwm_set_pulse (motor_pulse d)"
  let ?m = "m\<lparr>motor_io := (?c, drv (motor_io m) ?c) # motor_io m\<rparr>"
  have "motor_inv (motor_record_fault drv e ?m)" for e
    using inv by (intro motor_record_fault_inv)
      (auto simp: motor_inv_def motor_values_ok_def motor_outputs_ok_def)
  moreover have "motor_inv (?m\<lparr>motor_duty_permille := d\<rparr>)" if ok: "\<not> drv (motor_io m) ?c < 0"
  proof -
    from st have "motor_state m = APP_MOTOR_STATE_RUNNING \<or> motor_state m = APP_MOTOR_STATE_STOPPING"
      by simp
    then show ?thesis
    proof
      assume "motor_state m = APP_MOTOR_STATE_RUNNING"
      with inv b d r ok show ?thesis
        by (simp add: motor_inv_def motor_values_ok_def motor_outputs_ok_def outputs_drive_def)
    next
      assume "motor_state m = APP_MOTOR_STATE_STOPPING"
      with inv b d r ok show ?thesis
        by (simp add: motor_inv_def motor_values_ok_def motor_outputs_ok_def outputs_drive_def)
    qed
  qed
  ultimately show ?thesis
    using d by (simp add: motor_set_pwm_eq Let_def)
qed

lemma motor_ramp_towards_inv:
  assumes inv: "motor_inv m"
    and st: "motor_state m \<in> {APP_MOTOR_STATE_RUNNING, APP_MOTOR_STATE_STOPPING}"
    and b: "motor_boost_remaining_ms m = 0" and t: "target \<le> APP_MOTOR_DUTY_MAX_PERMILLE"
    and r: "motor_state m = APP_MOTOR_STATE_RUNNING \<longrightarrow> APP_MOTOR_DUTY_MIN_PERMILLE \<le> target"
  shows "motor_inv (snd (motor_ramp_towards drv target step m))"
proof -
  have "motor_duty_permille m \<le> APP_MOTOR_DUTY_MAX_PERMILLE"
    and "motor_state m = APP_MOTOR_STATE_RUNNING \<longrightarrow>
           APP_MOTOR_DUTY_MIN_PERMILLE \<le> motor_duty_permille m"
    using inv by (auto simp: motor_inv_def motor_values_ok_def)
  with t r show ?thesis
    unfolding motor_ramp_towards_def
    by (intro motor_set_pwm_inv [OF inv st b]) (auto simp: to_nat_simps motor_ramp_next_unat)
qed

lemma app_motor_fail_inv: "motor_inv m \<Longrightarrow> motor_inv (app_motor_fail drv e m)"
  unfolding app_motor_fail_def
  by (rule motor_record_fault_inv) (auto simp: motor_inv_def motor_outputs_ok_def)

lemma motor_make_safe_bridge:
  assumes "motor_inv m"
  shows "bridge_safe (safe_trace drv (motor_io m))"
    and "\<not> (in1_level (safe_trace drv (motor_io m)) \<noteq> 0 \<and> in2_level (safe_trace drv (motor_io m)) \<noteq> 0)"
  using assms safe_trace_bridge [of "motor_io m" drv]
  by (auto simp: motor_inv_def motor_outputs_ok_def)

text \<open>Making the outputs safe and then either recording a fault or going to \<open>READY\<close> is the common
  ending of initialisation, reset, quick stop and the last step of a ramped stop.\<close>

lemma motor_make_safe_ending:
  assumes "motor_values_ok m" and "bridge_safe (motor_io m)"
    and "\<not> (in1_level (motor_io m) \<noteq> 0 \<and> in2_level (motor_io m) \<noteq> 0)"
  shows "motor_inv (motor_record_fault drv e (snd (motor_make_safe drv m)))"
    and "\<not> fst (motor_make_safe drv m) < 0 \<Longrightarrow>
      motor_inv ((snd (motor_make_safe drv m))\<lparr>motor_direction := d, motor_last_error := 0,
                   motor_state := APP_MOTOR_STATE_READY\<rparr>)"
proof -
  note tr = safe_trace_bridge [OF assms(2,3), of drv]
  show "motor_inv (motor_record_fault drv e (snd (motor_make_safe drv m)))"
    using assms tr safe_trace_bridge [OF tr, of drv]
    by (auto simp: motor_make_safe_state motor_record_fault_eq motor_inv_def motor_values_ok_def
        motor_outputs_ok_def)
  show "motor_inv ((snd (motor_make_safe drv m))\<lparr>motor_direction := d, motor_last_error := 0,
          motor_state := APP_MOTOR_STATE_READY\<rparr>)" if "\<not> fst (motor_make_safe drv m) < 0"
    using assms tr motor_make_safe_off [OF that]
    by (auto simp: motor_make_safe_state motor_inv_def motor_values_ok_def motor_outputs_ok_def
        outputs_off_def)
qed

lemma app_motor_init_inv: "motor_inv m \<Longrightarrow> motor_inv (snd (app_motor_init drv a b c m))"
proof -
  assume inv: "motor_inv m"
  let ?c1 = "Gpio_configure_in1" and ?c2 = "Gpio_configure_in2"
  let ?m1 = "m\<lparr>motor_io := (?c1, drv (motor_io m) ?c1) # motor_io m\<rparr>"
  let ?m2 = "?m1\<lparr>motor_io := (?c2, drv (motor_io ?m1) ?c2) # motor_io ?m1\<rparr>"
  have v: "motor_values_ok ?m1" "motor_values_ok ?m2"
    using inv by (simp_all add: motor_inv_def motor_values_ok_def)
  have t1: "bridge_safe (motor_io ?m1)" "\<not> (in1_level (motor_io ?m1) \<noteq> 0 \<and> in2_level (motor_io ?m1) \<noteq> 0)"
    using inv by (auto simp: motor_inv_def motor_outputs_ok_def)
  then have t2: "bridge_safe (motor_io ?m2)" "\<not> (in1_level (motor_io ?m2) \<noteq> 0 \<and> in2_level (motor_io ?m2) \<noteq> 0)"
    by auto
  note f = motor_record_fault_inv [OF v(1) t1] motor_record_fault_inv [OF v(2) t2]
    motor_make_safe_ending [OF v(2) t2] app_motor_fail_inv [OF inv, unfolded app_motor_fail_def]
  show ?thesis
    using f by (simp add: app_motor_init_def motor_call_drv_eq Let_def case_prod_beta)
qed

lemma motor_inv_parts:
  "motor_inv m \<Longrightarrow> motor_values_ok m"
  "motor_inv m \<Longrightarrow> bridge_safe (motor_io m)"
  "motor_inv m \<Longrightarrow> \<not> (in1_level (motor_io m) \<noteq> 0 \<and> in2_level (motor_io m) \<noteq> 0)"
  by (auto simp: motor_inv_def motor_outputs_ok_def)

lemmas motor_safe_endings = motor_make_safe_ending [OF motor_inv_parts]

lemma app_motor_reset_inv: "motor_inv m \<Longrightarrow> motor_inv (snd (app_motor_reset drv m))"
  using motor_safe_endings [of m] by (simp add: app_motor_reset_def case_prod_beta)

lemma app_motor_quick_stop_inv: "motor_inv m \<Longrightarrow> motor_inv (snd (app_motor_quick_stop drv m))"
proof -
  assume inv: "motor_inv m"
  let ?s = "snd (motor_make_safe drv m)"
  have "?s\<lparr>motor_state := APP_MOTOR_STATE_READY\<rparr> =
      ?s\<lparr>motor_direction := motor_direction m, motor_last_error := 0,
         motor_state := APP_MOTOR_STATE_READY\<rparr>" if "motor_state m \<noteq> APP_MOTOR_STATE_FAULT"
    using inv that by (simp add: motor_make_safe_state motor_inv_def motor_values_ok_def)
  then show ?thesis
    using inv motor_safe_endings [OF inv inv inv] by (simp add: app_motor_quick_stop_def case_prod_beta)
qed

text \<open>Applying the direction from a state with all outputs off.\<close>

lemma motor_apply_direction_ok:
  assumes "outputs_off (motor_io m)" and "bridge_safe (motor_io m)" and "motor_values_ok m"
    and eq: "motor_apply_direction drv m = (ret, m')"
  shows "ret < 0 \<Longrightarrow> motor_inv m'"
    and "\<not> ret < 0 \<Longrightarrow> bridge_safe (motor_io m') \<and> pwm_level (motor_io m') = 0
      \<and> outputs_drive (motor_direction m) d ((Pwm_set_pulse (motor_pulse d), 0) # motor_io m')
      \<and> (\<exists>t. m' = m\<lparr>motor_io := t\<rparr>)"
proof -
  let ?c1 = "Gpio_set_in1 (if motor_direction m = APP_MOTOR_DIRECTION_FORWARD then 1 else 0)"
  let ?c2 = "Gpio_set_in2 (if motor_direction m = APP_MOTOR_DIRECTION_FORWARD then 0 else 1)"
  let ?m1 = "m\<lparr>motor_io := (?c1, drv (motor_io m) ?c1) # motor_io m\<rparr>"
  let ?m2 = "?m1\<lparr>motor_io := (?c2, drv (motor_io ?m1) ?c2) # motor_io ?m1\<rparr>"
  have v: "motor_values_ok ?m1" "motor_values_ok ?m2"
    using assms(3) by (simp_all add: motor_values_ok_def)
  have t1: "bridge_safe (motor_io ?m1)" "\<not> (in1_level (motor_io ?m1) \<noteq> 0 \<and> in2_level (motor_io ?m1) \<noteq> 0)"
    using assms(1,2) by (auto simp: outputs_off_def)
  have t2: "bridge_safe (motor_io ?m2)" "\<not> (in1_level (motor_io ?m2) \<noteq> 0 \<and> in2_level (motor_io ?m2) \<noteq> 0)"
    if "\<not> drv (motor_io m) ?c1 < 0"
    using assms(1,2) that by (auto simp: outputs_off_def)
  note f = motor_record_fault_inv [OF v(1) t1] motor_record_fault_inv [OF v(2) t2]
  show "motor_inv m'" if "ret < 0"
    using eq that f
    by (auto simp: motor_apply_direction_def motor_call_drv_eq Let_def split: if_splits)
  show "bridge_safe (motor_io m') \<and> pwm_level (motor_io m') = 0
      \<and> outputs_drive (motor_direction m) d ((Pwm_set_pulse (motor_pulse d), 0) # motor_io m')
      \<and> (\<exists>t. m' = m\<lparr>motor_io := t\<rparr>)" if "\<not> ret < 0"
    using eq that t2 assms(1)
    by (auto simp: motor_apply_direction_def motor_call_drv_eq Let_def outputs_drive_def
        outputs_off_def split: if_splits)
qed

lemma motor_inv_off:
  "motor_inv m \<Longrightarrow> motor_state m = APP_MOTOR_STATE_READY \<Longrightarrow> outputs_off (motor_io m)"
  by (simp add: motor_inv_def motor_outputs_ok_def)

lemma app_motor_start_inv: "motor_inv m \<Longrightarrow> motor_inv (snd (app_motor_start drv m))"
proof (cases "motor_state m = APP_MOTOR_STATE_READY")
  case True
  assume inv: "motor_inv m"
  obtain r1 m1 where d: "motor_apply_direction drv m = (r1, m1)" by fastforce
  note ap = motor_apply_direction_ok [OF motor_inv_off [OF inv True] motor_inv_parts(2,1) [OF inv] d]
  show ?thesis
  proof (cases "r1 < 0")
    case True
    with ap(1) d \<open>motor_state m = APP_MOTOR_STATE_READY\<close> show ?thesis
      by (simp add: app_motor_start_def)
  next
    case False
    let ?c = "Pwm_set_pulse (motor_pulse MOTOR_START_BOOST_PERMILLE)"
    let ?m2 = "m1\<lparr>motor_io := (?c, drv (motor_io m1) ?c) # motor_io m1\<rparr>"
    from ap(2) [OF False, of MOTOR_START_BOOST_PERMILLE] obtain t where m1: "m1 = m\<lparr>motor_io := t\<rparr>"
      and b: "bridge_safe t"
      and dr: "outputs_drive (motor_direction m) MOTOR_START_BOOST_PERMILLE
                 ((Pwm_set_pulse (motor_pulse MOTOR_START_BOOST_PERMILLE), 0) # t)"
      by auto
    have lv: "\<not> (in1_level t \<noteq> 0 \<and> in2_level t \<noteq> 0)"
      using dr by (simp add: outputs_drive_def)
    have "motor_inv (motor_record_fault drv e ?m2)" for e
      using b lv inv by (intro motor_record_fault_inv) (auto simp: m1 motor_inv_def motor_values_ok_def)
    moreover have "motor_inv (?m2\<lparr>motor_duty_permille := MOTOR_START_BOOST_PERMILLE,
        motor_boost_remaining_ms := MOTOR_START_BOOST_MS, motor_state := APP_MOTOR_STATE_RUNNING\<rparr>)"
      if "\<not> drv (motor_io m1) ?c < 0"
      using b lv inv dr that \<open>motor_state m = APP_MOTOR_STATE_READY\<close>
      by (simp add: m1 motor_inv_def motor_values_ok_def motor_outputs_ok_def outputs_drive_def
          MOTOR_START_BOOST_PERMILLE_def APP_MOTOR_DUTY_MAX_PERMILLE_def
          APP_MOTOR_DUTY_MIN_PERMILLE_def)
    ultimately show ?thesis
      using False d \<open>motor_state m = APP_MOTOR_STATE_READY\<close>
      by (simp add: app_motor_start_def motor_set_pwm_eq MOTOR_START_BOOST_PERMILLE_def
          APP_MOTOR_DUTY_MAX_PERMILLE_def Let_def)
  qed
qed (auto simp: app_motor_start_def)

lemma app_motor_stop_inv: "motor_inv m \<Longrightarrow> motor_inv (snd (app_motor_stop m))"
  by (cases "motor_state m")
    (simp_all add: app_motor_stop_def motor_inv_def motor_values_ok_def motor_outputs_ok_def)

lemma app_motor_toggle_direction_inv: "motor_inv m \<Longrightarrow> motor_inv (snd (app_motor_toggle_direction m))"
  by (cases "motor_state m")
    (simp_all add: app_motor_toggle_direction_def motor_inv_def motor_values_ok_def motor_outputs_ok_def)

lemma app_motor_set_direction_inv: "motor_inv m \<Longrightarrow> motor_inv (snd (app_motor_set_direction d m))"
  by (cases "motor_state m")
    (simp_all add: app_motor_set_direction_def motor_inv_def motor_values_ok_def motor_outputs_ok_def)

lemma app_motor_set_target_duty_inv: "motor_inv m \<Longrightarrow> motor_inv (snd (app_motor_set_target_duty d m))"
  by (simp add: app_motor_set_target_duty_def motor_inv_def motor_values_ok_def motor_outputs_ok_def
      not_less)

lemma app_motor_set_ramps_inv: "motor_inv m \<Longrightarrow> motor_inv (snd (app_motor_set_ramps a d m))"
  by (simp add: app_motor_set_ramps_def motor_inv_def motor_values_ok_def motor_outputs_ok_def)

lemma app_motor_restore_default_ramps_inv:
  "motor_inv m \<Longrightarrow> motor_inv (app_motor_restore_default_ramps m)"
  by (simp add: app_motor_restore_default_ramps_def motor_inv_def motor_values_ok_def
      motor_outputs_ok_def c_def)

lemma motor_ramp_towards_state:
  "motor_state (snd (motor_ramp_towards drv t s m)) \<in> {motor_state m, APP_MOTOR_STATE_FAULT}"
  "fst (motor_ramp_towards drv t s m) < 0 \<or> motor_state (snd (motor_ramp_towards drv t s m)) = motor_state m"
  by (auto simp: motor_ramp_towards_def motor_set_pwm_def motor_call_drv_eq Let_def)

lemma app_motor_process_inv: "motor_inv m \<Longrightarrow> motor_inv (snd (app_motor_process drv e m))"
proof -
  assume inv: "motor_inv m"
  note v = inv [unfolded motor_inv_def motor_values_ok_def]
  consider (run) "motor_state m = APP_MOTOR_STATE_RUNNING"
    | (stopping) "motor_state m = APP_MOTOR_STATE_STOPPING"
    | (other) "motor_state m \<noteq> APP_MOTOR_STATE_RUNNING" "motor_state m \<noteq> APP_MOTOR_STATE_STOPPING"
    by auto
  then show ?thesis
  proof cases
    case run
    show ?thesis
    proof (cases "motor_boost_remaining_ms m = 0")
      case True
      with run v show ?thesis
        by (simp add: app_motor_process_def Let_def motor_ramp_towards_inv [OF inv])
    next
      case False
      have "motor_boost_remaining_ms m - e \<le> MOTOR_START_BOOST_MS" if "e < motor_boost_remaining_ms m"
        using v that by (metis order.strict_implies_order order.trans word_sub_le)
      moreover have "motor_inv (m\<lparr>motor_boost_remaining_ms := b\<rparr>)"
        if "b \<le> MOTOR_START_BOOST_MS" for b
        using inv run False v that by (simp add: motor_inv_def motor_values_ok_def motor_outputs_ok_def)
      ultimately show ?thesis
        using False run by (simp add: app_motor_process_def not_le)
    qed
  next
    case stopping
    obtain r m1 where s: "motor_ramp_towards drv 0
        (motor_ramp_step (ucast (motor_stop_ramp_permille_per_second m)) e) m = (r, m1)" by fastforce
    have inv1: "motor_inv m1"
      using motor_ramp_towards_inv [OF inv, where target = 0 and drv = drv
        and step = "motor_ramp_step (ucast (motor_stop_ramp_permille_per_second m)) e"] s stopping v
      by (simp add: c_def)
    have st1: "r < 0 \<or> motor_state m1 = APP_MOTOR_STATE_STOPPING"
      using motor_ramp_towards_state(2) [of drv 0 _ m] s stopping by (metis fst_conv snd_conv)
    let ?s = "snd (motor_make_safe drv m1)"
    have "?s\<lparr>motor_state := APP_MOTOR_STATE_READY\<rparr> =
        ?s\<lparr>motor_direction := motor_direction m1, motor_last_error := 0,
           motor_state := APP_MOTOR_STATE_READY\<rparr>" if "\<not> r < 0"
      using inv1 st1 that by (simp add: motor_make_safe_state motor_inv_def motor_values_ok_def)
    then show ?thesis
      using inv1 motor_safe_endings [OF inv1 inv1 inv1] s stopping
      by (simp add: app_motor_process_def Let_def case_prod_beta)
  next
    case other
    with inv show ?thesis by (simp add: app_motor_process_def)
  qed
qed

lemma motor_step_inv: "motor_inv m \<Longrightarrow> motor_inv (motor_step drv x m)"
  by (cases x) (simp_all add: app_motor_init_inv app_motor_start_inv app_motor_stop_inv
      app_motor_toggle_direction_inv app_motor_set_direction_inv app_motor_reset_inv
      app_motor_quick_stop_inv app_motor_set_target_duty_inv app_motor_set_ramps_inv
      app_motor_restore_default_ramps_inv app_motor_process_inv app_motor_fail_inv)

lemma motor_run_inv: "motor_inv m \<Longrightarrow> motor_inv (motor_run drv xs m)"
  by (induction xs arbitrary: m) (simp_all add: motor_step_inv)

lemma motor_run_append: "motor_run drv (xs @ ys) m = motor_run drv ys (motor_run drv xs m)"
  by (induction xs arbitrary: m) simp_all

lemma motor_boot_inv: "motor_inv motor_boot"
  by (simp add: motor_boot_def motor_inv_def motor_values_ok_def motor_outputs_ok_def
      outputs_off_def c_def)

section \<open>Behaviour over time\<close>

text \<open>A driver that never fails.\<close>

definition drv_ok :: "motor_drv \<Rightarrow> bool" where
  "drv_ok drv \<longleftrightarrow> (\<forall>t c. \<not> drv t c < 0)"

lemma drv_okD [simp]: "drv_ok drv \<Longrightarrow> \<not> drv t c < 0" "drv_ok drv \<Longrightarrow> 0 \<le> drv t c"
  by (auto simp: drv_ok_def not_less)

lemma motor_set_pwm_drv_ok:
  "drv_ok drv \<Longrightarrow> d \<le> APP_MOTOR_DUTY_MAX_PERMILLE \<Longrightarrow>
     \<exists>t. motor_set_pwm drv d m = (0, m\<lparr>motor_duty_permille := d, motor_io := t\<rparr>)"
  by (rule exI [where x = "(Pwm_set_pulse (motor_pulse d),
        drv (motor_io m) (Pwm_set_pulse (motor_pulse d))) # motor_io m"])
    (simp add: motor_set_pwm_eq Let_def)

lemma motor_make_safe_drv_ok: "drv_ok drv \<Longrightarrow> fst (motor_make_safe drv m) = 0"
  by (simp add: motor_make_safe_def motor_call_drv_eq Let_def)

text \<open>One period of a ramped stop.\<close>

lemma motor_process_stopping:
  assumes ok: "drv_ok drv" and st: "motor_state m = APP_MOTOR_STATE_STOPPING"
    and d: "motor_duty_permille m \<le> APP_MOTOR_DUTY_MAX_PERMILLE"
    and s: "s = max 1 (unat (motor_stop_ramp_permille_per_second m) div 100)"
  shows "unat (motor_duty_permille (snd (app_motor_process drv 10 m)))
           = unat (motor_duty_permille m) - s"
    and "motor_state (snd (app_motor_process drv 10 m)) =
           (if unat (motor_duty_permille m) \<le> s then APP_MOTOR_STATE_READY
            else APP_MOTOR_STATE_STOPPING)"
    and "motor_stop_ramp_permille_per_second (snd (app_motor_process drv 10 m)) =
           motor_stop_ramp_permille_per_second m"
    and "fst (app_motor_process drv 10 m) = 0"
proof -
  let ?step = "motor_ramp_step (ucast (motor_stop_ramp_permille_per_second m)) 10"
  define nx where "nx = motor_ramp_next (motor_duty_permille m) 0 ?step"
  have n: "unat nx = unat (motor_duty_permille m) - s"
    by (simp add: nx_def motor_ramp_next_unat motor_ramp_step_loop s)
  then have "nx \<le> APP_MOTOR_DUTY_MAX_PERMILLE" using d by (simp add: to_nat_simps)
  from motor_set_pwm_drv_ok [OF ok this, of m] obtain t
    where p: "motor_set_pwm drv nx m = (0, m\<lparr>motor_duty_permille := nx, motor_io := t\<rparr>)"
    by blast
  have z: "nx = 0 \<longleftrightarrow> unat (motor_duty_permille m) \<le> s"
    using n by (metis diff_is_0_eq unat_eq_zero)
  have z': "unat nx = 0 \<longleftrightarrow> nx = 0" by (simp add: unat_eq_zero)
  note defs = app_motor_process_def motor_ramp_towards_def Let_def case_prod_beta nx_def [symmetric] p st
    motor_make_safe_drv_ok [OF ok] motor_make_safe_state
  show "unat (motor_duty_permille (snd (app_motor_process drv 10 m)))
           = unat (motor_duty_permille m) - s"
    using n z z' by (simp add: defs)
  show "motor_state (snd (app_motor_process drv 10 m)) =
           (if unat (motor_duty_permille m) \<le> s then APP_MOTOR_STATE_READY
            else APP_MOTOR_STATE_STOPPING)"
    using z by (simp add: defs)
  show "motor_stop_ramp_permille_per_second (snd (app_motor_process drv 10 m)) =
           motor_stop_ramp_permille_per_second m"
    using p by (cases "nx = 0") (simp_all add: defs)
  show "fst (app_motor_process drv 10 m) = 0"
    using p by (cases "nx = 0") (simp_all add: defs)
qed

lemma motor_run_ready:
  "motor_state m = APP_MOTOR_STATE_READY \<Longrightarrow> motor_run drv (replicate n (Motor_process e)) m = m"
  by (induction n) (simp_all add: app_motor_process_def)

lemma motor_run_stopping:
  assumes "drv_ok drv" and "motor_state m = APP_MOTOR_STATE_STOPPING"
    and "motor_duty_permille m \<le> APP_MOTOR_DUTY_MAX_PERMILLE"
    and "s = max 1 (unat (motor_stop_ramp_permille_per_second m) div 100)"
    and "unat (motor_duty_permille m) \<le> n * s" and "0 < n"
  shows "motor_state (motor_run drv (replicate n (Motor_process 10)) m) = APP_MOTOR_STATE_READY"
  using assms
proof (induction n arbitrary: m)
  case 0
  then show ?case by simp
next
  case (Suc n)
  let ?m = "snd (app_motor_process drv 10 m)"
  note step = motor_process_stopping [OF Suc.prems(1-4)]
  show ?case
  proof (cases "unat (motor_duty_permille m) \<le> s")
    case True
    with step(2) have "motor_state ?m = APP_MOTOR_STATE_READY" by simp
    then show ?thesis by (simp add: motor_run_ready)
  next
    case False
    with Suc.prems(5) have n: "0 < n" by (cases n) auto
    have "unat (motor_duty_permille ?m) \<le> n * s"
      using step(1) Suc.prems(5) by simp
    moreover have "motor_duty_permille ?m \<le> APP_MOTOR_DUTY_MAX_PERMILLE"
      using step(1) Suc.prems(3) by (simp add: to_nat_simps)
    ultimately have "motor_state (motor_run drv (replicate n (Motor_process 10)) ?m)
        = APP_MOTOR_STATE_READY"
      using step False n Suc.prems(1,4) by (intro Suc.IH) simp_all
    then show ?thesis by simp
  qed
qed

section \<open>Properties\<close>

text \<open>C13. From the boot values of the static variables, whatever sequence of controller operations
  runs and whatever the GPIO and PWM drivers answer, the controller's invariant holds: ranges of duty,
  target, boost and ramps, an error code exactly in \<open>FAULT\<close>, outputs off in \<open>DISABLED\<close> and \<open>READY\<close>,
  and outputs that match the recorded direction and duty in \<open>RUNNING\<close> and \<open>STOPPING\<close>.\<close>

theorem motor_reachable_inv: "motor_inv (motor_run drv ops motor_boot)"
  by (rule motor_run_inv [OF motor_boot_inv])

text \<open>The two bridge inputs are never driven high together, at any point of any run, even when
  driver calls fail half-way through a direction change or an emergency shutdown.\<close>

theorem motor_no_shoot_through: "bridge_safe (motor_io (motor_run drv ops motor_boot))"
  using motor_run_inv [OF motor_boot_inv, of drv ops] by (rule motor_inv_parts(2))

text \<open>C14. A stop command always brings a running motor to rest: with working drivers, after
  \<open>n\<close> control periods of 10 ms, where \<open>n\<close> times the stop ramp's step covers the current duty, the
  controller is in \<open>READY\<close> with PWM and bridge inputs off. With the default ramp (40 permille per
  period) 25 periods, i.e. 250 ms, are enough from full duty; with any ramp, 1000 periods are.\<close>

theorem motor_stop_reaches_ready:
  assumes "motor_inv m" and "motor_state m = APP_MOTOR_STATE_RUNNING" and "drv_ok drv"
    and "unat (motor_duty_permille m)
           \<le> n * max 1 (unat (motor_stop_ramp_permille_per_second m) div 100)" and "0 < n"
  shows "motor_state (motor_run drv (Motor_stop # replicate n (Motor_process 10)) m)
           = APP_MOTOR_STATE_READY
    \<and> outputs_off (motor_io (motor_run drv (Motor_stop # replicate n (Motor_process 10)) m))"
proof -
  let ?m = "snd (app_motor_stop m)"
  let ?r = "motor_run drv (Motor_stop # replicate n (Motor_process 10)) m"
  have s: "motor_state ?m = APP_MOTOR_STATE_STOPPING"
    "motor_duty_permille ?m = motor_duty_permille m"
    "motor_stop_ramp_permille_per_second ?m = motor_stop_ramp_permille_per_second m"
    using assms(2) by (simp_all add: app_motor_stop_def)
  have "motor_duty_permille ?m \<le> APP_MOTOR_DUTY_MAX_PERMILLE"
    using assms(1) s by (simp add: motor_inv_def motor_values_ok_def)
  with assms s have "motor_state ?r = APP_MOTOR_STATE_READY"
    using motor_run_stopping [OF assms(3) s(1) _ refl, of n] by simp
  moreover have "motor_inv ?r" by (rule motor_run_inv [OF assms(1)])
  ultimately show ?thesis by (simp add: motor_inv_off)
qed

text \<open>A driver that always answers 0, for concrete runs.\<close>

definition drv_zero :: motor_drv where
  "drv_zero t c = 0"

lemma drv_zero_ok: "drv_ok drv_zero"
  by (simp add: drv_ok_def drv_zero_def)

definition motor_ready0 :: motor where
  "motor_ready0 = motor_run drv_zero [Motor_init True True True] motor_boot"

definition motor_running0 :: motor where
  "motor_running0 = motor_run drv_zero [Motor_start] motor_ready0"

lemma motor_ready0_inv: "motor_inv motor_ready0"
  unfolding motor_ready0_def by (rule motor_run_inv [OF motor_boot_inv])

lemma motor_running0_inv: "motor_inv motor_running0"
  unfolding motor_running0_def by (rule motor_run_inv [OF motor_ready0_inv])

lemmas motor_op_defs = app_motor_init_def app_motor_start_def app_motor_stop_def
  app_motor_toggle_direction_def app_motor_set_direction_def app_motor_reset_def
  app_motor_quick_stop_def app_motor_set_target_duty_def app_motor_set_ramps_def
  app_motor_restore_default_ramps_def app_motor_process_def app_motor_fail_def

lemmas motor_prim_defs = motor_call_drv_def motor_make_safe_def motor_record_fault_def
  motor_set_pwm_def motor_apply_direction_def motor_ramp_towards_def motor_ramp_step_def
  motor_ramp_next_def motor_pulse_def

lemma motor_ready0_fields [simp]:
  "motor_state motor_ready0 = APP_MOTOR_STATE_READY"
  "motor_direction motor_ready0 = APP_MOTOR_DIRECTION_FORWARD"
  "motor_target_duty_permille motor_ready0 = 800"
  "motor_run_ramp_permille_per_second motor_ready0 = 1000"
  "motor_stop_ramp_permille_per_second motor_ready0 = 4000"
  by (simp_all add: motor_ready0_def motor_boot_def motor_op_defs motor_prim_defs drv_zero_def c_def)

lemma motor_running0_fields [simp]:
  "motor_state motor_running0 = APP_MOTOR_STATE_RUNNING"
  "motor_duty_permille motor_running0 = 1000"
  "motor_stop_ramp_permille_per_second motor_running0 = 4000"
  by (simp_all add: motor_running0_def motor_ready0_def motor_boot_def motor_op_defs
      motor_prim_defs drv_zero_def c_def)

theorem motor_stop_reaches_ready_witness:
  "motor_state (motor_run drv_zero (Motor_stop # replicate 25 (Motor_process 10)) motor_running0)
     = APP_MOTOR_STATE_READY"
  using motor_stop_reaches_ready [OF motor_running0_inv _ drv_zero_ok, of 25] by simp

text \<open>The boost and the run-up: one period in each phase.\<close>

lemma motor_process_boost:
  assumes "motor_state m = APP_MOTOR_STATE_RUNNING" and "unat (motor_boost_remaining_ms m) = 10 * Suc k"
  shows "snd (app_motor_process drv 10 m) = m\<lparr>motor_boost_remaining_ms := of_nat (10 * k)\<rparr>"
proof -
  have b: "motor_boost_remaining_ms m = of_nat (10 * Suc k)"
    using assms(2) by (metis of_nat_unat ucast_id)
  have nz: "motor_boost_remaining_ms m \<noteq> 0" using assms(2) by auto
  show ?thesis
  proof (cases k)
    case 0
    with assms b show ?thesis by (simp add: app_motor_process_def)
  next
    case (Suc j)
    then have "\<not> motor_boost_remaining_ms m \<le> 10"
      using assms(2) by (simp add: to_nat_simps)
    moreover have "motor_boost_remaining_ms m - 10 = of_nat (10 * k)"
      using b by simp
    ultimately show ?thesis using assms nz by (simp add: app_motor_process_def)
  qed
qed

lemma motor_run_boost:
  assumes "motor_state m = APP_MOTOR_STATE_RUNNING" and "unat (motor_boost_remaining_ms m) = 10 * k"
    and "n \<le> k"
  shows "motor_run drv (replicate n (Motor_process 10)) m
           = m\<lparr>motor_boost_remaining_ms := of_nat (10 * (k - n))\<rparr>"
  using assms
proof (induction n arbitrary: m k)
  case 0
  then have "motor_boost_remaining_ms m = of_nat (10 * k)" by (metis of_nat_unat ucast_id)
  then show ?case by simp
next
  case (Suc n)
  then obtain j where k: "k = Suc j" by (cases k) auto
  have lt: "10 * j < 2 ^ 32"
    using Suc.prems(2) unat_u32_bound [of "motor_boost_remaining_ms m"] k by simp
  let ?m = "m\<lparr>motor_boost_remaining_ms := of_nat (10 * j)\<rparr>"
  have "unat (motor_boost_remaining_ms ?m) = 10 * j"
    using lt by (simp add: unat_of_nat del: of_nat_mult)
  with Suc.prems Suc.IH [of ?m j] k show ?case
    by (simp add: motor_process_boost [of m j] del: of_nat_mult)
qed

lemma motor_process_run:
  assumes ok: "drv_ok drv" and "motor_state m = APP_MOTOR_STATE_RUNNING"
    and "motor_boost_remaining_ms m = 0"
    and "motor_duty_permille m \<le> APP_MOTOR_DUTY_MAX_PERMILLE"
    and "motor_target_duty_permille m \<le> motor_duty_permille m"
    and s: "s = max 1 (unat (motor_run_ramp_permille_per_second m) div 100)"
  obtains d t where "snd (app_motor_process drv 10 m) = m\<lparr>motor_duty_permille := d, motor_io := t\<rparr>"
    and "unat d = max (unat (motor_target_duty_permille m)) (unat (motor_duty_permille m) - s)"
proof -
  let ?d = "motor_ramp_next (motor_duty_permille m) (motor_target_duty_permille m)
              (motor_ramp_step (ucast (motor_run_ramp_permille_per_second m)) 10)"
  have d: "unat ?d = max (unat (motor_target_duty_permille m)) (unat (motor_duty_permille m) - s)"
    using assms(5) by (simp add: motor_ramp_next_unat motor_ramp_step_loop s to_nat_simps)
  then have "?d \<le> APP_MOTOR_DUTY_MAX_PERMILLE"
    using assms(4,5) by (simp add: to_nat_simps)
  from motor_set_pwm_drv_ok [OF ok this, of m] obtain t
    where "motor_set_pwm drv ?d m = (0, m\<lparr>motor_duty_permille := ?d, motor_io := t\<rparr>)" by blast
  then have "snd (app_motor_process drv 10 m) = m\<lparr>motor_duty_permille := ?d, motor_io := t\<rparr>"
    using assms by (simp add: app_motor_process_def motor_ramp_towards_def)
  from that [OF this d] show ?thesis .
qed

lemma max_sub_max: "max t (max t (d - s) - k) = max (t :: nat) (d - (s + k))"
  by arith

lemma motor_run_ramp:
  assumes "drv_ok drv" and "motor_state m = APP_MOTOR_STATE_RUNNING"
    and "motor_boost_remaining_ms m = 0"
    and "motor_duty_permille m \<le> APP_MOTOR_DUTY_MAX_PERMILLE"
    and "motor_target_duty_permille m \<le> motor_duty_permille m"
    and "s = max 1 (unat (motor_run_ramp_permille_per_second m) div 100)"
  shows "motor_state (motor_run drv (replicate n (Motor_process 10)) m) = APP_MOTOR_STATE_RUNNING
    \<and> unat (motor_duty_permille (motor_run drv (replicate n (Motor_process 10)) m))
        = max (unat (motor_target_duty_permille m)) (unat (motor_duty_permille m) - n * s)"
  using assms
proof (induction n arbitrary: m)
  case 0
  then show ?case by (simp add: to_nat_simps)
next
  case (Suc n)
  from motor_process_run [OF Suc.prems] obtain d t
    where p: "snd (app_motor_process drv 10 m) = m\<lparr>motor_duty_permille := d, motor_io := t\<rparr>"
      and d: "unat d = max (unat (motor_target_duty_permille m)) (unat (motor_duty_permille m) - s)" .
  have "d \<le> APP_MOTOR_DUTY_MAX_PERMILLE" "motor_target_duty_permille m \<le> d"
    using d Suc.prems(4,5) by (simp_all add: to_nat_simps)
  with Suc.prems Suc.IH [of "m\<lparr>motor_duty_permille := d, motor_io := t\<rparr>"]
  show ?case by (simp add: p d max_sub_max)
qed

text \<open>C28. Starting from \<open>READY\<close> with working drivers, the duty follows the start profile: 1000 permille
  for 25 control periods (the 250 ms boost), then down to the target at the run ramp's step per
  period, never below it; the controller stays \<open>RUNNING\<close> throughout.\<close>

theorem motor_start_profile:
  assumes "motor_inv m" and "motor_state m = APP_MOTOR_STATE_READY" and "drv_ok drv"
  shows "motor_state (motor_run drv (Motor_start # replicate n (Motor_process 10)) m)
           = APP_MOTOR_STATE_RUNNING
    \<and> unat (motor_duty_permille (motor_run drv (Motor_start # replicate n (Motor_process 10)) m))
        = (if n \<le> 25 then 1000
           else max (unat (motor_target_duty_permille m))
                  (1000 - (n - 25) * max 1 (unat (motor_run_ramp_permille_per_second m) div 100)))"
proof -
  let ?m = "snd (app_motor_start drv m)"
  obtain t where m: "?m = m\<lparr>motor_io := t, motor_duty_permille := 1000,
      motor_boost_remaining_ms := 250, motor_state := APP_MOTOR_STATE_RUNNING\<rparr>"
    using assms(2,3) by (simp add: app_motor_start_def motor_apply_direction_def motor_call_drv_eq
        motor_set_pwm_eq Let_def c_def)
  have b: "motor_run drv (replicate k (Motor_process 10)) ?m =
      ?m\<lparr>motor_boost_remaining_ms := of_nat (10 * (25 - k))\<rparr>" if "k \<le> 25" for k
    using that by (intro motor_run_boost) (simp_all add: m)
  show ?thesis
  proof (cases "n \<le> 25")
    case True
    then show ?thesis using b [of n] by (simp add: m)
  next
    case False
    let ?n = "n - 25"
    let ?b = "?m\<lparr>motor_boost_remaining_ms := 0\<rparr>"
    have n: "replicate n (Motor_process 10) = replicate 25 (Motor_process 10) @ replicate ?n (Motor_process 10)"
      using False by (metis le_add_diff_inverse nat_le_linear replicate_add)
    have "motor_run drv (replicate n (Motor_process 10)) ?m = motor_run drv (replicate ?n (Motor_process 10)) ?b"
      unfolding n motor_run_append using b [of 25] by simp
    moreover have "motor_target_duty_permille m \<le> 1000"
      using assms(1) by (simp add: motor_inv_def motor_values_ok_def c_def)
    ultimately show ?thesis
      using False motor_run_ramp [OF assms(3), of ?b _ ?n] by (simp add: m c_def)
  qed
qed

theorem motor_start_profile_witness:
  "motor_state (motor_run drv_zero (Motor_start # replicate 30 (Motor_process 10)) motor_ready0)
     = APP_MOTOR_STATE_RUNNING
   \<and> unat (motor_duty_permille
        (motor_run drv_zero (Motor_start # replicate 30 (Motor_process 10)) motor_ready0)) = 950"
  using motor_start_profile [OF motor_ready0_inv _ drv_zero_ok, of 30] by simp

text \<open>The operations that may leave \<open>FAULT\<close>.\<close>

fun motor_op_recovers :: "motor_op \<Rightarrow> bool" where
  "motor_op_recovers Motor_reset = True"
| "motor_op_recovers (Motor_init _ _ _) = True"
| "motor_op_recovers _ = False"

text \<open>A fault is final until a reset or a new initialisation: no other operation leaves \<open>FAULT\<close>,
  and apart from recording a further fault none of them even touches the drivers.\<close>

theorem motor_fault_sticky:
  assumes "motor_state m = APP_MOTOR_STATE_FAULT"
    and "\<not> motor_op_recovers x"
  shows "motor_state (motor_step drv x m) = APP_MOTOR_STATE_FAULT
    \<and> ((\<forall>e. x \<noteq> Motor_fail e) \<longrightarrow> motor_io (motor_step drv x m) = motor_io m)"
  using assms by (cases x) (simp_all add: motor_op_defs)

theorem motor_fault_sticky_witness:
  "motor_state (motor_step drv_zero Motor_start (app_motor_fail drv_zero (- EIO) motor_running0))
     = APP_MOTOR_STATE_FAULT"
  using motor_fault_sticky [of "app_motor_fail drv_zero (- EIO) motor_running0" Motor_start drv_zero]
  by (simp add: app_motor_fail_def)

text \<open>The recorded direction changes only with the motor at rest: an operation after which the
  direction differs ends in \<open>READY\<close> with PWM and both bridge inputs off. Only \<open>app_motor_start\<close> ever
  enters \<open>RUNNING\<close>, and only from \<open>READY\<close>.\<close>

theorem motor_direction_at_rest:
  assumes "motor_inv m"
  shows "(motor_direction (motor_step drv x m) \<noteq> motor_direction m \<longrightarrow>
            motor_state (motor_step drv x m) = APP_MOTOR_STATE_READY
            \<and> outputs_off (motor_io (motor_step drv x m)))
    \<and> (motor_state (motor_step drv x m) = APP_MOTOR_STATE_RUNNING
         \<and> motor_state m \<noteq> APP_MOTOR_STATE_RUNNING \<longrightarrow>
         x = Motor_start \<and> motor_state m = APP_MOTOR_STATE_READY)"
proof -
  have inv: "motor_inv (motor_step drv x m)" by (rule motor_step_inv [OF assms])
  have "motor_direction (motor_step drv x m) \<noteq> motor_direction m \<Longrightarrow>
      motor_state (motor_step drv x m) = APP_MOTOR_STATE_READY"
    by (cases x) (auto simp: motor_op_defs motor_ramp_towards_def motor_set_pwm_def
        motor_apply_direction_def motor_drv_eqs motor_make_safe_state case_prod_beta split: if_splits)
  moreover have "motor_state (motor_step drv x m) = APP_MOTOR_STATE_RUNNING
         \<and> motor_state m \<noteq> APP_MOTOR_STATE_RUNNING \<longrightarrow>
         x = Motor_start \<and> motor_state m = APP_MOTOR_STATE_READY"
    by (cases x) (auto simp: motor_op_defs motor_ramp_towards_def motor_set_pwm_def
        motor_apply_direction_def motor_drv_eqs motor_make_safe_state case_prod_beta split: if_splits)
  ultimately show ?thesis using motor_inv_off [OF inv] by blast
qed

theorem motor_direction_at_rest_witness:
  "motor_inv motor_ready0
   \<and> motor_direction (motor_step drv_zero Motor_toggle_direction motor_ready0)
       \<noteq> motor_direction motor_ready0
   \<and> outputs_off (motor_io (motor_step drv_zero Motor_toggle_direction motor_ready0))"
  using motor_direction_at_rest [OF motor_ready0_inv, of drv_zero Motor_toggle_direction]
  by (simp add: motor_ready0_inv app_motor_toggle_direction_def)

end
