(* ===== verification/M4_Ipc.thy ===== *)
theory M4_Ipc
  imports Ipc_Protocol Motor_Control
begin

unbundle bit_operations_syntax

text \<open>
  The Cortex-M4 side of the inter-core link, \<open>app_m4/src/app_ipc.c\<close>: the endpoint callbacks, the
  validation of command messages, their application to the motor controller, the remote timeout, the
  STOP latch and the state messages.

  The record \<open>m4_ipc\<close> holds the module's static variables. A received buffer is a byte list whose
  length is \<open>len\<close>. Times are arguments: the value \<open>k_uptime_get_32\<close> returns at each place that calls
  it. A message handed to \<open>ipc_service_send\<close> is returned as \<open>Some\<close> bytes; the driver's answer is an
  argument. \<open>command_lock\<close> makes each access to the pending command atomic, so a callback is one step.
\<close>

section \<open>State\<close>

record m4_ipc =
  m4_endpoint_bound :: bool
  m4_endpoint_initialized :: bool
  m4_pending_ping :: bool
  m4_pending_sequence :: u32
  m4_pending_command :: app_motor_command_message
  m4_command_pending :: bool
  m4_remote_mode :: bool
  m4_remote_timed_out :: bool
  m4_remote_stop_latched :: bool
  m4_remote_timeout_ms :: u16
  m4_last_accepted_sequence :: u16
  m4_remote_command_timestamp_ms :: u32
  m4_state_sequence :: u32
  m4_state_heartbeat :: u16

definition frame_zero :: app_ipc_frame where
  "frame_zero = \<lparr>frame_magic = 0, frame_version = 0, frame_type = 0, frame_sequence = 0,
     frame_payload_length = 0\<rparr>"

definition m4_ipc_boot :: m4_ipc where
  "m4_ipc_boot = \<lparr>m4_endpoint_bound = False, m4_endpoint_initialized = False, m4_pending_ping = False,
     m4_pending_sequence = 0,
     m4_pending_command = \<lparr>command_header = frame_zero, command_words = replicate 10 0\<rparr>,
     m4_command_pending = False, m4_remote_mode = False, m4_remote_timed_out = False,
     m4_remote_stop_latched = False, m4_remote_timeout_ms = 0, m4_last_accepted_sequence = 0,
     m4_remote_command_timestamp_ms = 0, m4_state_sequence = 0, m4_state_heartbeat = 0\<rparr>"

section \<open>Frames and commands\<close>

definition frame_init_m4 :: "u16 \<Rightarrow> u32 \<Rightarrow> u32 \<Rightarrow> app_ipc_frame" where
  "frame_init_m4 type_code sequence len_value =
     \<lparr>frame_magic = APP_IPC_FRAME_MAGIC, frame_version = APP_IPC_FRAME_VERSION, frame_type = type_code,
      frame_sequence = sequence, frame_payload_length = len_value\<rparr>"

definition frame_is_valid_m4 :: "app_ipc_frame \<Rightarrow> nat \<Rightarrow> u16 \<Rightarrow> bool" where
  "frame_is_valid_m4 frame len type_code \<longleftrightarrow>
     sizeof_frame \<le> len
     \<and> frame_magic frame = APP_IPC_FRAME_MAGIC
     \<and> frame_version frame = APP_IPC_FRAME_VERSION
     \<and> frame_type frame = type_code"

definition command_is_valid :: "app_motor_command_message \<Rightarrow> nat \<Rightarrow> bool" where
  "command_is_valid message len \<longleftrightarrow>
     (let frame = command_header message
      in if \<not> frame_is_valid_m4 frame len APP_IPC_FRAME_MOTOR_COMMAND
            \<or> len \<noteq> sizeof_command
            \<or> frame_payload_length frame \<noteq> of_nat (APP_MOTOR_COMMAND_WORD_COUNT * 2)
         then False
         else
           let control = command_words message ! APP_MOTOR_COMMAND_CONTROL;
               duty = command_words message ! APP_MOTOR_COMMAND_DUTY_PERMILLE;
               accel = command_words message ! APP_MOTOR_COMMAND_ACCEL_RAMP;
               decel = command_words message ! APP_MOTOR_COMMAND_DECEL_RAMP;
               mode = command_words message ! APP_MOTOR_COMMAND_MODE;
               timeout = command_words message ! APP_MOTOR_COMMAND_TIMEOUT_MS;
               sequence = command_words message ! APP_MOTOR_COMMAND_SEQUENCE
           in control AND NOT (APP_MOTOR_COMMAND_ENABLE OR APP_MOTOR_COMMAND_RUN
                OR APP_MOTOR_COMMAND_DIRECTION_REVERSE OR APP_MOTOR_COMMAND_RESET_FAULT
                OR APP_MOTOR_COMMAND_QUICK_STOP) = 0
              \<and> APP_MOTOR_DUTY_MIN_PERMILLE \<le> duty
              \<and> duty \<le> APP_MOTOR_DUTY_MAX_PERMILLE
              \<and> APP_MOTOR_COMMAND_ACCEL_MIN_PERMILLE_PER_SECOND \<le> accel
              \<and> accel \<le> APP_MOTOR_COMMAND_ACCEL_MAX_PERMILLE_PER_SECOND
              \<and> APP_MOTOR_COMMAND_ACCEL_MIN_PERMILLE_PER_SECOND \<le> decel
              \<and> decel \<le> APP_MOTOR_COMMAND_ACCEL_MAX_PERMILLE_PER_SECOND
              \<and> APP_MOTOR_COMMAND_TIMEOUT_MIN_MS \<le> timeout
              \<and> timeout \<le> APP_MOTOR_COMMAND_TIMEOUT_MAX_MS
              \<and> command_words message ! APP_MOTOR_COMMAND_RESERVED_0 = 0
              \<and> command_words message ! APP_MOTOR_COMMAND_RESERVED_1 = 0
              \<and> command_words message ! APP_MOTOR_COMMAND_RESERVED_2 = 0
              \<and> sequence = ucast (frame_sequence frame)
              \<and> (mode = 0
                 \<or> mode = APP_MOTOR_COMMAND_MODE_REMOTE
                     OR APP_MOTOR_COMMAND_MODE_SOURCE APP_MOTOR_COMMAND_SOURCE_SHELL
                 \<or> mode = APP_MOTOR_COMMAND_MODE_REMOTE
                     OR APP_MOTOR_COMMAND_MODE_SOURCE APP_MOTOR_COMMAND_SOURCE_MODBUS))"

section \<open>Endpoint callbacks\<close>

definition endpoint_bound_callback_m4 :: "m4_ipc \<Rightarrow> m4_ipc" where
  "endpoint_bound_callback_m4 s = s\<lparr>m4_endpoint_bound := True\<rparr>"

definition endpoint_unbound_callback_m4 :: "m4_ipc \<Rightarrow> m4_ipc" where
  "endpoint_unbound_callback_m4 s = s\<lparr>m4_endpoint_bound := False\<rparr>"

definition endpoint_received_m4 :: "u8 list \<Rightarrow> m4_ipc \<Rightarrow> m4_ipc" where
  "endpoint_received_m4 data s =
     (let frame = frame_of data; len = length data
      in if len < sizeof_frame
            \<or> frame_magic frame \<noteq> APP_IPC_FRAME_MAGIC
            \<or> frame_version frame \<noteq> APP_IPC_FRAME_VERSION
         then s
         else if frame_type frame = APP_IPC_FRAME_PING
         then (if len \<noteq> sizeof_frame \<or> frame_payload_length frame \<noteq> 0 then s
               else s\<lparr>m4_pending_sequence := frame_sequence frame, m4_pending_ping := True\<rparr>)
         else if frame_type frame = APP_IPC_FRAME_MOTOR_COMMAND
         then (let message = command_of data
               in if \<not> command_is_valid message len then s
                  else s\<lparr>m4_pending_command := message, m4_command_pending := True\<rparr>)
         else s)"

section \<open>Applying a command\<close>

definition command_direction :: "u16 \<Rightarrow> app_motor_direction" where
  "command_direction control = (if control AND APP_MOTOR_COMMAND_DIRECTION_REVERSE \<noteq> 0
     then APP_MOTOR_DIRECTION_REVERSE else APP_MOTOR_DIRECTION_FORWARD)"

text \<open>The branch on the control bits of a remote command, lines 209 to 238.\<close>

definition apply_remote_control ::
  "motor_drv \<Rightarrow> u16 \<Rightarrow> m4_ipc \<times> motor \<Rightarrow> int \<times> m4_ipc \<times> motor" where
  "apply_remote_control drv control sm =
     (case sm of (s, m) \<Rightarrow>
        if control AND APP_MOTOR_COMMAND_RESET_FAULT \<noteq> 0
        then (let s = s\<lparr>m4_remote_stop_latched := False\<rparr>;
                  (ret, m) = app_motor_reset drv m
              in (ret, s, m))
        else if control AND APP_MOTOR_COMMAND_QUICK_STOP \<noteq> 0
        then (let (ret, m) = app_motor_quick_stop drv m in (ret, s, m))
        else if m4_remote_stop_latched s \<and> control AND APP_MOTOR_COMMAND_RUN \<noteq> 0
        then (- ECANCELED, s, m)
        else if control AND APP_MOTOR_COMMAND_RUN = 0
        then (let (ret, m) = app_motor_stop m
              in if ret = 0 \<and> app_motor_get_state m = APP_MOTOR_STATE_READY
                 then (let direction = command_direction control
                       in if direction \<noteq> app_motor_get_direction m
                          then (let (ret, m) = app_motor_set_direction (direction_code direction) m
                                in (ret, s, m))
                          else (ret, s, m))
                 else (ret, s, m))
        else (let direction = command_direction control
              in if direction \<noteq> app_motor_get_direction m
                 then (let (ret, m) = app_motor_set_direction (direction_code direction) m
                       in (ret, s, m))
                 else (0, s, m)))"

text \<open>\<open>now\<close> is \<open>k_uptime_get_32()\<close>.\<close>

definition apply_remote_command ::
  "motor_drv \<Rightarrow> u32 \<Rightarrow> app_motor_command_message \<Rightarrow> m4_ipc \<times> motor \<Rightarrow> int \<times> m4_ipc \<times> motor" where
  "apply_remote_command drv now message sm =
     (case sm of (s, m) \<Rightarrow>
        let control = command_words message ! APP_MOTOR_COMMAND_CONTROL;
            mode = command_words message ! APP_MOTOR_COMMAND_MODE;
            sequence = command_words message ! APP_MOTOR_COMMAND_SEQUENCE
        in if mode = 0
           then
             let (ret, m) = (if control AND APP_MOTOR_COMMAND_RESET_FAULT \<noteq> 0
                             then app_motor_reset drv m else (0, m))
             in if ret < 0 then (ret, s, m)
                else
                  let (ret, m) = app_motor_stop m
                  in if ret < 0 then (ret, s, m)
                     else (0, s\<lparr>m4_remote_mode := False, m4_remote_timed_out := False,
                                m4_remote_stop_latched := False, m4_last_accepted_sequence := sequence\<rparr>,
                           app_motor_restore_default_ramps m)
           else
             let s = s\<lparr>m4_remote_mode := True, m4_remote_timed_out := False,
                       m4_remote_timeout_ms := command_words message ! APP_MOTOR_COMMAND_TIMEOUT_MS,
                       m4_remote_command_timestamp_ms := now\<rparr>;
                 (ret, m) = app_motor_set_ramps (command_words message ! APP_MOTOR_COMMAND_ACCEL_RAMP)
                              (command_words message ! APP_MOTOR_COMMAND_DECEL_RAMP) m
             in if ret < 0 then (ret, s, m)
                else
                  let (ret, m) = app_motor_set_target_duty
                                   (command_words message ! APP_MOTOR_COMMAND_DUTY_PERMILLE) m
                  in if ret < 0 then (ret, s, m)
                     else
                       let (ret, s, m) = apply_remote_control drv control (s, m);
                           (ret, m) = (if ret = 0 \<and> control AND APP_MOTOR_COMMAND_RUN \<noteq> 0
                                          \<and> control AND APP_MOTOR_COMMAND_ENABLE \<noteq> 0
                                       then app_motor_start drv m else (ret, m));
                           s = (if ret = 0 then s\<lparr>m4_last_accepted_sequence := sequence\<rparr> else s)
                       in (ret, s, m))"

definition process_pending_command :: "motor_drv \<Rightarrow> u32 \<Rightarrow> m4_ipc \<times> motor \<Rightarrow> m4_ipc \<times> motor" where
  "process_pending_command drv now sm =
     (case sm of (s, m) \<Rightarrow>
        if \<not> m4_command_pending s then (s, m)
        else snd (apply_remote_command drv now (m4_pending_command s)
                    (s\<lparr>m4_command_pending := False\<rparr>, m)))"

definition process_remote_timeout :: "u32 \<Rightarrow> m4_ipc \<times> motor \<Rightarrow> m4_ipc \<times> motor" where
  "process_remote_timeout now sm =
     (case sm of (s, m) \<Rightarrow>
        if \<not> m4_remote_mode s \<or> m4_remote_timed_out s
           \<or> now - m4_remote_command_timestamp_ms s \<le> ucast (m4_remote_timeout_ms s)
        then (s, m)
        else (s\<lparr>m4_remote_timed_out := True\<rparr>, snd (app_motor_stop m)))"

section \<open>Entry points\<close>

text \<open>The arguments are the answers of \<open>device_is_ready\<close>, \<open>ipc_service_open_instance\<close> and
  \<open>ipc_service_register_endpoint\<close>.\<close>

definition app_ipc_init_m4 :: "bool \<Rightarrow> int \<Rightarrow> int \<Rightarrow> m4_ipc \<Rightarrow> int \<times> m4_ipc" where
  "app_ipc_init_m4 ready open_ret register_ret s =
     (if m4_endpoint_initialized s then (0, s)
      else if \<not> ready then (- ENODEV, s)
      else if open_ret < 0 \<and> open_ret \<noteq> - EALREADY then (open_ret, s)
      else if register_ret < 0 then (register_ret, s)
      else (0, s\<lparr>m4_endpoint_initialized := True\<rparr>))"

text \<open>\<open>now_command\<close> and \<open>now_timeout\<close> are the two readings of the clock, \<open>send_ret\<close> the answer of
  \<open>ipc_service_send\<close>; the last component is the PONG handed to it.\<close>

definition app_ipc_process_m4 ::
  "motor_drv \<Rightarrow> u32 \<Rightarrow> u32 \<Rightarrow> int \<Rightarrow> m4_ipc \<times> motor \<Rightarrow> (m4_ipc \<times> motor) \<times> u8 list option" where
  "app_ipc_process_m4 drv now_command now_timeout send_ret sm =
     (let sm = process_pending_command drv now_command sm;
          (s, m) = process_remote_timeout now_timeout sm
      in if \<not> m4_endpoint_initialized s \<or> \<not> m4_endpoint_bound s \<or> \<not> m4_pending_ping s
         then ((s, m), None)
         else
           let s = s\<lparr>m4_pending_ping := False\<rparr>;
               frame = frame_init_m4 APP_IPC_FRAME_PONG (m4_pending_sequence s) 0;
               s = (if send_ret < 0 then s\<lparr>m4_pending_ping := True\<rparr> else s)
           in ((s, m), Some (frame_bytes frame)))"

definition app_ipc_is_remote_mode :: "m4_ipc \<Rightarrow> bool" where
  "app_ipc_is_remote_mode s = m4_remote_mode s"

definition app_ipc_latch_remote_stop :: "m4_ipc \<Rightarrow> m4_ipc" where
  "app_ipc_latch_remote_stop s = (if m4_remote_mode s then s\<lparr>m4_remote_stop_latched := True\<rparr> else s)"

definition app_ipc_clear_remote_stop :: "m4_ipc \<Rightarrow> m4_ipc" where
  "app_ipc_clear_remote_stop s = s\<lparr>m4_remote_stop_latched := False\<rparr>"

definition motor_state_flag :: "app_motor_state \<Rightarrow> u16" where
  "motor_state_flag st =
     (case st of
        APP_MOTOR_STATE_DISABLED \<Rightarrow> APP_MOTOR_STATE_FLAG_DISABLED
      | APP_MOTOR_STATE_READY \<Rightarrow> APP_MOTOR_STATE_FLAG_READY
      | APP_MOTOR_STATE_RUNNING \<Rightarrow> APP_MOTOR_STATE_FLAG_RUNNING
      | APP_MOTOR_STATE_STOPPING \<Rightarrow> APP_MOTOR_STATE_FLAG_STOPPING
      | APP_MOTOR_STATE_FAULT \<Rightarrow> APP_MOTOR_STATE_FLAG_FAULT)"

definition motor_state_flags :: "m4_ipc \<Rightarrow> motor \<Rightarrow> u16" where
  "motor_state_flags s m =
     (let flags = APP_MOTOR_STATE_FLAG_IPC_VALID;
          flags = flags OR (if m4_remote_mode s then APP_MOTOR_STATE_FLAG_REMOTE
                            else APP_MOTOR_STATE_FLAG_LOCAL);
          flags = (if m4_remote_timed_out s then flags OR APP_MOTOR_STATE_FLAG_REMOTE_TIMEOUT else flags);
          flags = (if m4_remote_stop_latched s then flags OR APP_MOTOR_STATE_FLAG_REMOTE_STOP_LATCH
                   else flags)
      in flags OR motor_state_flag (app_motor_get_state m))"

text \<open>The state message is handed to \<open>ipc_service_send\<close>, whose answer is not used.\<close>

definition app_ipc_publish_motor_state ::
  "u32 \<Rightarrow> u16 \<Rightarrow> u16 \<Rightarrow> u16 \<Rightarrow> m4_ipc \<Rightarrow> motor \<Rightarrow> m4_ipc \<times> u8 list option" where
  "app_ipc_publish_motor_state now buttons pot_raw loop_time_ms s m =
     (if \<not> m4_endpoint_initialized s \<or> \<not> m4_endpoint_bound s then (s, None)
      else
        let s = s\<lparr>m4_state_sequence := m4_state_sequence s + 1\<rparr>;
            header = frame_init_m4 APP_IPC_FRAME_MOTOR_STATE (m4_state_sequence s)
                       (of_nat (APP_MOTOR_STATE_WORD_COUNT * 2));
            s' = s\<lparr>m4_state_heartbeat := m4_state_heartbeat s + 1\<rparr>;
            words = [motor_state_flags s m,
                     app_motor_get_duty_permille m,
                     app_motor_get_target_duty_permille m,
                     of_nat (direction_code (app_motor_get_direction m)),
                     u16_of_int (app_motor_get_last_error m),
                     buttons,
                     pot_raw,
                     (if m4_remote_mode s then ucast (now - m4_remote_command_timestamp_ms s) else 0),
                     loop_time_ms,
                     m4_state_heartbeat s',
                     m4_last_accepted_sequence s,
                     0]
        in (s', Some (state_bytes \<lparr>state_header = header, state_words = words\<rparr>)))"

section \<open>Invariant of the link state\<close>

lemmas motor_get_defs [simp] = app_motor_get_state_def app_motor_get_direction_def
  app_motor_get_duty_permille_def app_motor_get_target_duty_permille_def app_motor_get_last_error_def

text \<open>A STOP latch or a timeout exists in remote mode only, and the pending command is a valid one.\<close>

definition m4_ipc_inv :: "m4_ipc \<Rightarrow> bool" where
  "m4_ipc_inv s \<longleftrightarrow>
     (m4_remote_stop_latched s \<longrightarrow> m4_remote_mode s)
     \<and> (m4_remote_timed_out s \<longrightarrow> m4_remote_mode s)
     \<and> (m4_command_pending s \<longrightarrow> command_is_valid (m4_pending_command s) sizeof_command)"

lemma m4_ipc_boot_inv: "m4_ipc_inv m4_ipc_boot"
  by (simp add: m4_ipc_inv_def m4_ipc_boot_def)

lemma command_is_valid_len:
  assumes "command_is_valid message len"
  shows "len = sizeof_command" "command_is_valid message sizeof_command"
proof -
  show l: "len = sizeof_command"
    using assms by (auto simp: command_is_valid_def Let_def split: if_splits)
  show "command_is_valid message sizeof_command"
    using assms by (simp only: l)
qed

lemma endpoint_received_m4_inv: "m4_ipc_inv s \<Longrightarrow> m4_ipc_inv (endpoint_received_m4 data s)"
  by (auto simp: endpoint_received_m4_def m4_ipc_inv_def Let_def dest: command_is_valid_len)

lemma endpoint_callbacks_m4_inv:
  "m4_ipc_inv s \<Longrightarrow> m4_ipc_inv (endpoint_bound_callback_m4 s)"
  "m4_ipc_inv s \<Longrightarrow> m4_ipc_inv (endpoint_unbound_callback_m4 s)"
  by (simp_all add: endpoint_bound_callback_m4_def endpoint_unbound_callback_m4_def m4_ipc_inv_def)

text \<open>What a control word may do to the link state: only a reset touches the latch.\<close>

lemma apply_remote_control_ipc:
  "fst (snd (apply_remote_control drv control (s, m))) =
     (if control AND APP_MOTOR_COMMAND_RESET_FAULT \<noteq> 0 then s\<lparr>m4_remote_stop_latched := False\<rparr> else s)"
  by (simp add: apply_remote_control_def Let_def case_prod_beta)

lemma apply_remote_control_motor_inv:
  "motor_inv m \<Longrightarrow> motor_inv (snd (snd (apply_remote_control drv control (s, m))))"
  by (simp add: apply_remote_control_def Let_def case_prod_beta app_motor_reset_inv
      app_motor_quick_stop_inv app_motor_stop_inv app_motor_set_direction_inv)

text \<open>The link state after a command, field by field.\<close>

lemma apply_remote_command_local:
  assumes "command_words message ! APP_MOTOR_COMMAND_MODE = 0"
  shows "fst (snd (apply_remote_command drv now message (s, m))) =
     (if fst (apply_remote_command drv now message (s, m)) < 0 then s
      else s\<lparr>m4_remote_mode := False, m4_remote_timed_out := False, m4_remote_stop_latched := False,
        m4_last_accepted_sequence := command_words message ! APP_MOTOR_COMMAND_SEQUENCE\<rparr>)"
  using assms by (simp add: apply_remote_command_def Let_def case_prod_beta)

lemma apply_remote_command_remote:
  fixes drv now s m message
  assumes "command_words message ! APP_MOTOR_COMMAND_MODE \<noteq> 0"
  defines "s' \<equiv> fst (snd (apply_remote_command drv now message (s, m)))"
  shows "m4_remote_mode s'" "\<not> m4_remote_timed_out s'" "m4_remote_command_timestamp_ms s' = now"
    "m4_remote_timeout_ms s' = command_words message ! APP_MOTOR_COMMAND_TIMEOUT_MS"
    "m4_remote_stop_latched s' \<Longrightarrow> m4_remote_stop_latched s"
  using assms(1)
  by (auto simp: s'_def apply_remote_command_def Let_def case_prod_beta apply_remote_control_ipc
      split: if_splits)

lemma apply_remote_command_pending:
  "m4_command_pending (fst (snd (apply_remote_command drv now message (s, m)))) = m4_command_pending s"
  "m4_pending_command (fst (snd (apply_remote_command drv now message (s, m)))) = m4_pending_command s"
  by (simp_all add: apply_remote_command_def Let_def case_prod_beta apply_remote_control_ipc)

lemma apply_remote_command_inv:
  assumes "m4_ipc_inv s"
  shows "m4_ipc_inv (fst (snd (apply_remote_command drv now message (s, m))))"
proof (cases "command_words message ! APP_MOTOR_COMMAND_MODE = 0")
  case True
  then show ?thesis
    using assms by (simp add: apply_remote_command_local m4_ipc_inv_def)
next
  case False
  from apply_remote_command_remote [OF this, where drv = drv and now = now and s = s and m = m] assms show ?thesis
    by (auto simp: m4_ipc_inv_def apply_remote_command_pending)
qed

lemma apply_remote_command_motor_inv:
  assumes "motor_inv m"
  shows "motor_inv (snd (snd (apply_remote_command drv now message (s, m))))"
  using assms
  by (simp add: apply_remote_command_def Let_def case_prod_beta app_motor_reset_inv app_motor_stop_inv
      app_motor_restore_default_ramps_inv app_motor_set_ramps_inv app_motor_set_target_duty_inv
      apply_remote_control_motor_inv app_motor_start_inv)

lemma process_pending_command_inv:
  assumes "m4_ipc_inv s" and "motor_inv m"
  shows "m4_ipc_inv (fst (process_pending_command drv now (s, m)))"
    and "motor_inv (snd (process_pending_command drv now (s, m)))"
proof -
  have "m4_ipc_inv (s\<lparr>m4_command_pending := False\<rparr>)" using assms(1) by (simp add: m4_ipc_inv_def)
  then show "m4_ipc_inv (fst (process_pending_command drv now (s, m)))"
    using assms(1) by (simp add: process_pending_command_def apply_remote_command_inv)
  show "motor_inv (snd (process_pending_command drv now (s, m)))"
    using assms(2) by (simp add: process_pending_command_def apply_remote_command_motor_inv)
qed

lemma process_remote_timeout_inv:
  "m4_ipc_inv s \<Longrightarrow> m4_ipc_inv (fst (process_remote_timeout now (s, m)))"
  "motor_inv m \<Longrightarrow> motor_inv (snd (process_remote_timeout now (s, m)))"
  by (auto simp: process_remote_timeout_def m4_ipc_inv_def app_motor_stop_inv)

lemma app_ipc_process_m4_inv:
  assumes "m4_ipc_inv s" and "motor_inv m"
  shows "m4_ipc_inv (fst (fst (app_ipc_process_m4 drv a b r (s, m))))"
    and "motor_inv (snd (fst (app_ipc_process_m4 drv a b r (s, m))))"
proof -
  obtain s1 m1 where p: "process_pending_command drv a (s, m) = (s1, m1)" by fastforce
  obtain s2 m2 where t: "process_remote_timeout b (s1, m1) = (s2, m2)" by fastforce
  have "m4_ipc_inv s1" "motor_inv m1"
    using process_pending_command_inv [OF assms, of drv a] p by simp_all
  then have "m4_ipc_inv s2" "motor_inv m2"
    using process_remote_timeout_inv(1) [where s = s1 and m = m1 and now = b]
      process_remote_timeout_inv(2) [where s = s1 and m = m1 and now = b] t by simp_all
  then show "m4_ipc_inv (fst (fst (app_ipc_process_m4 drv a b r (s, m))))"
    and "motor_inv (snd (fst (app_ipc_process_m4 drv a b r (s, m))))"
    by (simp_all add: app_ipc_process_m4_def p t Let_def m4_ipc_inv_def)
qed

lemma app_ipc_latch_inv:
  "m4_ipc_inv s \<Longrightarrow> m4_ipc_inv (app_ipc_latch_remote_stop s)"
  "m4_ipc_inv s \<Longrightarrow> m4_ipc_inv (app_ipc_clear_remote_stop s)"
  by (auto simp: app_ipc_latch_remote_stop_def app_ipc_clear_remote_stop_def m4_ipc_inv_def)

lemma app_ipc_publish_inv:
  "m4_ipc_inv s \<Longrightarrow> m4_ipc_inv (fst (app_ipc_publish_motor_state now b p l s m))"
  by (auto simp: app_ipc_publish_motor_state_def m4_ipc_inv_def Let_def)

section \<open>Valid commands\<close>

text \<open>The words of a valid command pass the controller's own range checks.\<close>

lemma command_is_valid_words:
  assumes "command_is_valid message len"
  shows "command_words message ! APP_MOTOR_COMMAND_ACCEL_RAMP \<noteq> 0"
    "command_words message ! APP_MOTOR_COMMAND_DECEL_RAMP \<noteq> 0"
    "\<not> command_words message ! APP_MOTOR_COMMAND_DUTY_PERMILLE < APP_MOTOR_DUTY_MIN_PERMILLE"
    "\<not> APP_MOTOR_DUTY_MAX_PERMILLE < command_words message ! APP_MOTOR_COMMAND_DUTY_PERMILLE"
  using assms
  by (auto simp: command_is_valid_def Let_def not_less APP_MOTOR_COMMAND_ACCEL_MIN_PERMILLE_PER_SECOND_def
      split: if_splits)

text \<open>The motor after a valid remote command's ramps and duty.\<close>

definition command_motor :: "app_motor_command_message \<Rightarrow> motor \<Rightarrow> motor" where
  "command_motor message m = m\<lparr>
     motor_run_ramp_permille_per_second := command_words message ! APP_MOTOR_COMMAND_ACCEL_RAMP,
     motor_stop_ramp_permille_per_second := command_words message ! APP_MOTOR_COMMAND_DECEL_RAMP,
     motor_target_duty_permille := command_words message ! APP_MOTOR_COMMAND_DUTY_PERMILLE\<rparr>"

definition command_ipc :: "u32 \<Rightarrow> app_motor_command_message \<Rightarrow> m4_ipc \<Rightarrow> m4_ipc" where
  "command_ipc now message s = s\<lparr>m4_remote_mode := True, m4_remote_timed_out := False,
     m4_remote_timeout_ms := command_words message ! APP_MOTOR_COMMAND_TIMEOUT_MS,
     m4_remote_command_timestamp_ms := now\<rparr>"

lemma command_motor_fields [simp]:
  "motor_state (command_motor message m) = motor_state m"
  "motor_direction (command_motor message m) = motor_direction m"
  "motor_duty_permille (command_motor message m) = motor_duty_permille m"
  "motor_io (command_motor message m) = motor_io m"
  "motor_last_error (command_motor message m) = motor_last_error m"
  by (simp_all add: command_motor_def)

lemma apply_remote_command_valid:
  assumes "command_is_valid message len" and "command_words message ! APP_MOTOR_COMMAND_MODE \<noteq> 0"
    and control: "control = command_words message ! APP_MOTOR_COMMAND_CONTROL"
  shows "apply_remote_command drv now message (s, m) =
    (let (ret, s, m) = apply_remote_control drv control (command_ipc now message s, command_motor message m);
         (ret, m) = (if ret = 0 \<and> control AND APP_MOTOR_COMMAND_RUN \<noteq> 0
                        \<and> control AND APP_MOTOR_COMMAND_ENABLE \<noteq> 0
                     then app_motor_start drv m else (ret, m))
     in (ret, if ret = 0 then s\<lparr>m4_last_accepted_sequence := command_words message ! APP_MOTOR_COMMAND_SEQUENCE\<rparr>
              else s, m))"
  using assms(2) command_is_valid_words [OF assms(1)]
  by (simp add: apply_remote_command_def app_motor_set_ramps_def app_motor_set_target_duty_def Let_def
      command_motor_def command_ipc_def control case_prod_beta)

section \<open>Properties\<close>

lemma remote_stop_applied:
  assumes "command_is_valid message len" and "command_words message ! APP_MOTOR_COMMAND_MODE \<noteq> 0"
    and "command_words message ! APP_MOTOR_COMMAND_CONTROL AND
      (APP_MOTOR_COMMAND_RUN OR APP_MOTOR_COMMAND_RESET_FAULT OR APP_MOTOR_COMMAND_QUICK_STOP) = 0"
    and "motor_state m \<in> {APP_MOTOR_STATE_RUNNING, APP_MOTOR_STATE_STOPPING}"
  shows "\<exists>s' m'. apply_remote_command drv now message (s, m) = (0, s', m')
    \<and> motor_state m' = APP_MOTOR_STATE_STOPPING
    \<and> motor_direction m' = motor_direction m
    \<and> motor_stop_ramp_permille_per_second m' = command_words message ! APP_MOTOR_COMMAND_DECEL_RAMP
    \<and> m4_last_accepted_sequence s' = command_words message ! APP_MOTOR_COMMAND_SEQUENCE
    \<and> m4_remote_stop_latched s' = m4_remote_stop_latched s"
proof -
  let ?c = "command_words message ! APP_MOTOR_COMMAND_CONTROL"
  have c: "?c AND APP_MOTOR_COMMAND_RUN = 0" "?c AND APP_MOTOR_COMMAND_RESET_FAULT = 0"
    "?c AND APP_MOTOR_COMMAND_QUICK_STOP = 0"
    using assms(3) by (simp_all add: bit.conj_disj_distrib or_eq_0_iff)
  have st: "motor_state m \<noteq> APP_MOTOR_STATE_FAULT" "motor_state m \<noteq> APP_MOTOR_STATE_READY"
    "motor_state m \<noteq> APP_MOTOR_STATE_DISABLED"
    using assms(4) by auto
  show ?thesis
    by (simp add: apply_remote_command_valid [OF assms(1,2) refl] apply_remote_control_def Let_def c st
        app_motor_stop_def command_motor_def command_ipc_def)
qed

text \<open>A stop command is never blocked: a valid remote command without \<open>RUN\<close>, \<open>RESET_FAULT\<close> and
  \<open>QUICK_STOP\<close> puts a running motor into \<open>STOPPING\<close> and is accepted, whatever its direction bit says and
  whether or not the STOP latch is set; the direction is kept until the motor is at rest.\<close>

theorem remote_stop_never_blocked:
  assumes "command_is_valid message len" and "command_words message ! APP_MOTOR_COMMAND_MODE \<noteq> 0"
    and "command_words message ! APP_MOTOR_COMMAND_CONTROL AND
      (APP_MOTOR_COMMAND_RUN OR APP_MOTOR_COMMAND_RESET_FAULT OR APP_MOTOR_COMMAND_QUICK_STOP) = 0"
    and "motor_state m \<in> {APP_MOTOR_STATE_RUNNING, APP_MOTOR_STATE_STOPPING}"
  shows "\<exists>s' m'. apply_remote_command drv now message (s, m) = (0, s', m')
    \<and> motor_state m' = APP_MOTOR_STATE_STOPPING
    \<and> motor_direction m' = motor_direction m
    \<and> motor_stop_ramp_permille_per_second m' = command_words message ! APP_MOTOR_COMMAND_DECEL_RAMP
    \<and> m4_last_accepted_sequence s' = command_words message ! APP_MOTOR_COMMAND_SEQUENCE
    \<and> m4_remote_stop_latched s' = m4_remote_stop_latched s"
  using assms by (rule remote_stop_applied)

text \<open>While the physical STOP is latched, a remote command that asks to run, without \<open>RESET_FAULT\<close>
  and \<open>QUICK_STOP\<close>, is refused with \<open>ECANCELED\<close>: the motor's state, direction and outputs are
  untouched and the command's sequence number is not acknowledged.\<close>

theorem remote_run_refused_when_latched:
  assumes "command_is_valid message len" and "command_words message ! APP_MOTOR_COMMAND_MODE \<noteq> 0"
    and "command_words message ! APP_MOTOR_COMMAND_CONTROL AND APP_MOTOR_COMMAND_RUN \<noteq> 0"
    and "command_words message ! APP_MOTOR_COMMAND_CONTROL AND
      (APP_MOTOR_COMMAND_RESET_FAULT OR APP_MOTOR_COMMAND_QUICK_STOP) = 0"
    and "m4_remote_stop_latched s"
  shows "apply_remote_command drv now message (s, m) =
    (- ECANCELED, command_ipc now message s, command_motor message m)"
proof -
  let ?c = "command_words message ! APP_MOTOR_COMMAND_CONTROL"
  have c: "?c AND APP_MOTOR_COMMAND_RESET_FAULT = 0" "?c AND APP_MOTOR_COMMAND_QUICK_STOP = 0"
    using assms(4) by (simp_all add: bit.conj_disj_distrib or_eq_0_iff)
  have l: "m4_remote_stop_latched (command_ipc now message s)"
    using assms(5) by (simp add: command_ipc_def)
  show ?thesis
    using assms(3)
    by (simp add: apply_remote_command_valid [OF assms(1,2) refl] apply_remote_control_def Let_def c l)
qed

text \<open>C27. What the latch does not stop: \<open>QUICK_STOP\<close> together with \<open>RUN\<close> and \<open>ENABLE\<close> takes the
  branch before the latch check and starts the motor again at once, with the latch still set.\<close>

theorem quick_stop_run_bypasses_latch:
  assumes "command_is_valid message len" and "command_words message ! APP_MOTOR_COMMAND_MODE \<noteq> 0"
    and "command_words message ! APP_MOTOR_COMMAND_CONTROL =
      APP_MOTOR_COMMAND_QUICK_STOP OR APP_MOTOR_COMMAND_RUN OR APP_MOTOR_COMMAND_ENABLE"
    and "motor_state m \<noteq> APP_MOTOR_STATE_FAULT" and "drv_ok drv" and "m4_remote_stop_latched s"
  shows "fst (apply_remote_command drv now message (s, m)) = 0
    \<and> m4_remote_stop_latched (fst (snd (apply_remote_command drv now message (s, m))))
    \<and> motor_state (snd (snd (apply_remote_command drv now message (s, m)))) = APP_MOTOR_STATE_RUNNING"
proof -
  let ?c = "command_words message ! APP_MOTOR_COMMAND_CONTROL"
  have c: "?c AND APP_MOTOR_COMMAND_RESET_FAULT = 0" "?c AND APP_MOTOR_COMMAND_QUICK_STOP \<noteq> 0"
    "?c AND APP_MOTOR_COMMAND_RUN \<noteq> 0" "?c AND APP_MOTOR_COMMAND_ENABLE \<noteq> 0"
    unfolding assms(3) by (simp_all add: c_def)
  have l: "m4_remote_stop_latched (command_ipc now message s)"
    using assms(6) by (simp add: command_ipc_def)
  have q: "app_motor_quick_stop drv (command_motor message m) = (0,
      (snd (motor_make_safe drv (command_motor message m)))\<lparr>motor_state := APP_MOTOR_STATE_READY\<rparr>)"
    using assms(4) motor_make_safe_drv_ok [OF assms(5)]
    by (simp add: app_motor_quick_stop_def Let_def case_prod_beta)
  have start: "fst (app_motor_start drv m1) = 0
      \<and> motor_state (snd (app_motor_start drv m1)) = APP_MOTOR_STATE_RUNNING"
    if "motor_state m1 = APP_MOTOR_STATE_READY" for m1
    using that assms(5) by (simp add: app_motor_start_def motor_apply_direction_def motor_call_drv_eq
        motor_set_pwm_eq Let_def c_def)
  let ?m1 = "(snd (motor_make_safe drv (command_motor message m)))\<lparr>motor_state := APP_MOTOR_STATE_READY\<rparr>"
  show ?thesis
    using start [of ?m1]
    by (simp add: apply_remote_command_valid [OF assms(1,2) refl] apply_remote_control_def Let_def c l q
        case_prod_beta)
qed

text \<open>C24. The remote timeout fires exactly when more than the configured number of milliseconds have
  passed since the last remote command, also when the 32-bit clock has wrapped in between: the
  timeout is then recorded and a running motor goes to \<open>STOPPING\<close>; until then nothing changes.\<close>

theorem remote_timeout_exact:
  assumes "m4_remote_mode s" and "\<not> m4_remote_timed_out s" and "elapsed < 2 ^ 32"
    and "motor_state m = APP_MOTOR_STATE_RUNNING"
  shows "process_remote_timeout (m4_remote_command_timestamp_ms s + of_nat elapsed) (s, m) =
    (if elapsed \<le> unat (m4_remote_timeout_ms s) then (s, m)
     else (s\<lparr>m4_remote_timed_out := True\<rparr>,
           m\<lparr>motor_boost_remaining_ms := 0, motor_state := APP_MOTOR_STATE_STOPPING\<rparr>))"
  using assms by (simp add: process_remote_timeout_def to_nat_simps unat_of_nat app_motor_stop_def)

text \<open>A valid command to return to local mode leaves remote mode, clears the timeout and the latch and
  restores the default ramps, except while the controller is in \<open>FAULT\<close> and the command does not
  reset it: it then fails with \<open>EIO\<close> and remote mode persists.\<close>

theorem local_command_effect:
  assumes "command_words message ! APP_MOTOR_COMMAND_MODE = 0" and "drv_ok drv"
  shows "(if motor_state m = APP_MOTOR_STATE_FAULT
            \<and> command_words message ! APP_MOTOR_COMMAND_CONTROL AND APP_MOTOR_COMMAND_RESET_FAULT = 0
          then apply_remote_command drv now message (s, m) = (- EIO, s, m)
          else \<exists>m'. apply_remote_command drv now message (s, m) =
            (0, s\<lparr>m4_remote_mode := False, m4_remote_timed_out := False, m4_remote_stop_latched := False,
                 m4_last_accepted_sequence := command_words message ! APP_MOTOR_COMMAND_SEQUENCE\<rparr>, m')
            \<and> motor_state m' \<notin> {APP_MOTOR_STATE_RUNNING, APP_MOTOR_STATE_FAULT}
            \<and> motor_run_ramp_permille_per_second m' = MOTOR_RUN_RAMP_PERMILLE_PER_SECOND
            \<and> motor_stop_ramp_permille_per_second m' = MOTOR_STOP_RAMP_PERMILLE_PER_SECOND)"
  using assms(1) motor_make_safe_drv_ok [OF assms(2), of m]
  by (auto simp: apply_remote_command_def Let_def case_prod_beta app_motor_reset_def app_motor_stop_def
      app_motor_restore_default_ramps_def)

section \<open>Concrete commands\<close>

definition command_example :: "u16 \<Rightarrow> u16 \<Rightarrow> app_motor_command_message" where
  "command_example control mode =
     \<lparr>command_header = frame_init_m4 APP_IPC_FRAME_MOTOR_COMMAND 7 20,
      command_words = [control, 900, 1000, 4000, mode, 1000, 0, 0, 0, 7]\<rparr>"

definition m4_ipc_latched :: m4_ipc where
  "m4_ipc_latched = m4_ipc_boot\<lparr>m4_remote_mode := True, m4_remote_stop_latched := True,
     m4_remote_timeout_ms := 1000, m4_remote_command_timestamp_ms := 4294967000\<rparr>"

lemma command_example_words [simp]:
  "command_words (command_example control mode) ! 0 = control"
  "command_words (command_example control mode) ! 2 = 1000"
  "command_words (command_example control mode) ! 3 = 4000"
  "command_words (command_example control mode) ! 4 = mode"
  "command_words (command_example control mode) ! 5 = 1000"
  "command_words (command_example control mode) ! 9 = 7"
  by (simp_all add: command_example_def)

lemma command_example_valid [simp]:
  "control \<in> {0, 3, 19, 5, 1} \<Longrightarrow> command_is_valid (command_example control 0x101) 36"
  by (auto simp: command_is_valid_def command_example_def frame_is_valid_m4_def frame_init_m4_def
      sizeof_defs c_def APP_MOTOR_COMMAND_MODE_SOURCE_def)

theorem remote_stop_never_blocked_witness:
  "\<exists>s' m'. apply_remote_command drv_zero 0 (command_example 5 0x101) (m4_ipc_latched, motor_running0) = (0, s', m')
    \<and> motor_state m' = APP_MOTOR_STATE_STOPPING"
  using remote_stop_never_blocked [of "command_example 5 0x101" 36 motor_running0 drv_zero 0 m4_ipc_latched]
  by (auto simp: c_def)

theorem remote_run_refused_when_latched_witness:
  "fst (apply_remote_command drv_zero 0 (command_example 3 0x101) (m4_ipc_latched, motor_ready0))
     = - ECANCELED"
  using remote_run_refused_when_latched
    [of "command_example 3 0x101" 36 m4_ipc_latched drv_zero 0 motor_ready0]
  by (simp add: c_def m4_ipc_latched_def)

theorem quick_stop_run_bypasses_latch_witness:
  "motor_state (snd (snd (apply_remote_command drv_zero 0 (command_example 19 0x101)
     (m4_ipc_latched, motor_ready0)))) = APP_MOTOR_STATE_RUNNING"
  using quick_stop_run_bypasses_latch
    [of "command_example 19 0x101" 36 motor_ready0 drv_zero m4_ipc_latched 0]
  by (simp add: c_def m4_ipc_latched_def drv_zero_ok)

theorem remote_timeout_exact_witness:
  "fst (process_remote_timeout 1000 (m4_ipc_latched, motor_running0))
     = m4_ipc_latched\<lparr>m4_remote_timed_out := True\<rparr>"
proof -
  have now: "m4_remote_command_timestamp_ms m4_ipc_latched + of_nat 1296 = 1000"
    by (simp add: m4_ipc_latched_def)
  show ?thesis
    using remote_timeout_exact [of m4_ipc_latched 1296 motor_running0, unfolded now]
    by (simp add: m4_ipc_latched_def m4_ipc_boot_def)
qed

theorem local_command_effect_witness:
  "apply_remote_command drv_zero 0 (command_example 0 0)
     (m4_ipc_latched, app_motor_fail drv_zero (- EIO) motor_running0)
   = (- EIO, m4_ipc_latched, app_motor_fail drv_zero (- EIO) motor_running0)"
  using local_command_effect [of "command_example 0 0" drv_zero
      "app_motor_fail drv_zero (- EIO) motor_running0" 0 m4_ipc_latched]
  by (simp add: drv_zero_ok app_motor_fail_def)

end
