(* ===== verification/Motor_Buttons.thy ===== *)
theory Motor_Buttons
  imports IE_Prelude
begin

unbundle bit_operations_syntax

text \<open>
  The push buttons of the Cortex-M4, \<open>app_m4/src/motor_buttons.c\<close>: four inputs (start, stop,
  direction, reset) sampled once per control period and debounced over three samples.

  The record \<open>app_button\<close> is the C structure without its GPIO specification; the table \<open>buttons\<close> is a
  list of four of them. What the GPIO driver answers for pin \<open>i\<close> is an argument of the operation. The
  abstract contract is \<open>debounced\<close>: the value of the last three equal consecutive valid samples. The
  refinement \<open>button_run_refines\<close> relates each button's fields to it.
\<close>

section \<open>Data\<close>

definition APP_BUTTON_EVENT_START :: u32 where [c_def]: "APP_BUTTON_EVENT_START = push_bit 0 1"
definition APP_BUTTON_EVENT_STOP :: u32 where [c_def]: "APP_BUTTON_EVENT_STOP = push_bit 1 1"
definition APP_BUTTON_EVENT_DIRECTION :: u32 where [c_def]: "APP_BUTTON_EVENT_DIRECTION = push_bit 2 1"
definition APP_BUTTON_EVENT_RESET :: u32 where [c_def]: "APP_BUTTON_EVENT_RESET = push_bit 3 1"

definition BUTTON_DEBOUNCE_SAMPLES :: u8 where [c_def]: "BUTTON_DEBOUNCE_SAMPLES = 3"

record app_button =
  button_event :: u32
  button_candidate :: bool
  button_stable :: bool
  button_candidate_samples :: u8

definition button_boot :: "u32 \<Rightarrow> app_button" where
  "button_boot event = \<lparr>button_event = event, button_candidate = False, button_stable = False,
     button_candidate_samples = 0\<rparr>"

definition buttons_boot :: "app_button list" where
  "buttons_boot = [button_boot APP_BUTTON_EVENT_START, button_boot APP_BUTTON_EVENT_STOP,
     button_boot APP_BUTTON_EVENT_DIRECTION, button_boot APP_BUTTON_EVENT_RESET]"

section \<open>Operations\<close>

text \<open>\<open>is_ready i\<close> and \<open>configure i\<close> are the answers of \<open>gpio_is_ready_dt\<close> and
  \<open>gpio_pin_configure_dt\<close> for button \<open>i\<close>; the loop leaves the later buttons alone on an error.\<close>

fun buttons_init_loop ::
  "(nat \<Rightarrow> bool) \<Rightarrow> (nat \<Rightarrow> int) \<Rightarrow> nat \<Rightarrow> app_button list \<Rightarrow> int \<times> app_button list" where
  "buttons_init_loop is_ready configure i [] = (0, [])"
| "buttons_init_loop is_ready configure i (b # bs) =
     (if \<not> is_ready i then (- ENODEV, b # bs)
      else if configure i < 0 then (configure i, b # bs)
      else
        let b = b\<lparr>button_candidate := False, button_stable := False, button_candidate_samples := 0\<rparr>;
            (ret, bs) = buttons_init_loop is_ready configure (i + 1) bs
        in (ret, b # bs))"

definition app_motor_buttons_init ::
  "(nat \<Rightarrow> bool) \<Rightarrow> (nat \<Rightarrow> int) \<Rightarrow> app_button list \<Rightarrow> int \<times> app_button list" where
  "app_motor_buttons_init is_ready configure buttons = buttons_init_loop is_ready configure 0 buttons"

text \<open>The body of the polling loop for one button: the reading, and the events so far.\<close>

definition button_poll :: "int \<Rightarrow> u32 \<times> app_button \<Rightarrow> u32 \<times> app_button" where
  "button_poll reading eb =
     (case eb of (events, b) \<Rightarrow>
        if reading < 0 then (events, b)
        else
          let pressed = (reading \<noteq> 0)
          in if pressed \<noteq> button_candidate b
             then (events, b\<lparr>button_candidate := pressed, button_candidate_samples := 1\<rparr>)
             else
               let b = (if button_candidate_samples b < BUTTON_DEBOUNCE_SAMPLES
                        then b\<lparr>button_candidate_samples := button_candidate_samples b + 1\<rparr> else b)
               in if button_candidate_samples b = BUTTON_DEBOUNCE_SAMPLES
                     \<and> button_stable b \<noteq> button_candidate b
                  then let b = b\<lparr>button_stable := button_candidate b\<rparr>
                       in (if button_stable b then events OR button_event b else events, b)
                  else (events, b))"

fun buttons_poll_loop :: "(nat \<Rightarrow> int) \<Rightarrow> nat \<Rightarrow> u32 \<Rightarrow> app_button list \<Rightarrow> u32 \<times> app_button list" where
  "buttons_poll_loop readings i events [] = (events, [])"
| "buttons_poll_loop readings i events (b # bs) =
     (let (events, b) = button_poll (readings i) (events, b);
          (events, bs) = buttons_poll_loop readings (i + 1) events bs
      in (events, b # bs))"

definition app_motor_buttons_poll :: "(nat \<Rightarrow> int) \<Rightarrow> app_button list \<Rightarrow> u32 \<times> app_button list" where
  "app_motor_buttons_poll readings buttons = buttons_poll_loop readings 0 0 buttons"

fun buttons_state_loop :: "u16 \<Rightarrow> app_button list \<Rightarrow> u16" where
  "buttons_state_loop state [] = state"
| "buttons_state_loop state (b # bs) =
     buttons_state_loop (if button_stable b then state OR ucast (button_event b) else state) bs"

definition app_motor_buttons_get_state :: "app_button list \<Rightarrow> u16" where
  "app_motor_buttons_get_state buttons = buttons_state_loop 0 buttons"

section \<open>The debouncing contract\<close>

text \<open>A button's samples, newest first: failed reads are no samples.\<close>

definition samples_of :: "int list \<Rightarrow> bool list" where
  "samples_of rs = List.map (\<lambda>r. r \<noteq> 0) (filter (\<lambda>r. 0 \<le> r) rs)"

fun debounced :: "bool list \<Rightarrow> bool" where
  "debounced (x # y # z # h) = (if x = y \<and> y = z then x else debounced (y # z # h))"
| "debounced _ = False"

fun run_length :: "bool list \<Rightarrow> nat" where
  "run_length (x # y # h) = (if x = y then Suc (run_length (y # h)) else 1)"
| "run_length [x] = 1"
| "run_length [] = 0"

definition button_refines :: "bool list \<Rightarrow> app_button \<Rightarrow> bool" where
  "button_refines h b \<longleftrightarrow>
     button_candidate b = (h \<noteq> [] \<and> hd h)
     \<and> unat (button_candidate_samples b) = min 3 (run_length h)
     \<and> button_stable b = debounced h"

lemma run_length_pos: "0 < run_length (x # h)"
  by (cases h) simp_all

lemma run_length_2: "2 \<le> run_length (x # h) \<longleftrightarrow> h \<noteq> [] \<and> hd h = x"
  by (cases h) (auto simp: Suc_le_eq run_length_pos)

lemma debounced_Cons:
  "debounced (x # h) = (if 2 \<le> run_length h \<and> hd h = x then x else debounced h)"
proof (cases h)
  case (Cons y h')
  show ?thesis
    by (cases h') (auto simp: Cons Suc_le_eq run_length_pos)
qed simp

lemma debounced_run: "3 \<le> run_length (x # h) \<Longrightarrow> debounced (x # h) = x"
proof -
  assume "3 \<le> run_length (x # h)"
  then obtain y h' where h: "h = y # h'" "x = y" "2 \<le> run_length (y # h')"
    by (cases h) (auto split: if_splits)
  then show ?thesis by (simp add: debounced_Cons [of y "y # h'"])
qed

lemma run_length_Cons: "run_length (x # h) = (if h \<noteq> [] \<and> hd h = x then Suc (run_length h) else 1)"
  by (cases h) auto

lemma debounced_False_start: "debounced [x] = False" "debounced [] = False"
  by simp_all

text \<open>One valid sample.\<close>

lemma button_poll_refines:
  assumes ref: "button_refines h b" and "0 \<le> r"
  shows "button_refines ((r \<noteq> 0) # h) (snd (button_poll r (events, b)))"
    and "fst (button_poll r (events, b)) =
          (if debounced ((r \<noteq> 0) # h) \<and> \<not> debounced h then events OR button_event b else events)"
proof -
  define p where "p = (r \<noteq> 0)"
  have r: "\<not> r < 0" "(r \<noteq> 0) = p" using assms(2) by (simp_all add: p_def)
  have c: "button_candidate b = (h \<noteq> [] \<and> hd h)"
    and n: "unat (button_candidate_samples b) = min 3 (run_length h)"
    and s: "button_stable b = debounced h"
    using ref by (simp_all add: button_refines_def)
  have lt: "button_candidate_samples b < BUTTON_DEBOUNCE_SAMPLES \<longleftrightarrow> run_length h < 3"
    using n by (simp add: to_nat_simps c_def min_less_iff_disj)
  have eq: "button_candidate_samples b = BUTTON_DEBOUNCE_SAMPLES \<longleftrightarrow> 3 \<le> run_length h"
    using n by (simp add: word_unat_eq_iff c_def min_def)
  have inc: "unat (button_candidate_samples b + 1) = Suc (run_length h)" if "run_length h < 3"
    using n that by (simp add: unat_word_ariths)
  then have inc_eq: "button_candidate_samples b + 1 = BUTTON_DEBOUNCE_SAMPLES \<longleftrightarrow> run_length h = 2"
    if "run_length h < 3"
    using that by (simp add: word_unat_eq_iff c_def)
  have empty: "h = [] \<Longrightarrow> run_length h = 0" by simp
  have keep: "debounced (p # h) = debounced h" if "3 \<le> run_length h" "hd h = p"
    using that debounced_run [of "hd h" "tl h"] by (cases h) (auto simp: debounced_Cons)
  note simps = button_poll_def button_refines_def Let_def r c s lt eq inc_eq debounced_Cons
    run_length_Cons
  have A: "button_refines (p # h) (snd (button_poll r (events, b)))
    \<and> fst (button_poll r (events, b)) =
          (if debounced (p # h) \<and> \<not> debounced h then events OR button_event b else events)"
  proof (cases "h = []")
    case True
    with n have "button_candidate_samples b = 0" by (simp add: unat_eq_zero)
    then show ?thesis using True by (simp add: simps c_def)
  next
    case False
    show ?thesis
    proof (cases "p = hd h")
      case True
      show ?thesis
      proof (cases "run_length h < 3")
        case small: True
        show ?thesis
          using False True small n inc [OF small] by (cases "run_length h = 2") (auto simp: simps)
      next
        case big: False
        then have "debounced h = hd h"
          using debounced_run [of "hd h" "tl h"] False by simp
        then show ?thesis
          using False True big n by (auto simp: simps)
      qed
    next
      case neq: False
      then show ?thesis using False n by (auto simp: simps)
    qed
  qed
  then show "button_refines ((r \<noteq> 0) # h) (snd (button_poll r (events, b)))"
    and "fst (button_poll r (events, b)) =
          (if debounced ((r \<noteq> 0) # h) \<and> \<not> debounced h then events OR button_event b else events)"
    by (simp_all add: r)
qed

text \<open>A whole reading history of one button, newest first.\<close>

fun button_run :: "int list \<Rightarrow> app_button \<Rightarrow> app_button" where
  "button_run [] b = b"
| "button_run (r # rs) b = snd (button_poll r (0, button_run rs b))"

lemma button_poll_snd: "snd (button_poll r (e, b)) = snd (button_poll r (0, b))"
  by (simp add: button_poll_def Let_def)

lemma button_poll_event: "button_event (snd (button_poll r (e, b))) = button_event b"
  by (simp add: button_poll_def Let_def)

lemma button_run_event [simp]: "button_event (button_run rs b) = button_event b"
  by (induction rs) (simp_all add: button_poll_event)

lemma samples_of_Cons: "samples_of (r # rs) = (if r < 0 then samples_of rs else (r \<noteq> 0) # samples_of rs)"
  by (simp add: samples_of_def)

lemma button_run_refines: "button_refines (samples_of rs) (button_run rs (button_boot e))"
proof (induction rs)
  case Nil
  show ?case by (simp add: button_refines_def button_boot_def samples_of_def)
next
  case (Cons r rs)
  show ?case
  proof (cases "r < 0")
    case True
    with Cons show ?thesis by (simp add: samples_of_Cons button_poll_def)
  next
    case False
    with Cons button_poll_refines(1) [OF Cons, of r 0] show ?thesis by (simp add: samples_of_Cons)
  qed
qed

section \<open>The whole table\<close>

fun buttons_run :: "(nat \<Rightarrow> int) list \<Rightarrow> app_button list \<Rightarrow> app_button list" where
  "buttons_run [] bs = bs"
| "buttons_run (p # ps) bs = snd (app_motor_buttons_poll p (buttons_run ps bs))"

definition readings_of :: "nat \<Rightarrow> (nat \<Rightarrow> int) list \<Rightarrow> int list" where
  "readings_of i ps = List.map (\<lambda>p. p i) ps"

lemma buttons_poll_loop_snd:
  "snd (buttons_poll_loop readings i events bs) =
     List.map (\<lambda>(k, b). snd (button_poll (readings k) (0, b))) (List.enumerate i bs)"
proof (induction bs arbitrary: i events)
  case (Cons b bs)
  then show ?case
    by (simp add: Let_def case_prod_beta button_poll_snd [of _ events])
qed simp

lemma buttons_poll_nth:
  "k < length bs \<Longrightarrow>
     snd (app_motor_buttons_poll readings bs) ! k = snd (button_poll (readings k) (0, bs ! k))"
  by (simp add: app_motor_buttons_poll_def buttons_poll_loop_snd nth_enumerate_eq)

lemma buttons_poll_length [simp]: "length (snd (app_motor_buttons_poll readings bs)) = length bs"
  by (simp add: app_motor_buttons_poll_def buttons_poll_loop_snd)

lemma buttons_run_length [simp]: "length (buttons_run ps bs) = length bs"
  by (induction ps) simp_all

lemma buttons_run_nth:
  "k < length bs \<Longrightarrow> buttons_run ps bs ! k = button_run (readings_of k ps) (bs ! k)"
  by (induction ps) (simp_all add: readings_of_def buttons_poll_nth)

lemma buttons_boot_length [simp]: "length buttons_boot = 4"
  by (simp add: buttons_boot_def)

lemma less_4_cases: "k < 4 \<Longrightarrow> k = 0 \<or> k = 1 \<or> k = 2 \<or> k = (3 :: nat)"
  by arith

lemma buttons_boot_nth: "k < 4 \<Longrightarrow> buttons_boot ! k = button_boot (push_bit k 1)"
  by (auto dest!: less_4_cases simp: buttons_boot_def c_def)

lemma buttons_run_boot:
  "k < 4 \<Longrightarrow> buttons_run ps buttons_boot ! k = button_run (readings_of k ps) (button_boot (push_bit k 1))"
  by (simp add: buttons_run_nth buttons_boot_nth)

lemma buttons_run_four:
  "buttons_run ps buttons_boot =
     List.map (\<lambda>k. button_run (readings_of k ps) (button_boot (push_bit k 1))) [0, 1, 2, 3]"
  by (rule nth_equalityI) (auto simp: buttons_run_boot nth_Cons' dest!: less_4_cases)

text \<open>The press edge the contract promises for button \<open>k\<close> at poll \<open>p\<close> after the history \<open>ps\<close>.\<close>

definition button_edge :: "nat \<Rightarrow> (nat \<Rightarrow> int) \<Rightarrow> (nat \<Rightarrow> int) list \<Rightarrow> bool" where
  "button_edge k p ps \<longleftrightarrow> debounced (samples_of (readings_of k (p # ps)))
     \<and> \<not> debounced (samples_of (readings_of k ps))"

lemma button_poll_fst:
  "fst (button_poll (p k) (events, button_run (readings_of k ps) (button_boot (push_bit k 1)))) =
     (if button_edge k p ps then events OR push_bit k 1 else events)"
proof (cases "p k < 0")
  case True
  then show ?thesis
    by (simp add: button_poll_def button_edge_def readings_of_def samples_of_Cons)
next
  case False
  have e: "button_event (button_boot e) = e" for e by (simp add: button_boot_def)
  have r: "readings_of k (p # ps) = p k # readings_of k ps" by (simp add: readings_of_def)
  show ?thesis
    using button_poll_refines(2) [OF button_run_refines, where r = "p k" and rs1 = "readings_of k ps" and events = events] False
    by (simp add: button_edge_def r samples_of_Cons e)
qed

lemma buttons_poll_events:
  "fst (app_motor_buttons_poll p (buttons_run ps buttons_boot)) =
     (if button_edge 0 p ps then APP_BUTTON_EVENT_START else 0)
     OR (if button_edge 1 p ps then APP_BUTTON_EVENT_STOP else 0)
     OR (if button_edge 2 p ps then APP_BUTTON_EVENT_DIRECTION else 0)
     OR (if button_edge 3 p ps then APP_BUTTON_EVENT_RESET else 0)"
proof -
  have n: "Suc (Suc 0) = 2" "Suc 2 = 3" by simp_all
  show ?thesis
    unfolding buttons_run_four app_motor_buttons_poll_def
    by (simp add: Let_def case_prod_beta c_def n button_poll_fst [of p 0, simplified]
        button_poll_fst [of p 1, simplified] button_poll_fst [of p 2, simplified]
        button_poll_fst [of p 3, simplified])
qed

section \<open>Properties\<close>

text \<open>C38. Debouncing is exact: after any history of polls, the events of the next poll are precisely
  the press edges of the debounced inputs, where an input is debounced to the value of its last three
  consecutive equal valid samples (a failed read is no sample). So one press gives one event and a
  disturbance shorter than three samples gives none.\<close>

theorem buttons_events_exact:
  "(fst (app_motor_buttons_poll p (buttons_run ps buttons_boot)) AND APP_BUTTON_EVENT_START \<noteq> 0
      \<longleftrightarrow> button_edge 0 p ps)
   \<and> (fst (app_motor_buttons_poll p (buttons_run ps buttons_boot)) AND APP_BUTTON_EVENT_STOP \<noteq> 0
      \<longleftrightarrow> button_edge 1 p ps)
   \<and> (fst (app_motor_buttons_poll p (buttons_run ps buttons_boot)) AND APP_BUTTON_EVENT_DIRECTION \<noteq> 0
      \<longleftrightarrow> button_edge 2 p ps)
   \<and> (fst (app_motor_buttons_poll p (buttons_run ps buttons_boot)) AND APP_BUTTON_EVENT_RESET \<noteq> 0
      \<longleftrightarrow> button_edge 3 p ps)"
  by (simp add: buttons_poll_events c_def)

text \<open>The button state reported to the other core is the set of debounced inputs, one bit per
  button, for every history of polls.\<close>

theorem buttons_state_exact:
  "app_motor_buttons_get_state (buttons_run ps buttons_boot) =
     (if debounced (samples_of (readings_of 0 ps)) then 1 else 0)
     OR (if debounced (samples_of (readings_of 1 ps)) then 2 else 0)
     OR (if debounced (samples_of (readings_of 2 ps)) then 4 else 0)
     OR (if debounced (samples_of (readings_of 3 ps)) then 8 else 0)"
proof -
  have st: "button_stable (button_run rs (button_boot e)) = debounced (samples_of rs)" for rs e
    using button_run_refines [of rs e] by (simp add: button_refines_def)
  have ev: "button_event (button_boot e) = e" for e by (simp add: button_boot_def)
  show ?thesis
    by (simp add: buttons_run_four app_motor_buttons_get_state_def st ev)
qed

end
