(* ===== verification/Motor_Potentiometer.thy ===== *)
theory Motor_Potentiometer
  imports Motor_Control
begin

unbundle bit_operations_syntax

text \<open>
  The speed potentiometer of the Cortex-M4, \<open>app_m4/src/motor_potentiometer.c\<close>: one ADC channel, a
  first-order filter in integer arithmetic, the scaling to a duty in permille and a dead band.

  The record \<open>potentiometer\<close> holds the module's static variables; the filter is a 32-bit signed
  integer, here an \<open>int\<close> that the invariant keeps between 0 and 4095. C's division of signed integers
  truncates towards zero (\<open>sdiv\<close>). The answers of the ADC driver are arguments.
\<close>

section \<open>Data\<close>

definition POTENTIOMETER_ADC_MAX :: u16 where [c_def]: "POTENTIOMETER_ADC_MAX = 4095"
definition POTENTIOMETER_FILTER_DIVISOR :: int where [c_def]: "POTENTIOMETER_FILTER_DIVISOR = 8"
definition POTENTIOMETER_DEADBAND_PERMILLE :: u16 where [c_def]: "POTENTIOMETER_DEADBAND_PERMILLE = 4"

record potentiometer =
  potentiometer_filtered_raw :: int
  potentiometer_raw :: u16
  potentiometer_duty :: u16
  potentiometer_filter_ready :: bool

definition potentiometer_boot :: potentiometer where
  "potentiometer_boot = \<lparr>potentiometer_filtered_raw = 0, potentiometer_raw = 0,
     potentiometer_duty = APP_MOTOR_DUTY_MIN_PERMILLE, potentiometer_filter_ready = False\<rparr>"

section \<open>Operations\<close>

definition potentiometer_raw_to_duty :: "u16 \<Rightarrow> u16" where
  "potentiometer_raw_to_duty raw =
     (let range = ucast (APP_MOTOR_DUTY_MAX_PERMILLE - APP_MOTOR_DUTY_MIN_PERMILLE) :: u32
      in APP_MOTOR_DUTY_MIN_PERMILLE + ucast (((ucast raw :: u32) * range) div ucast POTENTIOMETER_ADC_MAX))"

text \<open>The arguments are the answers of \<open>adc_is_ready_dt\<close> and \<open>adc_channel_setup_dt\<close>.\<close>

definition app_motor_potentiometer_init :: "bool \<Rightarrow> int \<Rightarrow> potentiometer \<Rightarrow> int \<times> potentiometer" where
  "app_motor_potentiometer_init adc_ready setup_ret p =
     (if \<not> adc_ready then (- ENODEV, p)
      else if setup_ret < 0 then (setup_ret, p)
      else (0, p\<lparr>potentiometer_filter_ready := False\<rparr>))"

text \<open>The arguments are the answers of \<open>adc_sequence_init_dt\<close> and \<open>adc_read_dt\<close> and the sample the
  latter stores; the second result is \<open>*duty_permille\<close>, which an error leaves unwritten (\<open>None\<close>).\<close>

definition app_motor_potentiometer_poll ::
  "int \<Rightarrow> int \<Rightarrow> u16 \<Rightarrow> potentiometer \<Rightarrow> int \<times> u16 option \<times> potentiometer" where
  "app_motor_potentiometer_poll sequence_ret read_ret sample p =
     (if sequence_ret < 0 then (sequence_ret, None, p)
      else if read_ret < 0 then (read_ret, None, p)
      else
        let sample = (if POTENTIOMETER_ADC_MAX < sample then POTENTIOMETER_ADC_MAX else sample);
            p = p\<lparr>potentiometer_raw := sample\<rparr>;
            p = (if \<not> potentiometer_filter_ready p
                 then p\<lparr>potentiometer_filtered_raw := uint sample, potentiometer_filter_ready := True\<rparr>
                 else p\<lparr>potentiometer_filtered_raw := potentiometer_filtered_raw p
                          + (uint sample - potentiometer_filtered_raw p) sdiv POTENTIOMETER_FILTER_DIVISOR\<rparr>);
            new_duty = potentiometer_raw_to_duty (u16_of_int (potentiometer_filtered_raw p));
            difference = (if potentiometer_duty p < new_duty then new_duty - potentiometer_duty p
                          else potentiometer_duty p - new_duty);
            p = (if POTENTIOMETER_DEADBAND_PERMILLE \<le> difference
                 then p\<lparr>potentiometer_duty := new_duty\<rparr> else p)
        in (0, Some (potentiometer_duty p), p))"

definition app_motor_potentiometer_get_raw :: "potentiometer \<Rightarrow> u16" where
  "app_motor_potentiometer_get_raw p = potentiometer_raw p"

section \<open>Scaling and filter\<close>

lemma sdiv_8: "d sdiv 8 = (if d < 0 then - ((- d) div 8) else d div (8 :: int))"
  by (simp add: signed_divide_int_def sgn_if)

lemma raw_to_duty_unat:
  assumes "unat raw \<le> 4095"
  shows "unat (potentiometer_raw_to_duty raw) = 800 + unat raw * 200 div 4095"
proof -
  have "unat ((ucast raw :: u32) * 200) = unat raw * 200"
    using assms by (simp add: unat_word_ariths)
  then have "unat (((ucast raw :: u32) * 200) div 4095) = unat raw * 200 div 4095"
    by (simp add: unat_div_distrib)
  moreover have "unat raw * 200 div 4095 \<le> 4095 * 200 div 4095"
    using assms by (intro div_le_mono) simp
  ultimately show ?thesis
    by (simp add: potentiometer_raw_to_duty_def c_def Let_def unat_word_ariths unsigned_ucast_eq
        take_bit_eq_mod)
qed

lemma raw_to_duty_bounds:
  assumes "unat raw \<le> 4095"
  shows "800 \<le> unat (potentiometer_raw_to_duty raw)" "unat (potentiometer_raw_to_duty raw) \<le> 1000"
proof -
  have "unat raw * 200 div 4095 \<le> 4095 * 200 div 4095"
    using assms by (intro div_le_mono) simp
  then show "800 \<le> unat (potentiometer_raw_to_duty raw)" "unat (potentiometer_raw_to_duty raw) \<le> 1000"
    using raw_to_duty_unat [OF assms] by simp_all
qed

text \<open>The filter moves towards the sample and never past it.\<close>

lemma filter_between:
  fixes f s :: int
  shows "min f s \<le> f + (s - f) sdiv 8" "f + (s - f) sdiv 8 \<le> max f s"
  by (auto simp: sdiv_8 min_def max_def)

lemma filter_range:
  fixes f s :: int
  assumes "0 \<le> f" "f \<le> 4095" "0 \<le> s" "s \<le> 4095"
  shows "0 \<le> f + (s - f) sdiv 8" "f + (s - f) sdiv 8 \<le> 4095"
  using filter_between [of f s] assms by linarith+

section \<open>Invariant\<close>

definition potentiometer_inv :: "potentiometer \<Rightarrow> bool" where
  "potentiometer_inv p \<longleftrightarrow>
     0 \<le> potentiometer_filtered_raw p \<and> potentiometer_filtered_raw p \<le> 4095
     \<and> unat (potentiometer_raw p) \<le> 4095
     \<and> 800 \<le> unat (potentiometer_duty p) \<and> unat (potentiometer_duty p) \<le> 1000"

lemma potentiometer_boot_inv: "potentiometer_inv potentiometer_boot"
  by (simp add: potentiometer_boot_def potentiometer_inv_def c_def)

lemma potentiometer_init_inv:
  "potentiometer_inv p \<Longrightarrow> potentiometer_inv (snd (app_motor_potentiometer_init r s p))"
  by (simp add: app_motor_potentiometer_init_def potentiometer_inv_def)

text \<open>The filtered value after a successful poll.\<close>

definition clamp_sample :: "u16 \<Rightarrow> u16" where
  "clamp_sample sample = (if POTENTIOMETER_ADC_MAX < sample then POTENTIOMETER_ADC_MAX else sample)"

definition next_filtered :: "u16 \<Rightarrow> potentiometer \<Rightarrow> int" where
  "next_filtered sample p = (if potentiometer_filter_ready p
     then potentiometer_filtered_raw p
            + (uint (clamp_sample sample) - potentiometer_filtered_raw p) sdiv 8
     else uint (clamp_sample sample))"

definition next_duty :: "u16 \<Rightarrow> potentiometer \<Rightarrow> u16" where
  "next_duty sample p =
     (let d = potentiometer_raw_to_duty (u16_of_int (next_filtered sample p))
      in if POTENTIOMETER_DEADBAND_PERMILLE \<le>
            (if potentiometer_duty p < d then d - potentiometer_duty p else potentiometer_duty p - d)
         then d else potentiometer_duty p)"

lemma potentiometer_poll_ok:
  "\<not> a < 0 \<Longrightarrow> \<not> b < 0 \<Longrightarrow> app_motor_potentiometer_poll a b sample p =
     (0, Some (next_duty sample p),
      \<lparr>potentiometer_filtered_raw = next_filtered sample p, potentiometer_raw = clamp_sample sample,
       potentiometer_duty = next_duty sample p, potentiometer_filter_ready = True\<rparr>)"
  by (simp add: app_motor_potentiometer_poll_def next_duty_def next_filtered_def clamp_sample_def Let_def
      POTENTIOMETER_FILTER_DIVISOR_def)

lemma potentiometer_poll_error:
  "a < 0 \<or> b < 0 \<Longrightarrow> fst (app_motor_potentiometer_poll a b sample p) < 0
     \<and> snd (app_motor_potentiometer_poll a b sample p) = (None, p)"
  by (auto simp: app_motor_potentiometer_poll_def)

lemma clamp_sample_bound: "unat (clamp_sample sample) \<le> 4095"
  by (simp add: clamp_sample_def c_def to_nat_simps)

lemma uint_clamp: "0 \<le> uint (clamp_sample sample)" "uint (clamp_sample sample) \<le> 4095"
proof -
  show "0 \<le> uint (clamp_sample sample)" by simp
  have "uint (clamp_sample sample) = int (unat (clamp_sample sample))" by simp
  then show "uint (clamp_sample sample) \<le> 4095"
    using clamp_sample_bound [of sample] by linarith
qed

lemma next_filtered_bound:
  assumes "potentiometer_inv p"
  shows "0 \<le> next_filtered sample p" "next_filtered sample p \<le> 4095"
  using assms uint_clamp [of sample]
    filter_range [of "potentiometer_filtered_raw p" "uint (clamp_sample sample)"]
  by (simp_all add: next_filtered_def potentiometer_inv_def)

lemma unat_u16_of_int: "0 \<le> i \<Longrightarrow> i < 65536 \<Longrightarrow> unat (u16_of_int i) = nat i"
  by (simp add: u16_of_int_def unat_eq_nat_uint uint_word_of_int)

lemma next_duty_bound:
  assumes "potentiometer_inv p"
  shows "800 \<le> unat (next_duty sample p)" "unat (next_duty sample p) \<le> 1000"
proof -
  have "unat (u16_of_int (next_filtered sample p)) \<le> 4095"
    using next_filtered_bound [OF assms, of sample] by (simp add: unat_u16_of_int)
  from raw_to_duty_bounds [OF this]
  show "800 \<le> unat (next_duty sample p)" "unat (next_duty sample p) \<le> 1000"
    using assms by (simp_all add: next_duty_def Let_def potentiometer_inv_def)
qed

lemma potentiometer_poll_inv:
  assumes "potentiometer_inv p"
  shows "potentiometer_inv (snd (snd (app_motor_potentiometer_poll a b sample p)))"
proof (cases "a < 0 \<or> b < 0")
  case True
  with assms potentiometer_poll_error [OF True, of sample p] show ?thesis by simp
next
  case False
  with assms show ?thesis
    by (simp add: potentiometer_poll_ok potentiometer_inv_def next_filtered_bound next_duty_bound
        clamp_sample_bound)
qed

section \<open>Convergence\<close>

text \<open>The distance to a constant sample after \<open>n\<close> polls.\<close>

fun filter_distance :: "nat \<Rightarrow> nat \<Rightarrow> nat" where
  "filter_distance 0 d = d"
| "filter_distance (Suc n) d = filter_distance n (d - d div 8)"

lemma sub_div_mono: "a \<le> b \<Longrightarrow> a - a div 8 \<le> b - b div (8 :: nat)"
proof -
  have "n - n div 8 \<le> Suc n - Suc n div 8" for n :: nat by (simp add: div_Suc diff_le_mono)
  then show "a \<le> b \<Longrightarrow> ?thesis" by (rule lift_Suc_mono_le [where f = "\<lambda>n. n - n div 8"])
qed

lemma filter_distance_mono: "a \<le> b \<Longrightarrow> filter_distance n a \<le> filter_distance n b"
  by (induction n arbitrary: a b) (simp_all add: sub_div_mono)

lemma filter_distance_le: "filter_distance n d \<le> d"
  by (induction n arbitrary: d) (simp, metis diff_le_self filter_distance.simps(2) order_trans)

lemma filter_distance_add: "filter_distance (m + n) d = filter_distance n (filter_distance m d)"
  by (induction m arbitrary: d) simp_all

lemma filter_distance_numeral:
  "filter_distance (numeral k) d = filter_distance (pred_numeral k) (d - d div 8)"
  by (subst numeral_eq_Suc) simp

lemma filter_distance_52: "filter_distance 52 4095 \<le> 7"
  by (simp add: filter_distance_numeral)

lemma filter_distance_small:
  assumes "d \<le> 4095" and "52 \<le> n"
  shows "filter_distance n d \<le> 7"
proof -
  have "filter_distance n d = filter_distance (n - 52) (filter_distance 52 d)"
    using assms(2) filter_distance_add [of 52 "n - 52" d] by simp
  also have "\<dots> \<le> filter_distance 52 d" by (rule filter_distance_le)
  also have "\<dots> \<le> filter_distance 52 4095" by (rule filter_distance_mono [OF assms(1)])
  finally show ?thesis using filter_distance_52 by simp
qed

text \<open>Sequences of polls, oldest first.\<close>

fun potentiometer_run :: "(int \<times> int \<times> u16) list \<Rightarrow> potentiometer \<Rightarrow> potentiometer" where
  "potentiometer_run [] p = p"
| "potentiometer_run ((a, b, sample) # xs) p =
     potentiometer_run xs (snd (snd (app_motor_potentiometer_poll a b sample p)))"

lemma potentiometer_run_inv: "potentiometer_inv p \<Longrightarrow> potentiometer_inv (potentiometer_run xs p)"
  by (induction xs arbitrary: p) (auto simp: potentiometer_poll_inv)

lemma sdiv_8_int: "(- int n) sdiv 8 = - int (n div 8)" "int n sdiv 8 = int (n div 8)"
  by (simp_all add: sdiv_8 zdiv_int)

lemma potentiometer_run_append: "potentiometer_run (xs @ ys) p = potentiometer_run ys (potentiometer_run xs p)"
  by (induction xs p rule: potentiometer_run.induct) simp_all

lemma replicate_Suc': "replicate (Suc n) x = replicate n x @ [x]"
  by (simp add: replicate_append_same)

lemma potentiometer_run_ready:
  "potentiometer_filter_ready p \<Longrightarrow> potentiometer_filter_ready (potentiometer_run xs p)"
proof (induction xs p rule: potentiometer_run.induct)
  case (2 a b sample xs p)
  then show ?case
    using potentiometer_poll_error [of a b sample p] by (cases "a < 0 \<or> b < 0") (auto simp: potentiometer_poll_ok)
qed simp

lemma filter_step_distance:
  fixes f s :: int
  shows "nat \<bar>s - (f + (s - f) sdiv 8)\<bar> = nat \<bar>s - f\<bar> - nat \<bar>s - f\<bar> div 8"
proof (cases "s - f < 0")
  case True
  define n where "n = nat (f - s)"
  have "f = s + int n" using True by (simp add: n_def)
  moreover have "n div 8 \<le> n" by simp
  ultimately show ?thesis by (simp add: sdiv_8_int nat_diff_distrib)
next
  case False
  define n where "n = nat (s - f)"
  have "s = f + int n" using False by (simp add: n_def)
  moreover have "n div 8 \<le> n" by simp
  ultimately show ?thesis by (simp add: sdiv_8_int nat_diff_distrib)
qed

lemma potentiometer_run_distance:
  assumes "potentiometer_inv p" and "potentiometer_filter_ready p" and "unat sample \<le> 4095"
  shows "nat \<bar>uint sample - potentiometer_filtered_raw (potentiometer_run (replicate n (0, 0, sample)) p)\<bar>
           = filter_distance n (nat \<bar>uint sample - potentiometer_filtered_raw p\<bar>)"
  using assms
proof (induction n arbitrary: p)
  case (Suc n)
  let ?p = "snd (snd (app_motor_potentiometer_poll 0 0 sample p))"
  have c: "clamp_sample sample = sample"
    using Suc.prems(3) by (simp add: clamp_sample_def c_def to_nat_simps)
  have "potentiometer_filter_ready ?p" by (simp add: potentiometer_poll_ok)
  with Suc.IH [OF potentiometer_poll_inv [OF Suc.prems(1)] _ Suc.prems(3), of 0 0 sample]
  show ?case
    using Suc.prems(2) by (simp add: potentiometer_poll_ok next_filtered_def c filter_step_distance)
qed simp

section \<open>Properties\<close>

text \<open>After any history of polls with good and failed readings, a successful poll yields a duty
  between 800 and 1000 permille, so the main loop's \<open>app_motor_set_target_duty\<close> always accepts it; a
  failed poll returns the driver's error and leaves the filter alone.\<close>

theorem potentiometer_duty_accepted:
  "(if a < 0 \<or> b < 0
    then \<exists>e < 0. app_motor_potentiometer_poll a b sample (potentiometer_run xs potentiometer_boot)
           = (e, None, potentiometer_run xs potentiometer_boot)
    else \<exists>d p. app_motor_potentiometer_poll a b sample (potentiometer_run xs potentiometer_boot)
             = (0, Some d, p)
           \<and> app_motor_set_target_duty d m = (0, m\<lparr>motor_target_duty_permille := d\<rparr>))"
proof -
  let ?p = "potentiometer_run xs potentiometer_boot"
  have "potentiometer_inv ?p" by (rule potentiometer_run_inv [OF potentiometer_boot_inv])
  from next_duty_bound [OF this, of sample]
  have "app_motor_set_target_duty (next_duty sample ?p) m
      = (0, m\<lparr>motor_target_duty_permille := next_duty sample ?p\<rparr>)"
    by (simp add: app_motor_set_target_duty_def c_def to_nat_simps)
  then show ?thesis
    using potentiometer_poll_error [of a b sample ?p] potentiometer_poll_ok [of a b sample ?p]
    by (cases "app_motor_potentiometer_poll a b sample ?p") auto
qed

text \<open>The filter settles: from any reachable state, 52 successful polls of a constant sample
  (520 ms) bring the filtered value within 7 counts of it, and it stays there. Because the division
  truncates, a value within 7 counts is never corrected further.\<close>

theorem potentiometer_settles:
  assumes "potentiometer_inv p" and "potentiometer_filter_ready p" and "unat sample \<le> 4095"
    and "52 \<le> n"
  shows "\<bar>uint sample - potentiometer_filtered_raw (potentiometer_run (replicate n (0, 0, sample)) p)\<bar> \<le> 7
    \<and> potentiometer_filtered_raw (potentiometer_run (replicate (Suc n) (0, 0, sample)) p)
        = potentiometer_filtered_raw (potentiometer_run (replicate n (0, 0, sample)) p)"
proof -
  have "uint sample = int (unat sample)" by simp
  with assms(3) have "0 \<le> uint sample" "uint sample \<le> 4095" by linarith+
  then have "\<bar>uint sample - potentiometer_filtered_raw p\<bar> \<le> 4095"
    using assms(1) unfolding potentiometer_inv_def by linarith
  then have d: "nat \<bar>uint sample - potentiometer_filtered_raw p\<bar> \<le> 4095" by simp
  have near: "nat \<bar>uint sample - potentiometer_filtered_raw (potentiometer_run (replicate n (0, 0, sample)) p)\<bar> \<le> 7"
    using potentiometer_run_distance [OF assms(1-3), of n] filter_distance_small [OF d assms(4)] by simp
  let ?q = "potentiometer_run (replicate n (0, 0, sample)) p"
  have q: "potentiometer_inv ?q" by (rule potentiometer_run_inv [OF assms(1)])
  have rdy: "potentiometer_filter_ready ?q"
    using assms(2) by (rule potentiometer_run_ready)
  have c: "clamp_sample sample = sample"
    using assms(3) by (simp add: clamp_sample_def c_def to_nat_simps)
  have "(uint sample - potentiometer_filtered_raw ?q) sdiv 8 = 0"
    using near by (auto simp: sdiv_8)
  then have "potentiometer_filtered_raw (potentiometer_run (replicate (Suc n) (0, 0, sample)) p)
      = potentiometer_filtered_raw ?q"
    unfolding replicate_Suc' potentiometer_run_append
    by (simp add: potentiometer_poll_ok next_filtered_def rdy c)
  with near show ?thesis by simp
qed

definition potentiometer_ready0 :: potentiometer where
  "potentiometer_ready0 = potentiometer_run [(0, 0, 100)] potentiometer_boot"

theorem potentiometer_settles_witness:
  "\<bar>uint (4095 :: u16)
     - potentiometer_filtered_raw (potentiometer_run (replicate 60 (0, 0, 4095)) potentiometer_ready0)\<bar> \<le> 7"
proof -
  have "potentiometer_inv potentiometer_ready0"
    unfolding potentiometer_ready0_def by (rule potentiometer_run_inv [OF potentiometer_boot_inv])
  moreover have "potentiometer_filter_ready potentiometer_ready0"
    by (simp add: potentiometer_ready0_def potentiometer_poll_ok)
  ultimately show ?thesis
    using potentiometer_settles [of potentiometer_ready0 4095 60] by simp
qed

end
