(* ===== verification/M4_Main.thy ===== *)
theory M4_Main
  imports M4_Ipc Motor_Buttons Motor_Potentiometer
begin

unbundle bit_operations_syntax

text \<open>
  The main program of the Cortex-M4, \<open>app_m4/src/main.c\<close>: initialisation, the control loop with a
  period of 10 ms, and the status LEDs.

  The record \<open>m4\<close> puts the four modules' states together. One turn of the loop is
  \<open>m4_main_iteration\<close>; what the hardware, the clock and the IPC driver answer during the turn is the
  record \<open>m4_input\<close>. The step relation \<open>m4_step\<close> interleaves the turns with the endpoint callbacks,
  which run in the IPC driver's context and touch the mailbox fields of the link state only.
\<close>

section \<open>State and environment\<close>

definition MOTOR_LOOP_PERIOD_MS :: nat where [c_def]: "MOTOR_LOOP_PERIOD_MS = 10"
definition READY_BLINK_PERIOD_MS :: nat where [c_def]: "READY_BLINK_PERIOD_MS = 500"
definition STOPPING_BLINK_PERIOD_MS :: nat where [c_def]: "STOPPING_BLINK_PERIOD_MS = 100"

record m4 =
  m4_buttons :: "app_button list"
  m4_pot :: potentiometer
  m4_link :: m4_ipc
  m4_motor :: motor

record m4_input =
  in_pins :: "nat \<Rightarrow> int"
  in_adc_sequence_ret :: int
  in_adc_read_ret :: int
  in_adc_sample :: u16
  in_now_command :: u32
  in_now_timeout :: u32
  in_now_publish :: u32
  in_send_ret :: int
  in_uptime_ms :: nat

definition m4_boot :: m4 where
  "m4_boot = \<lparr>m4_buttons = buttons_boot, m4_pot = potentiometer_boot, m4_link = m4_ipc_boot,
     m4_motor = motor_boot\<rparr>"

section \<open>Status LEDs\<close>

text \<open>The answers of the GPIO driver for the blue and the red LED.\<close>

definition status_leds_init :: "bool \<Rightarrow> bool \<Rightarrow> int \<Rightarrow> int \<Rightarrow> bool" where
  "status_leds_init blue_ready red_ready blue_ret red_ret =
     (if \<not> blue_ready \<or> \<not> red_ready then False
      else if blue_ret < 0 then False
      else if red_ret < 0 then False
      else True)"

text \<open>The levels written to the blue and the red LED; \<open>uptime_ms\<close> is \<open>k_uptime_get()\<close>.\<close>

definition status_leds_update :: "nat \<Rightarrow> motor \<Rightarrow> bool \<times> bool" where
  "status_leds_update uptime_ms m =
     (case app_motor_get_state m of
        APP_MOTOR_STATE_DISABLED \<Rightarrow> (False, False)
      | APP_MOTOR_STATE_READY \<Rightarrow> ((uptime_ms div READY_BLINK_PERIOD_MS) mod 2 \<noteq> 0, False)
      | APP_MOTOR_STATE_RUNNING \<Rightarrow> (True, False)
      | APP_MOTOR_STATE_STOPPING \<Rightarrow> ((uptime_ms div STOPPING_BLINK_PERIOD_MS) mod 2 \<noteq> 0, False)
      | APP_MOTOR_STATE_FAULT \<Rightarrow> (False, True))"

section \<open>The program\<close>

text \<open>The calls before the loop, in order. The first result tells whether the loop is entered; otherwise
  the program sleeps forever. The arguments are the drivers' answers.\<close>

definition m4_main_init ::
  "motor_drv \<Rightarrow> bool \<times> bool \<times> bool \<Rightarrow> (nat \<Rightarrow> bool) \<Rightarrow> (nat \<Rightarrow> int) \<Rightarrow> bool \<Rightarrow> int
     \<Rightarrow> bool \<Rightarrow> int \<Rightarrow> int \<Rightarrow> m4 \<Rightarrow> bool \<times> m4" where
  "m4_main_init drv motor_ready buttons_ready buttons_cfg adc_ready adc_ret
     ipc_ready ipc_open ipc_register w =
     (let (motor_ret, m) = (case motor_ready of (a, b, c) \<Rightarrow> app_motor_init drv a b c (m4_motor w));
          (buttons_ret, bs) = app_motor_buttons_init buttons_ready buttons_cfg (m4_buttons w);
          (potentiometer_ret, p) = app_motor_potentiometer_init adc_ready adc_ret (m4_pot w);
          (ipc_ret, s) = app_ipc_init_m4 ipc_ready ipc_open ipc_register (m4_link w)
      in (\<not> (motor_ret < 0 \<or> buttons_ret < 0 \<or> potentiometer_ret < 0),
          \<lparr>m4_buttons = bs, m4_pot = p, m4_link = s, m4_motor = m\<rparr>))"

text \<open>The reaction to the button events, lines 113 to 134.\<close>

definition m4_handle_events :: "motor_drv \<Rightarrow> u32 \<Rightarrow> m4_ipc \<times> motor \<Rightarrow> m4_ipc \<times> motor" where
  "m4_handle_events drv events sm =
     (case sm of (s, m) \<Rightarrow>
        if events AND APP_BUTTON_EVENT_STOP \<noteq> 0
        then (app_ipc_latch_remote_stop s, snd (app_motor_stop m))
        else if events AND APP_BUTTON_EVENT_RESET \<noteq> 0
        then (app_ipc_clear_remote_stop s, snd (app_motor_reset drv m))
        else if \<not> app_ipc_is_remote_mode s
        then (let m = (if events AND APP_BUTTON_EVENT_DIRECTION \<noteq> 0
                       then snd (app_motor_toggle_direction m) else m);
                  m = (if events AND APP_BUTTON_EVENT_START \<noteq> 0
                       then snd (app_motor_start drv m) else m)
              in (s, m))
        else (s, m))"

text \<open>The duty requested by the potentiometer, lines 103 to 110.\<close>

definition m4_handle_duty :: "motor_drv \<Rightarrow> int \<Rightarrow> u16 option \<Rightarrow> m4_ipc \<times> motor \<Rightarrow> m4_ipc \<times> motor" where
  "m4_handle_duty drv ret requested_duty sm =
     (case sm of (s, m) \<Rightarrow>
        if ret < 0 then (s, app_motor_fail drv ret m)
        else if \<not> app_ipc_is_remote_mode s
        then (case requested_duty of
                Some d \<Rightarrow> (s, snd (app_motor_set_target_duty d m))
              | None \<Rightarrow> (s, m))
        else (s, m))"

text \<open>One turn of the loop. The results are the new state, the messages handed to the IPC driver and
  the LED levels written.\<close>

definition m4_main_iteration ::
  "motor_drv \<Rightarrow> bool \<Rightarrow> m4_input \<Rightarrow> m4 \<Rightarrow> m4 \<times> u8 list option \<times> u8 list option \<times> (bool \<times> bool) option" where
  "m4_main_iteration drv leds_ready i w =
     (let (events, bs) = app_motor_buttons_poll (in_pins i) (m4_buttons w);
          (ret, requested_duty, p) = app_motor_potentiometer_poll (in_adc_sequence_ret i)
                                       (in_adc_read_ret i) (in_adc_sample i) (m4_pot w);
          (sm, pong) = app_ipc_process_m4 drv (in_now_command i) (in_now_timeout i) (in_send_ret i)
                         (m4_link w, m4_motor w);
          sm = m4_handle_duty drv ret requested_duty sm;
          (s, m) = m4_handle_events drv events sm;
          m = snd (app_motor_process drv (of_nat MOTOR_LOOP_PERIOD_MS) m);
          (s, state) = app_ipc_publish_motor_state (in_now_publish i) (app_motor_buttons_get_state bs)
                         (app_motor_potentiometer_get_raw p) (of_nat MOTOR_LOOP_PERIOD_MS) s m;
          leds = (if leds_ready then Some (status_leds_update (in_uptime_ms i) m) else None)
      in (\<lparr>m4_buttons = bs, m4_pot = p, m4_link = s, m4_motor = m\<rparr>, pong, state, leds))"

section \<open>Steps\<close>

inductive m4_step :: "motor_drv \<Rightarrow> m4 \<Rightarrow> m4 \<Rightarrow> bool" for drv where
  turn: "m4_step drv w (fst (m4_main_iteration drv leds i w))"
| bound: "m4_step drv w (w\<lparr>m4_link := endpoint_bound_callback_m4 (m4_link w)\<rparr>)"
| unbound: "m4_step drv w (w\<lparr>m4_link := endpoint_unbound_callback_m4 (m4_link w)\<rparr>)"
| received: "m4_step drv w (w\<lparr>m4_link := endpoint_received_m4 data (m4_link w)\<rparr>)"

inductive_cases m4_stepE: "m4_step drv w w'"

inductive m4_reachable :: "motor_drv \<Rightarrow> m4 \<Rightarrow> bool" for drv where
  start: "m4_main_init drv a b c d e f g h m4_boot = (True, w) \<Longrightarrow> m4_reachable drv w"
| step: "m4_reachable drv w \<Longrightarrow> m4_step drv w w' \<Longrightarrow> m4_reachable drv w'"

section \<open>Invariant\<close>

definition m4_inv :: "m4 \<Rightarrow> bool" where
  "m4_inv w \<longleftrightarrow> motor_inv (m4_motor w) \<and> m4_ipc_inv (m4_link w) \<and> potentiometer_inv (m4_pot w)"

lemma m4_main_init_inv:
  "m4_inv w \<Longrightarrow> m4_inv (snd (m4_main_init drv a b c d e f g h w))"
  by (cases a) (auto simp: m4_main_init_def m4_inv_def Let_def case_prod_beta app_motor_init_inv
      potentiometer_init_inv app_ipc_init_m4_def m4_ipc_inv_def)

lemma m4_boot_inv: "m4_inv m4_boot"
  by (simp add: m4_boot_def m4_inv_def motor_boot_inv m4_ipc_boot_inv potentiometer_boot_inv)

lemma m4_handle_duty_inv:
  assumes "m4_ipc_inv (fst sm)" and "motor_inv (snd sm)"
  shows "m4_ipc_inv (fst (m4_handle_duty drv ret d sm))"
    and "motor_inv (snd (m4_handle_duty drv ret d sm))"
  using assms by (cases sm; auto simp: m4_handle_duty_def app_motor_fail_inv
      app_motor_set_target_duty_inv split: option.split)+

lemma m4_handle_events_inv:
  assumes "m4_ipc_inv (fst sm)" and "motor_inv (snd sm)"
  shows "m4_ipc_inv (fst (m4_handle_events drv events sm))"
    and "motor_inv (snd (m4_handle_events drv events sm))"
  using assms by (cases sm; simp add: m4_handle_events_def app_ipc_latch_inv app_motor_stop_inv
      app_motor_reset_inv app_motor_toggle_direction_inv app_motor_start_inv Let_def)+

text \<open>The turn, component by component.\<close>

definition turn_sm :: "motor_drv \<Rightarrow> m4_input \<Rightarrow> m4 \<Rightarrow> m4_ipc \<times> motor" where
  "turn_sm drv i w =
     m4_handle_duty drv
       (fst (app_motor_potentiometer_poll (in_adc_sequence_ret i) (in_adc_read_ret i) (in_adc_sample i) (m4_pot w)))
       (fst (snd (app_motor_potentiometer_poll (in_adc_sequence_ret i) (in_adc_read_ret i) (in_adc_sample i) (m4_pot w))))
       (fst (app_ipc_process_m4 drv (in_now_command i) (in_now_timeout i) (in_send_ret i) (m4_link w, m4_motor w)))"

definition turn_events :: "m4_input \<Rightarrow> m4 \<Rightarrow> u32" where
  "turn_events i w = fst (app_motor_buttons_poll (in_pins i) (m4_buttons w))"

lemma m4_turn_motor:
  "m4_motor (fst (m4_main_iteration drv leds i w)) =
     snd (app_motor_process drv 10 (snd (m4_handle_events drv (turn_events i w) (turn_sm drv i w))))"
  by (simp add: m4_main_iteration_def turn_sm_def turn_events_def Let_def case_prod_beta MOTOR_LOOP_PERIOD_MS_def)

lemma m4_turn_pot:
  "m4_pot (fst (m4_main_iteration drv leds i w)) =
     snd (snd (app_motor_potentiometer_poll (in_adc_sequence_ret i) (in_adc_read_ret i) (in_adc_sample i) (m4_pot w)))"
  by (simp add: m4_main_iteration_def Let_def case_prod_beta)

lemma publish_keeps:
  "m4_remote_mode (fst (app_ipc_publish_motor_state now b p l s m)) = m4_remote_mode s"
  "m4_remote_stop_latched (fst (app_ipc_publish_motor_state now b p l s m)) = m4_remote_stop_latched s"
  "m4_command_pending (fst (app_ipc_publish_motor_state now b p l s m)) = m4_command_pending s"
  "m4_remote_timed_out (fst (app_ipc_publish_motor_state now b p l s m)) = m4_remote_timed_out s"
  by (simp_all add: app_ipc_publish_motor_state_def Let_def)

lemma m4_turn_link:
  "\<exists>now b p l m. m4_link (fst (m4_main_iteration drv leds i w)) =
     fst (app_ipc_publish_motor_state now b p l
       (fst (m4_handle_events drv (turn_events i w) (turn_sm drv i w))) m)"
  by (simp add: m4_main_iteration_def turn_sm_def turn_events_def Let_def case_prod_beta) blast

lemma m4_turn_inv:
  assumes "m4_inv w"
  shows "m4_inv (fst (m4_main_iteration drv leds i w))"
proof -
  have "m4_ipc_inv (fst (turn_sm drv i w))" "motor_inv (snd (turn_sm drv i w))"
    unfolding turn_sm_def using assms
    by (auto simp: m4_inv_def intro!: m4_handle_duty_inv app_ipc_process_m4_inv)
  note sm = m4_handle_events_inv [OF this, of drv "turn_events i w"]
  obtain now b p l m where "m4_link (fst (m4_main_iteration drv leds i w)) =
     fst (app_ipc_publish_motor_state now b p l
       (fst (m4_handle_events drv (turn_events i w) (turn_sm drv i w))) m)"
    using m4_turn_link [of drv leds i w] by blast
  with sm assms show ?thesis
    by (simp add: m4_inv_def m4_turn_motor m4_turn_pot app_motor_process_inv app_ipc_publish_inv
        potentiometer_poll_inv)
qed

lemma m4_step_inv: "m4_step drv w w' \<Longrightarrow> m4_inv w \<Longrightarrow> m4_inv w'"
  by (erule m4_stepE)
    (simp_all add: m4_turn_inv, simp_all add: m4_inv_def endpoint_callbacks_m4_inv endpoint_received_m4_inv)

lemma m4_reachable_inv: "m4_reachable drv w \<Longrightarrow> m4_inv w"
proof (induction rule: m4_reachable.induct)
  case (start a b c d e f g h w)
  then show ?case using m4_main_init_inv [OF m4_boot_inv, of drv a b c d e f g h] by simp
qed (auto intro: m4_step_inv)

section \<open>Behaviour of a turn\<close>

lemma app_motor_process_not_running:
  "motor_state m \<noteq> APP_MOTOR_STATE_RUNNING \<Longrightarrow>
     motor_state (snd (app_motor_process drv e m)) \<noteq> APP_MOTOR_STATE_RUNNING"
  using motor_ramp_towards_state(1) [of drv 0 "motor_ramp_step (ucast (motor_stop_ramp_permille_per_second m)) e" m]
  by (auto simp: app_motor_process_def Let_def case_prod_beta motor_make_safe_state)

lemma app_motor_process_fault:
  "motor_state m = APP_MOTOR_STATE_FAULT \<Longrightarrow> app_motor_process drv e m = (0, m)"
  by (simp add: app_motor_process_def)

lemma app_motor_stop_not_running: "motor_state (snd (app_motor_stop m)) \<noteq> APP_MOTOR_STATE_RUNNING"
  by (simp add: app_motor_stop_def)

lemma m4_turn_remote:
  "m4_remote_mode (m4_link (fst (m4_main_iteration drv leds i w))) = m4_remote_mode (fst (turn_sm drv i w))"
  "m4_remote_stop_latched (m4_link (fst (m4_main_iteration drv leds i w))) =
     m4_remote_stop_latched (fst (m4_handle_events drv (turn_events i w) (turn_sm drv i w)))"
proof -
  obtain now b p l m where e: "m4_link (fst (m4_main_iteration drv leds i w)) =
     fst (app_ipc_publish_motor_state now b p l
       (fst (m4_handle_events drv (turn_events i w) (turn_sm drv i w))) m)"
    using m4_turn_link [of drv leds i w] by blast
  have "m4_remote_mode (fst (m4_handle_events drv ev sm)) = m4_remote_mode (fst sm)" for ev sm
    by (simp add: m4_handle_events_def app_ipc_latch_remote_stop_def app_ipc_clear_remote_stop_def
        Let_def split: prod.split)
  then show "m4_remote_mode (m4_link (fst (m4_main_iteration drv leds i w))) = m4_remote_mode (fst (turn_sm drv i w))"
    by (simp add: e publish_keeps)
  show "m4_remote_stop_latched (m4_link (fst (m4_main_iteration drv leds i w))) =
     m4_remote_stop_latched (fst (m4_handle_events drv (turn_events i w) (turn_sm drv i w)))"
    by (simp add: e publish_keeps)
qed

lemma app_ipc_process_m4_sm:
  "snd (fst (app_ipc_process_m4 drv a b r sm)) =
     snd (process_remote_timeout b (process_pending_command drv a sm))"
  "m4_remote_mode (fst (fst (app_ipc_process_m4 drv a b r sm))) =
     m4_remote_mode (fst (process_remote_timeout b (process_pending_command drv a sm)))"
  "m4_remote_stop_latched (fst (fst (app_ipc_process_m4 drv a b r sm))) =
     m4_remote_stop_latched (fst (process_remote_timeout b (process_pending_command drv a sm)))"
  by (simp_all add: app_ipc_process_m4_def Let_def case_prod_beta)

lemma process_remote_timeout_keeps:
  "m4_remote_mode (fst (process_remote_timeout b (s, m))) = m4_remote_mode s"
  "m4_remote_stop_latched (fst (process_remote_timeout b (s, m))) = m4_remote_stop_latched s"
  by (simp_all add: process_remote_timeout_def)

lemma process_remote_timeout_running:
  "motor_state (snd (process_remote_timeout b (s, m))) = APP_MOTOR_STATE_RUNNING \<Longrightarrow>
     motor_state m = APP_MOTOR_STATE_RUNNING"
  by (auto simp: process_remote_timeout_def app_motor_stop_def split: if_splits)

text \<open>What the turn does to the latch and to the run state while \<open>plain\<close> commands arrive.\<close>

definition plain_command :: "app_motor_command_message \<Rightarrow> bool" where
  "plain_command message \<longleftrightarrow>
     command_words message ! APP_MOTOR_COMMAND_MODE \<noteq> 0
     \<and> command_words message ! APP_MOTOR_COMMAND_CONTROL AND APP_MOTOR_COMMAND_RESET_FAULT = 0
     \<and> command_words message ! APP_MOTOR_COMMAND_CONTROL AND APP_MOTOR_COMMAND_QUICK_STOP = 0"

lemma set_direction_running:
  "motor_state (snd (app_motor_set_direction d m)) = motor_state m"
  by (simp add: app_motor_set_direction_def)

lemma motor_setters_state:
  "motor_state (snd (app_motor_set_ramps a d m)) = motor_state m"
  "motor_state (snd (app_motor_set_target_duty x m)) = motor_state m"
  by (simp_all add: app_motor_set_ramps_def app_motor_set_target_duty_def)

lemma apply_plain_latched:
  assumes plain: "plain_command message" and latched: "m4_remote_stop_latched s"
  shows "m4_remote_stop_latched (fst (snd (apply_remote_command drv now message (s, m))))"
    and "m4_remote_mode (fst (snd (apply_remote_command drv now message (s, m))))"
    and "motor_state (snd (snd (apply_remote_command drv now message (s, m)))) = APP_MOTOR_STATE_RUNNING
           \<Longrightarrow> motor_state m = APP_MOTOR_STATE_RUNNING"
proof -
  have nz: "command_words message ! APP_MOTOR_COMMAND_MODE \<noteq> 0"
    using plain by (simp add: plain_command_def)
  show "m4_remote_stop_latched (fst (snd (apply_remote_command drv now message (s, m))))"
    and "m4_remote_mode (fst (snd (apply_remote_command drv now message (s, m))))"
    using plain latched
    by (simp_all add: apply_remote_command_def Let_def case_prod_beta apply_remote_control_ipc plain_command_def)
  have fld: "m4_remote_stop_latched (s\<lparr>m4_remote_mode := True, m4_remote_timed_out := False,
     m4_remote_timeout_ms := t, m4_remote_command_timestamp_ms := now\<rparr>)" for t
    using latched by simp
  have ctl: "motor_state (snd (snd (apply_remote_control drv (command_words message ! 0) (s', m'))))
        = APP_MOTOR_STATE_RUNNING \<Longrightarrow> motor_state m' = APP_MOTOR_STATE_RUNNING"
    and ret: "fst (apply_remote_control drv (command_words message ! 0) (s', m')) \<noteq> 0
        \<or> command_words message ! 0 AND APP_MOTOR_COMMAND_RUN = 0" if "m4_remote_stop_latched s'" for s' m'
    using plain that
    by (auto simp: apply_remote_control_def Let_def case_prod_beta plain_command_def set_direction_running
        app_motor_stop_not_running split: if_splits)
  show "motor_state m = APP_MOTOR_STATE_RUNNING"
    if r: "motor_state (snd (snd (apply_remote_command drv now message (s, m)))) = APP_MOTOR_STATE_RUNNING"
    using r nz ret [OF fld]
    by (auto simp: apply_remote_command_def Let_def case_prod_beta motor_setters_state
        dest!: ctl [OF fld] split: if_splits)
qed

lemma process_pending_latched:
  assumes "m4_command_pending s \<Longrightarrow> plain_command (m4_pending_command s)"
    and "m4_remote_stop_latched s" and "m4_remote_mode s"
  shows "m4_remote_stop_latched (fst (process_pending_command drv now (s, m)))"
    and "m4_remote_mode (fst (process_pending_command drv now (s, m)))"
    and "motor_state (snd (process_pending_command drv now (s, m))) = APP_MOTOR_STATE_RUNNING
           \<Longrightarrow> motor_state m = APP_MOTOR_STATE_RUNNING"
  using assms apply_plain_latched [of "m4_pending_command s" "s\<lparr>m4_command_pending := False\<rparr>" drv now m]
  by (auto simp: process_pending_command_def split: if_splits)

lemma turn_sm_latched:
  assumes "m4_command_pending (m4_link w) \<Longrightarrow> plain_command (m4_pending_command (m4_link w))"
    and "m4_remote_stop_latched (m4_link w)" and "m4_remote_mode (m4_link w)"
  shows "m4_remote_stop_latched (fst (turn_sm drv i w))"
    and "m4_remote_mode (fst (turn_sm drv i w))"
    and "motor_state (snd (turn_sm drv i w)) = APP_MOTOR_STATE_RUNNING
           \<Longrightarrow> motor_state (m4_motor w) = APP_MOTOR_STATE_RUNNING"
proof -
  let ?q = "process_pending_command drv (in_now_command i) (m4_link w, m4_motor w)"
  note q = process_pending_latched [OF assms, where drv = drv and now = "in_now_command i" and m = "m4_motor w"]
  obtain s1 m1 where q': "?q = (s1, m1)" by fastforce
  let ?p = "fst (app_ipc_process_m4 drv (in_now_command i) (in_now_timeout i) (in_send_ret i)
    (m4_link w, m4_motor w))"
  have p: "m4_remote_stop_latched (fst ?p)" "m4_remote_mode (fst ?p)"
    using q by (simp_all add: app_ipc_process_m4_sm q' process_remote_timeout_keeps)
  have r: "motor_state (m4_motor w) = APP_MOTOR_STATE_RUNNING"
    if "motor_state (snd ?p) = APP_MOTOR_STATE_RUNNING"
    using that q(3) by (auto simp: app_ipc_process_m4_sm q' dest: process_remote_timeout_running)
  obtain s2 m2 where p': "?p = (s2, m2)" by fastforce
  show "m4_remote_stop_latched (fst (turn_sm drv i w))" "m4_remote_mode (fst (turn_sm drv i w))"
    and "motor_state (snd (turn_sm drv i w)) = APP_MOTOR_STATE_RUNNING
           \<Longrightarrow> motor_state (m4_motor w) = APP_MOTOR_STATE_RUNNING"
    using p r by (auto simp: turn_sm_def m4_handle_duty_def p' app_ipc_is_remote_mode_def app_motor_fail_def
        split: if_splits)
qed

section \<open>Properties\<close>

text \<open>C3. In every state the program can reach, with any inputs, driver failures and messages in any
  order, the motor controller's invariant holds, the bridge was never shorted, a STOP latch or a
  remote timeout exists only in remote mode, and a pending command is a valid one.\<close>

theorem m4_reachable_safe:
  assumes "m4_reachable drv w"
  shows "motor_inv (m4_motor w) \<and> bridge_safe (motor_io (m4_motor w))
    \<and> (m4_remote_stop_latched (m4_link w) \<or> m4_remote_timed_out (m4_link w) \<longrightarrow> m4_remote_mode (m4_link w))
    \<and> (m4_command_pending (m4_link w) \<longrightarrow> command_is_valid (m4_pending_command (m4_link w)) 36)"
  using m4_reachable_inv [OF assms] motor_inv_parts(2) [of "m4_motor w"]
  by (auto simp: m4_inv_def m4_ipc_inv_def sizeof_defs)

text \<open>C2. The STOP button has absolute priority: after a turn in which it is pressed the motor is not
  \<open>RUNNING\<close>, whatever other buttons, commands, sensor errors and driver errors that turn brings, and
  in remote mode the STOP is latched.\<close>

theorem stop_button_priority:
  assumes "fst (app_motor_buttons_poll (in_pins i) (m4_buttons w)) AND APP_BUTTON_EVENT_STOP \<noteq> 0"
  shows "motor_state (m4_motor (fst (m4_main_iteration drv leds i w))) \<noteq> APP_MOTOR_STATE_RUNNING
    \<and> (m4_remote_mode (m4_link (fst (m4_main_iteration drv leds i w))) \<longrightarrow>
         m4_remote_stop_latched (m4_link (fst (m4_main_iteration drv leds i w))))"
proof -
  obtain s m where sm: "turn_sm drv i w = (s, m)" by fastforce
  have e: "m4_handle_events drv (turn_events i w) (turn_sm drv i w)
      = (app_ipc_latch_remote_stop s, snd (app_motor_stop m))"
    using assms by (simp add: m4_handle_events_def turn_events_def sm)
  then show ?thesis
    by (simp add: m4_turn_motor m4_turn_remote sm app_motor_process_not_running app_motor_stop_not_running
        app_ipc_latch_remote_stop_def)
qed

text \<open>C12. The latch holds: in remote mode with the STOP latched, as long as the reset button is not
  pressed and no command arrives with \<open>RESET_FAULT\<close>, \<open>QUICK_STOP\<close> or local mode, a turn keeps the
  latch and never brings the motor into \<open>RUNNING\<close>.\<close>

theorem stop_latch_holds:
  assumes "m4_remote_stop_latched (m4_link w)" and "m4_remote_mode (m4_link w)"
    and "m4_command_pending (m4_link w) \<Longrightarrow> plain_command (m4_pending_command (m4_link w))"
    and "fst (app_motor_buttons_poll (in_pins i) (m4_buttons w)) AND APP_BUTTON_EVENT_RESET = 0"
  shows "m4_remote_stop_latched (m4_link (fst (m4_main_iteration drv leds i w)))
    \<and> (motor_state (m4_motor (fst (m4_main_iteration drv leds i w))) = APP_MOTOR_STATE_RUNNING \<longrightarrow>
         motor_state (m4_motor w) = APP_MOTOR_STATE_RUNNING)"
proof -
  note t = turn_sm_latched [OF assms(3,1,2), of drv i]
  obtain s m where sm: "turn_sm drv i w = (s, m)" by fastforce
  have e: "m4_handle_events drv (turn_events i w) (s, m) =
      (s, if turn_events i w AND APP_BUTTON_EVENT_STOP \<noteq> 0 then snd (app_motor_stop m) else m)"
    using assms(4) t by (auto simp: m4_handle_events_def turn_events_def sm app_ipc_is_remote_mode_def
        app_ipc_latch_remote_stop_def)
  have run: "motor_state m1 = APP_MOTOR_STATE_RUNNING"
    if "motor_state (snd (app_motor_process drv 10 m1)) = APP_MOTOR_STATE_RUNNING" for m1
    using that app_motor_process_not_running by blast
  show ?thesis
    using t e by (auto simp: m4_turn_motor m4_turn_remote sm app_motor_stop_not_running
        dest!: run split: if_splits)
qed

text \<open>In remote mode the local start and direction buttons and the potentiometer are without effect:
  when a turn with a good ADC reading and no STOP or RESET press ends in remote mode, its motor state is
  the one the link's commands and the periodic processing give.\<close>

theorem remote_mode_isolates:
  assumes "m4_remote_mode (m4_link (fst (m4_main_iteration drv leds i w)))"
    and "0 \<le> in_adc_sequence_ret i" and "0 \<le> in_adc_read_ret i"
    and "fst (app_motor_buttons_poll (in_pins i) (m4_buttons w)) AND APP_BUTTON_EVENT_STOP = 0"
    and "fst (app_motor_buttons_poll (in_pins i) (m4_buttons w)) AND APP_BUTTON_EVENT_RESET = 0"
  shows "m4_motor (fst (m4_main_iteration drv leds i w)) =
    snd (app_motor_process drv 10 (snd (fst (app_ipc_process_m4 drv (in_now_command i) (in_now_timeout i)
      (in_send_ret i) (m4_link w, m4_motor w)))))"
proof -
  let ?p = "fst (app_ipc_process_m4 drv (in_now_command i) (in_now_timeout i) (in_send_ret i)
    (m4_link w, m4_motor w))"
  obtain s m where p: "?p = (s, m)" by fastforce
  have d: "fst (turn_sm drv i w) = s"
    using assms(2,3) by (simp add: turn_sm_def m4_handle_duty_def p potentiometer_poll_ok not_less
        app_ipc_is_remote_mode_def split: option.split)
  with assms(1) have r: "m4_remote_mode s" by (simp add: m4_turn_remote)
  then have "turn_sm drv i w = (s, m)"
    using assms(2,3) by (simp add: turn_sm_def m4_handle_duty_def p potentiometer_poll_ok not_less
        app_ipc_is_remote_mode_def)
  with r assms(4,5) show ?thesis
    by (simp add: m4_turn_motor m4_handle_events_def turn_events_def p app_ipc_is_remote_mode_def)
qed

text \<open>A failed reading of the potentiometer puts the controller into \<open>FAULT\<close> in the same turn, also in
  remote mode, unless the reset button alone is pressed in that very turn.\<close>

theorem sensor_failure_faults:
  assumes "in_adc_sequence_ret i < 0 \<or> in_adc_read_ret i < 0"
    and "fst (app_motor_buttons_poll (in_pins i) (m4_buttons w)) AND APP_BUTTON_EVENT_RESET = 0
      \<or> fst (app_motor_buttons_poll (in_pins i) (m4_buttons w)) AND APP_BUTTON_EVENT_STOP \<noteq> 0"
  shows "motor_state (m4_motor (fst (m4_main_iteration drv leds i w))) = APP_MOTOR_STATE_FAULT"
proof -
  have "fst (app_motor_potentiometer_poll (in_adc_sequence_ret i) (in_adc_read_ret i) (in_adc_sample i)
      (m4_pot w)) < 0"
    using potentiometer_poll_error [OF assms(1)] by blast
  then have "motor_state (snd (turn_sm drv i w)) = APP_MOTOR_STATE_FAULT"
    by (simp add: turn_sm_def m4_handle_duty_def app_motor_fail_def split: prod.split)
  then have "motor_state (snd (m4_handle_events drv (turn_events i w) (turn_sm drv i w)))
      = APP_MOTOR_STATE_FAULT"
    using assms(2) by (cases "turn_sm drv i w")
      (auto simp: m4_handle_events_def turn_events_def app_motor_stop_def app_motor_toggle_direction_def
        app_motor_start_def)
  then show ?thesis by (simp add: m4_turn_motor app_motor_process_fault)
qed

section \<open>Concrete turns\<close>

definition m4_started :: m4 where
  "m4_started = snd (m4_main_init drv_zero (True, True, True) (\<lambda>_. True) (\<lambda>_. 0) True 0 True 0 0 m4_boot)"

lemma m4_started_reachable: "m4_reachable drv_zero m4_started"
proof -
  have "fst (app_motor_init drv_zero True True True motor_boot) = 0"
    by (simp add: app_motor_init_def motor_call_drv_def motor_make_safe_def drv_zero_def Let_def)
  moreover have "fst (app_motor_buttons_init (\<lambda>_. True) (\<lambda>_. 0) buttons_boot) = 0"
    by (simp add: app_motor_buttons_init_def buttons_boot_def Let_def case_prod_beta)
  moreover have "fst (app_motor_potentiometer_init True 0 potentiometer_boot) = 0"
    by (simp add: app_motor_potentiometer_init_def)
  ultimately have "fst (m4_main_init drv_zero (True, True, True) (\<lambda>_. True) (\<lambda>_. 0) True 0 True 0 0 m4_boot)"
    by (simp add: m4_main_init_def m4_boot_def Let_def case_prod_beta)
  then have "m4_main_init drv_zero (True, True, True) (\<lambda>_. True) (\<lambda>_. 0) True 0 True 0 0 m4_boot
      = (True, m4_started)"
    by (simp add: m4_started_def prod_eq_iff)
  then show ?thesis by (rule m4_reachable.start)
qed

text \<open>A running motor in remote mode with the latch set; button \<open>k\<close> is about to be recognised.\<close>

definition m4_pressing :: "nat \<Rightarrow> m4" where
  "m4_pressing k = \<lparr>m4_buttons = buttons_boot
     [k := (buttons_boot ! k)\<lparr>button_candidate := True, button_candidate_samples := 2\<rparr>],
     m4_pot = potentiometer_boot, m4_link = m4_ipc_latched, m4_motor = motor_running0\<rparr>"

definition m4_input_press :: "nat \<Rightarrow> int \<Rightarrow> m4_input" where
  "m4_input_press k adc = \<lparr>in_pins = (\<lambda>j. if j = k then 1 else 0), in_adc_sequence_ret = 0,
     in_adc_read_ret = adc, in_adc_sample = 100, in_now_command = 0, in_now_timeout = 0,
     in_now_publish = 0, in_send_ret = 0, in_uptime_ms = 0\<rparr>"

lemma pressing_events:
  "fst (app_motor_buttons_poll (in_pins (m4_input_press 1 adc)) (m4_buttons (m4_pressing 1))) = 2"
  "fst (app_motor_buttons_poll (in_pins (m4_input_press 0 adc)) (m4_buttons (m4_pressing 0))) = 1"
  by (simp_all add: app_motor_buttons_poll_def m4_input_press_def m4_pressing_def buttons_boot_def
      button_boot_def button_poll_def c_def Let_def)

theorem m4_reachable_safe_witness: "bridge_safe (motor_io (m4_motor m4_started))"
  using m4_reachable_safe [OF m4_started_reachable] by simp

theorem stop_button_priority_witness:
  "motor_state (m4_motor (fst (m4_main_iteration drv_zero True (m4_input_press 1 0) (m4_pressing 1))))
     \<noteq> APP_MOTOR_STATE_RUNNING"
  using stop_button_priority [of "m4_input_press 1 0" "m4_pressing 1" drv_zero True]
  unfolding pressing_events by (simp add: c_def)

theorem stop_latch_holds_witness:
  "m4_remote_stop_latched (m4_link
     (fst (m4_main_iteration drv_zero True (m4_input_press 0 0) (m4_pressing 0))))"
  using stop_latch_holds [of "m4_pressing 0" "m4_input_press 0 0" drv_zero True]
  unfolding pressing_events by (simp add: c_def m4_pressing_def m4_ipc_latched_def m4_ipc_boot_def)

theorem sensor_failure_faults_witness:
  "motor_state (m4_motor (fst (m4_main_iteration drv_zero True (m4_input_press 0 (- EIO)) (m4_pressing 0))))
     = APP_MOTOR_STATE_FAULT"
  using sensor_failure_faults [of "m4_input_press 0 (- EIO)" "m4_pressing 0" drv_zero True]
  unfolding pressing_events by (simp add: c_def m4_input_press_def)

theorem remote_mode_isolates_witness:
  "m4_motor (fst (m4_main_iteration drv_zero True (m4_input_press 0 0) (m4_pressing 0))) =
    snd (app_motor_process drv_zero 10 (snd (fst (app_ipc_process_m4 drv_zero 0 0 0
      (m4_ipc_latched, motor_running0)))))"
proof -
  have "m4_remote_mode (m4_link (fst (m4_main_iteration drv_zero True (m4_input_press 0 0) (m4_pressing 0))))"
    unfolding m4_turn_remote using turn_sm_latched(2) [of "m4_pressing 0" drv_zero "m4_input_press 0 0"]
    by (simp add: m4_pressing_def m4_ipc_latched_def m4_ipc_boot_def)
  from remote_mode_isolates [OF this, unfolded pressing_events] show ?thesis
    by (simp add: c_def m4_input_press_def m4_pressing_def)
qed

end
