(* ===== verification/M7_Ipc.thy ===== *)
theory M7_Ipc
  imports Ipc_Protocol
begin

unbundle bit_operations_syntax

text \<open>
  The Cortex-M7 side of the inter-core link, \<open>app_m7/src/ipc/app_ipc.c\<close>: the endpoint callbacks, the
  ping, the transmission of motor commands with retries, the submission interface that the protocol
  servers use, and the cache of the motor state. The refresh work and the shell commands, which also
  call the Modbus server, are in \<open>M7_Remote\<close>.

  The record \<open>m7_ipc\<close> holds the module's static variables; \<open>m7_pong_sem\<close> is the count of the
  semaphore and \<open>m7_refresh_scheduled\<close> tells whether the refresh work is scheduled. \<open>m7_outbox\<close> is the trace
  of the messages the inter-core driver has taken, the oldest first. The answers of
  \<open>ipc_service_send\<close> are a function of the attempt. Out-parameters are results; their pointers are
  never \<open>NULL\<close> in the program.
\<close>

section \<open>State\<close>

definition APP_IPC_SEND_RETRY_MS :: nat where "APP_IPC_SEND_RETRY_MS = 20"
definition APP_IPC_REMOTE_TIMEOUT_MS :: u16 where [c_def]: "APP_IPC_REMOTE_TIMEOUT_MS = 1000"
definition APP_IPC_MOTOR_STATE_STALE_MS :: u32 where [c_def]: "APP_IPC_MOTOR_STATE_STALE_MS = 100"

record app_ipc_motor_state =
  ms_valid :: bool
  ms_stale :: bool
  ms_sequence :: u32
  ms_age_ms :: u32
  ms_words :: "u16 list"

record app_ipc_motor_command =
  mc_control :: u16
  mc_duty_permille :: u16
  mc_accel_ramp :: u16
  mc_decel_ramp :: u16
  mc_timeout_ms :: u16
  mc_source :: u16
  mc_remote :: bool

record app_remote_command =
  rc_enabled :: bool
  rc_remote :: bool
  rc_control :: u16
  rc_duty_permille :: u16
  rc_accel_ramp :: u16
  rc_decel_ramp :: u16
  rc_timeout_ms :: u16
  rc_source :: u16

record m7_ipc =
  m7_pong_sem :: nat
  m7_endpoint_is_bound :: bool
  m7_endpoint_initialized :: bool
  m7_next_sequence :: u32
  m7_received_sequence :: u32
  m7_last_error :: int
  m7_motor_state_cache :: app_ipc_motor_state
  m7_next_command_sequence :: u32
  m7_remote_command :: app_remote_command
  m7_refresh_scheduled :: bool
  m7_outbox :: "u8 list list"

definition m7_ipc_boot :: m7_ipc where
  "m7_ipc_boot = \<lparr>m7_pong_sem = 0, m7_endpoint_is_bound = False, m7_endpoint_initialized = False,
     m7_next_sequence = 0, m7_received_sequence = 0, m7_last_error = 0,
     m7_motor_state_cache = \<lparr>ms_valid = False, ms_stale = False, ms_sequence = 0, ms_age_ms = 0,
       ms_words = replicate APP_MOTOR_STATE_WORD_COUNT 0\<rparr>,
     m7_next_command_sequence = 0,
     m7_remote_command = \<lparr>rc_enabled = False, rc_remote = False, rc_control = 0,
       rc_duty_permille = APP_MOTOR_COMMAND_DUTY_MIN_PERMILLE, rc_accel_ramp = 1000,
       rc_decel_ramp = 4000, rc_timeout_ms = APP_IPC_REMOTE_TIMEOUT_MS,
       rc_source = APP_MOTOR_COMMAND_SOURCE_SHELL\<rparr>,
     m7_refresh_scheduled = False, m7_outbox = []\<rparr>"

section \<open>Frames and callbacks\<close>

definition frame_init_m7 :: "u16 \<Rightarrow> u32 \<Rightarrow> u32 \<Rightarrow> app_ipc_frame" where
  "frame_init_m7 type_code sequence len_value =
     \<lparr>frame_magic = APP_IPC_FRAME_MAGIC, frame_version = APP_IPC_FRAME_VERSION, frame_type = type_code,
      frame_sequence = sequence, frame_payload_length = len_value\<rparr>"

definition frame_is_valid_m7 :: "app_ipc_frame \<Rightarrow> nat \<Rightarrow> u16 \<Rightarrow> bool" where
  "frame_is_valid_m7 frame len type_code \<longleftrightarrow>
     sizeof_frame \<le> len
     \<and> frame_magic frame = APP_IPC_FRAME_MAGIC
     \<and> frame_version frame = APP_IPC_FRAME_VERSION
     \<and> frame_type frame = type_code"

definition endpoint_bound_callback_m7 :: "m7_ipc \<Rightarrow> m7_ipc" where
  "endpoint_bound_callback_m7 s = s\<lparr>m7_endpoint_is_bound := True, m7_last_error := 0\<rparr>"

definition endpoint_unbound_m7 :: "m7_ipc \<Rightarrow> m7_ipc" where
  "endpoint_unbound_m7 s = s\<lparr>m7_endpoint_is_bound := False\<rparr>"

text \<open>\<open>now\<close> is \<open>k_uptime_get_32()\<close>. Between updates the cache's \<open>age_ms\<close> field holds the time of
  reception. \<open>k_sem_give\<close> on a semaphore with limit 1 saturates.\<close>

definition endpoint_received_m7 :: "u32 \<Rightarrow> u8 list \<Rightarrow> m7_ipc \<Rightarrow> m7_ipc" where
  "endpoint_received_m7 now data s =
     (let frame = frame_of data; len = length data
      in if len < sizeof_frame
            \<or> frame_magic frame \<noteq> APP_IPC_FRAME_MAGIC
            \<or> frame_version frame \<noteq> APP_IPC_FRAME_VERSION
         then s\<lparr>m7_last_error := - EBADMSG\<rparr>
         else if frame_type frame = APP_IPC_FRAME_PONG
         then (if \<not> frame_is_valid_m7 frame len APP_IPC_FRAME_PONG
                  \<or> len \<noteq> sizeof_frame
                  \<or> frame_payload_length frame \<noteq> 0
               then s\<lparr>m7_last_error := - EBADMSG\<rparr>
               else s\<lparr>m7_received_sequence := frame_sequence frame, m7_pong_sem := 1\<rparr>)
         else if frame_type frame = APP_IPC_FRAME_MOTOR_STATE
         then (let message = state_of data
               in if len \<noteq> sizeof_state
                     \<or> frame_payload_length frame \<noteq> of_nat (APP_MOTOR_STATE_WORD_COUNT * 2)
                  then s\<lparr>m7_last_error := - EBADMSG\<rparr>
                  else s\<lparr>m7_motor_state_cache := (m7_motor_state_cache s)
                         \<lparr>ms_words := state_words message, ms_sequence := frame_sequence frame,
                          ms_age_ms := now, ms_valid := True\<rparr>\<rparr>)
         else s\<lparr>m7_last_error := - EBADMSG\<rparr>)"

definition endpoint_error_m7 :: "m7_ipc \<Rightarrow> m7_ipc" where
  "endpoint_error_m7 s = s\<lparr>m7_last_error := - EIO\<rparr>"

definition app_ipc_init_m7 :: "bool \<Rightarrow> int \<Rightarrow> int \<Rightarrow> m7_ipc \<Rightarrow> int \<times> m7_ipc" where
  "app_ipc_init_m7 ready open_ret register_ret s =
     (if m7_endpoint_initialized s then (0, s)
      else if \<not> ready then (- ENODEV, s\<lparr>m7_last_error := - ENODEV\<rparr>)
      else if open_ret < 0 \<and> open_ret \<noteq> - EALREADY then (open_ret, s\<lparr>m7_last_error := open_ret\<rparr>)
      else if register_ret < 0 then (register_ret, s\<lparr>m7_last_error := register_ret\<rparr>)
      else (0, s\<lparr>m7_endpoint_initialized := True, m7_last_error := 0\<rparr>))"

section \<open>Sending\<close>

text \<open>The retry loop of both senders: \<open>send k\<close> is the answer to attempt \<open>k\<close>. The result is the last
  answer and the number of calls made.\<close>

function ipc_send_loop :: "(nat \<Rightarrow> int) \<Rightarrow> nat \<Rightarrow> int \<times> nat" where
  "ipc_send_loop send attempt =
     (let ret = send attempt
      in if 0 \<le> ret
            \<or> (ret \<noteq> - EAGAIN \<and> ret \<noteq> - EBUSY \<and> ret \<noteq> - ENOBUFS)
            \<or> APP_IPC_SEND_RETRY_MS \<le> attempt
         then (ret, attempt + 1)
         else ipc_send_loop send (attempt + 1))"
  by pat_completeness auto

termination by (relation "measure (\<lambda>(send, attempt). APP_IPC_SEND_RETRY_MS - attempt)") auto

declare ipc_send_loop.simps [simp del]

text \<open>The ping. \<open>received\<close> are the buffers delivered, with their times, between the reset of the
  semaphore and the wake-up; \<open>k_sem_take\<close> fails when none of them gave the semaphore. The results are
  the return value, \<open>*round_trip_ms\<close> and the frame handed to the driver.\<close>

definition app_ipc_ping ::
  "(nat \<Rightarrow> int) \<Rightarrow> u32 \<Rightarrow> u32 \<Rightarrow> (u32 \<times> u8 list) list \<Rightarrow> m7_ipc \<Rightarrow> int \<times> u32 option \<times> u8 list option \<times> m7_ipc" where
  "app_ipc_ping send start_ms end_ms received s =
     (if \<not> m7_endpoint_initialized s then (- EAGAIN, None, None, s)
      else if \<not> m7_endpoint_is_bound s then (- ENOTCONN, None, None, s)
      else
        let s = s\<lparr>m7_pong_sem := 0\<rparr>;
            sequence = m7_next_sequence s + 1;
            s = s\<lparr>m7_next_sequence := sequence, m7_received_sequence := 0\<rparr>;
            frame = frame_bytes (frame_init_m7 APP_IPC_FRAME_PING sequence 0);
            (ret, sends) = ipc_send_loop send 0
        in if ret < 0 then (ret, None, Some frame, s\<lparr>m7_last_error := ret\<rparr>)
           else
             let s = s\<lparr>m7_outbox := m7_outbox s @ [frame]\<rparr>;
                 s = fold (\<lambda>(now, data). endpoint_received_m7 now data) received s
             in if m7_pong_sem s = 0 then (- ETIMEDOUT, None, Some frame, s\<lparr>m7_last_error := - ETIMEDOUT\<rparr>)
                else
                  let s = s\<lparr>m7_pong_sem := 0\<rparr>
                  in if m7_received_sequence s \<noteq> sequence
                     then (- EBADMSG, None, Some frame, s\<lparr>m7_last_error := - EBADMSG\<rparr>)
                     else (0, Some (end_ms - start_ms), Some frame, s\<lparr>m7_last_error := 0\<rparr>))"

text \<open>The message handed to the driver on every attempt is the second result.\<close>

definition send_remote_command_locked ::
  "(nat \<Rightarrow> int) \<Rightarrow> bool \<Rightarrow> m7_ipc \<Rightarrow> int \<times> u8 list option \<times> m7_ipc" where
  "send_remote_command_locked send remote s =
     (if \<not> m7_endpoint_initialized s \<or> \<not> m7_endpoint_is_bound s then (- ENOTCONN, None, s)
      else
        let sequence = m7_next_command_sequence s + 1;
            s = s\<lparr>m7_next_command_sequence := sequence\<rparr>;
            rc = m7_remote_command s;
            message = \<lparr>command_header = frame_init_m7 APP_IPC_FRAME_MOTOR_COMMAND sequence
                         (of_nat (APP_MOTOR_COMMAND_WORD_COUNT * 2)),
                       command_words =
                         [rc_control rc,
                          rc_duty_permille rc,
                          rc_accel_ramp rc,
                          rc_decel_ramp rc,
                          (if remote then APP_MOTOR_COMMAND_MODE_REMOTE
                                          OR APP_MOTOR_COMMAND_MODE_SOURCE (rc_source rc) else 0),
                          rc_timeout_ms rc,
                          0, 0, 0,
                          ucast sequence]\<rparr>;
            (ret, sends) = ipc_send_loop send 0
        in (ret, Some (command_bytes message),
            if ret < 0 then s\<lparr>m7_last_error := ret\<rparr>
            else s\<lparr>m7_outbox := m7_outbox s @ [command_bytes message]\<rparr>))"

text \<open>\<open>None\<close> is the \<open>NULL\<close> command. Cancelling and rescheduling the refresh work sets
  \<open>m7_refresh_scheduled\<close>.\<close>

definition app_ipc_motor_submit ::
  "(nat \<Rightarrow> int) \<Rightarrow> app_ipc_motor_command option \<Rightarrow> m7_ipc \<Rightarrow> int \<times> u8 list option \<times> m7_ipc" where
  "app_ipc_motor_submit send command s =
     (case command of None \<Rightarrow> (- EINVAL, None, s)
      | Some c \<Rightarrow>
        if (mc_source c \<noteq> APP_MOTOR_COMMAND_SOURCE_SHELL \<and> mc_source c \<noteq> APP_MOTOR_COMMAND_SOURCE_MODBUS)
           \<or> mc_duty_permille c < APP_MOTOR_COMMAND_DUTY_MIN_PERMILLE
           \<or> APP_MOTOR_COMMAND_DUTY_MAX_PERMILLE < mc_duty_permille c
           \<or> mc_accel_ramp c < APP_MOTOR_COMMAND_ACCEL_MIN_PERMILLE_PER_SECOND
           \<or> APP_MOTOR_COMMAND_ACCEL_MAX_PERMILLE_PER_SECOND < mc_accel_ramp c
           \<or> mc_decel_ramp c < APP_MOTOR_COMMAND_ACCEL_MIN_PERMILLE_PER_SECOND
           \<or> APP_MOTOR_COMMAND_ACCEL_MAX_PERMILLE_PER_SECOND < mc_decel_ramp c
           \<or> mc_timeout_ms c < APP_MOTOR_COMMAND_TIMEOUT_MIN_MS
           \<or> APP_MOTOR_COMMAND_TIMEOUT_MAX_MS < mc_timeout_ms c
        then (- EINVAL, None, s)
        else
          let s = s\<lparr>m7_remote_command :=
                 \<lparr>rc_enabled = mc_remote c, rc_remote = mc_remote c, rc_control = mc_control c,
                  rc_duty_permille = mc_duty_permille c, rc_accel_ramp = mc_accel_ramp c,
                  rc_decel_ramp = mc_decel_ramp c, rc_timeout_ms = mc_timeout_ms c,
                  rc_source = mc_source c\<rparr>\<rparr>;
              (ret, sent, s) = send_remote_command_locked send (mc_remote c) s;
              s = (if 0 \<le> ret \<and> mc_remote c then s\<lparr>m7_refresh_scheduled := True\<rparr>
                   else if 0 \<le> ret \<and> \<not> mc_remote c then s\<lparr>m7_refresh_scheduled := False\<rparr>
                   else s)
          in (ret, sent, s))"

section \<open>Status and cached motor state\<close>

definition app_ipc_get_status :: "m7_ipc \<Rightarrow> bool \<times> bool \<times> int" where
  "app_ipc_get_status s = (m7_endpoint_initialized s, m7_endpoint_is_bound s, m7_last_error s)"

definition app_ipc_get_motor_state :: "u32 \<Rightarrow> m7_ipc \<Rightarrow> app_ipc_motor_state" where
  "app_ipc_get_motor_state now s =
     (let state = m7_motor_state_cache s
      in if \<not> ms_valid state then state\<lparr>ms_stale := True, ms_age_ms := 0\<rparr>
         else
           let state = state\<lparr>ms_age_ms := now - ms_age_ms state\<rparr>
           in state\<lparr>ms_stale := APP_IPC_MOTOR_STATE_STALE_MS < ms_age_ms state\<rparr>)"

section \<open>The retry loop\<close>

definition ipc_retryable :: "int \<Rightarrow> bool" where
  "ipc_retryable ret \<longleftrightarrow> ret = - EAGAIN \<or> ret = - EBUSY \<or> ret = - ENOBUFS"

lemma ipc_send_loop_unfold:
  "ipc_send_loop send k =
     (if ipc_retryable (send k) \<and> k < 20 then ipc_send_loop send (k + 1) else (send k, k + 1))"
  by (subst ipc_send_loop.simps) (auto simp: Let_def ipc_retryable_def APP_IPC_SEND_RETRY_MS_def)

lemma ipc_send_loop_spec:
  assumes "k \<le> 20" and "ipc_send_loop send k = (ret, n)"
  shows "k < n \<and> n \<le> 21 \<and> ret = send (n - 1) \<and> (\<forall>j. k \<le> j \<and> j < n - 1 \<longrightarrow> ipc_retryable (send j))
    \<and> (ipc_retryable ret \<longrightarrow> n = 21)"
  using assms
proof (induction send k rule: ipc_send_loop.induct)
  case (1 send k)
  show ?case
  proof (cases "ipc_retryable (send k) \<and> k < 20")
    case True
    then have "ipc_send_loop send (k + 1) = (ret, n)"
      using 1(3) by (subst (asm) ipc_send_loop_unfold) simp
    moreover have c: "\<not> (0 \<le> send k \<or> (send k \<noteq> - EAGAIN \<and> send k \<noteq> - EBUSY \<and> send k \<noteq> - ENOBUFS)
        \<or> APP_IPC_SEND_RETRY_MS \<le> k)"
      using True by (auto simp: ipc_retryable_def APP_IPC_SEND_RETRY_MS_def)
    moreover have "k + 1 \<le> 20" using True by simp
    ultimately have ih: "k + 1 < n \<and> n \<le> 21 \<and> ret = send (n - 1)
        \<and> (\<forall>j. k + 1 \<le> j \<and> j < n - 1 \<longrightarrow> ipc_retryable (send j)) \<and> (ipc_retryable ret \<longrightarrow> n = 21)"
      using 1(1) [OF refl c] by blast
    have "ipc_retryable (send j)" if "k \<le> j" "j < n - 1" for j
      using ih True that by (cases "j = k") (blast, metis Suc_eq_plus1 le_neq_implies_less Suc_leI)
    moreover have "k < n" using ih by linarith
    ultimately show ?thesis using ih by blast
  next
    case False
    then have "ret = send k" "n = k + 1"
      using 1(3) by (subst (asm) ipc_send_loop_unfold, simp)+
    with False 1(2) show ?thesis by auto
  qed
qed

lemma ipc_send_loop_success: "0 \<le> send k \<Longrightarrow> ipc_send_loop send k = (send k, k + 1)"
  by (subst ipc_send_loop_unfold) (auto simp: ipc_retryable_def)

section \<open>The stored command stays a valid one\<close>

definition m7_command_ok :: "m7_ipc \<Rightarrow> bool" where
  "m7_command_ok s \<longleftrightarrow>
     (let rc = m7_remote_command s
      in rc_source rc \<in> {APP_MOTOR_COMMAND_SOURCE_SHELL, APP_MOTOR_COMMAND_SOURCE_MODBUS}
         \<and> APP_MOTOR_COMMAND_DUTY_MIN_PERMILLE \<le> rc_duty_permille rc
         \<and> rc_duty_permille rc \<le> APP_MOTOR_COMMAND_DUTY_MAX_PERMILLE
         \<and> APP_MOTOR_COMMAND_ACCEL_MIN_PERMILLE_PER_SECOND \<le> rc_accel_ramp rc
         \<and> rc_accel_ramp rc \<le> APP_MOTOR_COMMAND_ACCEL_MAX_PERMILLE_PER_SECOND
         \<and> APP_MOTOR_COMMAND_ACCEL_MIN_PERMILLE_PER_SECOND \<le> rc_decel_ramp rc
         \<and> rc_decel_ramp rc \<le> APP_MOTOR_COMMAND_ACCEL_MAX_PERMILLE_PER_SECOND
         \<and> APP_MOTOR_COMMAND_TIMEOUT_MIN_MS \<le> rc_timeout_ms rc
         \<and> rc_timeout_ms rc \<le> APP_MOTOR_COMMAND_TIMEOUT_MAX_MS)"

lemma m7_ipc_boot_ok: "m7_command_ok m7_ipc_boot"
  by (simp add: m7_command_ok_def m7_ipc_boot_def c_def)

lemma m7_command_ok_cong: "m7_remote_command s' = m7_remote_command s \<Longrightarrow> m7_command_ok s' = m7_command_ok s"
  by (simp add: m7_command_ok_def)

lemma send_remote_command_keeps:
  "m7_remote_command (snd (snd (send_remote_command_locked send remote s))) = m7_remote_command s"
  "m7_refresh_scheduled (snd (snd (send_remote_command_locked send remote s))) = m7_refresh_scheduled s"
  by (simp_all add: send_remote_command_locked_def Let_def case_prod_beta)

lemma endpoint_received_m7_command:
  "m7_remote_command (endpoint_received_m7 now data s) = m7_remote_command s"
  by (simp add: endpoint_received_m7_def Let_def)

lemma app_ipc_motor_submit_ok:
  "m7_command_ok s \<Longrightarrow> m7_command_ok (snd (snd (app_ipc_motor_submit send c s)))"
  by (cases c) (auto simp: app_ipc_motor_submit_def Let_def case_prod_beta m7_command_ok_def
      send_remote_command_keeps not_less)

text \<open>A valid submission, as a stored command that is then sent.\<close>

definition submitted :: "app_ipc_motor_command \<Rightarrow> m7_ipc \<Rightarrow> m7_ipc" where
  "submitted c s = s\<lparr>m7_remote_command :=
     \<lparr>rc_enabled = mc_remote c, rc_remote = mc_remote c, rc_control = mc_control c,
      rc_duty_permille = mc_duty_permille c, rc_accel_ramp = mc_accel_ramp c,
      rc_decel_ramp = mc_decel_ramp c, rc_timeout_ms = mc_timeout_ms c,
      rc_source = mc_source c\<rparr>\<rparr>"

lemma app_ipc_motor_submit_valid:
  assumes "mc_source x \<in> {1, 2} \<and> unat (mc_duty_permille x) \<in> {800..1000}
         \<and> unat (mc_accel_ramp x) \<in> {1..10000} \<and> unat (mc_decel_ramp x) \<in> {1..10000}
         \<and> unat (mc_timeout_ms x) \<in> {100..10000}"
  shows "app_ipc_motor_submit send (Some x) s =
    (let (ret, sent, s) = send_remote_command_locked send (mc_remote x) (submitted x s)
     in (ret, sent, if 0 \<le> ret then s\<lparr>m7_refresh_scheduled := mc_remote x\<rparr> else s))"
  using assms
  by (auto simp: app_ipc_motor_submit_def submitted_def Let_def case_prod_beta c_def to_nat_simps)

lemma send_remote_command_sent:
  "fst (snd (send_remote_command_locked send remote s)) = None \<longleftrightarrow>
     \<not> m7_endpoint_initialized s \<or> \<not> m7_endpoint_is_bound s"
  by (simp add: send_remote_command_locked_def Let_def case_prod_beta)

section \<open>Properties\<close>

text \<open>C40. Sending ends: at most 21 calls of the IPC driver are made; each one but the last was refused
  with a transient error (\<open>EAGAIN\<close>, \<open>EBUSY\<close> or \<open>ENOBUFS\<close>), and the result is the answer to the last
  one, which is a transient error only after all 21.\<close>

theorem ipc_send_retry_exact:
  "\<exists>n. ipc_send_loop send 0 = (send (n - 1), n) \<and> 0 < n \<and> n \<le> 21
    \<and> (\<forall>j. j < n - 1 \<longrightarrow> ipc_retryable (send j)) \<and> (ipc_retryable (send (n - 1)) \<longrightarrow> n = 21)"
proof -
  obtain r n where e: "ipc_send_loop send 0 = (r, n)" by fastforce
  have sp: "0 < n \<and> n \<le> 21 \<and> r = send (n - 1) \<and> (\<forall>j. 0 \<le> j \<and> j < n - 1 \<longrightarrow> ipc_retryable (send j))
    \<and> (ipc_retryable r \<longrightarrow> n = 21)"
    by (rule ipc_send_loop_spec [OF _ e]) (rule le0)
  then have r: "r = send (n - 1)" by blast
  show ?thesis
  proof (intro exI conjI)
    show "ipc_send_loop send 0 = (send (n - 1), n)" using e r by blast
    show "0 < n" "n \<le> 21" using sp by blast+
    show "\<forall>j. j < n - 1 \<longrightarrow> ipc_retryable (send j)" using sp le0 by blast
    show "ipc_retryable (send (n - 1)) \<longrightarrow> n = 21" using sp r by blast
  qed
qed

text \<open>A submitted command is refused with \<open>EINVAL\<close>, without any effect, exactly when it is missing or
  a field is out of its range or the source is unknown; otherwise it becomes the stored command and the
  driver's answer is returned. A successful remote command starts the periodic refresh, a successful
  local one stops it.\<close>

theorem motor_submit_effect:
  "(case c of None \<Rightarrow> app_ipc_motor_submit send c s = (- EINVAL, None, s)
    | Some x \<Rightarrow>
      if mc_source x \<in> {1, 2} \<and> unat (mc_duty_permille x) \<in> {800..1000}
         \<and> unat (mc_accel_ramp x) \<in> {1..10000} \<and> unat (mc_decel_ramp x) \<in> {1..10000}
         \<and> unat (mc_timeout_ms x) \<in> {100..10000}
      then \<exists>ret sent s'. app_ipc_motor_submit send c s = (ret, sent, s')
        \<and> rc_enabled (m7_remote_command s') = mc_remote x
        \<and> rc_control (m7_remote_command s') = mc_control x
        \<and> rc_duty_permille (m7_remote_command s') = mc_duty_permille x
        \<and> m7_command_ok s'
        \<and> m7_refresh_scheduled s' = (if 0 \<le> ret then mc_remote x else m7_refresh_scheduled s)
        \<and> (sent = None \<longleftrightarrow> \<not> m7_endpoint_initialized s \<or> \<not> m7_endpoint_is_bound s)
      else app_ipc_motor_submit send c s = (- EINVAL, None, s))"
proof (cases c)
  case (Some x)
  let ?v = "mc_source x \<in> {1, 2} \<and> unat (mc_duty_permille x) \<in> {800..1000}
         \<and> unat (mc_accel_ramp x) \<in> {1..10000} \<and> unat (mc_decel_ramp x) \<in> {1..10000}
         \<and> unat (mc_timeout_ms x) \<in> {100..10000}"
  show ?thesis
  proof (cases ?v)
    case True
    obtain ret sent s1 where r: "send_remote_command_locked send (mc_remote x) (submitted x s) = (ret, sent, s1)"
      by (metis prod.exhaust)
    define s2 where "s2 = (if 0 \<le> ret then s1\<lparr>m7_refresh_scheduled := mc_remote x\<rparr> else s1)"
    have e: "app_ipc_motor_submit send c s = (ret, sent, s2)"
      by (simp add: Some app_ipc_motor_submit_valid [OF True] r s2_def)
    have "m7_command_ok (submitted x s)"
      using True by (auto simp: m7_command_ok_def submitted_def c_def to_nat_simps)
    moreover have "m7_remote_command s1 = m7_remote_command (submitted x s)"
      "m7_refresh_scheduled s1 = m7_refresh_scheduled s"
      "sent = None \<longleftrightarrow> \<not> m7_endpoint_initialized s \<or> \<not> m7_endpoint_is_bound s"
      using send_remote_command_keeps [of send "mc_remote x" "submitted x s"]
        send_remote_command_sent [of send "mc_remote x" "submitted x s"] r
      by (simp_all add: submitted_def)
    ultimately have "rc_enabled (m7_remote_command s2) = mc_remote x
        \<and> rc_control (m7_remote_command s2) = mc_control x
        \<and> rc_duty_permille (m7_remote_command s2) = mc_duty_permille x
        \<and> m7_command_ok s2
        \<and> m7_refresh_scheduled s2 = (if 0 \<le> ret then mc_remote x else m7_refresh_scheduled s)
        \<and> (sent = None \<longleftrightarrow> \<not> m7_endpoint_initialized s \<or> \<not> m7_endpoint_is_bound s)"
      by (simp add: s2_def submitted_def m7_command_ok_def)
    with e show ?thesis unfolding Some option.case if_P [OF True] by blast
  next
    case False
    then have "app_ipc_motor_submit send c s = (- EINVAL, None, s)"
      by (auto simp: Some app_ipc_motor_submit_def c_def to_nat_simps)
    then show ?thesis unfolding Some option.case if_not_P [OF False] .
  qed
qed (simp add: app_ipc_motor_submit_def)

text \<open>The buffers that count as a PONG.\<close>

definition is_pong :: "u8 list \<Rightarrow> bool" where
  "is_pong data \<longleftrightarrow> length data = 16 \<and> frame_is_valid_m7 (frame_of data) 16 APP_IPC_FRAME_PONG
     \<and> frame_payload_length (frame_of data) = 0"

lemma endpoint_received_m7_pong:
  "is_pong data \<Longrightarrow> m7_pong_sem (endpoint_received_m7 now data s) = 1
     \<and> m7_received_sequence (endpoint_received_m7 now data s) = frame_sequence (frame_of data)"
  "\<not> is_pong data \<Longrightarrow> m7_pong_sem (endpoint_received_m7 now data s) = m7_pong_sem s
     \<and> m7_received_sequence (endpoint_received_m7 now data s) = m7_received_sequence s"
  by (auto simp: endpoint_received_m7_def is_pong_def frame_is_valid_m7_def sizeof_defs Let_def)

definition m7_deliver :: "(u32 \<times> u8 list) list \<Rightarrow> m7_ipc \<Rightarrow> m7_ipc" where
  "m7_deliver received s = fold (\<lambda>(now, data). endpoint_received_m7 now data) received s"

lemma m7_deliver_pong:
  assumes "m7_pong_sem s = 0"
  shows "m7_pong_sem (m7_deliver received s) \<noteq> 0 \<longrightarrow>
    (\<exists>(now, data) \<in> set received. is_pong data
       \<and> frame_sequence (frame_of data) = m7_received_sequence (m7_deliver received s))"
proof (induction received rule: rev_induct)
  case Nil
  then show ?case using assms by (simp add: m7_deliver_def)
next
  case (snoc r received)
  obtain now data where r: "r = (now, data)" by fastforce
  have e: "m7_deliver (received @ [r]) s = endpoint_received_m7 now data (m7_deliver received s)"
    by (simp add: m7_deliver_def r)
  show ?case
  proof (cases "is_pong data")
    case True
    show ?thesis
      unfolding e using endpoint_received_m7_pong(1) [OF True, of now "m7_deliver received s"] True
      by (auto simp: r)
  next
    case False
    then show ?thesis using snoc endpoint_received_m7_pong(2) [OF False] by (auto simp: e)
  qed
qed

text \<open>A ping that succeeds really was answered: between its reset of the semaphore and its wake-up a
  well-formed PONG frame with this ping's own sequence number was delivered. The reported round trip is
  the clock difference modulo 2^32.\<close>

theorem ping_success_means_pong:
  assumes "app_ipc_ping send start_ms end_ms received s = (0, round_trip, frame, s')"
  shows "round_trip = Some (end_ms - start_ms)
    \<and> frame = Some (frame_bytes (frame_init_m7 APP_IPC_FRAME_PING (m7_next_sequence s + 1) 0))
    \<and> (\<exists>(now, data) \<in> set received. is_pong data \<and> frame_sequence (frame_of data) = m7_next_sequence s + 1)"
proof -
  let ?s = "s\<lparr>m7_pong_sem := 0, m7_next_sequence := m7_next_sequence s + 1, m7_received_sequence := 0,
    m7_outbox := m7_outbox s @ [frame_bytes (frame_init_m7 APP_IPC_FRAME_PING (m7_next_sequence s + 1) 0)]\<rparr>"
  let ?d = "m7_deliver received ?s"
  obtain ret n where l: "ipc_send_loop send 0 = (ret, n)" by fastforce
  have c: "m7_endpoint_initialized s" "m7_endpoint_is_bound s" "\<not> ret < 0" "m7_pong_sem ?d \<noteq> 0"
    "m7_received_sequence ?d = m7_next_sequence s + 1"
    and r: "round_trip = Some (end_ms - start_ms)"
      "frame = Some (frame_bytes (frame_init_m7 APP_IPC_FRAME_PING (m7_next_sequence s + 1) 0))"
    using assms by (auto simp: app_ipc_ping_def l Let_def m7_deliver_def split: if_splits)
  with m7_deliver_pong [of ?s received] show ?thesis by simp
qed

theorem ping_success_means_pong_witness:
  "\<exists>s'. app_ipc_ping (\<lambda>_. 0) 10 12
     [(11, frame_bytes (frame_init_m7 APP_IPC_FRAME_PONG 1 0))]
     (m7_ipc_boot\<lparr>m7_endpoint_initialized := True, m7_endpoint_is_bound := True\<rparr>)
   = (0, Some 2, Some (frame_bytes (frame_init_m7 APP_IPC_FRAME_PING 1 0)), s')"
proof -
  let ?s = "m7_ipc_boot\<lparr>m7_endpoint_initialized := True, m7_endpoint_is_bound := True\<rparr>"
  let ?pong = "frame_bytes (frame_init_m7 APP_IPC_FRAME_PONG 1 0)"
  have pong: "is_pong ?pong" "frame_sequence (frame_of ?pong) = 1"
    by (simp_all add: is_pong_def frame_is_valid_m7_def frame_init_m7_def sizeof_defs)
  have "fst (app_ipc_ping (\<lambda>_. 0) 10 12 [(11, ?pong)] ?s) = 0"
    using endpoint_received_m7_pong(1) [OF pong(1)] pong(2)
    by (simp add: app_ipc_ping_def ipc_send_loop_success Let_def pong m7_ipc_boot_def frame_init_m7_def)
  then obtain rt f s' where e: "app_ipc_ping (\<lambda>_. 0) 10 12 [(11, ?pong)] ?s = (0, rt, f, s')"
    by (metis prod.collapse)
  have "rt = Some 2" "f = Some (frame_bytes (frame_init_m7 APP_IPC_FRAME_PING 1 0))"
    using ping_success_means_pong [OF e] by (simp_all add: m7_ipc_boot_def)
  with e show ?thesis by blast
qed

text \<open>The cached motor state is reported stale exactly when nothing was received yet or the last
  state message is more than 100 ms old on the 32-bit clock, also across its wrap-around; its words are
  then still the last ones received.\<close>

theorem motor_state_staleness:
  assumes "length data = 40" and "frame_is_valid_m7 (frame_of data) 40 APP_IPC_FRAME_MOTOR_STATE"
    and "frame_payload_length (frame_of data) = 24" and "elapsed < 2 ^ 32"
  shows "app_ipc_get_motor_state (now + of_nat elapsed) (endpoint_received_m7 now data s) =
    \<lparr>ms_valid = True, ms_stale = (100 < elapsed), ms_sequence = frame_sequence (frame_of data),
     ms_age_ms = of_nat elapsed, ms_words = state_words (state_of data)\<rparr>"
  using assms
  by (simp add: app_ipc_get_motor_state_def endpoint_received_m7_def frame_is_valid_m7_def sizeof_defs
      Let_def c_def word_less_nat_alt unat_of_nat)

theorem motor_state_staleness_witness:
  "ms_stale (app_ipc_get_motor_state 50 (endpoint_received_m7 4294967200
     (state_bytes \<lparr>state_header = frame_init_m7 APP_IPC_FRAME_MOTOR_STATE 1 24,
        state_words = replicate 12 0\<rparr>) m7_ipc_boot))"
proof -
  let ?m = "state_bytes \<lparr>state_header = frame_init_m7 APP_IPC_FRAME_MOTOR_STATE 1 24,
        state_words = replicate 12 0\<rparr>"
  have f: "frame_of ?m = frame_init_m7 APP_IPC_FRAME_MOTOR_STATE 1 24" by (simp add: state_bytes_def)
  have now: "4294967200 + of_nat 146 = (50 :: u32)" by simp
  show ?thesis
    using motor_state_staleness [of ?m 146 4294967200 m7_ipc_boot, unfolded f now]
    by (simp add: frame_is_valid_m7_def frame_init_m7_def sizeof_defs)
qed

definition motor_command_example :: app_ipc_motor_command where
  "motor_command_example = \<lparr>mc_control = 3, mc_duty_permille = 900, mc_accel_ramp = 1000,
     mc_decel_ramp = 4000, mc_timeout_ms = 1000, mc_source = 2, mc_remote = True\<rparr>"

theorem motor_submit_effect_witness:
  "\<exists>ret sent s'. app_ipc_motor_submit (\<lambda>_. 36) (Some motor_command_example) m7_ipc_boot = (ret, sent, s')
     \<and> rc_enabled (m7_remote_command s') \<and> rc_control (m7_remote_command s') = 3 \<and> sent = None"
  using motor_submit_effect [where c = "Some motor_command_example" and send = "\<lambda>_. 36" and s = m7_ipc_boot]
  by (auto simp: motor_command_example_def m7_ipc_boot_def)

theorem ipc_send_retry_exact_witness: "ipc_send_loop (\<lambda>_. - EBUSY) 0 = (- EBUSY, 21)"
  using ipc_send_retry_exact [of "\<lambda>_. - EBUSY"] by (auto simp: ipc_retryable_def)

end
