(* ===== verification/Ipc_End_To_End.thy ===== *)
theory Ipc_End_To_End
  imports M4_Main M7_Ipc
begin

unbundle bit_operations_syntax

text \<open>
  The two cores together: what one core's \<open>app_ipc.c\<close> sends is what the other core's \<open>app_ipc.c\<close>
  accepts. A message sent by one side is delivered, as bytes, to the other side's callback.
\<close>

section \<open>Commands from the M7 to the M4\<close>

text \<open>The message \<open>send_remote_command_locked\<close> builds.\<close>

definition remote_message :: "bool \<Rightarrow> m7_ipc \<Rightarrow> app_motor_command_message" where
  "remote_message remote s =
     (let rc = m7_remote_command s
      in \<lparr>command_header = frame_init_m7 APP_IPC_FRAME_MOTOR_COMMAND (m7_next_command_sequence s + 1) 20,
          command_words = [rc_control rc, rc_duty_permille rc, rc_accel_ramp rc, rc_decel_ramp rc,
            if remote then APP_MOTOR_COMMAND_MODE_REMOTE OR APP_MOTOR_COMMAND_MODE_SOURCE (rc_source rc) else 0,
            rc_timeout_ms rc, 0, 0, 0, ucast (m7_next_command_sequence s + 1)]\<rparr>)"

lemma send_remote_command_bytes:
  "m7_endpoint_initialized s \<Longrightarrow> m7_endpoint_is_bound s \<Longrightarrow>
     fst (snd (send_remote_command_locked send remote s)) = Some (command_bytes (remote_message remote s))"
  by (simp add: send_remote_command_locked_def remote_message_def Let_def case_prod_beta sizeof_defs)

lemma remote_message_size: "length (command_bytes (remote_message remote s)) = 36"
  by (simp add: remote_message_def Let_def)

lemma remote_message_words [simp]: "length (command_words (remote_message remote s)) = 10"
  by (simp add: remote_message_def Let_def)

lemma command_of_remote_message [simp]:
  "command_of (command_bytes (remote_message remote s)) = remote_message remote s"
  by (rule command_of_bytes) (simp add: remote_message_def Let_def)

lemma frame_of_remote_message:
  "frame_of (command_bytes (remote_message remote s)) =
     frame_init_m7 APP_IPC_FRAME_MOTOR_COMMAND (m7_next_command_sequence s + 1) 20"
  by (simp add: command_bytes_def remote_message_def Let_def)

text \<open>The M4 accepts a stored command exactly when it uses no unknown control bit.\<close>

lemma remote_message_valid:
  assumes "m7_command_ok s"
  shows "command_is_valid (remote_message remote s) 36 \<longleftrightarrow>
    rc_control (m7_remote_command s) AND NOT 0x1F = 0"
proof -
  let ?c = "rc_control (m7_remote_command s)"
  have mask: "APP_MOTOR_COMMAND_ENABLE OR APP_MOTOR_COMMAND_RUN OR APP_MOTOR_COMMAND_DIRECTION_REVERSE
      OR APP_MOTOR_COMMAND_RESET_FAULT OR APP_MOTOR_COMMAND_QUICK_STOP = 0x1F"
    by (simp add: c_def)
  have src: "rc_source (m7_remote_command s) = APP_MOTOR_COMMAND_SOURCE_SHELL
      \<or> rc_source (m7_remote_command s) = APP_MOTOR_COMMAND_SOURCE_MODBUS"
    using assms by (simp add: m7_command_ok_def Let_def)
  have words: "command_words (remote_message remote s) ! 6 = 0" "command_words (remote_message remote s) ! 7 = 0"
    "command_words (remote_message remote s) ! 8 = 0"
    by (simp_all add: remote_message_def Let_def)
  have hd: "command_header (remote_message remote s) =
      frame_init_m7 APP_IPC_FRAME_MOTOR_COMMAND (m7_next_command_sequence s + 1) 20"
    by (simp add: remote_message_def Let_def)
  have num: "duty_ok" if "duty_ok = (APP_MOTOR_DUTY_MIN_PERMILLE \<le> rc_duty_permille (m7_remote_command s)
      \<and> rc_duty_permille (m7_remote_command s) \<le> APP_MOTOR_DUTY_MAX_PERMILLE)" for duty_ok
    using assms that by (simp add: m7_command_ok_def Let_def c_def)
  show ?thesis
    using src assms num
    by (auto simp: command_is_valid_def hd frame_is_valid_m4_def words mask Let_def sizeof_defs m7_command_ok_def
        frame_init_m7_def remote_message_def)
qed

section \<open>Properties\<close>

text \<open>C15. A command submitted on the M7 arrives on the M4 as it was submitted: when the driver takes the
  message, its bytes make the M4's callback store exactly the submitted words for execution - provided
  the control word uses the five defined bits only. With any other control bit set the M7 still reports
  success and starts the periodic refresh, but the M4 drops the message without a trace.\<close>

theorem submitted_command_arrives:
  assumes "mc_source x \<in> {1, 2} \<and> unat (mc_duty_permille x) \<in> {800..1000}
         \<and> unat (mc_accel_ramp x) \<in> {1..10000} \<and> unat (mc_decel_ramp x) \<in> {1..10000}
         \<and> unat (mc_timeout_ms x) \<in> {100..10000}"
    and "m7_endpoint_initialized s" and "m7_endpoint_is_bound s" and "0 \<le> send 0"
  shows "\<exists>bytes s'. app_ipc_motor_submit send (Some x) s = (send 0, Some bytes, s')
    \<and> m7_refresh_scheduled s' = mc_remote x
    \<and> (if mc_control x AND NOT 0x1F = 0
       then \<exists>header. endpoint_received_m4 bytes t = t\<lparr>m4_pending_command :=
         \<lparr>command_header = header, command_words =
           [mc_control x, mc_duty_permille x, mc_accel_ramp x, mc_decel_ramp x,
            if mc_remote x then 1 OR push_bit 8 (mc_source x) else 0, mc_timeout_ms x, 0, 0, 0,
            ucast (m7_next_command_sequence s + 1)]\<rparr>, m4_command_pending := True\<rparr>
       else endpoint_received_m4 bytes t = t)"
proof -
  let ?s = "submitted x s"
  let ?b = "command_bytes (remote_message (mc_remote x) ?s)"
  have ok: "m7_command_ok ?s"
    using assms(1) by (auto simp: m7_command_ok_def submitted_def c_def to_nat_simps)
  have rc: "rc_control (m7_remote_command ?s) = mc_control x" by (simp add: submitted_def)
  have b: "fst (snd (send_remote_command_locked send (mc_remote x) ?s)) = Some ?b"
    using assms(2,3) by (intro send_remote_command_bytes) (simp_all add: submitted_def)
  have r: "fst (send_remote_command_locked send (mc_remote x) ?s) = send 0"
    using assms(2,3) ipc_send_loop_success [of send 0, OF assms(4)]
    by (simp add: send_remote_command_locked_def submitted_def Let_def)
  obtain s1 where "send_remote_command_locked send (mc_remote x) ?s = (send 0, Some ?b, s1)"
    using b r by (metis prod.collapse)
  then have "app_ipc_motor_submit send (Some x) s =
      (send 0, Some ?b, s1\<lparr>m7_refresh_scheduled := mc_remote x\<rparr>)"
    using assms(4) by (simp add: app_ipc_motor_submit_valid [OF assms(1)])
  moreover have "endpoint_received_m4 ?b t =
      (if mc_control x AND NOT 0x1F = 0
       then t\<lparr>m4_pending_command := remote_message (mc_remote x) ?s, m4_command_pending := True\<rparr> else t)"
    using remote_message_valid [OF ok, of "mc_remote x"]
    by (simp add: endpoint_received_m4_def remote_message_size frame_of_remote_message frame_init_m7_def
        sizeof_defs c_def rc Let_def del: push_bit_of_1)
  ultimately show ?thesis
    by (auto simp: remote_message_def submitted_def Let_def APP_MOTOR_COMMAND_MODE_REMOTE_def
        APP_MOTOR_COMMAND_MODE_SOURCE_def)
qed

definition m7_bound0 :: m7_ipc where
  "m7_bound0 = m7_ipc_boot\<lparr>m7_endpoint_initialized := True, m7_endpoint_is_bound := True\<rparr>"

theorem submitted_command_arrives_witness:
  "\<exists>bytes s'. app_ipc_motor_submit (\<lambda>_. 36) (Some (motor_command_example\<lparr>mc_control := 0x100\<rparr>)) m7_bound0
       = (36, Some bytes, s') \<and> m7_refresh_scheduled s' \<and> endpoint_received_m4 bytes m4_ipc_boot = m4_ipc_boot"
  using submitted_command_arrives [where x = "motor_command_example\<lparr>mc_control := 0x100\<rparr>" and s = m7_bound0
      and send = "\<lambda>_. 36" and t = m4_ipc_boot]
  by (auto simp: motor_command_example_def m7_bound0_def)

section \<open>Motor state from the M4 to the M7\<close>

lemma motor_state_flags_bits:
  "motor_state_flags s m AND APP_MOTOR_STATE_FLAG_RUNNING \<noteq> 0 \<longleftrightarrow> motor_state m = APP_MOTOR_STATE_RUNNING"
  "motor_state_flags s m AND APP_MOTOR_STATE_FLAG_STOPPING \<noteq> 0 \<longleftrightarrow> motor_state m = APP_MOTOR_STATE_STOPPING"
  "motor_state_flags s m AND APP_MOTOR_STATE_FLAG_FAULT \<noteq> 0 \<longleftrightarrow> motor_state m = APP_MOTOR_STATE_FAULT"
  "motor_state_flags s m AND APP_MOTOR_STATE_FLAG_READY \<noteq> 0 \<longleftrightarrow> motor_state m = APP_MOTOR_STATE_READY"
  "motor_state_flags s m AND APP_MOTOR_STATE_FLAG_DISABLED \<noteq> 0 \<longleftrightarrow> motor_state m = APP_MOTOR_STATE_DISABLED"
  "motor_state_flags s m AND APP_MOTOR_STATE_FLAG_REMOTE \<noteq> 0 \<longleftrightarrow> m4_remote_mode s"
  "motor_state_flags s m AND APP_MOTOR_STATE_FLAG_LOCAL \<noteq> 0 \<longleftrightarrow> \<not> m4_remote_mode s"
  "motor_state_flags s m AND APP_MOTOR_STATE_FLAG_REMOTE_TIMEOUT \<noteq> 0 \<longleftrightarrow> m4_remote_timed_out s"
  "motor_state_flags s m AND APP_MOTOR_STATE_FLAG_REMOTE_STOP_LATCH \<noteq> 0 \<longleftrightarrow> m4_remote_stop_latched s"
  by (cases "motor_state m"; cases "m4_remote_mode s"; cases "m4_remote_timed_out s";
      cases "m4_remote_stop_latched s"; simp add: motor_state_flags_def motor_state_flag_def c_def)+

lemma u16_of_int_s16:
  "- 32768 \<le> i \<Longrightarrow> i < 32768 \<Longrightarrow> sint (u16_of_int i) = i"
  using s16_u16_roundtrip [of i] by (simp add: s16_of_u16_def)

text \<open>The M7's cached motor state is the M4's state when it published: after the message is received,
  the flags the M7 reads tell the controller state, the mode, the timeout and the latch, and the words
  tell duty, target, direction, fault code, buttons and potentiometer.\<close>

theorem published_state_arrives:
  assumes "app_ipc_publish_motor_state now buttons pot loop_ms s m = (s', Some bytes)"
    and "- 32768 \<le> motor_last_error m" and "motor_last_error m < 32768"
    and "w = ms_words (app_ipc_get_motor_state t' (endpoint_received_m7 t bytes r))"
  shows "ms_valid (app_ipc_get_motor_state t' (endpoint_received_m7 t bytes r))
    \<and> (w ! APP_MOTOR_STATE_FLAGS AND APP_MOTOR_STATE_FLAG_RUNNING \<noteq> 0 \<longleftrightarrow>
         motor_state m = APP_MOTOR_STATE_RUNNING)
    \<and> (w ! APP_MOTOR_STATE_FLAGS AND APP_MOTOR_STATE_FLAG_STOPPING \<noteq> 0 \<longleftrightarrow>
         motor_state m = APP_MOTOR_STATE_STOPPING)
    \<and> (w ! APP_MOTOR_STATE_FLAGS AND APP_MOTOR_STATE_FLAG_FAULT \<noteq> 0 \<longleftrightarrow>
         motor_state m = APP_MOTOR_STATE_FAULT)
    \<and> (w ! APP_MOTOR_STATE_FLAGS AND APP_MOTOR_STATE_FLAG_REMOTE \<noteq> 0 \<longleftrightarrow> m4_remote_mode s)
    \<and> (w ! APP_MOTOR_STATE_FLAGS AND APP_MOTOR_STATE_FLAG_REMOTE_STOP_LATCH \<noteq> 0 \<longleftrightarrow>
         m4_remote_stop_latched s)
    \<and> w ! APP_MOTOR_STATE_APPLIED_DUTY_PERMILLE = motor_duty_permille m
    \<and> w ! APP_MOTOR_STATE_TARGET_DUTY_PERMILLE = motor_target_duty_permille m
    \<and> (w ! APP_MOTOR_STATE_DIRECTION = 0 \<longleftrightarrow> motor_direction m = APP_MOTOR_DIRECTION_FORWARD)
    \<and> s16_of_u16 (w ! APP_MOTOR_STATE_FAULT_CODE) = motor_last_error m
    \<and> w ! APP_MOTOR_STATE_BUTTONS = buttons \<and> w ! APP_MOTOR_STATE_POTENTIOMETER_RAW = pot"
proof -
  let ?h = "frame_init_m4 APP_IPC_FRAME_MOTOR_STATE (m4_state_sequence s + 1) 24"
  obtain age hb seq where b: "bytes = state_bytes \<lparr>state_header = ?h, state_words =
      [motor_state_flags s m, motor_duty_permille m, motor_target_duty_permille m,
       of_nat (direction_code (motor_direction m)), u16_of_int (motor_last_error m), buttons, pot,
       age, loop_ms, hb, seq, 0]\<rparr>"
    using assms(1) by (auto simp: app_ipc_publish_motor_state_def motor_state_flags_def Let_def sizeof_defs
        split: if_splits)
  have f: "frame_of bytes = ?h" by (simp add: b state_bytes_def)
  have sw: "state_words (state_of bytes) = [motor_state_flags s m, motor_duty_permille m,
       motor_target_duty_permille m, of_nat (direction_code (motor_direction m)),
       u16_of_int (motor_last_error m), buttons, pot, age, loop_ms, hb, seq, 0]"
    by (simp add: b)
  have len: "length bytes = 40" by (simp add: b)
  have rec: "endpoint_received_m7 t bytes r = r\<lparr>m7_motor_state_cache := (m7_motor_state_cache r)
      \<lparr>ms_words := state_words (state_of bytes), ms_sequence := m4_state_sequence s + 1,
       ms_age_ms := t, ms_valid := True\<rparr>\<rparr>"
    by (simp add: endpoint_received_m7_def f len frame_init_m4_def sizeof_defs Let_def c_def)
  have w: "w = state_words (state_of bytes)"
    by (simp add: assms(4) rec app_ipc_get_motor_state_def Let_def)
  have v: "ms_valid (app_ipc_get_motor_state t' (endpoint_received_m7 t bytes r))"
    by (simp add: rec app_ipc_get_motor_state_def Let_def)
  have d: "of_nat (direction_code (motor_direction m)) = (0 :: u16) \<longleftrightarrow>
      motor_direction m = APP_MOTOR_DIRECTION_FORWARD"
    by (cases "motor_direction m") simp_all
  show ?thesis
    using v s16_u16_roundtrip [OF assms(2,3)] by (simp add: w sw motor_state_flags_bits d)
qed

theorem published_state_arrives_witness:
  "\<exists>s' bytes. app_ipc_publish_motor_state 0 0 7 10
       (m4_ipc_boot\<lparr>m4_endpoint_initialized := True, m4_endpoint_bound := True\<rparr>) motor_boot = (s', Some bytes)
     \<and> ms_words (app_ipc_get_motor_state 5 (endpoint_received_m7 0 bytes m7_ipc_boot)) ! 6 = 7"
proof -
  let ?s = "m4_ipc_boot\<lparr>m4_endpoint_initialized := True, m4_endpoint_bound := True\<rparr>"
  obtain s' bytes where e: "app_ipc_publish_motor_state 0 0 7 10 ?s motor_boot = (s', Some bytes)"
    by (simp add: app_ipc_publish_motor_state_def Let_def)
  have err: "motor_last_error motor_boot = 0" by (simp add: motor_boot_def)
  show ?thesis
    using e published_state_arrives [OF e _ _ refl, of 5 0 m7_ipc_boot] err by auto
qed

section \<open>Ping\<close>

text \<open>A ping is answered: when the M4 with a bound endpoint gets the M7's PING frame, its next pass of
  \<open>app_ipc_process\<close> sends one PONG, whatever else is pending, and with that PONG delivered in time the
  M7's ping returns 0 and the measured time.\<close>

theorem ping_answered:
  assumes "m7_endpoint_initialized s" and "m7_endpoint_is_bound s" and "0 \<le> send 0"
    and "m4_endpoint_initialized u" and "m4_endpoint_bound u"
    and "ping = frame_bytes (frame_init_m7 APP_IPC_FRAME_PING (m7_next_sequence s + 1) 0)"
  shows "\<exists>pong sm' s'. app_ipc_process_m4 drv a b send_ret (endpoint_received_m4 ping u, m) = (sm', Some pong)
    \<and> app_ipc_ping send start_ms end_ms [(t, pong)] s = (0, Some (end_ms - start_ms), Some ping, s')"
proof -
  let ?pong = "frame_bytes (frame_init_m4 APP_IPC_FRAME_PONG (m7_next_sequence s + 1) 0)"
  have u: "endpoint_received_m4 ping u =
      u\<lparr>m4_pending_sequence := m7_next_sequence s + 1, m4_pending_ping := True\<rparr>"
    by (simp add: assms(6) endpoint_received_m4_def frame_init_m7_def sizeof_defs Let_def)
  have keep: "m4_endpoint_initialized (fst (process_remote_timeout b (process_pending_command drv a (v, m))))
        = m4_endpoint_initialized v"
      "m4_endpoint_bound (fst (process_remote_timeout b (process_pending_command drv a (v, m)))) = m4_endpoint_bound v"
      "m4_pending_ping (fst (process_remote_timeout b (process_pending_command drv a (v, m)))) = m4_pending_ping v"
      "m4_pending_sequence (fst (process_remote_timeout b (process_pending_command drv a (v, m)))) = m4_pending_sequence v"
    for v
    by (simp_all add: process_remote_timeout_def process_pending_command_def apply_remote_command_def
        apply_remote_control_ipc Let_def case_prod_beta)
  have "snd (app_ipc_process_m4 drv a b send_ret (endpoint_received_m4 ping u, m)) = Some ?pong"
    using assms(4,5) by (simp add: app_ipc_process_m4_def keep u Let_def case_prod_beta)
  moreover have p: "is_pong ?pong" "frame_sequence (frame_of ?pong) = m7_next_sequence s + 1"
    by (simp_all add: is_pong_def frame_is_valid_m7_def frame_init_m4_def sizeof_defs)
  have "app_ipc_ping send start_ms end_ms [(t, ?pong)] s = (0, Some (end_ms - start_ms), Some ping,
      snd (snd (snd (app_ipc_ping send start_ms end_ms [(t, ?pong)] s))))"
    using assms(1,2,3) endpoint_received_m7_pong(1) [OF p(1)] p(2) ipc_send_loop_success [of send 0, OF assms(3)]
    by (simp add: app_ipc_ping_def Let_def assms(6) frame_init_m4_def)
  ultimately show ?thesis by (metis prod.collapse)
qed

theorem ping_answered_witness:
  "\<exists>pong sm' s'. app_ipc_process_m4 drv_zero 0 0 0 (endpoint_received_m4
       (frame_bytes (frame_init_m7 APP_IPC_FRAME_PING 1 0))
       (m4_ipc_boot\<lparr>m4_endpoint_initialized := True, m4_endpoint_bound := True\<rparr>), motor_boot) = (sm', Some pong)
     \<and> app_ipc_ping (\<lambda>_. 16) 10 12 [(2, pong)] m7_bound0
        = (0, Some 2, Some (frame_bytes (frame_init_m7 APP_IPC_FRAME_PING 1 0)), s')"
  using ping_answered [where s = m7_bound0 and send = "\<lambda>_. 16" and start_ms = 10 and end_ms = 12
      and t = 2 and drv = drv_zero and a = 0 and b = 0 and send_ret = 0 and m = motor_boot
      and u = "m4_ipc_boot\<lparr>m4_endpoint_initialized := True, m4_endpoint_bound := True\<rparr>", OF _ _ _ _ _ refl]
  by (simp add: m7_bound0_def m7_ipc_boot_def)

end
