(* ===== verification/Net_Cfg.thy ===== *)
theory Net_Cfg
  imports IE_Prelude
begin

text \<open>
  The network configuration, \<open>app_m7/src/net/net_cfg.c\<close>: the saved configuration, its storage in the
  settings subsystem with the migration from older keys, its activation at start, the active
  configuration, and the shell commands \<open>ip show/dhcp/static\<close>.

  A C string is a \<open>string\<close> without its terminating NUL; \<open>snprintk (dst, 16, "%s", s)\<close> keeps the first 15
  characters. \<open>pton\<close> and \<open>ntop\<close> stand for Zephyr's \<open>net_addr_pton\<close> and \<open>net_addr_ntop\<close> on IPv4
  addresses (in host order). The answers of the settings subsystem and of the network interface are
  arguments; what \<open>settings_save_one\<close> is given is a result. The change callback is invoked by the
  callers' models (\<open>net_cfg_notify_changed\<close>); \<open>cfg_lock\<close> makes each copy atomic.
\<close>

section \<open>Data\<close>

definition NET_CFG_DHCP :: nat where [c_def]: "NET_CFG_DHCP = 0"
definition NET_CFG_STATIC :: nat where [c_def]: "NET_CFG_STATIC = 1"

record net_cfg_data =
  nd_mode :: nat
  nd_ip :: string
  nd_mask :: string
  nd_gw :: string

definition NET_CFG_DEFAULT_IP :: string where "NET_CFG_DEFAULT_IP = ''192.168.0.3''"
definition NET_CFG_DEFAULT_MASK :: string where "NET_CFG_DEFAULT_MASK = ''255.255.255.0''"
definition NET_CFG_DEFAULT_GW :: string where "NET_CFG_DEFAULT_GW = ''192.168.0.1''"
definition NET_CFG_STORE_MAGIC :: u32 where "NET_CFG_STORE_MAGIC = 0x4e455443"
definition NET_CFG_STORE_VER :: u8 where "NET_CFG_STORE_VER = 1"

record net_cfg_store =
  ns_magic :: u32
  ns_version :: u8
  ns_mode :: u8
  ns_ip :: string
  ns_mask :: string
  ns_gw :: string

text \<open>4 + 1 + 1 + 3 * 16 bytes, padded to a multiple of 4.\<close>

definition sizeof_net_cfg_store :: int where "sizeof_net_cfg_store = 56"

type_synonym pton = "string \<Rightarrow> u32 option"
type_synonym ntop = "u32 \<Rightarrow> string"

definition snprintk16 :: "string \<Rightarrow> string" where
  "snprintk16 s = take 15 s"

definition c_string :: "string \<Rightarrow> string" where
  "c_string buf = takeWhile (\<lambda>c. c \<noteq> CHR 0x00) buf"

text \<open>The initial value of \<open>cfg\<close>.\<close>

definition net_cfg_boot :: net_cfg_data where
  "net_cfg_boot = \<lparr>nd_mode = NET_CFG_DHCP, nd_ip = NET_CFG_DEFAULT_IP, nd_mask = NET_CFG_DEFAULT_MASK,
     nd_gw = NET_CFG_DEFAULT_GW\<rparr>"

section \<open>Validation and storage\<close>

definition net_cfg_notify_changed :: "('w \<Rightarrow> 'w) option \<Rightarrow> 'w \<Rightarrow> 'w" where
  "net_cfg_notify_changed change_cb w = (case change_cb of Some cb \<Rightarrow> cb w | None \<Rightarrow> w)"

definition net_cfg_restore_defaults :: "net_cfg_data \<Rightarrow> net_cfg_data" where
  "net_cfg_restore_defaults cfg = cfg\<lparr>nd_mode := NET_CFG_DHCP, nd_ip := snprintk16 NET_CFG_DEFAULT_IP,
     nd_mask := snprintk16 NET_CFG_DEFAULT_MASK, nd_gw := snprintk16 NET_CFG_DEFAULT_GW\<rparr>"

definition net_cfg_is_ipv4_string :: "pton \<Rightarrow> string \<Rightarrow> bool" where
  "net_cfg_is_ipv4_string pton s \<longleftrightarrow> pton s \<noteq> None"

definition net_cfg_store_is_valid :: "pton \<Rightarrow> net_cfg_store \<Rightarrow> bool" where
  "net_cfg_store_is_valid pton store \<longleftrightarrow>
     ns_magic store = NET_CFG_STORE_MAGIC
     \<and> ns_version store = NET_CFG_STORE_VER
     \<and> net_cfg_is_ipv4_string pton (ns_ip store)
     \<and> net_cfg_is_ipv4_string pton (ns_mask store)
     \<and> net_cfg_is_ipv4_string pton (ns_gw store)"

text \<open>The blob handed to \<open>settings_save_one\<close>; its answer is the return value.\<close>

definition net_cfg_save :: "net_cfg_data \<Rightarrow> net_cfg_store" where
  "net_cfg_save d = \<lparr>ns_magic = NET_CFG_STORE_MAGIC, ns_version = NET_CFG_STORE_VER,
     ns_mode = of_nat (nd_mode d), ns_ip = snprintk16 (nd_ip d), ns_mask = snprintk16 (nd_mask d),
     ns_gw = snprintk16 (nd_gw d)\<rparr>"

definition net_cfg_copy :: "net_cfg_data \<Rightarrow> net_cfg_data" where
  "net_cfg_copy src = \<lparr>nd_mode = nd_mode src, nd_ip = snprintk16 (nd_ip src),
     nd_mask = snprintk16 (nd_mask src), nd_gw = snprintk16 (nd_gw src)\<rparr>"

text \<open>\<open>None\<close> is the \<open>NULL\<close> pointer.\<close>

definition net_cfg_validate :: "pton \<Rightarrow> net_cfg_data option \<Rightarrow> int" where
  "net_cfg_validate pton d =
     (case d of None \<Rightarrow> - EINVAL
      | Some d \<Rightarrow>
        if nd_mode d \<noteq> NET_CFG_DHCP \<and> nd_mode d \<noteq> NET_CFG_STATIC then - EINVAL
        else if \<not> net_cfg_is_ipv4_string pton (nd_ip d)
                \<or> \<not> net_cfg_is_ipv4_string pton (nd_mask d)
                \<or> \<not> net_cfg_is_ipv4_string pton (nd_gw d) then - EINVAL
        else 0)"

section \<open>Loading\<close>

text \<open>What the settings subsystem answers: for the blob and for the old mode key the length and the
  value, for the old string keys the length and the bytes, and the result of saving.\<close>

record settings_answers =
  sa_blob_len :: int
  sa_blob :: net_cfg_store
  sa_mode_len :: int
  sa_mode :: u8
  sa_string :: "string \<Rightarrow> int \<times> string"
  sa_save_ret :: int

definition net_cfg_load_string :: "int \<times> string \<Rightarrow> string \<Rightarrow> nat \<Rightarrow> int \<times> string" where
  "net_cfg_load_string answer dst dst_size =
     (case answer of (len, bytes) \<Rightarrow>
        if len = - ENOENT \<or> len = 0 then (0, dst)
        else if len < 0 then (len, dst)
        else if int dst_size \<le> len then (- EINVAL, dst)
        else (0, c_string (take (nat len) bytes)))"

definition mode_of_u8 :: "u8 \<Rightarrow> nat" where
  "mode_of_u8 mode = (if mode = of_nat NET_CFG_STATIC then NET_CFG_STATIC else NET_CFG_DHCP)"

text \<open>The migration from the separate keys of older builds, lines 198 to 234. The last component is the
  blob handed to \<open>settings_save_one\<close>.\<close>

definition net_cfg_migrate ::
  "pton \<Rightarrow> settings_answers \<Rightarrow> net_cfg_data \<Rightarrow> int \<times> net_cfg_store option \<times> net_cfg_data" where
  "net_cfg_migrate pton sa cfg =
     (if sa_mode_len sa \<noteq> 1 \<and> sa_mode_len sa < 0 \<and> sa_mode_len sa \<noteq> - ENOENT
      then (sa_mode_len sa, None, cfg)
      else
        let cfg = (if sa_mode_len sa = 1 then cfg\<lparr>nd_mode := mode_of_u8 (sa_mode sa)\<rparr> else cfg);
            (ret, ip) = net_cfg_load_string (sa_string sa ''net_cfg/ip'') (nd_ip cfg) 16;
            cfg = cfg\<lparr>nd_ip := ip\<rparr>
        in if ret < 0 then (ret, None, cfg)
           else
             let (ret, netmask) = net_cfg_load_string (sa_string sa ''net_cfg/mask'') (nd_mask cfg) 16;
                 cfg = cfg\<lparr>nd_mask := netmask\<rparr>
             in if ret < 0 then (ret, None, cfg)
                else
                  let (ret, gw) = net_cfg_load_string (sa_string sa ''net_cfg/gw'') (nd_gw cfg) 16;
                      cfg = cfg\<lparr>nd_gw := gw\<rparr>
                  in if ret < 0 then (ret, None, cfg)
                     else
                       let cfg = (if \<not> net_cfg_is_ipv4_string pton (nd_ip cfg)
                                     \<or> \<not> net_cfg_is_ipv4_string pton (nd_mask cfg)
                                     \<or> \<not> net_cfg_is_ipv4_string pton (nd_gw cfg)
                                  then net_cfg_restore_defaults cfg else cfg)
                       in if sa_save_ret sa < 0 then (sa_save_ret sa, Some (net_cfg_save cfg), cfg)
                          else (0, Some (net_cfg_save cfg), cfg))"

definition net_cfg_load ::
  "pton \<Rightarrow> settings_answers \<Rightarrow> net_cfg_data \<Rightarrow> int \<times> net_cfg_store option \<times> net_cfg_data" where
  "net_cfg_load pton sa cfg =
     (if sa_blob_len sa = sizeof_net_cfg_store \<and> net_cfg_store_is_valid pton (sa_blob sa)
      then (0, None, cfg\<lparr>nd_mode := mode_of_u8 (ns_mode (sa_blob sa)),
                         nd_ip := snprintk16 (ns_ip (sa_blob sa)),
                         nd_mask := snprintk16 (ns_mask (sa_blob sa)),
                         nd_gw := snprintk16 (ns_gw (sa_blob sa))\<rparr>)
      else if 0 \<le> sa_blob_len sa
      then let cfg = net_cfg_restore_defaults cfg
           in if sa_save_ret sa < 0 then (sa_save_ret sa, Some (net_cfg_save cfg), cfg)
              else (0, Some (net_cfg_save cfg), cfg)
      else if sa_blob_len sa \<noteq> - ENOENT then (sa_blob_len sa, None, cfg)
      else net_cfg_migrate pton sa cfg)"

section \<open>Saved and active configuration\<close>

definition net_cfg_get_saved :: "net_cfg_data \<Rightarrow> net_cfg_data" where
  "net_cfg_get_saved cfg = net_cfg_copy cfg"

text \<open>\<open>save_ret\<close> is the answer of \<open>settings_save_one\<close>. The results are the return value, the blob handed
  to it, and the new \<open>cfg\<close>; the change callback runs after a return value of 0.\<close>

definition net_cfg_set_saved ::
  "pton \<Rightarrow> int \<Rightarrow> net_cfg_data option \<Rightarrow> net_cfg_data \<Rightarrow> int \<times> net_cfg_store option \<times> net_cfg_data" where
  "net_cfg_set_saved pton save_ret d cfg =
     (let ret = net_cfg_validate pton d
      in if ret < 0 then (ret, None, cfg)
         else
           let store = net_cfg_save (the d)
           in if save_ret < 0 then (save_ret, Some store, cfg)
              else (0, Some store, net_cfg_copy (the d)))"

datatype net_action =
    Net_add_address u32
  | Net_set_netmask u32 u32
  | Net_set_gateway u32
  | Net_dhcp_start

text \<open>The arguments tell whether there is an interface, and the answers of \<open>net_if_ipv4_addr_add\<close> and
  \<open>net_if_ipv4_set_netmask_by_addr\<close>; the second result are the calls made on the interface, in order.\<close>

definition net_cfg_start ::
  "pton \<Rightarrow> bool \<Rightarrow> bool \<Rightarrow> bool \<Rightarrow> net_cfg_data \<Rightarrow> int \<times> net_action list" where
  "net_cfg_start pton has_iface add_ok netmask_ok cfg =
     (let active_cfg = net_cfg_get_saved cfg
      in if \<not> has_iface then (- ENODEV, [])
         else if nd_mode active_cfg = NET_CFG_STATIC then
           (case pton (nd_ip active_cfg) of None \<Rightarrow> (- EINVAL, [])
            | Some addr \<Rightarrow>
              (case pton (nd_mask active_cfg) of None \<Rightarrow> (- EINVAL, [])
               | Some netmask \<Rightarrow>
                 (case pton (nd_gw active_cfg) of None \<Rightarrow> (- EINVAL, [])
                  | Some gw \<Rightarrow>
                    if \<not> add_ok then (- ENOSPC, [Net_add_address addr])
                    else if \<not> netmask_ok then (- EIO, [Net_add_address addr, Net_set_netmask addr netmask])
                    else (0, [Net_add_address addr, Net_set_netmask addr netmask, Net_set_gateway gw]))))
         else (0, [Net_dhcp_start]))"

text \<open>The unicast addresses of the interface: in use, type, address.\<close>

datatype net_addr_type = NET_ADDR_DHCP | NET_ADDR_MANUAL | NET_ADDR_OTHER

fun net_cfg_select ::
  "(bool \<times> net_addr_type \<times> u32) list \<Rightarrow> nat \<times> u32 option \<Rightarrow> nat \<times> u32 option" where
  "net_cfg_select [] ms = ms"
| "net_cfg_select ((is_used, addr_type, addr) # as) (mode, selected) =
     (if \<not> is_used then net_cfg_select as (mode, selected)
      else if addr_type = NET_ADDR_DHCP then (NET_CFG_DHCP, Some addr)
      else if selected = None \<and> addr_type = NET_ADDR_MANUAL
      then net_cfg_select as (NET_CFG_STATIC, Some addr)
      else net_cfg_select as (mode, selected))"

text \<open>\<open>addrs\<close> is \<open>None\<close> when the interface has no IPv4 configuration; \<open>netmask_of\<close> and \<open>gateway\<close> are
  the answers for the selected address.\<close>

definition net_cfg_get_active ::
  "ntop \<Rightarrow> bool \<Rightarrow> (bool \<times> net_addr_type \<times> u32) list option \<Rightarrow> (u32 \<Rightarrow> u32) \<Rightarrow> u32
     \<Rightarrow> net_cfg_data \<Rightarrow> int \<times> net_cfg_data" where
  "net_cfg_get_active ntop has_iface addrs netmask_of gateway cfg =
     (let out = net_cfg_get_saved cfg
      in if \<not> has_iface then (- ENODEV, out)
         else (case addrs of None \<Rightarrow> (- ENODATA, out)
           | Some as \<Rightarrow>
             let (mode, selected) = net_cfg_select as (nd_mode out, None);
                 out = out\<lparr>nd_mode := mode\<rparr>
             in (case selected of
                   None \<Rightarrow> (0, out\<lparr>nd_ip := snprintk16 ''0.0.0.0'', nd_mask := snprintk16 ''0.0.0.0'',
                                   nd_gw := snprintk16 ''0.0.0.0''\<rparr>)
                 | Some addr \<Rightarrow> (0, out\<lparr>nd_ip := ntop addr, nd_mask := ntop (netmask_of addr),
                                        nd_gw := ntop gateway\<rparr>))))"

definition net_cfg_link_is_up :: "bool \<Rightarrow> bool \<Rightarrow> bool \<Rightarrow> bool" where
  "net_cfg_link_is_up has_iface if_up carrier_ok = (if \<not> has_iface then False else if_up \<and> carrier_ok)"

section \<open>Shell commands\<close>

definition cmd_net_cfg_show :: "net_cfg_data \<Rightarrow> int \<times> string list" where
  "cmd_net_cfg_show cfg =
     (let saved = net_cfg_get_saved cfg
      in (0, [''Mode    : '' @ (if nd_mode saved = NET_CFG_DHCP then ''dhcp'' else ''static''),
              ''IP      : '' @ nd_ip saved,
              ''Netmask : '' @ nd_mask saved,
              ''Gateway : '' @ nd_gw saved]))"

definition cmd_net_cfg_dhcp ::
  "pton \<Rightarrow> int \<Rightarrow> net_cfg_data \<Rightarrow> int \<times> net_cfg_store option \<times> net_cfg_data" where
  "cmd_net_cfg_dhcp pton save_ret cfg =
     (let saved = (net_cfg_get_saved cfg)\<lparr>nd_mode := NET_CFG_DHCP\<rparr>
      in net_cfg_set_saved pton save_ret (Some saved) cfg)"

text \<open>\<open>argv\<close> includes the command name, as in the source.\<close>

definition cmd_net_cfg_static ::
  "pton \<Rightarrow> int \<Rightarrow> string list \<Rightarrow> net_cfg_data \<Rightarrow> int \<times> net_cfg_store option \<times> net_cfg_data" where
  "cmd_net_cfg_static pton save_ret argv cfg =
     (if length argv < 2 then (- EINVAL, None, cfg)
      else if pton (argv ! 1) = None then (- EINVAL, None, cfg)
      else
        let saved = (net_cfg_get_saved cfg)\<lparr>nd_ip := snprintk16 (argv ! 1)\<rparr>
        in if 3 \<le> length argv \<and> pton (argv ! 2) = None then (- EINVAL, None, cfg)
           else
             let saved = (if 3 \<le> length argv then saved\<lparr>nd_mask := snprintk16 (argv ! 2)\<rparr> else saved)
             in if 4 \<le> length argv \<and> pton (argv ! 3) = None then (- EINVAL, None, cfg)
                else
                  let saved = (if 4 \<le> length argv then saved\<lparr>nd_gw := snprintk16 (argv ! 3)\<rparr> else saved);
                      saved = saved\<lparr>nd_mode := NET_CFG_STATIC\<rparr>
                  in net_cfg_set_saved pton save_ret (Some saved) cfg)"

section \<open>Well-formed configurations\<close>

definition net_cfg_ok :: "pton \<Rightarrow> net_cfg_data \<Rightarrow> bool" where
  "net_cfg_ok pton d \<longleftrightarrow> nd_mode d \<in> {NET_CFG_DHCP, NET_CFG_STATIC}
     \<and> (\<forall>s \<in> {nd_ip d, nd_mask d, nd_gw d}. pton s \<noteq> None \<and> length s \<le> 15)"

text \<open>Documented behaviour of \<open>net_addr_pton\<close> the module relies on: the default strings are addresses.\<close>

definition pton_defaults :: "pton \<Rightarrow> bool" where
  "pton_defaults pton \<longleftrightarrow> pton NET_CFG_DEFAULT_IP \<noteq> None \<and> pton NET_CFG_DEFAULT_MASK \<noteq> None
     \<and> pton NET_CFG_DEFAULT_GW \<noteq> None"

lemma snprintk16_id [simp]: "length s \<le> 15 \<Longrightarrow> snprintk16 s = s"
  by (simp add: snprintk16_def)

lemma snprintk16_length [simp]: "length (snprintk16 s) \<le> 15"
  by (simp add: snprintk16_def)

lemma snprintk16_idem [simp]: "snprintk16 (snprintk16 s) = snprintk16 s"
  by simp

lemma net_defaults_length [simp]:
  "length NET_CFG_DEFAULT_IP \<le> 15" "length NET_CFG_DEFAULT_MASK \<le> 15" "length NET_CFG_DEFAULT_GW \<le> 15"
  by (simp_all add: NET_CFG_DEFAULT_IP_def NET_CFG_DEFAULT_MASK_def NET_CFG_DEFAULT_GW_def)

lemma net_cfg_restore_defaults_ok: "pton_defaults pton \<Longrightarrow> net_cfg_ok pton (net_cfg_restore_defaults cfg)"
  by (simp add: net_cfg_ok_def net_cfg_restore_defaults_def pton_defaults_def)

lemma net_cfg_boot_ok: "pton_defaults pton \<Longrightarrow> net_cfg_ok pton net_cfg_boot"
  by (simp add: net_cfg_ok_def net_cfg_boot_def pton_defaults_def)

lemma net_cfg_copy_id: "net_cfg_ok pton d \<Longrightarrow> net_cfg_copy d = d"
  by (cases d) (simp add: net_cfg_ok_def net_cfg_copy_def)

lemma net_cfg_validate_Some:
  "net_cfg_validate pton (Some d) = (if nd_mode d \<in> {NET_CFG_DHCP, NET_CFG_STATIC}
     \<and> pton (nd_ip d) \<noteq> None \<and> pton (nd_mask d) \<noteq> None \<and> pton (nd_gw d) \<noteq> None then 0 else - EINVAL)"
  by (auto simp: net_cfg_validate_def net_cfg_is_ipv4_string_def)

lemma net_cfg_set_saved_Some:
  "net_cfg_set_saved pton save_ret (Some d) cfg =
     (if net_cfg_validate pton (Some d) < 0 then (- EINVAL, None, cfg)
      else if save_ret < 0 then (save_ret, Some (net_cfg_save d), cfg)
      else (0, Some (net_cfg_save d), net_cfg_copy d))"
  by (simp add: net_cfg_set_saved_def Let_def net_cfg_validate_Some)

lemma net_cfg_set_saved_ok:
  assumes "net_cfg_ok pton cfg" and "length (nd_ip d) \<le> 15" "length (nd_mask d) \<le> 15" "length (nd_gw d) \<le> 15"
  shows "net_cfg_ok pton (snd (snd (net_cfg_set_saved pton save_ret (Some d) cfg)))"
  using assms by (auto simp: net_cfg_set_saved_Some net_cfg_validate_Some net_cfg_ok_def net_cfg_copy_def)

lemma net_cfg_load_string_length:
  assumes "net_cfg_load_string answer dst 16 = (ret, s)" and "length dst \<le> 15"
  shows "length s \<le> 15"
proof (cases answer)
  case (Pair len bytes)
  have "length (c_string (take (nat len) bytes)) \<le> length (take (nat len) bytes)"
    unfolding c_string_def by (rule length_takeWhile_le)
  then show ?thesis
    using assms by (auto simp: Pair net_cfg_load_string_def split: if_splits)
qed

lemma net_cfg_migrate_ok:
  assumes "net_cfg_migrate pton sa cfg = (0, stored, cfg')" and "pton_defaults pton" and "net_cfg_ok pton cfg"
  shows "net_cfg_ok pton cfg'"
proof -
  obtain r1 ip where s1: "net_cfg_load_string (sa_string sa ''net_cfg/ip'') (nd_ip cfg) 16 = (r1, ip)"
    by fastforce
  obtain r2 mk where s2: "net_cfg_load_string (sa_string sa ''net_cfg/mask'') (nd_mask cfg) 16 = (r2, mk)"
    by fastforce
  obtain r3 gw where s3: "net_cfg_load_string (sa_string sa ''net_cfg/gw'') (nd_gw cfg) 16 = (r3, gw)"
    by fastforce
  have len: "length ip \<le> 15" "length mk \<le> 15" "length gw \<le> 15"
    using net_cfg_load_string_length [OF s1] net_cfg_load_string_length [OF s2]
      net_cfg_load_string_length [OF s3] assms(3) by (simp_all add: net_cfg_ok_def)
  have m: "mode_of_u8 u \<in> {NET_CFG_DHCP, NET_CFG_STATIC}" for u
    by (simp add: mode_of_u8_def)
  define cfg1 where "cfg1 = (if sa_mode_len sa = 1 then cfg\<lparr>nd_mode := mode_of_u8 (sa_mode sa)\<rparr> else cfg)"
  have c1: "nd_ip cfg1 = nd_ip cfg" "nd_mask cfg1 = nd_mask cfg" "nd_gw cfg1 = nd_gw cfg"
    "nd_mode cfg1 \<in> {NET_CFG_DHCP, NET_CFG_STATIC}"
    using assms(3) m by (simp_all add: cfg1_def net_cfg_ok_def)
  have "cfg' = (if pton ip = None \<or> pton mk = None \<or> pton gw = None
      then net_cfg_restore_defaults (cfg1\<lparr>nd_ip := ip, nd_mask := mk, nd_gw := gw\<rparr>)
      else cfg1\<lparr>nd_ip := ip, nd_mask := mk, nd_gw := gw\<rparr>)"
    using assms(1) unfolding net_cfg_migrate_def cfg1_def [symmetric]
    by (auto simp: Let_def c1 s1 s2 s3 net_cfg_is_ipv4_string_def split: if_splits)
  then show ?thesis
    using c1(4) len net_cfg_restore_defaults_ok [OF assms(2)] by (auto simp: net_cfg_ok_def)
qed

section \<open>Properties\<close>

text \<open>Loading never yields an unusable configuration: when \<open>net_cfg_load\<close> succeeds, whatever was in
  the settings storage, the mode is DHCP or static and the three strings are addresses of at most 15
  characters; and \<open>net_cfg_start\<close> then either starts DHCP or configures exactly the stored addresses.\<close>

theorem net_cfg_load_start_ok:
  assumes "net_cfg_load pton sa net_cfg_boot = (0, stored, cfg)" and "pton_defaults pton"
    and "length (ns_ip (sa_blob sa)) \<le> 15" "length (ns_mask (sa_blob sa)) \<le> 15" "length (ns_gw (sa_blob sa)) \<le> 15"
  shows "net_cfg_ok pton cfg
    \<and> net_cfg_start pton True True True cfg =
        (0, if nd_mode cfg = NET_CFG_STATIC
            then [Net_add_address (the (pton (nd_ip cfg))),
                  Net_set_netmask (the (pton (nd_ip cfg))) (the (pton (nd_mask cfg))),
                  Net_set_gateway (the (pton (nd_gw cfg)))]
            else [Net_dhcp_start])"
proof -
  have ok: "net_cfg_ok pton cfg"
    using assms net_cfg_migrate_ok [of pton sa net_cfg_boot stored cfg] net_cfg_restore_defaults_ok [of pton]
      net_cfg_boot_ok [of pton]
    by (auto simp: net_cfg_load_def Let_def net_cfg_store_is_valid_def net_cfg_is_ipv4_string_def mode_of_u8_def
        net_cfg_ok_def [of _ "net_cfg_boot\<lparr>nd_mode := _, nd_ip := _, nd_mask := _, nd_gw := _\<rparr>"]
        split: if_splits)
  then have "nd_mode cfg = NET_CFG_STATIC \<Longrightarrow> \<exists>a m g. pton (nd_ip cfg) = Some a \<and> pton (nd_mask cfg) = Some m
      \<and> pton (nd_gw cfg) = Some g"
    by (auto simp: net_cfg_ok_def)
  with ok show ?thesis
    by (auto simp: net_cfg_start_def net_cfg_get_saved_def net_cfg_copy_id [OF ok] Let_def)
qed

text \<open>Saving is atomic and durable: a configuration is either refused (invalid, or the storage
  fails) with the current one untouched, or it becomes the current one, and then loading the stored
  blob at the next boot gives it back exactly.\<close>

theorem net_cfg_save_roundtrip:
  assumes "net_cfg_set_saved pton save_ret (Some d) cfg = (ret, stored, cfg')"
    and "length (nd_ip d) \<le> 15" "length (nd_mask d) \<le> 15" "length (nd_gw d) \<le> 15"
    and "ret = 0 \<Longrightarrow> sa_blob_len sa = sizeof_net_cfg_store \<and> Some (sa_blob sa) = stored"
  shows "if ret = 0 then cfg' = d \<and> net_cfg_load pton sa net_cfg_boot = (0, None, d)
    else cfg' = cfg \<and> (ret = - EINVAL \<or> ret = save_ret)"
proof (cases "ret = 0")
  case True
  have v: "nd_mode d \<in> {NET_CFG_DHCP, NET_CFG_STATIC}" "pton (nd_ip d) \<noteq> None" "pton (nd_mask d) \<noteq> None"
    "pton (nd_gw d) \<noteq> None" and c: "cfg' = net_cfg_copy d" "stored = Some (net_cfg_save d)"
    using assms(1) True by (auto simp: net_cfg_set_saved_Some net_cfg_validate_Some split: if_splits)
  have d: "net_cfg_copy d = d" using assms(2-4) by (cases d) (simp add: net_cfg_copy_def)
  have mode: "mode_of_u8 (of_nat (nd_mode d)) = nd_mode d"
    using v(1) by (auto simp: mode_of_u8_def c_def)
  have b: "sa_blob sa = net_cfg_save d" "sa_blob_len sa = sizeof_net_cfg_store"
    using assms(5) [OF True] c by simp_all
  have "net_cfg_store_is_valid pton (net_cfg_save d)"
    using v assms(2-4) by (simp add: net_cfg_store_is_valid_def net_cfg_save_def net_cfg_is_ipv4_string_def)
  moreover have "net_cfg_boot\<lparr>nd_mode := nd_mode d, nd_ip := nd_ip d, nd_mask := nd_mask d, nd_gw := nd_gw d\<rparr> = d"
    by (cases d) (simp add: net_cfg_boot_def)
  ultimately have "net_cfg_load pton sa net_cfg_boot = (0, None, d)"
    using assms(2-4) by (simp add: net_cfg_load_def b net_cfg_save_def mode)
  then show ?thesis using True c d by simp
next
  case False
  then show ?thesis
    using assms(1) by (auto simp: net_cfg_set_saved_Some split: if_splits)
qed

text \<open>The active address is chosen independently of the table order: the first address in use that
  came from DHCP, otherwise the first manual one, otherwise none.\<close>

theorem net_cfg_select_spec:
  "net_cfg_select as (mode, None) =
     (case find (\<lambda>(u, t, a). u \<and> t = NET_ADDR_DHCP) as of
        Some (u, t, a) \<Rightarrow> (NET_CFG_DHCP, Some a)
      | None \<Rightarrow>
        (case find (\<lambda>(u, t, a). u \<and> t = NET_ADDR_MANUAL) as of
           Some (u, t, a) \<Rightarrow> (NET_CFG_STATIC, Some a)
         | None \<Rightarrow> (mode, None)))"
proof -
  have sel: "net_cfg_select as (m, Some x) =
      (case find (\<lambda>(u, t, a). u \<and> t = NET_ADDR_DHCP) as of
         Some (u, t, a) \<Rightarrow> (NET_CFG_DHCP, Some a) | None \<Rightarrow> (m, Some x))" for as m x
    by (induction as) (auto split: if_splits)
  show ?thesis
    by (induction as) (auto simp: sel split: if_splits option.splits)
qed

section \<open>Concrete runs\<close>

definition pton_example :: pton where
  "pton_example s = (if s \<in> {NET_CFG_DEFAULT_IP, NET_CFG_DEFAULT_MASK, NET_CFG_DEFAULT_GW, ''10.0.0.9''}
     then Some (of_nat (length s)) else None)"

definition settings_example :: "net_cfg_store \<Rightarrow> settings_answers" where
  "settings_example store = \<lparr>sa_blob_len = 56, sa_blob = store, sa_mode_len = 0, sa_mode = 0,
     sa_string = (\<lambda>_. (0, [])), sa_save_ret = 0\<rparr>"

definition net_cfg_example :: net_cfg_data where
  "net_cfg_example = \<lparr>nd_mode = NET_CFG_STATIC, nd_ip = ''10.0.0.9'', nd_mask = NET_CFG_DEFAULT_MASK,
     nd_gw = NET_CFG_DEFAULT_GW\<rparr>"

lemma pton_example_defaults [simp]: "pton_defaults pton_example"
  by (simp add: pton_defaults_def pton_example_def)

lemma net_cfg_example_load:
  "net_cfg_load pton_example (settings_example (net_cfg_save net_cfg_example)) net_cfg_boot
     = (0, None, net_cfg_example)"
  by (simp add: net_cfg_load_def settings_example_def sizeof_net_cfg_store_def net_cfg_store_is_valid_def
      net_cfg_is_ipv4_string_def net_cfg_save_def net_cfg_example_def pton_example_def mode_of_u8_def
      net_cfg_boot_def c_def)

theorem net_cfg_save_roundtrip_witness:
  "net_cfg_load pton_example (settings_example (net_cfg_save net_cfg_example)) net_cfg_boot
     = (0, None, net_cfg_example)"
proof -
  have "net_cfg_set_saved pton_example 0 (Some net_cfg_example) net_cfg_boot
      = (0, Some (net_cfg_save net_cfg_example), net_cfg_copy net_cfg_example)"
    by (simp add: net_cfg_set_saved_Some net_cfg_validate_Some net_cfg_example_def pton_example_def)
  from net_cfg_save_roundtrip [OF this, where sa = "settings_example (net_cfg_save net_cfg_example)"]
  show ?thesis
    by (simp add: settings_example_def sizeof_net_cfg_store_def net_cfg_example_def)
qed

theorem net_cfg_load_start_ok_witness:
  "fst (net_cfg_start pton_example True True True net_cfg_example) = 0"
proof -
  have len: "length (ns_ip (net_cfg_save net_cfg_example)) \<le> 15"
    "length (ns_mask (net_cfg_save net_cfg_example)) \<le> 15" "length (ns_gw (net_cfg_save net_cfg_example)) \<le> 15"
    by (simp_all add: net_cfg_save_def)
  show ?thesis
    using net_cfg_load_start_ok [OF net_cfg_example_load pton_example_defaults] len
    by (simp add: settings_example_def)
qed

end
