(* ===== verification/Modbus_Map.thy ===== *)
theory Modbus_Map
  imports IE_Prelude
begin

text \<open>
  The Modbus register map, \<open>app_m7/src/protocols/modbus/modbus_map.h\<close>: the layout of the 60 holding
  registers and 16 input registers that the Modbus server, its scanner window, EtherNet/IP and the
  web server share.
\<close>

definition APP_MODBUS_MAP_SIGNATURE :: u16 where [c_def]: "APP_MODBUS_MAP_SIGNATURE = 0x0747"
definition APP_MODBUS_MAP_VERSION :: u16 where [c_def]: "APP_MODBUS_MAP_VERSION = 4"
definition APP_MODBUS_HOLDING_REG_COUNT :: u16 where [c_def]: "APP_MODBUS_HOLDING_REG_COUNT = 60"
definition APP_MODBUS_INPUT_REG_COUNT :: u16 where [c_def]: "APP_MODBUS_INPUT_REG_COUNT = 16"

definition APP_MB_HREG_SIGNATURE :: u16 where [c_def]: "APP_MB_HREG_SIGNATURE = 0"
definition APP_MB_HREG_MODE :: u16 where [c_def]: "APP_MB_HREG_MODE = 1"
definition APP_MB_HREG_IP_MSW :: u16 where [c_def]: "APP_MB_HREG_IP_MSW = 2"
definition APP_MB_HREG_IP_LSW :: u16 where [c_def]: "APP_MB_HREG_IP_LSW = 3"
definition APP_MB_HREG_MASK_MSW :: u16 where [c_def]: "APP_MB_HREG_MASK_MSW = 4"
definition APP_MB_HREG_MASK_LSW :: u16 where [c_def]: "APP_MB_HREG_MASK_LSW = 5"
definition APP_MB_HREG_GW_MSW :: u16 where [c_def]: "APP_MB_HREG_GW_MSW = 6"
definition APP_MB_HREG_GW_LSW :: u16 where [c_def]: "APP_MB_HREG_GW_LSW = 7"
definition APP_MB_HREG_COMMAND :: u16 where [c_def]: "APP_MB_HREG_COMMAND = 8"
definition APP_MB_HREG_STATUS :: u16 where [c_def]: "APP_MB_HREG_STATUS = 9"
definition APP_MB_HREG_MOTOR_MODE :: u16 where [c_def]: "APP_MB_HREG_MOTOR_MODE = 10"
definition APP_MB_HREG_MOTOR_CONTROL :: u16 where [c_def]: "APP_MB_HREG_MOTOR_CONTROL = 11"
definition APP_MB_HREG_MOTOR_APPLY :: u16 where [c_def]: "APP_MB_HREG_MOTOR_APPLY = 12"
definition APP_MB_HREG_MOTOR_TARGET_DUTY :: u16 where [c_def]: "APP_MB_HREG_MOTOR_TARGET_DUTY = 13"
definition APP_MB_HREG_MOTOR_ACCEL_RAMP :: u16 where [c_def]: "APP_MB_HREG_MOTOR_ACCEL_RAMP = 14"
definition APP_MB_HREG_MOTOR_DECEL_RAMP :: u16 where [c_def]: "APP_MB_HREG_MOTOR_DECEL_RAMP = 15"
definition APP_MB_HREG_MOTOR_TIMEOUT :: u16 where [c_def]: "APP_MB_HREG_MOTOR_TIMEOUT = 16"
definition APP_MB_HREG_MOTOR_COMMAND_STATUS :: u16 where [c_def]: "APP_MB_HREG_MOTOR_COMMAND_STATUS = 17"
definition APP_MB_HREG_MOTOR_COMMAND_SEQUENCE :: u16 where [c_def]: "APP_MB_HREG_MOTOR_COMMAND_SEQUENCE = 18"
definition APP_MB_HREG_MOTOR_RESERVED :: u16 where [c_def]: "APP_MB_HREG_MOTOR_RESERVED = 19"
definition APP_MB_HREG_MOTOR_STATE_BASE :: u16 where [c_def]: "APP_MB_HREG_MOTOR_STATE_BASE = 20"
definition APP_MB_HREG_MOTOR_STATE_COUNT :: u16 where [c_def]: "APP_MB_HREG_MOTOR_STATE_COUNT = 12"
definition APP_MB_HREG_SCANNER_INPUT_MAP_BASE :: u16 where [c_def]: "APP_MB_HREG_SCANNER_INPUT_MAP_BASE = 40"
definition APP_MB_HREG_SCANNER_INPUT_MAP_COUNT :: u16 where [c_def]: "APP_MB_HREG_SCANNER_INPUT_MAP_COUNT = 5"
definition APP_MB_HREG_SCANNER_OUTPUT_MAP_BASE :: u16 where [c_def]: "APP_MB_HREG_SCANNER_OUTPUT_MAP_BASE = 45"
definition APP_MB_HREG_SCANNER_OUTPUT_MAP_COUNT :: u16 where [c_def]: "APP_MB_HREG_SCANNER_OUTPUT_MAP_COUNT = 5"
definition APP_MB_HREG_APPLICATION_DATA_BASE :: u16 where [c_def]: "APP_MB_HREG_APPLICATION_DATA_BASE = 50"
definition APP_MB_HREG_APPLICATION_DATA_COUNT :: u16 where [c_def]: "APP_MB_HREG_APPLICATION_DATA_COUNT = 10"
definition APP_MB_SCAN_MAP_FREE :: u16 where [c_def]: "APP_MB_SCAN_MAP_FREE = 0xffff"
definition APP_MB_MOTOR_MODE_LOCAL :: u16 where [c_def]: "APP_MB_MOTOR_MODE_LOCAL = 0"
definition APP_MB_MOTOR_MODE_REMOTE :: u16 where [c_def]: "APP_MB_MOTOR_MODE_REMOTE = 1"
definition APP_MB_MOTOR_APPLY_COMMAND :: u16 where [c_def]: "APP_MB_MOTOR_APPLY_COMMAND = 1"
definition APP_MB_MOTOR_STATUS_PENDING :: u16 where [c_def]: "APP_MB_MOTOR_STATUS_PENDING = 0x7fff"
definition APP_MB_IREG_SIGNATURE :: u16 where [c_def]: "APP_MB_IREG_SIGNATURE = 0"
definition APP_MB_IREG_MAP_VERSION :: u16 where [c_def]: "APP_MB_IREG_MAP_VERSION = 1"
definition APP_MB_IREG_UPTIME_LSW :: u16 where [c_def]: "APP_MB_IREG_UPTIME_LSW = 2"
definition APP_MB_IREG_UPTIME_MSW :: u16 where [c_def]: "APP_MB_IREG_UPTIME_MSW = 3"
definition APP_MB_IREG_ACTIVE_MODE :: u16 where [c_def]: "APP_MB_IREG_ACTIVE_MODE = 4"
definition APP_MB_IREG_LINK_STATUS :: u16 where [c_def]: "APP_MB_IREG_LINK_STATUS = 5"
definition APP_MB_IREG_IP_MSW :: u16 where [c_def]: "APP_MB_IREG_IP_MSW = 6"
definition APP_MB_IREG_IP_LSW :: u16 where [c_def]: "APP_MB_IREG_IP_LSW = 7"
definition APP_MB_IREG_MASK_MSW :: u16 where [c_def]: "APP_MB_IREG_MASK_MSW = 8"
definition APP_MB_IREG_MASK_LSW :: u16 where [c_def]: "APP_MB_IREG_MASK_LSW = 9"
definition APP_MB_IREG_GW_MSW :: u16 where [c_def]: "APP_MB_IREG_GW_MSW = 10"
definition APP_MB_IREG_GW_LSW :: u16 where [c_def]: "APP_MB_IREG_GW_LSW = 11"
definition APP_MB_IREG_HEARTBEAT_LSW :: u16 where [c_def]: "APP_MB_IREG_HEARTBEAT_LSW = 12"
definition APP_MB_IREG_LAST_STATUS :: u16 where [c_def]: "APP_MB_IREG_LAST_STATUS = 13"
definition APP_MB_IREG_CONN_COUNT :: u16 where [c_def]: "APP_MB_IREG_CONN_COUNT = 14"
definition APP_MB_IREG_RESERVED :: u16 where [c_def]: "APP_MB_IREG_RESERVED = 15"
definition APP_MB_CMD_NONE :: u16 where [c_def]: "APP_MB_CMD_NONE = 0"
definition APP_MB_CMD_SAVE :: u16 where [c_def]: "APP_MB_CMD_SAVE = 1"

text \<open>The register classes of \<open>app_modbus_tcp.c\<close>.\<close>

definition is_motor_command_addr :: "u16 \<Rightarrow> bool" where
  "is_motor_command_addr addr \<longleftrightarrow> APP_MB_HREG_MOTOR_MODE \<le> addr \<and> addr \<le> APP_MB_HREG_MOTOR_TIMEOUT"

definition is_motor_state_addr :: "u16 \<Rightarrow> bool" where
  "is_motor_state_addr addr \<longleftrightarrow> APP_MB_HREG_MOTOR_STATE_BASE \<le> addr
     \<and> addr < APP_MB_HREG_MOTOR_STATE_BASE + APP_MB_HREG_MOTOR_STATE_COUNT"

definition is_input_scanner_mapping_addr :: "u16 \<Rightarrow> bool" where
  "is_input_scanner_mapping_addr addr \<longleftrightarrow> APP_MB_HREG_SCANNER_INPUT_MAP_BASE \<le> addr
     \<and> addr < APP_MB_HREG_SCANNER_INPUT_MAP_BASE + APP_MB_HREG_SCANNER_INPUT_MAP_COUNT"

definition is_output_scanner_mapping_addr :: "u16 \<Rightarrow> bool" where
  "is_output_scanner_mapping_addr addr \<longleftrightarrow> APP_MB_HREG_SCANNER_OUTPUT_MAP_BASE \<le> addr
     \<and> addr < APP_MB_HREG_SCANNER_OUTPUT_MAP_BASE + APP_MB_HREG_SCANNER_OUTPUT_MAP_COUNT"

definition is_valid_scanner_mapping :: "u16 \<Rightarrow> bool" where
  "is_valid_scanner_mapping holding_addr \<longleftrightarrow>
     holding_addr = APP_MB_SCAN_MAP_FREE \<or> holding_addr < APP_MODBUS_HOLDING_REG_COUNT"

definition is_writable_output_scanner_mapping :: "u16 \<Rightarrow> bool" where
  "is_writable_output_scanner_mapping holding_addr \<longleftrightarrow>
     holding_addr = APP_MB_SCAN_MAP_FREE
     \<or> (\<not> is_motor_state_addr holding_addr
        \<and> holding_addr \<noteq> APP_MB_HREG_MOTOR_COMMAND_STATUS
        \<and> holding_addr \<noteq> APP_MB_HREG_MOTOR_COMMAND_SEQUENCE
        \<and> holding_addr \<noteq> APP_MB_HREG_MOTOR_RESERVED
        \<and> \<not> is_input_scanner_mapping_addr holding_addr
        \<and> \<not> is_output_scanner_mapping_addr holding_addr)"

text \<open>The registers \<open>holding_reg_wr\<close> refuses with \<open>EACCES\<close>.\<close>

definition is_read_only_addr :: "u16 \<Rightarrow> bool" where
  "is_read_only_addr addr \<longleftrightarrow> is_motor_state_addr addr \<or> addr = APP_MB_HREG_MOTOR_COMMAND_STATUS
     \<or> addr = APP_MB_HREG_MOTOR_COMMAND_SEQUENCE \<or> addr = APP_MB_HREG_MOTOR_RESERVED"

text \<open>The same classes on natural numbers.\<close>

lemma register_classes:
  "is_motor_command_addr addr \<longleftrightarrow> 10 \<le> unat addr \<and> unat addr \<le> 16"
  "is_motor_state_addr addr \<longleftrightarrow> 20 \<le> unat addr \<and> unat addr < 32"
  "is_input_scanner_mapping_addr addr \<longleftrightarrow> 40 \<le> unat addr \<and> unat addr < 45"
  "is_output_scanner_mapping_addr addr \<longleftrightarrow> 45 \<le> unat addr \<and> unat addr < 50"
  "is_valid_scanner_mapping addr \<longleftrightarrow> unat addr = 65535 \<or> unat addr < 60"
  "is_read_only_addr addr \<longleftrightarrow> 17 \<le> unat addr \<and> unat addr < 32"
  by (auto simp: is_motor_command_addr_def is_motor_state_addr_def is_input_scanner_mapping_addr_def
      is_output_scanner_mapping_addr_def is_valid_scanner_mapping_def is_read_only_addr_def c_def
      to_nat_simps word_unat_eq_iff)

lemma writable_output_mapping:
  "is_writable_output_scanner_mapping addr \<longleftrightarrow> unat addr = 65535
     \<or> \<not> (17 \<le> unat addr \<and> unat addr < 32) \<and> \<not> (40 \<le> unat addr \<and> unat addr < 50)"
  by (auto simp: is_writable_output_scanner_mapping_def register_classes c_def word_unat_eq_iff)

end
