(* ===== verification/Modbus_Scanner.thy ===== *)
theory Modbus_Scanner
  imports Modbus_Map
begin

text \<open>
  The scanner window of Modbus Unit-ID 2, \<open>app_m7/src/protocols/modbus/app_modbus_scanner.c\<close>: five input
  and five output words, each mapped to a holding register of Unit-ID 1 by the tables in registers 40
  to 44 and 45 to 49, or kept locally when the mapping is free.

  The record \<open>scanner\<close> holds the module's static variables but the two function pointers; these are
  arguments: \<open>rd\<close> and \<open>wr\<close>, on an arbitrary state of the register bank, \<open>None\<close> for \<open>NULL\<close>. A read gives
  \<open>Inl\<close> the error code or \<open>Inr\<close> the value. The locale \<open>register_bank\<close> is what the scanner relies on;
  the Modbus server's registers are its interpretation.
\<close>

section \<open>State\<close>

definition APP_MODBUS_SCANNER_UNIT_ID :: u8 where [c_def]: "APP_MODBUS_SCANNER_UNIT_ID = 2"
definition APP_MODBUS_SCANNER_INPUT_REG_COUNT :: u16 where [c_def]: "APP_MODBUS_SCANNER_INPUT_REG_COUNT = 5"
definition APP_MODBUS_SCANNER_OUTPUT_REG_COUNT :: u16 where [c_def]: "APP_MODBUS_SCANNER_OUTPUT_REG_COUNT = 5"
definition APP_MODBUS_SCANNER_REG_COUNT :: u16 where [c_def]: "APP_MODBUS_SCANNER_REG_COUNT = 10"

type_synonym 'w reg_rd = "'w \<Rightarrow> u16 \<Rightarrow> int + u16"
type_synonym 'w reg_wr = "u16 \<Rightarrow> u16 \<Rightarrow> 'w \<Rightarrow> int \<times> 'w"

record scanner =
  sc_input_local_regs :: "u16 list"
  sc_output_local_regs :: "u16 list"
  sc_legacy_local_regs :: "u16 list"
  sc_read_count :: u16
  sc_write_count :: u16
  sc_last_addr :: u16
  sc_last_error :: int
  sc_last_access_ms :: u32
  sc_period_ms :: u16

definition scanner_boot :: scanner where
  "scanner_boot = \<lparr>sc_input_local_regs = replicate 5 0, sc_output_local_regs = replicate 5 0,
     sc_legacy_local_regs = replicate 10 0, sc_read_count = 0, sc_write_count = 0, sc_last_addr = 0,
     sc_last_error = 0, sc_last_access_ms = 0, sc_period_ms = 0\<rparr>"

section \<open>Operations\<close>

definition update_access_diag :: "u32 \<Rightarrow> u16 \<Rightarrow> bool \<Rightarrow> int \<Rightarrow> scanner \<Rightarrow> scanner" where
  "update_access_diag now_ms addr is_write err sc =
     (let sc = (if sc_last_access_ms sc \<noteq> 0
                then sc\<lparr>sc_period_ms := ucast (now_ms - sc_last_access_ms sc)\<rparr> else sc);
          sc = sc\<lparr>sc_last_access_ms := now_ms, sc_last_addr := addr, sc_last_error := err\<rparr>
      in if is_write then sc\<lparr>sc_write_count := sc_write_count sc + 1\<rparr>
         else sc\<lparr>sc_read_count := sc_read_count sc + 1\<rparr>)"

definition scanner_map_rd :: "'w reg_rd option \<Rightarrow> u16 \<Rightarrow> u16 \<Rightarrow> 'w \<Rightarrow> int + u16" where
  "scanner_map_rd rd map_base scanner_addr w =
     (case rd of None \<Rightarrow> Inl (- ENODEV) | Some rd \<Rightarrow> rd w (map_base + scanner_addr))"

text \<open>The return code of a read.\<close>

definition rd_code :: "int + u16 \<Rightarrow> int" where
  "rd_code r = (case r of Inl e \<Rightarrow> e | Inr _ \<Rightarrow> 0)"

definition app_modbus_scanner_input_reg_rd ::
  "'w reg_rd option \<Rightarrow> u32 \<Rightarrow> u16 \<Rightarrow> scanner \<times> 'w \<Rightarrow> (int + u16) \<times> scanner" where
  "app_modbus_scanner_input_reg_rd rd now addr scw =
     (case scw of (sc, w) \<Rightarrow>
        if APP_MODBUS_SCANNER_INPUT_REG_COUNT \<le> addr
        then (Inl (- ENOTSUP), update_access_diag now addr False (- ENOTSUP) sc)
        else
          (case scanner_map_rd rd APP_MB_HREG_SCANNER_INPUT_MAP_BASE addr w of
             Inl ret \<Rightarrow> (Inl ret, update_access_diag now addr False ret sc)
           | Inr holding_addr \<Rightarrow>
             if holding_addr = APP_MB_SCAN_MAP_FREE
             then (Inr (sc_input_local_regs sc ! unat addr), update_access_diag now addr False 0 sc)
             else
               let ret = (case rd of None \<Rightarrow> Inl (- ENODEV) | Some rd \<Rightarrow> rd w holding_addr)
               in (ret, update_access_diag now addr False (rd_code ret) sc)))"

definition app_modbus_scanner_output_reg_rd ::
  "'w reg_rd option \<Rightarrow> u32 \<Rightarrow> u16 \<Rightarrow> scanner \<times> 'w \<Rightarrow> (int + u16) \<times> scanner" where
  "app_modbus_scanner_output_reg_rd rd now addr scw =
     (case scw of (sc, w) \<Rightarrow>
        if APP_MODBUS_SCANNER_OUTPUT_REG_COUNT \<le> addr
        then (Inl (- ENOTSUP), update_access_diag now addr False (- ENOTSUP) sc)
        else
          (case scanner_map_rd rd APP_MB_HREG_SCANNER_OUTPUT_MAP_BASE addr w of
             Inl ret \<Rightarrow> (Inl ret, update_access_diag now addr False ret sc)
           | Inr holding_addr \<Rightarrow>
             if holding_addr = APP_MB_SCAN_MAP_FREE
             then (Inr (sc_output_local_regs sc ! unat addr), update_access_diag now addr False 0 sc)
             else
               let ret = (case rd of None \<Rightarrow> Inl (- ENODEV) | Some rd \<Rightarrow> rd w holding_addr)
               in (ret, update_access_diag now addr False (rd_code ret) sc)))"

definition app_modbus_scanner_output_reg_wr ::
  "'w reg_rd option \<Rightarrow> 'w reg_wr option \<Rightarrow> u32 \<Rightarrow> u16 \<Rightarrow> u16 \<Rightarrow> scanner \<times> 'w \<Rightarrow> int \<times> scanner \<times> 'w" where
  "app_modbus_scanner_output_reg_wr rd wr now addr reg scw =
     (case scw of (sc, w) \<Rightarrow>
        if APP_MODBUS_SCANNER_OUTPUT_REG_COUNT \<le> addr
        then (- ENOTSUP, update_access_diag now addr True (- ENOTSUP) sc, w)
        else
          (case scanner_map_rd rd APP_MB_HREG_SCANNER_OUTPUT_MAP_BASE addr w of
             Inl ret \<Rightarrow> (ret, update_access_diag now addr True ret sc, w)
           | Inr holding_addr \<Rightarrow>
             if holding_addr = APP_MB_SCAN_MAP_FREE
             then (0, update_access_diag now addr True 0
                      (sc\<lparr>sc_output_local_regs := (sc_output_local_regs sc)[unat addr := reg]\<rparr>), w)
             else
               let (ret, w) =
                 (if holding_addr = APP_MB_HREG_MOTOR_APPLY \<and> reg = 0 then (0, w)
                  else if holding_addr = APP_MB_HREG_MOTOR_APPLY
                  then (case wr of None \<Rightarrow> (- ENODEV, w)
                        | Some wr \<Rightarrow>
                          let (ret, w) = wr APP_MB_HREG_MOTOR_MODE APP_MB_MOTOR_MODE_REMOTE w
                          in if 0 \<le> ret then wr APP_MB_HREG_MOTOR_APPLY reg w else (ret, w))
                  else (case wr of None \<Rightarrow> (- ENODEV, w) | Some wr \<Rightarrow> wr holding_addr reg w))
               in (ret, update_access_diag now addr True ret sc, w)))"

definition app_modbus_scanner_holding_reg_rd :: "u16 \<Rightarrow> scanner \<Rightarrow> int + u16" where
  "app_modbus_scanner_holding_reg_rd addr sc =
     (if APP_MODBUS_SCANNER_REG_COUNT \<le> addr then Inl (- ENOTSUP)
      else Inr (sc_legacy_local_regs sc ! unat addr))"

definition app_modbus_scanner_holding_reg_wr :: "u16 \<Rightarrow> u16 \<Rightarrow> scanner \<Rightarrow> int \<times> scanner" where
  "app_modbus_scanner_holding_reg_wr addr reg sc =
     (if APP_MODBUS_SCANNER_REG_COUNT \<le> addr then (- ENOTSUP, sc)
      else (0, sc\<lparr>sc_legacy_local_regs := (sc_legacy_local_regs sc)[unat addr := reg]\<rparr>))"

section \<open>Invariant of the local words\<close>

definition scanner_inv :: "scanner \<Rightarrow> bool" where
  "scanner_inv sc \<longleftrightarrow> length (sc_input_local_regs sc) = 5 \<and> length (sc_output_local_regs sc) = 5
     \<and> length (sc_legacy_local_regs sc) = 10"

lemma scanner_boot_inv: "scanner_inv scanner_boot"
  by (simp add: scanner_inv_def scanner_boot_def)

lemma update_access_diag_local [simp]:
  "sc_input_local_regs (update_access_diag now addr wr err sc) = sc_input_local_regs sc"
  "sc_output_local_regs (update_access_diag now addr wr err sc) = sc_output_local_regs sc"
  "sc_legacy_local_regs (update_access_diag now addr wr err sc) = sc_legacy_local_regs sc"
  by (simp_all add: update_access_diag_def Let_def)

lemma update_access_diag_inv [simp]: "scanner_inv (update_access_diag now addr wr err sc) = scanner_inv sc"
  by (simp add: scanner_inv_def)

lemma scanner_rd_inv:
  "scanner_inv sc \<Longrightarrow> scanner_inv (snd (app_modbus_scanner_input_reg_rd rd now addr (sc, w)))"
  "scanner_inv sc \<Longrightarrow> scanner_inv (snd (app_modbus_scanner_output_reg_rd rd now addr (sc, w)))"
  by (simp_all add: app_modbus_scanner_input_reg_rd_def app_modbus_scanner_output_reg_rd_def Let_def
      split: sum.split)

lemma scanner_wr_inv:
  "scanner_inv sc \<Longrightarrow> scanner_inv (fst (snd (app_modbus_scanner_output_reg_wr rd wr now addr reg (sc, w))))"
  by (auto simp: app_modbus_scanner_output_reg_wr_def Let_def case_prod_beta scanner_inv_def split: sum.split)

section \<open>The register bank as an interface\<close>

text \<open>The provider promises: while its invariant holds, every output mapping can be read and is free or
  one of the registers below \<open>limit\<close> a scanner may write, every input mapping can be read, and no
  write breaks the invariant.\<close>

locale register_bank =
  fixes rd :: "'w reg_rd" and wr :: "'w reg_wr" and bank_inv :: "'w \<Rightarrow> bool"
  assumes input_map: "bank_inv w \<Longrightarrow> a < 5 \<Longrightarrow> \<exists>v. rd w (APP_MB_HREG_SCANNER_INPUT_MAP_BASE + a) = Inr v
      \<and> is_valid_scanner_mapping v"
    and output_map: "bank_inv w \<Longrightarrow> a < 5 \<Longrightarrow> \<exists>v. rd w (APP_MB_HREG_SCANNER_OUTPUT_MAP_BASE + a) = Inr v
      \<and> is_valid_scanner_mapping v \<and> is_writable_output_scanner_mapping v"
    and wr_inv: "bank_inv w \<Longrightarrow> bank_inv (snd (wr a v w))"
begin

lemma scanner_output_wr_keeps:
  "bank_inv w \<Longrightarrow> bank_inv (snd (snd (app_modbus_scanner_output_reg_wr (Some rd) (Some wr) now addr reg (sc, w))))"
  by (auto simp: app_modbus_scanner_output_reg_wr_def Let_def case_prod_beta wr_inv split: sum.split)

text \<open>What an output write does, on every branch.\<close>

lemma scanner_output_wr_cases:
  assumes "bank_inv w" and "addr < 5"
  obtains (free) "app_modbus_scanner_output_reg_wr (Some rd) (Some wr) now addr reg (sc, w)
        = (0, update_access_diag now addr True 0
             (sc\<lparr>sc_output_local_regs := (sc_output_local_regs sc)[unat addr := reg]\<rparr>), w)"
  | (idle) "reg = 0" "app_modbus_scanner_output_reg_wr (Some rd) (Some wr) now addr reg (sc, w)
        = (0, update_access_diag now addr True 0 sc, w)"
  | (commit) ret w' where "reg \<noteq> 0"
      "(ret, w') = (let (r, w1) = wr APP_MB_HREG_MOTOR_MODE APP_MB_MOTOR_MODE_REMOTE w
                    in if 0 \<le> r then wr APP_MB_HREG_MOTOR_APPLY reg w1 else (r, w1))"
      "app_modbus_scanner_output_reg_wr (Some rd) (Some wr) now addr reg (sc, w)
        = (ret, update_access_diag now addr True ret sc, w')"
  | (mapped) target where "rd w (APP_MB_HREG_SCANNER_OUTPUT_MAP_BASE + addr) = Inr target"
      "unat target < 60" "\<not> is_read_only_addr target" "\<not> is_input_scanner_mapping_addr target"
      "\<not> is_output_scanner_mapping_addr target" "target \<noteq> APP_MB_HREG_MOTOR_APPLY"
      "app_modbus_scanner_output_reg_wr (Some rd) (Some wr) now addr reg (sc, w)
        = (fst (wr target reg w), update_access_diag now addr True (fst (wr target reg w)) sc,
           snd (wr target reg w))"
proof -
  obtain v where v: "rd w (APP_MB_HREG_SCANNER_OUTPUT_MAP_BASE + addr) = Inr v"
    "is_valid_scanner_mapping v" "is_writable_output_scanner_mapping v"
    using output_map [OF assms] by blast
  have c: "\<not> APP_MODBUS_SCANNER_OUTPUT_REG_COUNT \<le> addr"
    using assms(2) by (simp add: c_def not_le)
  note e = app_modbus_scanner_output_reg_wr_def [of "Some rd" "Some wr" now addr reg "(sc, w)"]
    scanner_map_rd_def v(1) c
  show thesis
  proof (cases "v = APP_MB_SCAN_MAP_FREE")
    case True
    then show thesis by (intro free) (simp add: e)
  next
    case nfree: False
    show thesis
    proof (cases "v = APP_MB_HREG_MOTOR_APPLY")
      case True
      show thesis
      proof (cases "reg = 0")
        case True
        with nfree \<open>v = APP_MB_HREG_MOTOR_APPLY\<close> show thesis by (intro idle)
            (simp_all add: app_modbus_scanner_output_reg_wr_def scanner_map_rd_def v(1) c)
      next
        case False
        let ?x = "let (r, w1) = wr APP_MB_HREG_MOTOR_MODE APP_MB_MOTOR_MODE_REMOTE w
                  in if 0 \<le> r then wr APP_MB_HREG_MOTOR_APPLY reg w1 else (r, w1)"
        have "app_modbus_scanner_output_reg_wr (Some rd) (Some wr) now addr reg (sc, w)
            = (fst ?x, update_access_diag now addr True (fst ?x) sc, snd ?x)"
          using False nfree True by (simp add: e case_prod_beta Let_def)
        with False show thesis by (intro commit [of "fst ?x" "snd ?x"]) simp_all
      qed
    next
      case False
      have "unat v \<noteq> 65535"
        using nfree by (simp add: word_unat_eq_iff c_def)
      with v(2,3) have "unat v < 60" "\<not> is_read_only_addr v" "\<not> is_input_scanner_mapping_addr v"
        "\<not> is_output_scanner_mapping_addr v"
        by (auto simp: register_classes writable_output_mapping)
      with False nfree v(1) show thesis
        by (intro mapped [of v]) (simp_all add: e case_prod_beta)
    qed
  qed
qed

lemma scanner_input_rd_value:
  assumes "bank_inv w" and "addr < 5"
  obtains (free) "fst (app_modbus_scanner_input_reg_rd (Some rd) now addr (sc, w))
      = Inr (sc_input_local_regs sc ! unat addr)"
  | (mapped) target where "rd w (APP_MB_HREG_SCANNER_INPUT_MAP_BASE + addr) = Inr target" "unat target < 60"
      "fst (app_modbus_scanner_input_reg_rd (Some rd) now addr (sc, w)) = rd w target"
proof -
  obtain v where v: "rd w (APP_MB_HREG_SCANNER_INPUT_MAP_BASE + addr) = Inr v" "is_valid_scanner_mapping v"
    using input_map [OF assms] by blast
  have c: "\<not> APP_MODBUS_SCANNER_INPUT_REG_COUNT \<le> addr"
    using assms(2) by (simp add: c_def not_le)
  note e = app_modbus_scanner_input_reg_rd_def [of "Some rd" now addr "(sc, w)"] scanner_map_rd_def v(1) c
  show thesis
  proof (cases "v = APP_MB_SCAN_MAP_FREE")
    case True
    then show thesis by (intro free) (simp add: e)
  next
    case False
    then have "unat v < 60" using v(2) by (auto simp: register_classes word_unat_eq_iff c_def)
    with False v(1) show thesis by (intro mapped [of v]) (simp_all add: e Let_def)
  qed
qed

end

end
