(* ===== verification/Modbus_Tcp.thy ===== *)
theory Modbus_Tcp
  imports Modbus_Scanner Net_Cfg M7_Ipc
begin

unbundle bit_operations_syntax

text \<open>
  The Modbus TCP server, \<open>app_m7/src/protocols/modbus/app_modbus_tcp.c\<close>: the holding and input
  registers, motor commands through the \<open>APPLY\<close> register, the save command with its work queue,
  the routing between Unit-ID 1 and the scanner window of Unit-ID 2, function code 23, and the
  handling of a request.

  The record \<open>modbus\<close> holds the module's static variables and \<open>m7\<close> puts it together with the modules
  it calls: the scanner, the network configuration and the inter-core link. What Zephyr and the
  hardware answer during an operation is the record \<open>m7_env\<close>. Each section under
  \<open>holding_regs_lock\<close> is one step of the model; the wait for the save command runs the work handler
  when it completes in time (\<open>me_timely\<close>) and leaves it for later otherwise.
\<close>

section \<open>State and environment\<close>

definition APP_MODBUS_UNIT_ID :: u8 where [c_def]: "APP_MODBUS_UNIT_ID = 1"
definition APP_MODBUS_STATUS_PENDING :: u16 where [c_def]: "APP_MODBUS_STATUS_PENDING = 0x7fff"

record modbus =
  mb_holding_regs :: "u16 list"
  mb_command_done :: bool
  mb_server_iface_unit1 :: int
  mb_server_iface_unit2 :: int
  mb_server_started :: bool
  mb_active_request_unit_id :: u8
  mb_command_pending :: bool
  mb_connection_count :: u16
  mb_heartbeat_counter :: u16
  mb_last_status :: int
  mb_command_result :: int
  mb_pending_command :: u16

record m7 =
  m7_modbus :: modbus
  m7_scanner :: scanner
  m7_net :: net_cfg_data
  m7_link :: m7_ipc
  m7_stored :: "net_cfg_store option"

record m7_env =
  me_send :: "nat \<Rightarrow> int"
  me_now :: u32
  me_uptime_ms :: nat
  me_submit_ret :: int
  me_timely :: bool
  me_save_ret :: int
  me_pton :: pton
  me_ntop :: ntop
  me_has_iface :: bool
  me_addrs :: "(bool \<times> net_addr_type \<times> u32) list option"
  me_netmask_of :: "u32 \<Rightarrow> u32"
  me_gateway :: u32
  me_if_up :: bool
  me_carrier :: bool

definition reg_get :: "u16 \<Rightarrow> m7 \<Rightarrow> u16" where
  "reg_get a w = mb_holding_regs (m7_modbus w) ! unat a"

definition reg_set :: "u16 \<Rightarrow> u16 \<Rightarrow> m7 \<Rightarrow> m7" where
  "reg_set a v w = w\<lparr>m7_modbus := (m7_modbus w)
     \<lparr>mb_holding_regs := (mb_holding_regs (m7_modbus w))[unat a := v]\<rparr>\<rparr>"

definition modbus_set :: "(modbus \<Rightarrow> modbus) \<Rightarrow> m7 \<Rightarrow> m7" where
  "modbus_set f w = w\<lparr>m7_modbus := f (m7_modbus w)\<rparr>"

text \<open>The initial values: all registers 0 but the ones the initialiser names.\<close>

definition modbus_boot :: modbus where
  "modbus_boot = \<lparr>mb_holding_regs = (replicate 60 0)
       [unat APP_MB_HREG_SIGNATURE := APP_MODBUS_MAP_SIGNATURE,
        unat APP_MB_HREG_MODE := 1,
        unat APP_MB_HREG_MOTOR_TARGET_DUTY := APP_MOTOR_COMMAND_DUTY_MIN_PERMILLE,
        unat APP_MB_HREG_MOTOR_ACCEL_RAMP := 1000,
        unat APP_MB_HREG_MOTOR_DECEL_RAMP := 4000,
        unat APP_MB_HREG_MOTOR_TIMEOUT := 1000],
     mb_command_done = False, mb_server_iface_unit1 = - 1, mb_server_iface_unit2 = - 1,
     mb_server_started = False, mb_active_request_unit_id = 0, mb_command_pending = False,
     mb_connection_count = 0, mb_heartbeat_counter = 0, mb_last_status = 0, mb_command_result = 0,
     mb_pending_command = 0\<rparr>"

definition m7_boot :: m7 where
  "m7_boot = \<lparr>m7_modbus = modbus_boot, m7_scanner = scanner_boot, m7_net = net_cfg_boot,
     m7_link = m7_ipc_boot, m7_stored = None\<rparr>"

section \<open>Addresses and strings\<close>

definition ipv4_word_msw :: "pton \<Rightarrow> string \<Rightarrow> u16" where
  "ipv4_word_msw pton ip =
     (case pton ip of None \<Rightarrow> 0 | Some host_addr \<Rightarrow> ucast (drop_bit 16 host_addr))"

definition ipv4_word_lsw :: "pton \<Rightarrow> string \<Rightarrow> u16" where
  "ipv4_word_lsw pton ip =
     (case pton ip of None \<Rightarrow> 0 | Some host_addr \<Rightarrow> ucast (host_addr AND 0xffff))"

definition ipv4_words_to_string :: "ntop \<Rightarrow> u16 \<Rightarrow> u16 \<Rightarrow> string" where
  "ipv4_words_to_string ntop msw lsw = ntop (push_bit 16 (ucast msw) OR ucast lsw)"

definition sync_holding_regs_from_saved_cfg :: "pton \<Rightarrow> m7 \<Rightarrow> m7" where
  "sync_holding_regs_from_saved_cfg pton w =
     (let saved = net_cfg_get_saved (m7_net w);
          w = reg_set APP_MB_HREG_SIGNATURE APP_MODBUS_MAP_SIGNATURE w;
          w = reg_set APP_MB_HREG_MODE (of_nat (nd_mode saved)) w;
          w = reg_set APP_MB_HREG_IP_MSW (ipv4_word_msw pton (nd_ip saved)) w;
          w = reg_set APP_MB_HREG_IP_LSW (ipv4_word_lsw pton (nd_ip saved)) w;
          w = reg_set APP_MB_HREG_MASK_MSW (ipv4_word_msw pton (nd_mask saved)) w;
          w = reg_set APP_MB_HREG_MASK_LSW (ipv4_word_lsw pton (nd_mask saved)) w;
          w = reg_set APP_MB_HREG_GW_MSW (ipv4_word_msw pton (nd_gw saved)) w;
          w = reg_set APP_MB_HREG_GW_LSW (ipv4_word_lsw pton (nd_gw saved)) w
      in w)"

text \<open>The loops set the words 2 to 4 of the input map and 3 to 4 of the output map free.\<close>

definition init_scanner_mapping_defaults :: "m7 \<Rightarrow> m7" where
  "init_scanner_mapping_defaults w =
     (let w = reg_set APP_MB_HREG_SCANNER_INPUT_MAP_BASE
                (APP_MB_HREG_MOTOR_STATE_BASE + of_nat APP_MOTOR_STATE_FAULT_CODE) w;
          w = reg_set (APP_MB_HREG_SCANNER_INPUT_MAP_BASE + 1)
                (APP_MB_HREG_MOTOR_STATE_BASE + of_nat APP_MOTOR_STATE_APPLIED_DUTY_PERMILLE) w;
          w = reg_set APP_MB_HREG_SCANNER_OUTPUT_MAP_BASE APP_MB_HREG_MOTOR_CONTROL w;
          w = reg_set (APP_MB_HREG_SCANNER_OUTPUT_MAP_BASE + 1) APP_MB_HREG_MOTOR_TARGET_DUTY w;
          w = reg_set (APP_MB_HREG_SCANNER_OUTPUT_MAP_BASE + 2) APP_MB_HREG_MOTOR_APPLY w;
          w = fold (\<lambda>i. reg_set (APP_MB_HREG_SCANNER_INPUT_MAP_BASE + of_nat i) APP_MB_SCAN_MAP_FREE) [2..<5] w;
          w = fold (\<lambda>i. reg_set (APP_MB_HREG_SCANNER_OUTPUT_MAP_BASE + of_nat i) APP_MB_SCAN_MAP_FREE) [3..<5] w
      in w)"

section \<open>Motor registers\<close>

definition motor_state_reg_read :: "u32 \<Rightarrow> m7 \<Rightarrow> u16 \<Rightarrow> int + u16" where
  "motor_state_reg_read now w addr =
     (let state = app_ipc_get_motor_state now (m7_link w)
      in if \<not> ms_valid state then Inl (- EAGAIN)
         else Inr (ms_words state ! unat (addr - APP_MB_HREG_MOTOR_STATE_BASE)))"

text \<open>The command the registers describe.\<close>

definition motor_command_of_regs :: "m7 \<Rightarrow> app_ipc_motor_command" where
  "motor_command_of_regs w = \<lparr>mc_control = reg_get APP_MB_HREG_MOTOR_CONTROL w,
     mc_duty_permille = reg_get APP_MB_HREG_MOTOR_TARGET_DUTY w,
     mc_accel_ramp = reg_get APP_MB_HREG_MOTOR_ACCEL_RAMP w,
     mc_decel_ramp = reg_get APP_MB_HREG_MOTOR_DECEL_RAMP w,
     mc_timeout_ms = reg_get APP_MB_HREG_MOTOR_TIMEOUT w,
     mc_source = APP_MOTOR_COMMAND_SOURCE_MODBUS,
     mc_remote = (reg_get APP_MB_HREG_MOTOR_MODE w = APP_MB_MOTOR_MODE_REMOTE)\<rparr>"

definition motor_command_apply :: "(nat \<Rightarrow> int) \<Rightarrow> m7 \<Rightarrow> int \<times> m7" where
  "motor_command_apply send w =
     (let command = motor_command_of_regs w;
          (ret, sent, link) = app_ipc_motor_submit send (Some command) (m7_link w);
          w = w\<lparr>m7_link := link\<rparr>
      in if 0 \<le> ret
         then (0, reg_set APP_MB_HREG_MOTOR_COMMAND_SEQUENCE (reg_get APP_MB_HREG_MOTOR_COMMAND_SEQUENCE w + 1)
                    (reg_set APP_MB_HREG_MOTOR_COMMAND_STATUS 0 w))
         else (ret, reg_set APP_MB_HREG_MOTOR_COMMAND_STATUS (u16_of_int ret) w))"

section \<open>The save command\<close>

definition modbus_sync_from_saved_cfg :: "m7_env \<Rightarrow> m7 \<Rightarrow> m7" where
  "modbus_sync_from_saved_cfg e w = sync_holding_regs_from_saved_cfg (me_pton e) w"

definition modbus_net_cfg_changed :: "m7_env \<Rightarrow> m7 \<Rightarrow> m7" where
  "modbus_net_cfg_changed e w = modbus_sync_from_saved_cfg e w"

text \<open>\<open>settings_save_one\<close> with a blob, and what it returns: the settings keep the blob unless it fails.\<close>

definition settings_keep :: "int \<Rightarrow> net_cfg_store option \<Rightarrow> m7 \<Rightarrow> m7" where
  "settings_keep save_ret blob w =
     (case blob of None \<Rightarrow> w | Some b \<Rightarrow> if save_ret < 0 then w else w\<lparr>m7_stored := Some b\<rparr>)"

lemma settings_keep_fields [simp]:
  "m7_modbus (settings_keep r b w) = m7_modbus w" "m7_scanner (settings_keep r b w) = m7_scanner w"
  "m7_net (settings_keep r b w) = m7_net w" "m7_link (settings_keep r b w) = m7_link w"
  "reg_get a (settings_keep r b w) = reg_get a w"
  by (simp_all add: settings_keep_def reg_get_def split: option.split)

text \<open>\<open>net_cfg_set_saved\<close> with the change callback this module registers.\<close>

definition m7_set_saved :: "m7_env \<Rightarrow> net_cfg_data \<Rightarrow> m7 \<Rightarrow> int \<times> m7" where
  "m7_set_saved e d w =
     (let (ret, stored, cfg) = net_cfg_set_saved (me_pton e) (me_save_ret e) (Some d) (m7_net w);
          w = (settings_keep (me_save_ret e) stored w)\<lparr>m7_net := cfg\<rparr>
      in (ret, if ret = 0 then net_cfg_notify_changed (Some (modbus_net_cfg_changed e)) w else w))"

definition save_holding_regs_config :: "m7_env \<Rightarrow> u16 \<Rightarrow> m7 \<Rightarrow> int \<times> m7" where
  "save_holding_regs_config e command w =
     (if command = APP_MB_CMD_NONE then (0, w)
      else if of_nat NET_CFG_STATIC < reg_get APP_MB_HREG_MODE w then (- EINVAL, w)
      else
        let saved = \<lparr>nd_mode = unat (reg_get APP_MB_HREG_MODE w),
              nd_ip = ipv4_words_to_string (me_ntop e) (reg_get APP_MB_HREG_IP_MSW w) (reg_get APP_MB_HREG_IP_LSW w),
              nd_mask = ipv4_words_to_string (me_ntop e) (reg_get APP_MB_HREG_MASK_MSW w)
                          (reg_get APP_MB_HREG_MASK_LSW w),
              nd_gw = ipv4_words_to_string (me_ntop e) (reg_get APP_MB_HREG_GW_MSW w) (reg_get APP_MB_HREG_GW_LSW w)\<rparr>
        in m7_set_saved e saved w)"

definition set_last_status :: "int \<Rightarrow> m7 \<Rightarrow> m7" where
  "set_last_status i = modbus_set (\<lambda>mb. mb\<lparr>mb_last_status := s16_of_u16 (u16_of_int i)\<rparr>)"

definition complete_pending_command :: "m7_env \<Rightarrow> int \<Rightarrow> m7 \<Rightarrow> m7" where
  "complete_pending_command e ret w =
     (let w = set_last_status ret w;
          w = reg_set APP_MB_HREG_STATUS (u16_of_int ret) w;
          w = reg_set APP_MB_HREG_COMMAND APP_MB_CMD_NONE w;
          w = modbus_set (\<lambda>mb. mb\<lparr>mb_command_pending := False\<rparr>) w;
          w = (if ret = 0 then modbus_sync_from_saved_cfg e w else w)
      in modbus_set (\<lambda>mb. mb\<lparr>mb_command_result := ret, mb_command_done := True\<rparr>) w)"

definition modbus_command_work_handler :: "m7_env \<Rightarrow> m7 \<Rightarrow> m7" where
  "modbus_command_work_handler e w =
     (let command = mb_pending_command (m7_modbus w);
          (ret, w) = save_holding_regs_config e command w
      in complete_pending_command e ret w)"

section \<open>Registers\<close>

definition input_reg_rd :: "m7_env \<Rightarrow> m7 \<Rightarrow> u16 \<Rightarrow> int + u16" where
  "input_reg_rd e w addr =
     (if mb_active_request_unit_id (m7_modbus w) = APP_MODBUS_SCANNER_UNIT_ID then Inl (- ENOTSUP)
      else if APP_MODBUS_INPUT_REG_COUNT \<le> addr then Inl (- ENOTSUP)
      else
        let uptime_s = of_nat (me_uptime_ms e div 1000) :: u32;
            active = snd (net_cfg_get_active (me_ntop e) (me_has_iface e) (me_addrs e) (me_netmask_of e)
                            (me_gateway e) (m7_net w))
        in Inr (if addr = APP_MB_IREG_SIGNATURE then APP_MODBUS_MAP_SIGNATURE
           else if addr = APP_MB_IREG_MAP_VERSION then APP_MODBUS_MAP_VERSION
           else if addr = APP_MB_IREG_UPTIME_LSW then ucast (uptime_s AND 0xffff)
           else if addr = APP_MB_IREG_UPTIME_MSW then ucast (drop_bit 16 uptime_s)
           else if addr = APP_MB_IREG_ACTIVE_MODE then of_nat (nd_mode active)
           else if addr = APP_MB_IREG_LINK_STATUS then (if net_cfg_link_is_up (me_has_iface e) (me_if_up e) (me_carrier e) then 1 else 0)
           else if addr = APP_MB_IREG_IP_MSW then ipv4_word_msw (me_pton e) (nd_ip active)
           else if addr = APP_MB_IREG_IP_LSW then ipv4_word_lsw (me_pton e) (nd_ip active)
           else if addr = APP_MB_IREG_MASK_MSW then ipv4_word_msw (me_pton e) (nd_mask active)
           else if addr = APP_MB_IREG_MASK_LSW then ipv4_word_lsw (me_pton e) (nd_mask active)
           else if addr = APP_MB_IREG_GW_MSW then ipv4_word_msw (me_pton e) (nd_gw active)
           else if addr = APP_MB_IREG_GW_LSW then ipv4_word_lsw (me_pton e) (nd_gw active)
           else if addr = APP_MB_IREG_HEARTBEAT_LSW then mb_heartbeat_counter (m7_modbus w)
           else if addr = APP_MB_IREG_LAST_STATUS then u16_of_int (mb_last_status (m7_modbus w))
           else if addr = APP_MB_IREG_CONN_COUNT then mb_connection_count (m7_modbus w)
           else 0))"

definition holding_reg_rd :: "m7_env \<Rightarrow> m7 \<Rightarrow> u16 \<Rightarrow> int + u16" where
  "holding_reg_rd e w addr =
     (if APP_MODBUS_HOLDING_REG_COUNT \<le> addr then Inl (- ENOTSUP)
      else if is_motor_state_addr addr then motor_state_reg_read (me_now e) w addr
      else Inr (reg_get addr w))"

text \<open>The command register, lines 440 to 488, with the lock released between the submission of the work
  and the wait.\<close>

definition holding_command_wr :: "m7_env \<Rightarrow> u16 \<Rightarrow> m7 \<Rightarrow> int \<times> m7" where
  "holding_command_wr e reg w =
     (if reg \<noteq> APP_MB_CMD_SAVE
      then (- EINVAL, reg_set APP_MB_HREG_COMMAND APP_MB_CMD_NONE
                        (set_last_status (- EINVAL) (reg_set APP_MB_HREG_STATUS (u16_of_int (- EINVAL)) w)))
      else if mb_command_pending (m7_modbus w)
      then (- EBUSY, reg_set APP_MB_HREG_COMMAND APP_MB_CMD_NONE
                       (set_last_status (- EBUSY) (reg_set APP_MB_HREG_STATUS (u16_of_int (- EBUSY)) w)))
      else
        let w = modbus_set (\<lambda>mb. mb\<lparr>mb_pending_command := reg, mb_command_pending := True\<rparr>) w;
            w = reg_set APP_MB_HREG_STATUS APP_MODBUS_STATUS_PENDING w;
            w = set_last_status (s16_of_u16 APP_MODBUS_STATUS_PENDING) w;
            w = modbus_set (\<lambda>mb. mb\<lparr>mb_command_done := False\<rparr>) w;
            submit_ret = me_submit_ret e
        in if submit_ret < 0
           then (submit_ret, modbus_set (\<lambda>mb. mb\<lparr>mb_command_pending := False\<rparr>)
                   (reg_set APP_MB_HREG_COMMAND APP_MB_CMD_NONE
                     (set_last_status submit_ret (reg_set APP_MB_HREG_STATUS (u16_of_int submit_ret) w))))
           else
             let w = (if me_timely e then modbus_command_work_handler e w else w)
             in if \<not> mb_command_done (m7_modbus w)
                then (- ETIMEDOUT, set_last_status (- ETIMEDOUT)
                        (reg_set APP_MB_HREG_STATUS (u16_of_int (- ETIMEDOUT)) w))
                else (mb_command_result (m7_modbus w),
                      modbus_set (\<lambda>mb. mb\<lparr>mb_command_done := False\<rparr>) w))"

definition holding_reg_wr :: "m7_env \<Rightarrow> u16 \<Rightarrow> u16 \<Rightarrow> m7 \<Rightarrow> int \<times> m7" where
  "holding_reg_wr e addr reg w =
     (if APP_MODBUS_HOLDING_REG_COUNT \<le> addr then (- ENOTSUP, w)
      else if is_motor_state_addr addr \<or> addr = APP_MB_HREG_MOTOR_COMMAND_STATUS
              \<or> addr = APP_MB_HREG_MOTOR_COMMAND_SEQUENCE \<or> addr = APP_MB_HREG_MOTOR_RESERVED
      then (- EACCES, w)
      else if (is_input_scanner_mapping_addr addr \<or> is_output_scanner_mapping_addr addr)
              \<and> \<not> is_valid_scanner_mapping reg
      then (- EINVAL, w)
      else if is_output_scanner_mapping_addr addr \<and> \<not> is_writable_output_scanner_mapping reg
      then (- EACCES, w)
      else if is_motor_command_addr addr
      then (if addr = APP_MB_HREG_MOTOR_MODE \<and> APP_MB_MOTOR_MODE_REMOTE < reg then (- EINVAL, w)
            else if addr = APP_MB_HREG_MOTOR_APPLY
            then (if reg \<noteq> APP_MB_MOTOR_APPLY_COMMAND
                  then (- EINVAL, reg_set APP_MB_HREG_MOTOR_COMMAND_STATUS (u16_of_int (- EINVAL)) w)
                  else
                    let w = reg_set APP_MB_HREG_MOTOR_COMMAND_STATUS APP_MB_MOTOR_STATUS_PENDING w;
                        (submit_ret, w) = motor_command_apply (me_send e) w
                    in (submit_ret, reg_set APP_MB_HREG_MOTOR_APPLY 0 w))
            else (0, reg_set addr reg w))
      else
        let w = reg_set addr reg w
        in if addr = APP_MB_HREG_COMMAND then holding_command_wr e reg w else (0, w))"

section \<open>Routing by unit\<close>

text \<open>The scanner with the callbacks \<open>app_modbus_scanner_init\<close> was given; its diagnostics are part of \<open>m7\<close>.\<close>

definition scanner_input_rd :: "m7_env \<Rightarrow> u16 \<Rightarrow> m7 \<Rightarrow> (int + u16) \<times> m7" where
  "scanner_input_rd e addr w =
     (let (r, sc) = app_modbus_scanner_input_reg_rd (Some (holding_reg_rd e)) (me_now e) addr (m7_scanner w, w)
      in (r, w\<lparr>m7_scanner := sc\<rparr>))"

definition scanner_output_wr :: "m7_env \<Rightarrow> u16 \<Rightarrow> u16 \<Rightarrow> m7 \<Rightarrow> int \<times> m7" where
  "scanner_output_wr e addr reg w =
     (let (r, sc, w) = app_modbus_scanner_output_reg_wr (Some (holding_reg_rd e)) (Some (holding_reg_wr e))
                         (me_now e) addr reg (m7_scanner w, w)
      in (r, w\<lparr>m7_scanner := sc\<rparr>))"

definition routed_holding_reg_rd :: "m7_env \<Rightarrow> u16 \<Rightarrow> m7 \<Rightarrow> (int + u16) \<times> m7" where
  "routed_holding_reg_rd e addr w =
     (if mb_active_request_unit_id (m7_modbus w) = APP_MODBUS_SCANNER_UNIT_ID then scanner_input_rd e addr w
      else (holding_reg_rd e w addr, w))"

definition routed_input_reg_rd :: "m7_env \<Rightarrow> u16 \<Rightarrow> m7 \<Rightarrow> (int + u16) \<times> m7" where
  "routed_input_reg_rd e addr w =
     (if mb_active_request_unit_id (m7_modbus w) = APP_MODBUS_SCANNER_UNIT_ID then scanner_input_rd e addr w
      else (input_reg_rd e w addr, w))"

definition routed_holding_reg_wr :: "m7_env \<Rightarrow> u16 \<Rightarrow> u16 \<Rightarrow> m7 \<Rightarrow> int \<times> m7" where
  "routed_holding_reg_wr e addr reg w =
     (if mb_active_request_unit_id (m7_modbus w) = APP_MODBUS_SCANNER_UNIT_ID then scanner_output_wr e addr reg w
      else holding_reg_wr e addr reg w)"

section \<open>Function code 23\<close>

definition MODBUS_EXC_ILLEGAL_DATA_ADDR :: u8 where [c_def]: "MODBUS_EXC_ILLEGAL_DATA_ADDR = 2"
definition MODBUS_EXC_ILLEGAL_DATA_VAL :: u8 where [c_def]: "MODBUS_EXC_ILLEGAL_DATA_VAL = 3"

text \<open>The write loop: the registers still to write, with the index \<open>i\<close>; the answers during access \<open>i\<close>
  are \<open>es i\<close>. The result tells whether every write returned 0.\<close>

fun fc23_write_loop :: "(nat \<Rightarrow> m7_env) \<Rightarrow> u16 \<Rightarrow> nat \<Rightarrow> u16 list \<Rightarrow> m7 \<Rightarrow> bool \<times> m7" where
  "fc23_write_loop es write_addr i [] w = (True, w)"
| "fc23_write_loop es write_addr i (reg # regs) w =
     (let (ret, w) = routed_holding_reg_wr (es i) (write_addr + of_nat i) reg w
      in if ret \<noteq> 0 then (False, w) else fc23_write_loop es write_addr (i + 1) regs w)"

text \<open>The read loop over the remaining count; it gives the registers read.\<close>

fun fc23_read_loop :: "(nat \<Rightarrow> m7_env) \<Rightarrow> u16 \<Rightarrow> nat \<Rightarrow> nat \<Rightarrow> m7 \<Rightarrow> u16 list option \<times> m7" where
  "fc23_read_loop es read_addr i 0 w = (Some [], w)"
| "fc23_read_loop es read_addr i (Suc n) w =
     (case routed_holding_reg_rd (es i) (read_addr + of_nat i) w of
        (Inl ret, w) \<Rightarrow> (None, w)
      | (Inr reg, w) \<Rightarrow>
        (case fc23_read_loop es read_addr (i + 1) n w of
           (None, w) \<Rightarrow> (None, w)
         | (Some regs, w) \<Rightarrow> (Some (reg # regs), w)))"

text \<open>\<open>data\<close> are the \<open>length\<close> bytes of the request after the function code. The result is an exception
  code or the \<open>length\<close> bytes of the response. A failing access leaves the earlier writes in place.\<close>

definition fc23_read_write_holding_regs ::
  "(nat \<Rightarrow> m7_env) \<Rightarrow> (nat \<Rightarrow> m7_env) \<Rightarrow> u8 list \<Rightarrow> m7 \<Rightarrow> (u8 + u8 list) \<times> m7" where
  "fc23_read_write_holding_regs wes res data w =
     (if length data < 9 then (Inl MODBUS_EXC_ILLEGAL_DATA_VAL, w)
      else
        let read_addr = get_be16 data 0;
            read_qty = get_be16 data 2;
            write_addr = get_be16 data 4;
            write_qty = get_be16 data 6;
            write_bytes = data ! 8
        in if read_qty = 0 \<or> 125 < read_qty \<or> write_qty = 0 \<or> 121 < write_qty
              \<or> unat write_bytes \<noteq> unat write_qty * 2 \<or> length data \<noteq> 9 + unat write_bytes
           then (Inl MODBUS_EXC_ILLEGAL_DATA_VAL, w)
           else
             let regs = List.map (\<lambda>i. get_be16 data (9 + i * 2)) [0..<unat write_qty];
                 (ok, w) = fc23_write_loop wes write_addr 0 regs w
             in if \<not> ok then (Inl MODBUS_EXC_ILLEGAL_DATA_ADDR, w)
                else
                  (case fc23_read_loop res read_addr 0 (unat read_qty) w of
                     (None, w) \<Rightarrow> (Inl MODBUS_EXC_ILLEGAL_DATA_ADDR, w)
                   | (Some regs, w) \<Rightarrow> (Inr (of_nat (unat read_qty * 2) # concat (List.map be16 regs)), w)))"

section \<open>Server\<close>

text \<open>The answers of \<open>modbus_iface_get_by_name\<close> (twice), \<open>modbus_init_server\<close> (twice) and
  \<open>modbus_register_user_fc\<close> (twice).\<close>

definition init_modbus_server ::
  "m7_env \<Rightarrow> int \<Rightarrow> int \<Rightarrow> int \<Rightarrow> int \<Rightarrow> int \<Rightarrow> int \<Rightarrow> m7 \<Rightarrow> int \<times> m7" where
  "init_modbus_server e iface1 iface2 init1 init2 fc1 fc2 w =
     (let w = sync_holding_regs_from_saved_cfg (me_pton e) w;
          w = init_scanner_mapping_defaults w;
          w = reg_set APP_MB_HREG_STATUS 0 w;
          w = modbus_set (\<lambda>mb. mb\<lparr>mb_server_iface_unit1 := iface1\<rparr>) w
      in if iface1 < 0 then (iface1, w)
         else
           let w = modbus_set (\<lambda>mb. mb\<lparr>mb_server_iface_unit2 := iface2\<rparr>) w
           in if iface2 < 0 then (iface2, w)
              else if init1 < 0 then (init1, w)
              else if init2 < 0 then (init2, w)
              else if fc1 < 0 then (fc1, w)
              else if fc2 < 0 then (fc2, w)
              else (0, w))"

definition modbus_iface_for_unit :: "m7 \<Rightarrow> u8 \<Rightarrow> int" where
  "modbus_iface_for_unit w unit_id =
     (if unit_id = APP_MODBUS_UNIT_ID \<or> unit_id = 0 then mb_server_iface_unit1 (m7_modbus w)
      else if unit_id = APP_MODBUS_SCANNER_UNIT_ID then mb_server_iface_unit2 (m7_modbus w)
      else - ENODEV)"

text \<open>\<open>zsock_send\<close> is given what is left and answers the number of bytes taken or a negative value, with
  \<open>errno\<close>; the answers are a list. The result is the return value and the bytes taken so far, \<open>None\<close>
  when the answers run out (the call blocks).\<close>

fun send_all :: "int list \<Rightarrow> int \<Rightarrow> u8 list \<Rightarrow> (int \<times> u8 list) option" where
  "send_all answers errno [] = Some (0, [])"
| "send_all [] errno (b # buf) = None"
| "send_all (ret # answers) errno (b # buf) =
     (if ret < 0 then Some (- errno, [])
      else if ret = 0 then Some (- ENOTCONN, [])
      else
        (case send_all answers errno (drop (nat ret) (b # buf)) of
           None \<Rightarrow> None
         | Some (r, sent) \<Rightarrow> Some (r, take (nat ret) (b # buf) @ sent)))"

text \<open>Zephyr's \<open>struct modbus_adu\<close>.\<close>

record modbus_adu =
  adu_trans_id :: u16
  adu_proto_id :: u16
  adu_length :: u16
  adu_unit_id :: u8
  adu_fc :: u8
  adu_data :: "u8 list"

text \<open>A request on a connection. The arguments are the answers of the two receives with the header and
  data bytes, \<open>modbus_raw_get_header\<close>, the size of the data field, the server's reaction to the
  request (which runs the register callbacks and yields its response, \<open>None\<close> for a timeout),
  \<open>modbus_raw_set_server_failure\<close>, and the reply's transmission. The second result is the reply.\<close>

definition handle_modbus_connection ::
  "int \<Rightarrow> int \<Rightarrow> u8 list \<Rightarrow> (u8 list \<Rightarrow> modbus_adu) \<Rightarrow> nat \<Rightarrow> int \<Rightarrow> u8 list
     \<Rightarrow> (int \<Rightarrow> modbus_adu \<Rightarrow> m7 \<Rightarrow> int \<times> modbus_adu option \<times> m7) \<Rightarrow> (modbus_adu \<Rightarrow> modbus_adu) \<Rightarrow> int
     \<Rightarrow> m7 \<Rightarrow> int \<times> modbus_adu option \<times> m7" where
  "handle_modbus_connection errno recv1 header get_header data_size recv2 data serve set_failure reply_ret w =
     (if recv1 \<le> 0 then (if recv1 = 0 then - ENOTCONN else - errno, None, w)
      else
        let adu = get_header header
        in if data_size < unat (adu_length adu) then (- EMSGSIZE, None, w)
           else if recv2 \<le> 0 then (if recv2 = 0 then - ENOTCONN else - errno, None, w)
           else
             let adu = adu\<lparr>adu_data := data\<rparr>;
                 iface = modbus_iface_for_unit w (adu_unit_id adu)
             in if iface < 0 then (iface, None, w)
                else
                  let w = modbus_set (\<lambda>mb. mb\<lparr>mb_active_request_unit_id := adu_unit_id adu\<rparr>) w;
                      (ret, response, w) = serve iface adu w
                  in if ret < 0 then (ret, None, w)
                     else
                       let reply = (case response of Some r \<Rightarrow> r | None \<Rightarrow> set_failure adu)
                       in (reply_ret, Some reply, w))"

text \<open>An accepted connection, before its requests.\<close>

definition modbus_connection_accepted :: "m7 \<Rightarrow> m7" where
  "modbus_connection_accepted w = modbus_set (\<lambda>mb. mb\<lparr>mb_connection_count := mb_connection_count mb + 1\<rparr>) w"

definition app_modbus_tcp_start ::
  "m7_env \<Rightarrow> int \<Rightarrow> int \<Rightarrow> int \<Rightarrow> int \<Rightarrow> int \<Rightarrow> int \<Rightarrow> m7 \<Rightarrow> int \<times> m7" where
  "app_modbus_tcp_start e iface1 iface2 init1 init2 fc1 fc2 w =
     (if mb_server_started (m7_modbus w) then (0, w)
      else
        let (ret, w) = init_modbus_server e iface1 iface2 init1 init2 fc1 fc2 w
        in if ret < 0 then (ret, w)
           else (0, modbus_set (\<lambda>mb. mb\<lparr>mb_server_started := True\<rparr>) w))"

definition app_modbus_tcp_heartbeat_tick :: "m7 \<Rightarrow> m7" where
  "app_modbus_tcp_heartbeat_tick w =
     modbus_set (\<lambda>mb. mb\<lparr>mb_heartbeat_counter := mb_heartbeat_counter mb + 1\<rparr>) w"

definition app_modbus_tcp_holding_read :: "m7_env \<Rightarrow> u16 \<Rightarrow> m7 \<Rightarrow> int + u16" where
  "app_modbus_tcp_holding_read e addr w = holding_reg_rd e w addr"

definition app_modbus_tcp_holding_write :: "m7_env \<Rightarrow> u16 \<Rightarrow> u16 \<Rightarrow> m7 \<Rightarrow> int \<times> m7" where
  "app_modbus_tcp_holding_write e addr reg w = holding_reg_wr e addr reg w"

definition app_modbus_tcp_motor_set_mode :: "m7_env \<Rightarrow> bool \<Rightarrow> m7 \<Rightarrow> int \<times> m7" where
  "app_modbus_tcp_motor_set_mode e remote w =
     holding_reg_wr e APP_MB_HREG_MOTOR_MODE
       (if remote then APP_MB_MOTOR_MODE_REMOTE else APP_MB_MOTOR_MODE_LOCAL) w"

definition app_modbus_tcp_connection_count :: "m7 \<Rightarrow> u16" where
  "app_modbus_tcp_connection_count w = mb_connection_count (m7_modbus w)"

definition app_modbus_tcp_heartbeat_count :: "m7 \<Rightarrow> u16" where
  "app_modbus_tcp_heartbeat_count w = mb_heartbeat_counter (m7_modbus w)"

section \<open>The register bank's invariant\<close>

text \<open>The values register \<open>a\<close> may hold.\<close>

definition reg_value_ok :: "u16 \<Rightarrow> u16 \<Rightarrow> bool" where
  "reg_value_ok a v \<longleftrightarrow>
     (is_input_scanner_mapping_addr a \<longrightarrow> is_valid_scanner_mapping v)
     \<and> (is_output_scanner_mapping_addr a \<longrightarrow> is_valid_scanner_mapping v \<and> is_writable_output_scanner_mapping v)
     \<and> (a = APP_MB_HREG_MOTOR_MODE \<longrightarrow> v \<le> 1)"

definition regs_ok :: "u16 list \<Rightarrow> bool" where
  "regs_ok rs \<longleftrightarrow> length rs = 60 \<and> (\<forall>k \<in> {0..<60}. reg_value_ok (of_nat k) (rs ! k))"

definition modbus_inv :: "m7 \<Rightarrow> bool" where
  "modbus_inv w \<longleftrightarrow> regs_ok (mb_holding_regs (m7_modbus w)) \<and> m7_command_ok (m7_link w)
     \<and> scanner_inv (m7_scanner w)"

lemma regs_ok_get: "regs_ok rs \<Longrightarrow> unat a < 60 \<Longrightarrow> reg_value_ok a (rs ! unat a)"
  by (auto simp: regs_ok_def dest!: bspec [where x = "unat a"])

lemma regs_ok_set:
  assumes "regs_ok rs" and "reg_value_ok a v"
  shows "regs_ok (rs[unat a := v])"
  using assms by (cases "unat a < 60") (auto simp: regs_ok_def nth_list_update)

lemma modbus_inv_get: "modbus_inv w \<Longrightarrow> unat a < 60 \<Longrightarrow> reg_value_ok a (reg_get a w)"
  by (simp add: modbus_inv_def reg_get_def regs_ok_get)

lemma reg_get_set_same [simp]:
  "unat a < length (mb_holding_regs (m7_modbus w)) \<Longrightarrow> reg_get a (reg_set a v w) = v"
  by (simp add: reg_get_def reg_set_def)

lemma reg_get_set_other [simp]: "unat a \<noteq> unat b \<Longrightarrow> reg_get a (reg_set b v w) = reg_get a w"
  by (simp add: reg_get_def reg_set_def)

lemma reg_set_fields [simp]:
  "m7_scanner (reg_set a v w) = m7_scanner w" "m7_net (reg_set a v w) = m7_net w"
  "m7_link (reg_set a v w) = m7_link w" "m7_stored (reg_set a v w) = m7_stored w"
  "length (mb_holding_regs (m7_modbus (reg_set a v w))) = length (mb_holding_regs (m7_modbus w))"
  "mb_command_done (m7_modbus (reg_set a v w)) = mb_command_done (m7_modbus w)"
  "mb_command_pending (m7_modbus (reg_set a v w)) = mb_command_pending (m7_modbus w)"
  "mb_command_result (m7_modbus (reg_set a v w)) = mb_command_result (m7_modbus w)"
  "mb_pending_command (m7_modbus (reg_set a v w)) = mb_pending_command (m7_modbus w)"
  "mb_active_request_unit_id (m7_modbus (reg_set a v w)) = mb_active_request_unit_id (m7_modbus w)"
  by (simp_all add: reg_set_def)

lemma modbus_set_fields [simp]:
  "m7_scanner (modbus_set f w) = m7_scanner w" "m7_net (modbus_set f w) = m7_net w"
  "m7_link (modbus_set f w) = m7_link w" "m7_stored (modbus_set f w) = m7_stored w" "m7_modbus (modbus_set f w) = f (m7_modbus w)"
  by (simp_all add: modbus_set_def)

lemma set_last_status_fields [simp]:
  "m7_scanner (set_last_status i w) = m7_scanner w" "m7_net (set_last_status i w) = m7_net w"
  "m7_link (set_last_status i w) = m7_link w" "m7_stored (set_last_status i w) = m7_stored w"
  "mb_holding_regs (m7_modbus (set_last_status i w)) = mb_holding_regs (m7_modbus w)"
  "mb_command_done (m7_modbus (set_last_status i w)) = mb_command_done (m7_modbus w)"
  "mb_command_pending (m7_modbus (set_last_status i w)) = mb_command_pending (m7_modbus w)"
  "mb_command_result (m7_modbus (set_last_status i w)) = mb_command_result (m7_modbus w)"
  "mb_pending_command (m7_modbus (set_last_status i w)) = mb_pending_command (m7_modbus w)"
  "mb_active_request_unit_id (m7_modbus (set_last_status i w)) = mb_active_request_unit_id (m7_modbus w)"
  by (simp_all add: set_last_status_def)

lemma modbus_inv_reg_set: "modbus_inv w \<Longrightarrow> reg_value_ok a v \<Longrightarrow> modbus_inv (reg_set a v w)"
  by (simp add: modbus_inv_def reg_set_def regs_ok_set)

lemma modbus_inv_modbus_set:
  "(\<And>mb. mb_holding_regs (f mb) = mb_holding_regs mb) \<Longrightarrow> modbus_inv (modbus_set f w) = modbus_inv w"
  by (simp add: modbus_inv_def)

lemma modbus_inv_last_status [simp]: "modbus_inv (set_last_status i w) = modbus_inv w"
  by (simp add: modbus_inv_def)

lemma modbus_inv_link: "modbus_inv w \<Longrightarrow> m7_command_ok l \<Longrightarrow> modbus_inv (w\<lparr>m7_link := l\<rparr>)"
  by (simp add: modbus_inv_def)

lemma modbus_inv_net: "modbus_inv (w\<lparr>m7_net := n\<rparr>) = modbus_inv w"
  by (simp add: modbus_inv_def)

lemma modbus_inv_scanner: "modbus_inv w \<Longrightarrow> scanner_inv sc \<Longrightarrow> modbus_inv (w\<lparr>m7_scanner := sc\<rparr>)"
  by (simp add: modbus_inv_def)

lemma modbus_inv_length: "modbus_inv w \<Longrightarrow> length (mb_holding_regs (m7_modbus w)) = 60"
  by (simp add: modbus_inv_def regs_ok_def)

text \<open>Registers without a restriction.\<close>

lemma reg_value_ok_plain:
  "unat a < 40 \<or> 50 \<le> unat a \<Longrightarrow> unat a \<noteq> 10 \<Longrightarrow> reg_value_ok a v"
  by (auto simp: reg_value_ok_def register_classes c_def word_unat_eq_iff)

lemma reg_value_ok_low [simp]:
  "reg_value_ok APP_MB_HREG_SIGNATURE v" "reg_value_ok APP_MB_HREG_MODE v"
  "reg_value_ok APP_MB_HREG_IP_MSW v" "reg_value_ok APP_MB_HREG_IP_LSW v"
  "reg_value_ok APP_MB_HREG_MASK_MSW v" "reg_value_ok APP_MB_HREG_MASK_LSW v"
  "reg_value_ok APP_MB_HREG_GW_MSW v" "reg_value_ok APP_MB_HREG_GW_LSW v"
  "reg_value_ok APP_MB_HREG_COMMAND v" "reg_value_ok APP_MB_HREG_STATUS v"
  "reg_value_ok APP_MB_HREG_MOTOR_APPLY v" "reg_value_ok APP_MB_HREG_MOTOR_COMMAND_STATUS v"
  "reg_value_ok APP_MB_HREG_MOTOR_COMMAND_SEQUENCE v"
  by (simp_all add: reg_value_ok_plain c_def)

lemma sync_holding_regs_inv:
  "modbus_inv w \<Longrightarrow> modbus_inv (sync_holding_regs_from_saved_cfg pton w)"
  by (simp add: sync_holding_regs_from_saved_cfg_def Let_def modbus_inv_reg_set)

lemma motor_command_apply_inv:
  assumes "modbus_inv w"
  shows "modbus_inv (snd (motor_command_apply send w))"
proof -
  have "m7_command_ok (snd (snd (app_ipc_motor_submit send c (m7_link w))))" for c
    using assms by (intro app_ipc_motor_submit_ok) (simp add: modbus_inv_def)
  with assms show ?thesis
    by (simp add: motor_command_apply_def Let_def case_prod_beta modbus_inv_reg_set modbus_inv_link)
qed

lemma settings_keep_inv [simp]: "modbus_inv (settings_keep r b w) = modbus_inv w"
  by (simp add: modbus_inv_def)

lemma m7_set_saved_inv: "modbus_inv w \<Longrightarrow> modbus_inv (snd (m7_set_saved e d w))"
  by (simp add: m7_set_saved_def Let_def case_prod_beta net_cfg_notify_changed_def modbus_net_cfg_changed_def
      modbus_sync_from_saved_cfg_def sync_holding_regs_inv modbus_inv_net)

lemma save_holding_regs_inv: "modbus_inv w \<Longrightarrow> modbus_inv (snd (save_holding_regs_config e c w))"
  by (simp add: save_holding_regs_config_def Let_def m7_set_saved_inv)

lemma complete_pending_command_inv: "modbus_inv w \<Longrightarrow> modbus_inv (complete_pending_command e ret w)"
  by (simp add: complete_pending_command_def Let_def modbus_sync_from_saved_cfg_def modbus_inv_modbus_set
      sync_holding_regs_inv modbus_inv_reg_set)

lemma modbus_command_work_handler_inv: "modbus_inv w \<Longrightarrow> modbus_inv (modbus_command_work_handler e w)"
  by (simp add: modbus_command_work_handler_def Let_def case_prod_beta complete_pending_command_inv
      save_holding_regs_inv)

lemma holding_command_wr_inv: "modbus_inv w \<Longrightarrow> modbus_inv (snd (holding_command_wr e reg w))"
  by (simp add: holding_command_wr_def Let_def modbus_inv_modbus_set modbus_inv_reg_set
      modbus_command_work_handler_inv)

lemma holding_reg_wr_inv:
  assumes "modbus_inv w"
  shows "modbus_inv (snd (holding_reg_wr e addr reg w))"
proof -
  have v: "reg_value_ok addr reg"
    if "\<not> ((is_input_scanner_mapping_addr addr \<or> is_output_scanner_mapping_addr addr)
            \<and> \<not> is_valid_scanner_mapping reg)"
      "\<not> (is_output_scanner_mapping_addr addr \<and> \<not> is_writable_output_scanner_mapping reg)"
      "\<not> (addr = APP_MB_HREG_MOTOR_MODE \<and> APP_MB_MOTOR_MODE_REMOTE < reg)"
    using that by (auto simp: reg_value_ok_def c_def not_less)
  have m: "is_motor_command_addr APP_MB_HREG_MOTOR_MODE" by (simp add: is_motor_command_addr_def c_def)
  show ?thesis
    using assms v m
    by (auto simp: holding_reg_wr_def Let_def case_prod_beta modbus_inv_reg_set motor_command_apply_inv
        holding_command_wr_inv)
qed

text \<open>The holding registers implement the scanner's interface.\<close>

lemma holding_reg_rd_plain:
  "unat a < 60 \<Longrightarrow> \<not> is_motor_state_addr a \<Longrightarrow> holding_reg_rd e w a = Inr (reg_get a w)"
  by (simp add: holding_reg_rd_def c_def to_nat_simps)

lemma unat_map_addr:
  "a < 5 \<Longrightarrow> unat (APP_MB_HREG_SCANNER_INPUT_MAP_BASE + a) = 40 + unat a"
  "a < 5 \<Longrightarrow> unat (APP_MB_HREG_SCANNER_OUTPUT_MAP_BASE + a) = 45 + unat a"
  by (simp_all add: c_def to_nat_simps unat_word_ariths)

lemma unat_map_addr_less:
  "a < 5 \<Longrightarrow> unat (APP_MB_HREG_SCANNER_INPUT_MAP_BASE + a) < 60"
  "a < 5 \<Longrightarrow> unat (APP_MB_HREG_SCANNER_OUTPUT_MAP_BASE + a) < 60"
  by (simp_all add: unat_map_addr word_less_nat_alt)

interpretation bank: register_bank "holding_reg_rd e" "holding_reg_wr e" modbus_inv for e
proof unfold_locales
  fix w :: m7 and a :: u16
  assume w: "modbus_inv w" and a: "a < 5"
  then have n: "unat a < 5" by (simp add: word_less_nat_alt)
  let ?i = "APP_MB_HREG_SCANNER_INPUT_MAP_BASE + a" and ?o = "APP_MB_HREG_SCANNER_OUTPUT_MAP_BASE + a"
  have "is_valid_scanner_mapping (reg_get ?i w)"
    using modbus_inv_get [OF w unat_map_addr_less(1) [OF a]] n
    by (simp add: reg_value_ok_def register_classes(3) unat_map_addr(1) [OF a])
  then show "\<exists>v. holding_reg_rd e w ?i = Inr v \<and> is_valid_scanner_mapping v"
    using n by (simp add: holding_reg_rd_plain unat_map_addr [OF a] register_classes(2))
  have "is_valid_scanner_mapping (reg_get ?o w) \<and> is_writable_output_scanner_mapping (reg_get ?o w)"
    using modbus_inv_get [OF w unat_map_addr_less(2) [OF a]] n
    by (simp add: reg_value_ok_def register_classes(4) unat_map_addr(2) [OF a])
  then show "\<exists>v. holding_reg_rd e w ?o = Inr v \<and> is_valid_scanner_mapping v
      \<and> is_writable_output_scanner_mapping v"
    using n by (simp add: holding_reg_rd_plain unat_map_addr [OF a] register_classes(2))
next
  fix w :: m7 and a v :: u16
  assume "modbus_inv w"
  then show "modbus_inv (snd (holding_reg_wr e a v w))" by (rule holding_reg_wr_inv)
qed

section \<open>Every operation keeps the invariant\<close>

lemma modbus_boot_inv: "modbus_inv m7_boot"
proof -
  have r: "length (replicate 60 (0 :: u16)) = 60" "\<And>k. k < 60 \<Longrightarrow> reg_value_ok (of_nat k) (replicate 60 0 ! k)"
    by (auto simp: reg_value_ok_def c_def is_valid_scanner_mapping_def is_writable_output_scanner_mapping_def
        is_motor_state_addr_def is_input_scanner_mapping_addr_def is_output_scanner_mapping_addr_def)
  then have "regs_ok (replicate 60 0)" by (simp add: regs_ok_def)
  moreover have "reg_value_ok APP_MB_HREG_MOTOR_TARGET_DUTY v" "reg_value_ok APP_MB_HREG_MOTOR_ACCEL_RAMP v"
    "reg_value_ok APP_MB_HREG_MOTOR_DECEL_RAMP v" "reg_value_ok APP_MB_HREG_MOTOR_TIMEOUT v" for v
    by (simp_all add: reg_value_ok_plain c_def)
  ultimately have "regs_ok (mb_holding_regs modbus_boot)"
    unfolding modbus_boot_def by (simp add: regs_ok_set)
  then show ?thesis
    by (simp add: modbus_inv_def m7_boot_def m7_ipc_boot_ok scanner_inv_def scanner_boot_def)
qed

lemma init_scanner_mapping_inv: "modbus_inv w \<Longrightarrow> modbus_inv (init_scanner_mapping_defaults w)"
  by (simp add: init_scanner_mapping_defaults_def Let_def upt_rec numeral_eq_Suc)
    (simp add: c_def modbus_inv_reg_set reg_value_ok_def register_classes writable_output_mapping)

lemma init_modbus_server_inv:
  "modbus_inv w \<Longrightarrow> modbus_inv (snd (init_modbus_server e i1 i2 n1 n2 f1 f2 w))"
  by (simp add: init_modbus_server_def Let_def modbus_inv_modbus_set modbus_inv_reg_set
      sync_holding_regs_inv init_scanner_mapping_inv)

lemma app_modbus_tcp_start_inv:
  "modbus_inv w \<Longrightarrow> modbus_inv (snd (app_modbus_tcp_start e i1 i2 n1 n2 f1 f2 w))"
  by (simp add: app_modbus_tcp_start_def Let_def case_prod_beta modbus_inv_modbus_set init_modbus_server_inv)

lemma scanner_input_rd_inv: "modbus_inv w \<Longrightarrow> modbus_inv (snd (scanner_input_rd e addr w))"
  by (simp add: scanner_input_rd_def case_prod_beta modbus_inv_def scanner_rd_inv)

lemma scanner_output_wr_inv:
  assumes "modbus_inv w"
  shows "modbus_inv (snd (scanner_output_wr e addr reg w))"
proof -
  have "scanner_inv (m7_scanner w)" using assms by (simp add: modbus_inv_def)
  then show ?thesis
    using bank.scanner_output_wr_keeps [OF assms, of e "me_now e" addr reg "m7_scanner w"]
    by (simp add: scanner_output_wr_def case_prod_beta modbus_inv_scanner scanner_wr_inv)
qed

lemma routed_holding_reg_rd_inv: "modbus_inv w \<Longrightarrow> modbus_inv (snd (routed_holding_reg_rd e addr w))"
  by (simp add: routed_holding_reg_rd_def scanner_input_rd_inv)

lemma routed_input_reg_rd_inv: "modbus_inv w \<Longrightarrow> modbus_inv (snd (routed_input_reg_rd e addr w))"
  by (simp add: routed_input_reg_rd_def scanner_input_rd_inv)

lemma routed_holding_reg_wr_inv: "modbus_inv w \<Longrightarrow> modbus_inv (snd (routed_holding_reg_wr e addr reg w))"
  by (simp add: routed_holding_reg_wr_def scanner_output_wr_inv holding_reg_wr_inv)

lemma fc23_write_loop_inv: "modbus_inv w \<Longrightarrow> modbus_inv (snd (fc23_write_loop es a i regs w))"
  by (induction regs arbitrary: i w) (auto simp: Let_def case_prod_beta routed_holding_reg_wr_inv)

lemma fc23_read_loop_Suc:
  "snd (fc23_read_loop es a i (Suc n) w) =
     (let (r, w1) = routed_holding_reg_rd (es i) (a + of_nat i) w
      in case r of Inl _ \<Rightarrow> w1 | Inr _ \<Rightarrow> snd (fc23_read_loop es a (i + 1) n w1))"
  by (simp split: prod.split sum.split option.split)

lemma fc23_read_loop_inv: "modbus_inv w \<Longrightarrow> modbus_inv (snd (fc23_read_loop es a i n w))"
proof (induction n arbitrary: i w)
  case (Suc n)
  then show ?case
    using routed_holding_reg_rd_inv [OF Suc.prems]
    by (simp add: fc23_read_loop_Suc Let_def case_prod_beta del: fc23_read_loop.simps split: sum.split)
qed simp

lemma fc23_inv:
  assumes "modbus_inv w"
  shows "modbus_inv (snd (fc23_read_write_holding_regs wes res data w))"
proof -
  obtain ok w1 where l: "fc23_write_loop wes (get_be16 data 4) 0
      (List.map (\<lambda>i. get_be16 data (9 + i * 2)) [0..<unat (get_be16 data 6)]) w = (ok, w1)"
    by (rule prod.exhaust)
  then have w1: "modbus_inv w1" using fc23_write_loop_inv [OF assms] by (metis snd_conv)
  obtain r w2 where l2: "fc23_read_loop res (get_be16 data 0) 0 (unat (get_be16 data 2)) w1 = (r, w2)"
    by (rule prod.exhaust)
  then have "modbus_inv w2" using fc23_read_loop_inv [OF w1] by (metis snd_conv)
  with assms w1 show ?thesis
    by (simp add: fc23_read_write_holding_regs_def Let_def l l2 split: option.split)
qed

section \<open>Operations of the running server\<close>

text \<open>The steps that change the state of the Cortex-M7 side as seen by the Modbus server: local and
  scanner accesses, function code 23, the work handler, a saved configuration of another source, the
  inter-core messages, the heartbeat, a connection, the unit of a request and the start.\<close>

datatype modbus_op =
    HoldingWrite m7_env u16 u16
  | ScannerWrite m7_env u16 u16
  | ScannerRead m7_env u16
  | ReadWrite "m7_env list" "m7_env list" "u8 list"
  | CommandWork m7_env
  | SetSaved m7_env net_cfg_data
  | LinkReceived u32 "u8 list"
  | Heartbeat
  | Accepted
  | RequestUnit u8
  | ServerStart m7_env int int int int int int

text \<open>The answers of the \<open>i\<close>-th access of a request.\<close>

definition answers_of :: "m7_env list \<Rightarrow> nat \<Rightarrow> m7_env" where
  "answers_of es i = es ! min i (length es - 1)"

definition modbus_step :: "modbus_op \<Rightarrow> m7 \<Rightarrow> m7" where
  "modbus_step p w = (case p of
       HoldingWrite e addr reg \<Rightarrow> snd (holding_reg_wr e addr reg w)
     | ScannerWrite e addr reg \<Rightarrow> snd (scanner_output_wr e addr reg w)
     | ScannerRead e addr \<Rightarrow> snd (scanner_input_rd e addr w)
     | ReadWrite wes res data \<Rightarrow> snd (fc23_read_write_holding_regs (answers_of wes) (answers_of res) data w)
     | CommandWork e \<Rightarrow> modbus_command_work_handler e w
     | SetSaved e d \<Rightarrow> snd (m7_set_saved e d w)
     | LinkReceived now data \<Rightarrow> w\<lparr>m7_link := endpoint_received_m7 now data (m7_link w)\<rparr>
     | Heartbeat \<Rightarrow> app_modbus_tcp_heartbeat_tick w
     | Accepted \<Rightarrow> modbus_connection_accepted w
     | RequestUnit u \<Rightarrow> modbus_set (\<lambda>mb. mb\<lparr>mb_active_request_unit_id := u\<rparr>) w
     | ServerStart e i1 i2 n1 n2 f1 f2 \<Rightarrow> snd (app_modbus_tcp_start e i1 i2 n1 n2 f1 f2 w))"

definition modbus_run :: "modbus_op list \<Rightarrow> m7 \<Rightarrow> m7" where
  "modbus_run ops w = fold modbus_step ops w"

lemma modbus_inv_received:
  "modbus_inv w \<Longrightarrow> modbus_inv (w\<lparr>m7_link := endpoint_received_m7 now data (m7_link w)\<rparr>)"
  by (rule modbus_inv_link) (simp_all add: modbus_inv_def m7_command_ok_cong [OF endpoint_received_m7_command])

lemma modbus_step_inv: "modbus_inv w \<Longrightarrow> modbus_inv (modbus_step p w)"
  by (cases p) (simp_all add: modbus_step_def holding_reg_wr_inv scanner_output_wr_inv scanner_input_rd_inv
      fc23_inv modbus_command_work_handler_inv m7_set_saved_inv app_modbus_tcp_heartbeat_tick_def
      modbus_connection_accepted_def app_modbus_tcp_start_inv modbus_inv_modbus_set modbus_inv_received)

lemma modbus_run_inv: "modbus_inv (modbus_run ops m7_boot)"
proof -
  have "modbus_inv w \<Longrightarrow> modbus_inv (fold modbus_step ops w)" for w
    by (induction ops arbitrary: w) (simp_all add: modbus_step_inv)
  then show ?thesis using modbus_boot_inv by (simp add: modbus_run_def)
qed

section \<open>A concrete environment\<close>

text \<open>A faithful encoding of addresses as strings, four characters each.\<close>

definition ntop_example :: ntop where
  "ntop_example a = [char_of (unat a), char_of (unat a div 256), char_of (unat a div 65536),
     char_of (unat a div 16777216)]"

definition pton_chars :: pton where
  "pton_chars s = (case s of
       [c0, c1, c2, c3] \<Rightarrow> Some (of_nat (of_char c0 + 256 * of_char c1 + 65536 * of_char c2 + 16777216 * of_char c3))
     | _ \<Rightarrow> None)"

definition m7_env_example :: m7_env where
  "m7_env_example = \<lparr>me_send = (\<lambda>_. 36), me_now = 0, me_uptime_ms = 0, me_submit_ret = 1, me_timely = True,
     me_save_ret = 0, me_pton = pton_chars, me_ntop = ntop_example, me_has_iface = False, me_addrs = None,
     me_netmask_of = (\<lambda>_. 0), me_gateway = 0, me_if_up = False, me_carrier = False\<rparr>"

section \<open>Register writes\<close>

text \<open>The outcome of a write that only stores.\<close>

lemma holding_reg_wr_plain:
  assumes "unat addr < 60" and "\<not> is_read_only_addr addr" and "reg_value_ok addr reg"
    and "addr \<noteq> APP_MB_HREG_MOTOR_APPLY" and "addr \<noteq> APP_MB_HREG_COMMAND"
  shows "holding_reg_wr e addr reg w = (0, reg_set addr reg w)"
  using assms
  by (auto simp: holding_reg_wr_def reg_value_ok_def is_read_only_addr_def Let_def c_def word_le_nat_alt
      word_less_nat_alt not_less)

lemma holding_reg_wr_refused:
  assumes "60 \<le> unat addr \<or> is_read_only_addr addr \<or> \<not> reg_value_ok addr reg"
  shows "fst (holding_reg_wr e addr reg w) < 0 \<and> snd (holding_reg_wr e addr reg w) = w"
proof (cases "addr = APP_MB_HREG_MOTOR_MODE")
  case True
  then show ?thesis using assms
    by (auto simp: holding_reg_wr_def reg_value_ok_def register_classes c_def word_le_nat_alt word_less_nat_alt
        is_motor_state_addr_def is_motor_command_addr_def is_input_scanner_mapping_addr_def
        is_output_scanner_mapping_addr_def is_read_only_addr_def)
next
  case False
  then show ?thesis using assms
    by (auto simp: holding_reg_wr_def reg_value_ok_def is_read_only_addr_def word_le_nat_alt
        APP_MODBUS_HOLDING_REG_COUNT_def)
qed

lemma reg_get_set_neq: "a \<noteq> b \<Longrightarrow> reg_get a (reg_set b v w) = reg_get a w"
  by (rule reg_get_set_other) (simp add: word_unat_eq_iff)

lemma holding_reg_rd_set:
  "unat b < length (mb_holding_regs (m7_modbus w)) \<Longrightarrow> \<not> is_motor_state_addr b \<Longrightarrow> unat b < 60
   \<Longrightarrow> holding_reg_rd e (reg_set b v w) a = (if a = b then Inr v else holding_reg_rd e w a)"
  by (cases "a = b") (simp_all add: holding_reg_rd_def motor_state_reg_read_def Let_def
      APP_MODBUS_HOLDING_REG_COUNT_def word_le_nat_alt reg_get_set_neq)

text \<open>Writes of single registers, the two command registers apart. A write is refused, and changes
  nothing at all, exactly when the address is outside the map, the register is read-only (motor state,
  command status, sequence, reserved), a scanner mapping does not name an allowed register, or the motor
  mode is not 0 or 1. Every other write returns 0, the register then reads back the value, and every
  other register, the motor state included, reads as before.\<close>

theorem holding_write_exact:
  assumes "modbus_inv w" and "addr \<noteq> APP_MB_HREG_MOTOR_APPLY" and "addr \<noteq> APP_MB_HREG_COMMAND"
    and "refused = (60 \<le> unat addr \<or> is_read_only_addr addr \<or> \<not> reg_value_ok addr reg)"
  shows "if refused then fst (holding_reg_wr e addr reg w) < 0 \<and> snd (holding_reg_wr e addr reg w) = w
     else fst (holding_reg_wr e addr reg w) = 0
       \<and> holding_reg_rd e' (snd (holding_reg_wr e addr reg w)) a
         = (if a = addr then Inr reg else holding_reg_rd e' w a)"
proof (cases refused)
  case True
  with assms(4) show ?thesis using holding_reg_wr_refused by simp
next
  case False
  with assms(4) have f: "unat addr < 60" "\<not> is_read_only_addr addr" "reg_value_ok addr reg" by auto
  then have "\<not> is_motor_state_addr addr" by (simp add: is_read_only_addr_def)
  with f False show ?thesis
    using modbus_inv_length [OF assms(1)]
    by (simp add: holding_reg_wr_plain [OF f assms(2,3)] holding_reg_rd_set)
qed

theorem holding_write_exact_witness:
  "fst (holding_reg_wr m7_env_example 45 20 m7_boot) < 0
     \<and> holding_reg_rd m7_env_example (snd (holding_reg_wr m7_env_example 45 13 m7_boot)) 45 = Inr 13"
proof -
  have r: "60 \<le> unat (45 :: u16) \<or> is_read_only_addr 45 \<or> \<not> reg_value_ok 45 20"
    "\<not> (60 \<le> unat (45 :: u16) \<or> is_read_only_addr 45 \<or> \<not> reg_value_ok 45 13)"
    by (simp_all add: reg_value_ok_def register_classes writable_output_mapping c_def)
  have n: "(45 :: u16) \<noteq> APP_MB_HREG_MOTOR_APPLY" "(45 :: u16) \<noteq> APP_MB_HREG_COMMAND" by (simp_all add: c_def)
  show ?thesis
    using holding_write_exact [OF modbus_boot_inv n refl, where reg = 20 and e = m7_env_example]
      holding_write_exact [OF modbus_boot_inv n refl, where reg = 13 and e = m7_env_example
          and a = 45 and e' = m7_env_example] r
    by simp
qed

text \<open>After any sequence of accesses from boot, whatever the clients write, the scanner's mapping
  registers name registers of the map or are free, an output mapping never names a read-only or a
  mapping register, the motor mode is 0 or 1, and the command repeated by the refresh is within the
  bounds the other core checks.\<close>

theorem modbus_mappings_always_valid:
  assumes "k < 5" and "w = modbus_run ops m7_boot" and "regs = mb_holding_regs (m7_modbus w)"
  shows "length regs = 60 \<and> is_valid_scanner_mapping (regs ! (40 + k))
     \<and> is_valid_scanner_mapping (regs ! (45 + k)) \<and> is_writable_output_scanner_mapping (regs ! (45 + k))
     \<and> regs ! 10 \<le> 1 \<and> m7_command_ok (m7_link w)"
proof -
  have inv: "modbus_inv w" using modbus_run_inv assms(2) by simp
  have "reg_value_ok (of_nat j) (regs ! j)" if "j < 60" for j
    using inv that assms(3) by (simp add: modbus_inv_def regs_ok_def)
  moreover have "unat (of_nat j :: u16) = j" if "j < 60" for j
    using that by (simp add: unat_of_nat)
  ultimately have v: "unat (a :: u16) = j \<Longrightarrow> j < 60 \<Longrightarrow> reg_value_ok a (regs ! j)" for a j
    by (metis word_unat_eq_iff)
  obtain i o' where a: "unat (i :: u16) = 40 + k" "unat (o' :: u16) = 45 + k"
    using \<open>\<And>j. j < 60 \<Longrightarrow> unat (of_nat j :: u16) = j\<close> [of "40 + k"]
      \<open>\<And>j. j < 60 \<Longrightarrow> unat (of_nat j :: u16) = j\<close> [of "45 + k"] assms(1) by fastforce
  have "is_valid_scanner_mapping (regs ! (40 + k)) \<and> is_valid_scanner_mapping (regs ! (45 + k))
      \<and> is_writable_output_scanner_mapping (regs ! (45 + k))"
    using v [OF a(1)] v [OF a(2)] assms(1) a
    by (simp add: reg_value_ok_def register_classes(3,4))
  moreover have "regs ! 10 \<le> 1"
    using v [of APP_MB_HREG_MOTOR_MODE 10] by (simp add: reg_value_ok_def c_def)
  ultimately show ?thesis using inv assms(3) by (simp add: modbus_inv_def regs_ok_def)
qed

theorem modbus_mappings_always_valid_witness:
  "is_valid_scanner_mapping (mb_holding_regs (m7_modbus (modbus_run [HoldingWrite m7_env_example 45 20] m7_boot)) ! 45)"
  using modbus_mappings_always_valid [of 0 _ "[HoldingWrite m7_env_example 45 20]", OF _ refl refl] by simp

end
