(* ===== verification/Modbus_Service.thy ===== *)
theory Modbus_Service
  imports Modbus_Tcp
begin

text \<open>
  What a Modbus client obtains from the server of \<open>Modbus_Tcp\<close>: motor commands through the \<open>APPLY\<close>
  register, the scanner's output window, stored network configurations and function code 23.
\<close>

section \<open>Motor commands\<close>

lemma reg_get_link [simp]: "reg_get a (w\<lparr>m7_link := l\<rparr>) = reg_get a w"
  by (simp add: reg_get_def)

lemma holding_reg_wr_apply:
  "holding_reg_wr e APP_MB_HREG_MOTOR_APPLY reg w =
     (if reg \<noteq> APP_MB_MOTOR_APPLY_COMMAND
      then (- EINVAL, reg_set APP_MB_HREG_MOTOR_COMMAND_STATUS (u16_of_int (- EINVAL)) w)
      else let (submit_ret, w) = motor_command_apply (me_send e)
                 (reg_set APP_MB_HREG_MOTOR_COMMAND_STATUS APP_MB_MOTOR_STATUS_PENDING w)
           in (submit_ret, reg_set APP_MB_HREG_MOTOR_APPLY 0 w))"
proof -
  have "is_motor_command_addr APP_MB_HREG_MOTOR_APPLY" "\<not> is_motor_state_addr APP_MB_HREG_MOTOR_APPLY"
    "\<not> is_input_scanner_mapping_addr APP_MB_HREG_MOTOR_APPLY"
    "\<not> is_output_scanner_mapping_addr APP_MB_HREG_MOTOR_APPLY"
    by (simp_all add: register_classes c_def)
  then show ?thesis by (simp add: holding_reg_wr_def c_def)
qed

lemma holding_reg_wr_mode:
  "v \<le> 1 \<Longrightarrow> holding_reg_wr e APP_MB_HREG_MOTOR_MODE v w = (0, reg_set APP_MB_HREG_MOTOR_MODE v w)"
  by (rule holding_reg_wr_plain) (auto simp: reg_value_ok_def register_classes c_def)

lemma motor_command_of_regs_status:
  "motor_command_of_regs (reg_set APP_MB_HREG_MOTOR_COMMAND_STATUS v w) = motor_command_of_regs w"
  by (simp add: motor_command_of_regs_def c_def)

lemma motor_command_of_regs_mode:
  assumes "modbus_inv w"
  shows "motor_command_of_regs (reg_set APP_MB_HREG_MOTOR_MODE 1 w) = (motor_command_of_regs w)\<lparr>mc_remote := True\<rparr>"
  using modbus_inv_length [OF assms] by (simp add: motor_command_of_regs_def c_def)

lemma u16_of_int_0 [simp]: "u16_of_int 0 = 0"
  by (simp add: u16_of_int_def)

lemma motor_apply_effect:
  assumes "modbus_inv w"
    and "(ret, sent, link) = app_ipc_motor_submit (me_send e) (Some (motor_command_of_regs w)) (m7_link w)"
    and "(r, w') = holding_reg_wr e APP_MB_HREG_MOTOR_APPLY 1 w"
  shows "r = min ret 0 \<and> m7_link w' = link \<and> m7_net w' = m7_net w
     \<and> reg_get a w' =
       (if a = APP_MB_HREG_MOTOR_APPLY then 0
        else if a = APP_MB_HREG_MOTOR_COMMAND_STATUS then u16_of_int r
        else if a = APP_MB_HREG_MOTOR_COMMAND_SEQUENCE then reg_get a w + (if r = 0 then 1 else 0)
        else reg_get a w)"
proof -
  let ?w1 = "reg_set APP_MB_HREG_MOTOR_COMMAND_STATUS APP_MB_MOTOR_STATUS_PENDING w"
  let ?w2 = "?w1\<lparr>m7_link := link\<rparr>"
  have len [simp]: "length (mb_holding_regs (m7_modbus w)) = 60" using modbus_inv_length [OF assms(1)] .
  have n [simp]: "unat APP_MB_HREG_MOTOR_APPLY = 12" "unat APP_MB_HREG_MOTOR_COMMAND_STATUS = 17"
    "unat APP_MB_HREG_MOTOR_COMMAND_SEQUENCE = 18" by (simp_all add: c_def)
  have a: "motor_command_apply (me_send e) ?w1 =
      (if 0 \<le> ret
       then (0, reg_set APP_MB_HREG_MOTOR_COMMAND_SEQUENCE (reg_get APP_MB_HREG_MOTOR_COMMAND_SEQUENCE ?w2 + 1)
                  (reg_set APP_MB_HREG_MOTOR_COMMAND_STATUS 0 ?w2))
       else (ret, reg_set APP_MB_HREG_MOTOR_COMMAND_STATUS (u16_of_int ret) ?w2))"
    using assms(2) [symmetric] by (simp add: motor_command_apply_def motor_command_of_regs_status)
  have w': "w' = reg_set APP_MB_HREG_MOTOR_APPLY 0 (snd (motor_command_apply (me_send e) ?w1))"
    and r: "r = fst (motor_command_apply (me_send e) ?w1)"
    using assms(3) by (simp_all add: holding_reg_wr_apply APP_MB_MOTOR_APPLY_COMMAND_def case_prod_beta)
  show ?thesis
  proof (cases "0 \<le> ret")
    case True
    then show ?thesis
      by (simp add: w' r a) (auto simp: c_def reg_get_def reg_set_def word_unat_eq_iff)
  next
    case False
    then show ?thesis
      by (simp add: w' r a) (auto simp: c_def reg_get_def reg_set_def word_unat_eq_iff)
  qed
qed

text \<open>C25. Writing 1 to \<open>APPLY\<close> submits the command the motor registers describe, once: the link is left
  as \<open>app_ipc_motor_submit\<close> leaves it and the write returns its error, or 0 when the command was sent.
  \<open>APPLY\<close> then reads 0, the status register holds the result, the sequence number advanced exactly when
  the command was sent, and no other register changed.\<close>

theorem modbus_apply_effect:
  assumes "modbus_inv w"
    and "(ret, sent, link) = app_ipc_motor_submit (me_send e) (Some (motor_command_of_regs w)) (m7_link w)"
    and "(r, w') = holding_reg_wr e APP_MB_HREG_MOTOR_APPLY 1 w"
  shows "r = min ret 0 \<and> m7_link w' = link \<and> m7_net w' = m7_net w
     \<and> reg_get a w' =
       (if a = APP_MB_HREG_MOTOR_APPLY then 0
        else if a = APP_MB_HREG_MOTOR_COMMAND_STATUS then u16_of_int r
        else if a = APP_MB_HREG_MOTOR_COMMAND_SEQUENCE then reg_get a w + (if r = 0 then 1 else 0)
        else reg_get a w)"
  using motor_apply_effect [OF assms] .

section \<open>The scanner's output window\<close>

text \<open>Registers the command path of the server may change.\<close>

lemma holding_command_wr_regs:
  assumes "10 \<le> unat a"
  shows "reg_get a (snd (holding_command_wr e reg w)) = reg_get a w"
proof -
  have n: "a \<noteq> APP_MB_HREG_STATUS" "a \<noteq> APP_MB_HREG_COMMAND" "a \<noteq> APP_MB_HREG_SIGNATURE"
    "a \<noteq> APP_MB_HREG_MODE" "a \<noteq> APP_MB_HREG_IP_MSW" "a \<noteq> APP_MB_HREG_IP_LSW" "a \<noteq> APP_MB_HREG_MASK_MSW"
    "a \<noteq> APP_MB_HREG_MASK_LSW" "a \<noteq> APP_MB_HREG_GW_MSW" "a \<noteq> APP_MB_HREG_GW_LSW"
    using assms by (auto simp: c_def)
  have b [simp]: "reg_get a (modbus_set f w) = reg_get a w" if "\<And>mb. mb_holding_regs (f mb) = mb_holding_regs mb" for f w
    using that by (simp add: reg_get_def modbus_set_def)
  have l [simp]: "reg_get a (set_last_status i w) = reg_get a w" for i w
    by (simp add: reg_get_def)
  have c [simp]: "reg_get a (w\<lparr>m7_net := d\<rparr>) = reg_get a w" for w d
    by (simp add: reg_get_def)
  have s [simp]: "reg_get a (modbus_sync_from_saved_cfg e w) = reg_get a w" for w
    by (simp add: modbus_sync_from_saved_cfg_def sync_holding_regs_from_saved_cfg_def Let_def reg_get_set_neq n)
  have "reg_get a (modbus_command_work_handler e w) = reg_get a w" for w
    by (simp add: modbus_command_work_handler_def save_holding_regs_config_def m7_set_saved_def
        net_cfg_notify_changed_def modbus_net_cfg_changed_def complete_pending_command_def Let_def case_prod_beta
        reg_get_set_neq n)
  then show ?thesis
    by (simp add: holding_command_wr_def Let_def reg_get_set_neq n)
qed

lemma holding_reg_wr_keeps_mappings:
  assumes "modbus_inv w" and "40 \<le> unat a" and "unat a < 50" and "a \<noteq> addr"
  shows "reg_get a (snd (holding_reg_wr e addr reg w)) = reg_get a w"
proof (cases "60 \<le> unat addr \<or> is_read_only_addr addr \<or> \<not> reg_value_ok addr reg")
  case True
  then show ?thesis using holding_reg_wr_refused by simp
next
  case False
  then have f: "unat addr < 60" "\<not> is_read_only_addr addr" "reg_value_ok addr reg" by auto
  consider "addr = APP_MB_HREG_MOTOR_APPLY" | "addr = APP_MB_HREG_COMMAND"
    | "addr \<noteq> APP_MB_HREG_MOTOR_APPLY" "addr \<noteq> APP_MB_HREG_COMMAND" by blast
  then show ?thesis
  proof cases
    case 1
    have n: "a \<noteq> APP_MB_HREG_MOTOR_APPLY" "a \<noteq> APP_MB_HREG_MOTOR_COMMAND_STATUS" "a \<noteq> APP_MB_HREG_MOTOR_COMMAND_SEQUENCE"
      using assms(2,3) by (auto simp: c_def)
    then show ?thesis
      by (simp add: 1 holding_reg_wr_apply motor_command_apply_def Let_def case_prod_beta reg_get_set_neq)
  next
    case 2
    have "holding_reg_wr e addr reg w = holding_command_wr e reg (reg_set addr reg w)"
      using 2 by (simp add: holding_reg_wr_def register_classes c_def)
    then show ?thesis using assms by (simp add: holding_command_wr_regs reg_get_set_neq)
  next
    case 3
    then show ?thesis using assms(4) by (simp add: holding_reg_wr_plain f reg_get_set_neq)
  qed
qed

lemma scanner_output_wr_keeps_mappings:
  assumes "modbus_inv w" and "40 \<le> unat a" and "unat a < 50"
  shows "reg_get a (snd (scanner_output_wr e addr reg w)) = reg_get a w"
proof -
  have sc: "reg_get a (w'\<lparr>m7_scanner := s\<rparr>) = reg_get a w'" for w' s by (simp add: reg_get_def)
  let ?rd = "holding_reg_rd e" and ?wr = "holding_reg_wr e"
  let ?out = "app_modbus_scanner_output_reg_wr (Some ?rd) (Some ?wr) (me_now e) addr reg (m7_scanner w, w)"
  have "reg_get a (snd (snd ?out)) = reg_get a w"
  proof (cases "addr < 5")
    case False
    then show ?thesis by (simp add: app_modbus_scanner_output_reg_wr_def c_def not_less)
  next
    case True
    show ?thesis
    proof (rule bank.scanner_output_wr_cases
        [OF assms(1) True, where e = e and now = "me_now e" and reg = reg and sc = "m7_scanner w"])
      fix ret w'
      assume commit: "(ret, w') = (let (r, w1) = ?wr APP_MB_HREG_MOTOR_MODE APP_MB_MOTOR_MODE_REMOTE w
          in if 0 \<le> r then ?wr APP_MB_HREG_MOTOR_APPLY reg w1 else (r, w1))"
        and out: "?out = (ret, update_access_diag (me_now e) addr True ret (m7_scanner w), w')"
      have ne: "a \<noteq> APP_MB_HREG_MOTOR_MODE" "a \<noteq> APP_MB_HREG_MOTOR_APPLY" using assms(2,3) by (auto simp: c_def)
      have k: "reg_get a (snd (?wr APP_MB_HREG_MOTOR_MODE v w)) = reg_get a w"
        "modbus_inv (snd (?wr APP_MB_HREG_MOTOR_MODE v w))" for v
        using assms ne by (simp_all add: holding_reg_wr_keeps_mappings holding_reg_wr_inv)
      moreover have "w' = snd (let (r, w1) = ?wr APP_MB_HREG_MOTOR_MODE APP_MB_MOTOR_MODE_REMOTE w
          in if 0 \<le> r then ?wr APP_MB_HREG_MOTOR_APPLY reg w1 else (r, w1))"
        using commit by (metis snd_conv)
      ultimately have "reg_get a w' = reg_get a w"
        using holding_reg_wr_keeps_mappings [OF k(2) assms(2,3) ne(2)] by (simp add: case_prod_beta)
      with out show ?thesis by simp
    next
      fix target
      assume "\<not> is_input_scanner_mapping_addr target" "\<not> is_output_scanner_mapping_addr target"
        and out: "?out = (fst (?wr target reg w), update_access_diag (me_now e) addr True
            (fst (?wr target reg w)) (m7_scanner w), snd (?wr target reg w))"
      then have "a \<noteq> target" using assms(2,3) by (auto simp: register_classes)
      with out assms show ?thesis by (simp add: holding_reg_wr_keeps_mappings)
    qed simp_all
  qed
  then show ?thesis by (simp add: scanner_output_wr_def case_prod_beta sc)
qed

text \<open>No write through the scanner window, whatever its address and value, changes one of the ten
  mapping registers: only Unit-ID 1 can remap the window.\<close>

theorem scanner_cannot_remap:
  assumes "modbus_inv w" and "40 \<le> unat a" and "unat a < 50"
  shows "reg_get a (snd (scanner_output_wr e addr reg w)) = reg_get a w"
  using scanner_output_wr_keeps_mappings [OF assms] .

theorem scanner_cannot_remap_witness:
  "reg_get 45 (snd (scanner_output_wr m7_env_example 0 77 m7_boot)) = 0"
  using scanner_cannot_remap [OF modbus_boot_inv, of 45 m7_env_example 0 77]
  by (simp add: m7_boot_def modbus_boot_def reg_get_def c_def)

lemma scanner_apply_trigger:
  assumes "addr < 5" and "reg_get (APP_MB_HREG_SCANNER_OUTPUT_MAP_BASE + addr) w = APP_MB_HREG_MOTOR_APPLY"
  shows "scanner_output_wr e addr reg w =
      (let (ret, w1) = (if reg = 0 then (0, w)
              else holding_reg_wr e APP_MB_HREG_MOTOR_APPLY reg (reg_set APP_MB_HREG_MOTOR_MODE 1 w))
       in (ret, w1\<lparr>m7_scanner := update_access_diag (me_now e) addr True ret (m7_scanner w)\<rparr>))"
proof -
  have rd: "holding_reg_rd e w (APP_MB_HREG_SCANNER_OUTPUT_MAP_BASE + addr) = Inr APP_MB_HREG_MOTOR_APPLY"
    using assms by (simp add: holding_reg_rd_plain unat_map_addr register_classes word_less_nat_alt)
  then show ?thesis
    using assms(1) holding_reg_wr_mode [of APP_MB_MOTOR_MODE_REMOTE e w]
    by (simp add: scanner_output_wr_def app_modbus_scanner_output_reg_wr_def scanner_map_rd_def
        case_prod_beta Let_def c_def linorder_not_le [symmetric])
qed

lemma scanner_apply_effect:
  assumes "modbus_inv w" and "addr < 5" and "reg_get (APP_MB_HREG_SCANNER_OUTPUT_MAP_BASE + addr) w = APP_MB_HREG_MOTOR_APPLY"
    and "(r, w') = scanner_output_wr e addr reg w"
  shows "if reg = 0 then r = 0 \<and> m7_modbus w' = m7_modbus w \<and> m7_link w' = m7_link w
     else reg_get APP_MB_HREG_MOTOR_MODE w' = APP_MB_MOTOR_MODE_REMOTE
       \<and> (if reg = 1
          then (r, m7_link w') = (let (ret, sent, link) = app_ipc_motor_submit (me_send e)
                   (Some ((motor_command_of_regs w)\<lparr>mc_remote := True\<rparr>)) (m7_link w) in (min ret 0, link))
          else r = - EINVAL \<and> m7_link w' = m7_link w)"
proof -
  have len: "length (mb_holding_regs (m7_modbus w)) = 60" using modbus_inv_length [OF assms(1)] .
  note out = scanner_apply_trigger [OF assms(2,3)]
  have sc: "reg_get a (w'\<lparr>m7_scanner := s\<rparr>) = reg_get a w'" for a w' s by (simp add: reg_get_def)
  let ?w1 = "reg_set APP_MB_HREG_MOTOR_MODE 1 w"
  have inv1: "modbus_inv ?w1"
    using assms(1) by (intro modbus_inv_reg_set) (simp_all add: reg_value_ok_def register_classes c_def)
  have mode1: "reg_get APP_MB_HREG_MOTOR_MODE ?w1 = 1" using len by (simp add: c_def)
  consider "reg = 0" | "reg = 1" | "reg \<noteq> 0" "reg \<noteq> 1" by blast
  then show ?thesis
  proof cases
    case 1
    then show ?thesis using assms(4) out by simp
  next
    case 2
    obtain ret sent link where s: "(ret, sent, link)
        = app_ipc_motor_submit (me_send e) (Some (motor_command_of_regs ?w1)) (m7_link ?w1)"
      by (metis prod.exhaust)
    obtain r1 w2 where a: "(r1, w2) = holding_reg_wr e APP_MB_HREG_MOTOR_APPLY 1 ?w1" by (metis prod.exhaust)
    have w': "r = r1" "m7_link w' = m7_link w2" "reg_get a w' = reg_get a w2" for a
      using assms(4) out a [symmetric] 2 by (simp_all add: sc)
    have "r1 = min ret 0" "m7_link w2 = link" "reg_get APP_MB_HREG_MOTOR_MODE w2 = 1"
      using motor_apply_effect [OF inv1 s a, of APP_MB_HREG_MOTOR_MODE] mode1 by (simp_all add: c_def)
    then show ?thesis
      using s [symmetric] by (simp add: 2 w' motor_command_of_regs_mode [OF assms(1)] APP_MB_MOTOR_MODE_REMOTE_def)
  next
    case 3
    then have "holding_reg_wr e APP_MB_HREG_MOTOR_APPLY reg ?w1
        = (- EINVAL, reg_set APP_MB_HREG_MOTOR_COMMAND_STATUS (u16_of_int (- EINVAL)) ?w1)"
      by (simp add: holding_reg_wr_apply APP_MB_MOTOR_APPLY_COMMAND_def)
    moreover have "APP_MB_HREG_MOTOR_MODE \<noteq> APP_MB_HREG_MOTOR_COMMAND_STATUS" by (simp add: c_def)
    ultimately show ?thesis using 3 assms(4) out mode1
      by (simp add: sc reg_get_set_neq APP_MB_MOTOR_MODE_REMOTE_def)
  qed
qed

text \<open>The trigger leaves the other registers and the scanner's local words alone.\<close>

lemma scanner_apply_keeps:
  assumes "length (mb_holding_regs (m7_modbus w)) = 60" and "addr < 5"
    and "reg_get (APP_MB_HREG_SCANNER_OUTPUT_MAP_BASE + addr) w = APP_MB_HREG_MOTOR_APPLY"
  shows "sc_output_local_regs (m7_scanner (snd (scanner_output_wr e addr reg w))) = sc_output_local_regs (m7_scanner w)"
    and "a \<notin> {APP_MB_HREG_MOTOR_MODE, APP_MB_HREG_MOTOR_APPLY, APP_MB_HREG_MOTOR_COMMAND_STATUS,
        APP_MB_HREG_MOTOR_COMMAND_SEQUENCE} \<Longrightarrow> reg_get a (snd (scanner_output_wr e addr reg w)) = reg_get a w"
proof -
  note out = scanner_apply_trigger [OF assms(2,3)]
  have sc: "reg_get a (w'\<lparr>m7_scanner := s\<rparr>) = reg_get a w'" "reg_get a (w'\<lparr>m7_link := l\<rparr>) = reg_get a w'" for a w' s l
    by (simp_all add: reg_get_def)
  show "sc_output_local_regs (m7_scanner (snd (scanner_output_wr e addr reg w))) = sc_output_local_regs (m7_scanner w)"
    by (simp add: out Let_def case_prod_beta)
  show "reg_get a (snd (scanner_output_wr e addr reg w)) = reg_get a w"
    if "a \<notin> {APP_MB_HREG_MOTOR_MODE, APP_MB_HREG_MOTOR_APPLY, APP_MB_HREG_MOTOR_COMMAND_STATUS,
        APP_MB_HREG_MOTOR_COMMAND_SEQUENCE}"
    using that
    by (simp add: out sc Let_def case_prod_beta holding_reg_wr_apply motor_command_apply_def reg_get_set_neq)
qed

text \<open>An output word mapped to \<open>APPLY\<close> is the scanner's trigger. Its idle value 0 leaves the registers
  and the link alone. The value 1 first claims remote mode and then submits the command of the motor
  registers as a remote one; another value claims remote mode and is refused without a command.\<close>

theorem scanner_apply_claims_remote:
  assumes "modbus_inv w" and "addr < 5" and "reg_get (APP_MB_HREG_SCANNER_OUTPUT_MAP_BASE + addr) w = APP_MB_HREG_MOTOR_APPLY"
    and "(r, w') = scanner_output_wr e addr reg w"
  shows "if reg = 0 then r = 0 \<and> m7_modbus w' = m7_modbus w \<and> m7_link w' = m7_link w
     else reg_get APP_MB_HREG_MOTOR_MODE w' = APP_MB_MOTOR_MODE_REMOTE
       \<and> (if reg = 1
          then (r, m7_link w') = (let (ret, sent, link) = app_ipc_motor_submit (me_send e)
                   (Some ((motor_command_of_regs w)\<lparr>mc_remote := True\<rparr>)) (m7_link w) in (min ret 0, link))
          else r = - EINVAL \<and> m7_link w' = m7_link w)"
  using scanner_apply_effect [OF assms] .

section \<open>The stored network configuration\<close>

lemma reg_get_set:
  "unat b < length (mb_holding_regs (m7_modbus w)) \<Longrightarrow> reg_get a (reg_set b v w) = (if a = b then v else reg_get a w)"
  by (simp add: reg_get_set_neq)

lemma reg_get_keep [simp]:
  "reg_get a (set_last_status i w) = reg_get a w" "reg_get a (w\<lparr>m7_net := d\<rparr>) = reg_get a w"
  "reg_get a (w\<lparr>m7_stored := b\<rparr>) = reg_get a w"
  "(\<And>mb. mb_holding_regs (f mb) = mb_holding_regs mb) \<Longrightarrow> reg_get a (modbus_set f w) = reg_get a w"
  by (simp_all add: reg_get_def modbus_set_def)

text \<open>The two register words of an address determine it.\<close>

lemma ipv4_words_join:
  "ucast (drop_bit 16 (push_bit 16 (ucast (m :: u16)) OR ucast (l :: u16) :: u32)) = m"
  "ucast ((push_bit 16 (ucast (m :: u16)) OR ucast (l :: u16) :: u32) AND 0xffff) = l"
proof -
  have h: "\<not> bit (l :: u16) (16 + n)" for n using bit_imp_le_length [of l "16 + n"] by auto
  show "ucast (drop_bit 16 (push_bit 16 (ucast m) OR ucast l :: u32)) = m"
    by (rule bit_word_eqI) (simp add: bit_simps h)
  have m: "(0xffff :: u32) = Bit_Operations.mask 16" by (simp add: mask_eq_exp_minus_1)
  show "ucast ((push_bit 16 (ucast m) OR ucast l :: u32) AND 0xffff) = l"
    unfolding m by (intro bit_word_eqI) (auto simp: bit_simps)
qed

lemma ipv4_words_of_string:
  assumes "\<And>a. pton (ntop a) = Some a" and "\<And>a. length (ntop a) \<le> 15"
  shows "ipv4_word_msw pton (snprintk16 (ipv4_words_to_string ntop m l)) = m"
    and "ipv4_word_lsw pton (snprintk16 (ipv4_words_to_string ntop m l)) = l"
    and "pton (ipv4_words_to_string ntop m l) = Some (push_bit 16 (ucast m) OR ucast l)"
  by (simp_all add: ipv4_word_msw_def ipv4_word_lsw_def ipv4_words_to_string_def assms ipv4_words_join
      ipv4_words_join [simplified])

lemma reg_get_sync:
  assumes "length (mb_holding_regs (m7_modbus w)) = 60"
  shows "reg_get a (sync_holding_regs_from_saved_cfg pton w) =
    (let d = net_cfg_get_saved (m7_net w)
     in if a = 0 then APP_MODBUS_MAP_SIGNATURE else if a = 1 then of_nat (nd_mode d)
        else if a = 2 then ipv4_word_msw pton (nd_ip d) else if a = 3 then ipv4_word_lsw pton (nd_ip d)
        else if a = 4 then ipv4_word_msw pton (nd_mask d) else if a = 5 then ipv4_word_lsw pton (nd_mask d)
        else if a = 6 then ipv4_word_msw pton (nd_gw d) else if a = 7 then ipv4_word_lsw pton (nd_gw d)
        else reg_get a w)"
  using assms by (simp add: sync_holding_regs_from_saved_cfg_def Let_def reg_get_set c_def)

text \<open>The configuration the registers describe.\<close>

definition net_cfg_of_regs :: "ntop \<Rightarrow> m7 \<Rightarrow> net_cfg_data" where
  "net_cfg_of_regs ntop w = \<lparr>nd_mode = unat (reg_get APP_MB_HREG_MODE w),
     nd_ip = ipv4_words_to_string ntop (reg_get APP_MB_HREG_IP_MSW w) (reg_get APP_MB_HREG_IP_LSW w),
     nd_mask = ipv4_words_to_string ntop (reg_get APP_MB_HREG_MASK_MSW w) (reg_get APP_MB_HREG_MASK_LSW w),
     nd_gw = ipv4_words_to_string ntop (reg_get APP_MB_HREG_GW_MSW w) (reg_get APP_MB_HREG_GW_LSW w)\<rparr>"

lemma sync_stored_regs:
  assumes "\<And>a. me_pton e (me_ntop e a) = Some a" and "\<And>a. length (me_ntop e a) \<le> 15"
    and "length (mb_holding_regs (m7_modbus w)) = 60"
    and "m7_net w = net_cfg_copy (net_cfg_of_regs (me_ntop e) v)" and "\<And>a. a \<notin> {8, 9} \<Longrightarrow> reg_get a w = reg_get a v"
    and "a \<notin> {8, 9}"
  shows "reg_get a (modbus_sync_from_saved_cfg e w) = (if a = 0 then APP_MODBUS_MAP_SIGNATURE else reg_get a v)"
  using assms(5) [OF assms(6)]
  by (simp add: modbus_sync_from_saved_cfg_def reg_get_sync [OF assms(3)] assms(4) net_cfg_get_saved_def
      net_cfg_copy_def net_cfg_of_regs_def Let_def ipv4_words_of_string assms(1,2))
    (simp add: c_def ipv4_words_of_string assms(1,2))

lemma m7_set_saved_regs:
  assumes "\<And>a. me_pton e (me_ntop e a) = Some a" and "0 \<le> me_save_ret e" and "reg_get APP_MB_HREG_MODE v \<le> 1"
  shows "m7_set_saved e (net_cfg_of_regs (me_ntop e) v) w
    = (0, modbus_sync_from_saved_cfg e (w\<lparr>m7_stored := Some (net_cfg_save (net_cfg_of_regs (me_ntop e) v)),
         m7_net := net_cfg_copy (net_cfg_of_regs (me_ntop e) v)\<rparr>))"
proof -
  have "unat (reg_get APP_MB_HREG_MODE v) \<in> {0, 1}" using assms(3) by (auto simp: word_le_nat_alt)
  then have "net_cfg_validate (me_pton e) (Some (net_cfg_of_regs (me_ntop e) v)) = 0"
    using assms(1)
    by (auto simp: net_cfg_validate_Some net_cfg_of_regs_def ipv4_words_to_string_def c_def)
  then show ?thesis
    using assms(2) by (simp add: m7_set_saved_def net_cfg_set_saved_Some net_cfg_notify_changed_def
        modbus_net_cfg_changed_def settings_keep_def)
qed

lemma save_holding_regs_valid:
  "reg_get APP_MB_HREG_MODE v \<le> 1 \<Longrightarrow>
     save_holding_regs_config e APP_MB_CMD_SAVE v = m7_set_saved e (net_cfg_of_regs (me_ntop e) v) v"
  by (simp add: save_holding_regs_config_def net_cfg_of_regs_def Let_def not_less)
    (simp add: c_def word_le_nat_alt word_less_nat_alt)

text \<open>The save command with all its steps.\<close>

lemma save_command_effect:
  assumes "modbus_inv w" and "\<not> mb_command_pending (m7_modbus w)" and "reg_get APP_MB_HREG_MODE w \<le> 1"
    and "0 \<le> me_submit_ret e" and "me_timely e" and "0 \<le> me_save_ret e"
    and "\<And>a. me_pton e (me_ntop e a) = Some a" and "\<And>a. length (me_ntop e a) \<le> 15"
    and "(r, w') = holding_reg_wr e APP_MB_HREG_COMMAND APP_MB_CMD_SAVE w"
  shows "r = 0 \<and> m7_net w' = net_cfg_of_regs (me_ntop e) w \<and> \<not> mb_command_pending (m7_modbus w')
     \<and> m7_link w' = m7_link w \<and> m7_stored w' = Some (net_cfg_save (net_cfg_of_regs (me_ntop e) w))
     \<and> reg_get a w' = (if a = APP_MB_HREG_COMMAND \<or> a = APP_MB_HREG_STATUS then 0
          else if a = APP_MB_HREG_SIGNATURE then APP_MODBUS_MAP_SIGNATURE else reg_get a w)"
proof -
  have len: "length (mb_holding_regs (m7_modbus w)) = 60" using modbus_inv_length [OF assms(1)] .
  let ?d = "net_cfg_of_regs (me_ntop e) w"
  have copy: "net_cfg_copy ?d = ?d"
    using assms(8) by (simp add: net_cfg_copy_def net_cfg_of_regs_def ipv4_words_to_string_def)
  define w1 where "w1 = modbus_set (\<lambda>mb. mb\<lparr>mb_command_done := False\<rparr>)
     (set_last_status (s16_of_u16 APP_MODBUS_STATUS_PENDING) (reg_set APP_MB_HREG_STATUS APP_MODBUS_STATUS_PENDING
       (modbus_set (\<lambda>mb. mb\<lparr>mb_pending_command := APP_MB_CMD_SAVE, mb_command_pending := True\<rparr>)
         (reg_set APP_MB_HREG_COMMAND APP_MB_CMD_SAVE w))))"
  have regs1: "reg_get b w1 = reg_get b w" if "b \<notin> {8, 9}" for b
    using that by (simp add: w1_def reg_get_set_neq c_def)
  have len1 [simp]: "length (mb_holding_regs (m7_modbus w1)) = 60" using len by (simp add: w1_def)
  have d1: "net_cfg_of_regs (me_ntop e) w1 = ?d"
    using regs1 by (simp add: net_cfg_of_regs_def c_def)
  define w2 where "w2 = modbus_sync_from_saved_cfg e (w1\<lparr>m7_stored := Some (net_cfg_save ?d), m7_net := ?d\<rparr>)"
  have save: "save_holding_regs_config e APP_MB_CMD_SAVE w1 = (0, w2)"
    using m7_set_saved_regs [OF assms(7,6), of w1 w1] save_holding_regs_valid [of w1 e] assms(3)
      regs1 [of APP_MB_HREG_MODE]
    by (simp add: d1 copy w2_def APP_MB_HREG_MODE_def)
  have regs2: "reg_get b w2 = (if b = 0 then APP_MODBUS_MAP_SIGNATURE else reg_get b w)" if "b \<notin> {8, 9}" for b
    unfolding w2_def by (rule sync_stored_regs [OF assms(7,8)]) (use that in \<open>auto simp: copy regs1\<close>)
  have f2: "length (mb_holding_regs (m7_modbus w2)) = 60" "m7_net w2 = ?d" "m7_link w2 = m7_link w"
      "m7_stored w2 = Some (net_cfg_save ?d)"
    by (simp_all add: w2_def modbus_sync_from_saved_cfg_def sync_holding_regs_from_saved_cfg_def Let_def w1_def len)
  define w3 where "w3 = modbus_set (\<lambda>mb. mb\<lparr>mb_command_pending := False\<rparr>)
    (reg_set APP_MB_HREG_COMMAND APP_MB_CMD_NONE (reg_set APP_MB_HREG_STATUS 0 (set_last_status 0 w2)))"
  have regs3: "reg_get b w3 = (if b \<in> {8, 9} then 0 else if b = 0 then APP_MODBUS_MAP_SIGNATURE else reg_get b w)" for b
    using regs2 [of b] f2(1) by (auto simp: w3_def reg_get_set c_def)
  define w4 where "w4 = modbus_sync_from_saved_cfg e w3"
  have regs4: "reg_get b w4 = reg_get b w3" for b
  proof (cases "b \<in> {8, 9}")
    case True
    then show ?thesis using f2(1)
      by (auto simp: w4_def modbus_sync_from_saved_cfg_def reg_get_sync w3_def Let_def)
  next
    case False
    have "net_cfg_of_regs (me_ntop e) w3 = ?d" by (simp add: net_cfg_of_regs_def regs3 c_def)
    then have "m7_net w3 = net_cfg_copy (net_cfg_of_regs (me_ntop e) w3)" by (simp add: copy w3_def f2)
    then have "reg_get b w4 = (if b = 0 then APP_MODBUS_MAP_SIGNATURE else reg_get b w3)"
      unfolding w4_def
      by (rule sync_stored_regs [OF assms(7,8), rotated]) (use False f2 in \<open>auto simp: w3_def\<close>)
    with False show ?thesis by (simp add: regs3)
  qed
  have "holding_reg_wr e APP_MB_HREG_COMMAND APP_MB_CMD_SAVE w
      = holding_command_wr e APP_MB_CMD_SAVE (reg_set APP_MB_HREG_COMMAND APP_MB_CMD_SAVE w)"
    by (simp add: holding_reg_wr_def register_classes c_def)
  also have "\<dots> = (0, modbus_set (\<lambda>mb. mb\<lparr>mb_command_done := False\<rparr>)
      (modbus_set (\<lambda>mb. mb\<lparr>mb_command_result := 0, mb_command_done := True\<rparr>) w4))"
    using assms(2,4,5) save
    by (simp add: holding_command_wr_def modbus_command_work_handler_def complete_pending_command_def
        w1_def [symmetric] w3_def [symmetric] w4_def [symmetric] not_less)
  finally have res: "r = 0" "w' = modbus_set (\<lambda>mb. mb\<lparr>mb_command_done := False\<rparr>)
      (modbus_set (\<lambda>mb. mb\<lparr>mb_command_result := 0, mb_command_done := True\<rparr>) w4)"
    using assms(9) by simp_all
  have "m7_net w4 = ?d" "m7_link w4 = m7_link w" "m7_stored w4 = Some (net_cfg_save ?d)" "\<not> mb_command_pending (m7_modbus w4)"
    by (simp_all add: w4_def modbus_sync_from_saved_cfg_def sync_holding_regs_from_saved_cfg_def Let_def
        w3_def f2)
  then show ?thesis by (simp add: res regs4 regs3) (simp add: c_def)
qed

text \<open>The save command, when the work handler completes in time and the settings accept the data:
  the write returns 0, the module's configuration is the one the registers describe (so \<open>IP_MSW\<close> and
  \<open>IP_LSW\<close> name its address, and so on), command and status read 0, and every other register reads as
  before, the address words included. The two hypotheses on \<open>net_addr_pton\<close> and \<open>net_addr_ntop\<close> are
  their documentation: they are inverse, and an address takes at most 15 characters.\<close>

theorem modbus_save_stores_registers:
  assumes "modbus_inv w" and "\<not> mb_command_pending (m7_modbus w)" and "reg_get APP_MB_HREG_MODE w \<le> 1"
    and "0 \<le> me_submit_ret e" and "me_timely e" and "0 \<le> me_save_ret e"
    and "\<And>a. me_pton e (me_ntop e a) = Some a" and "\<And>a. length (me_ntop e a) \<le> 15"
    and "(r, w') = holding_reg_wr e APP_MB_HREG_COMMAND APP_MB_CMD_SAVE w"
  shows "r = 0 \<and> m7_net w' = net_cfg_of_regs (me_ntop e) w \<and> \<not> mb_command_pending (m7_modbus w')
     \<and> m7_link w' = m7_link w \<and> m7_stored w' = Some (net_cfg_save (net_cfg_of_regs (me_ntop e) w))
     \<and> reg_get a w' = (if a = APP_MB_HREG_COMMAND \<or> a = APP_MB_HREG_STATUS then 0
          else if a = APP_MB_HREG_SIGNATURE then APP_MODBUS_MAP_SIGNATURE else reg_get a w)"
  using save_command_effect [OF assms] .

lemma pton_ntop_example: "pton_chars (ntop_example a) = Some a" "length (ntop_example a) \<le> 15"
proof -
  have "n mod 256 + 256 * (n div 256 mod 256) + 65536 * (n div 65536 mod 256) + 16777216 * (n div 16777216) = n"
    if "n < 4294967296" for n :: nat
  proof -
    have d: "n div 65536 = n div 256 div 256" "n div 16777216 = n div 256 div 256 div 256"
      by (simp_all flip: div_mult2_eq)
    have "n div 256 div 256 div 256 < 256" using that by (simp flip: div_mult2_eq)
    then have m: "n div 256 div 256 div 256 mod 256 = n div 256 div 256 div 256" by simp
    show ?thesis
      unfolding d
      using div_mult_mod_eq [of n 256] div_mult_mod_eq [of "n div 256" 256]
        div_mult_mod_eq [of "n div 256 div 256" 256]
      by linarith
  qed
  moreover have "unat a div 16777216 mod 256 = unat a div 16777216"
    using unat_u32_bound [of a] by (intro mod_less) linarith
  ultimately show "pton_chars (ntop_example a) = Some a"
    using unat_u32_bound [of a] by (simp add: pton_chars_def ntop_example_def del: of_nat_add of_nat_mult)
  show "length (ntop_example a) \<le> 15" by (simp add: ntop_example_def)
qed

theorem modbus_save_stores_registers_witness:
  "nd_mode (m7_net (snd (holding_reg_wr m7_env_example 8 1 m7_boot))) = 1"
proof -
  obtain r w' where s: "(r, w') = holding_reg_wr m7_env_example APP_MB_HREG_COMMAND APP_MB_CMD_SAVE m7_boot"
    by (metis prod.exhaust)
  have regs: "reg_get APP_MB_HREG_MODE m7_boot = 1"
    by (simp add: m7_boot_def modbus_boot_def reg_get_def c_def)
  have "m7_net w' = net_cfg_of_regs (me_ntop m7_env_example) m7_boot"
    using modbus_save_stores_registers [OF modbus_boot_inv _ _ _ _ _ _ _ s] regs
    by (simp add: m7_env_example_def pton_ntop_example) (simp add: m7_boot_def modbus_boot_def)
  with s [symmetric] regs show ?thesis by (simp add: net_cfg_of_regs_def c_def)
qed

section \<open>Function code 23\<close>

lemma sync_unit [simp]:
  "mb_active_request_unit_id (m7_modbus (sync_holding_regs_from_saved_cfg pton w))
     = mb_active_request_unit_id (m7_modbus w)"
  by (simp add: sync_holding_regs_from_saved_cfg_def Let_def)

lemma command_work_unit [simp]:
  "mb_active_request_unit_id (m7_modbus (modbus_command_work_handler e w)) = mb_active_request_unit_id (m7_modbus w)"
  by (simp add: modbus_command_work_handler_def save_holding_regs_config_def m7_set_saved_def
      net_cfg_notify_changed_def modbus_net_cfg_changed_def complete_pending_command_def
      modbus_sync_from_saved_cfg_def Let_def case_prod_beta)

lemma holding_reg_wr_unit [simp]:
  "mb_active_request_unit_id (m7_modbus (snd (holding_reg_wr e addr reg w))) = mb_active_request_unit_id (m7_modbus w)"
  by (simp add: holding_reg_wr_def holding_command_wr_def motor_command_apply_def Let_def case_prod_beta)

lemma holding_reg_wr_in_range: "fst (holding_reg_wr e addr reg w) = 0 \<Longrightarrow> unat addr < 60"
  by (simp add: holding_reg_wr_def APP_MODBUS_HOLDING_REG_COUNT_def word_le_nat_alt split: if_splits)

lemma holding_reg_rd_in_range: "holding_reg_rd e w addr = Inr v \<Longrightarrow> unat addr < 60"
  by (simp add: holding_reg_rd_def APP_MODBUS_HOLDING_REG_COUNT_def word_le_nat_alt split: if_splits)

abbreviation unit_is_plain :: "m7 \<Rightarrow> bool" where
  "unit_is_plain w \<equiv> mb_active_request_unit_id (m7_modbus w) \<noteq> APP_MODBUS_SCANNER_UNIT_ID"

lemma fc23_write_loop_plain:
  assumes "unit_is_plain w" and "fc23_write_loop es a i regs w = (True, w')"
  shows "unit_is_plain w' \<and> (\<forall>k < length regs. unat (a + of_nat (i + k)) < 60)"
  using assms
proof (induction regs arbitrary: i w)
  case (Cons reg regs)
  let ?r = "holding_reg_wr (es i) (a + of_nat i) reg w"
  have r: "fst ?r = 0" "fc23_write_loop es a (i + 1) regs (snd ?r) = (True, w')"
    using Cons.prems by (auto simp: routed_holding_reg_wr_def case_prod_beta Let_def split: if_splits)
  have "unit_is_plain (snd ?r)" using Cons.prems(1) by simp
  from Cons.IH [OF this r(2)] have IH: "unit_is_plain w'" "\<forall>k < length regs. unat (a + of_nat (i + 1 + k)) < 60"
    by auto
  have "unat (a + of_nat (i + k)) < 60" if "k < length (reg # regs)" for k
    using that IH(2) holding_reg_wr_in_range [OF r(1)] by (cases k) auto
  with IH(1) show ?case by blast
qed simp

lemma fc23_read_loop_plain:
  assumes "unit_is_plain w" and "fc23_read_loop es a i n w = (Some vs, w')"
  shows "w' = w \<and> length vs = n \<and> (\<forall>k < n. holding_reg_rd (es (i + k)) w (a + of_nat (i + k)) = Inr (vs ! k))"
  using assms
proof (induction n arbitrary: i w vs)
  case (Suc n)
  obtain v where v: "holding_reg_rd (es i) w (a + of_nat i) = Inr v"
    using Suc.prems by (auto simp: routed_holding_reg_rd_def split: sum.splits)
  then obtain ws where ws: "vs = v # ws" "fc23_read_loop es a (i + 1) n w = (Some ws, w')"
    using Suc.prems by (auto simp: routed_holding_reg_rd_def split: option.splits prod.splits)
  from Suc.IH [OF Suc.prems(1) ws(2)] v ws(1) show ?case
    by (auto simp: nth_Cons add_ac split: nat.split)
qed simp

text \<open>Consecutive 16-bit addresses below 60 do not wrap.\<close>

lemma consecutive_addresses:
  assumes "\<forall>k < n. unat (a + of_nat k :: u16) < 60" and "0 < n"
  shows "unat a + n \<le> 60"
  using assms
proof (induction n)
  case (Suc n)
  show ?case
  proof (cases "n = 0")
    case True
    then show ?thesis using Suc.prems by auto
  next
    case False
    with Suc have "unat a + n \<le> 60" by auto
    moreover from this have "unat (a + of_nat n) = unat a + n" by (simp add: unat_word_ariths unat_of_nat)
    moreover have "unat (a + of_nat n) < 60" using Suc.prems(1) by blast
    ultimately show ?thesis by simp
  qed
qed simp

lemma get_be16_words:
  "k < length vs \<Longrightarrow> get_be16 (pre @ concat (List.map be16 vs)) (length pre + 2 * k) = vs ! k"
proof (induction vs arbitrary: pre k)
  case (Cons v vs)
  show ?case
  proof (cases k)
    case 0
    then show ?thesis using get_be16_append [of "length pre" pre v "concat (List.map be16 vs)"] by simp
  next
    case (Suc j)
    then show ?thesis using Cons.IH [of j "pre @ be16 v"] Cons.prems by (simp add: algebra_simps)
  qed
qed simp

lemma length_be16_words: "length (concat (List.map be16 vs)) = 2 * length vs"
  by (induction vs) simp_all

text \<open>A function code 23 request of a unit other than the scanner's that gets a normal response. The
  two register ranges lie in the map, so the 16-bit address sums did not wrap; every write succeeded, and
  before any read; the response is the byte count and one big-endian word per register read, each the
  value the register has after the writes.\<close>

theorem fc23_response:
  assumes "unit_is_plain w" and "fc23_read_write_holding_regs wes res data w = (Inr resp, w')"
    and "read_qty = unat (get_be16 data 2)" and "write_qty = unat (get_be16 data 6)"
  shows "unat (get_be16 data 0) + read_qty \<le> 60 \<and> unat (get_be16 data 4) + write_qty \<le> 60
     \<and> length data = 9 + 2 * write_qty
     \<and> fc23_write_loop wes (get_be16 data 4) 0 (List.map (\<lambda>i. get_be16 data (9 + i * 2)) [0..<write_qty]) w = (True, w')
     \<and> length resp = 1 + 2 * read_qty \<and> unat (resp ! 0) = 2 * read_qty
     \<and> (\<forall>k < read_qty. holding_reg_rd (res k) w' (get_be16 data 0 + of_nat k) = Inr (get_be16 resp (1 + 2 * k)))"
proof -
  let ?regs = "List.map (\<lambda>i. get_be16 data (9 + i * 2)) [0..<write_qty]"
  have ok: "9 \<le> length data" "get_be16 data 2 \<noteq> 0" "get_be16 data 2 \<le> 125" "get_be16 data 6 \<noteq> 0"
    "unat (data ! 8) = write_qty * 2" "length data = 9 + unat (data ! 8)"
    using assms(2,4) by (auto simp: fc23_read_write_holding_regs_def Let_def not_less not_le split: if_splits)
  obtain b w1 where l: "fc23_write_loop wes (get_be16 data 4) 0 ?regs w = (b, w1)" by (rule prod.exhaust)
  obtain rs w2 where m: "fc23_read_loop res (get_be16 data 0) 0 read_qty w1 = (rs, w2)" by (rule prod.exhaust)
  from assms(2-4) l m ok obtain vs where b: "b" and rs: "rs = Some vs" "w2 = w'"
    and resp: "resp = of_nat (read_qty * 2) # concat (List.map be16 vs)"
    by (auto simp: fc23_read_write_holding_regs_def Let_def split: if_splits option.splits)
  from fc23_write_loop_plain [OF assms(1), of wes "get_be16 data 4" 0 ?regs w1] l b
  have w: "unit_is_plain w1" "\<forall>k < write_qty. unat (get_be16 data 4 + of_nat k) < 60" by auto
  from fc23_read_loop_plain [OF w(1), of res "get_be16 data 0" 0 read_qty vs w'] m rs
  have r: "w' = w1" "length vs = read_qty"
    "\<forall>k < read_qty. holding_reg_rd (res k) w1 (get_be16 data 0 + of_nat k) = Inr (vs ! k)" by auto
  have q: "0 < read_qty" "0 < write_qty" "read_qty \<le> 125"
    using ok(2-4) assms(3,4) by (auto simp: unat_gt_0 word_le_nat_alt)
  have "get_be16 resp (1 + 2 * k) = vs ! k" if "k < read_qty" for k
    using get_be16_words [of k vs "[of_nat (read_qty * 2)]"] that r(2) resp by simp
  moreover have "\<forall>k < read_qty. unat (get_be16 data 0 + of_nat k) < 60"
    using r(3) holding_reg_rd_in_range by blast
  moreover have "unat (of_nat (read_qty * 2) :: u8) = 2 * read_qty"
    using q(3) by (simp only: unat_of_nat) simp
  ultimately show ?thesis
    using consecutive_addresses [OF w(2) q(2)] consecutive_addresses [of read_qty "get_be16 data 0"] q r l b ok
    by (simp add: resp length_be16_words del: of_nat_mult)
qed

text \<open>A request that writes 850 to register 13 and reads registers 10 to 13.\<close>

definition fc23_example :: "u8 list" where
  "fc23_example = [0, 10, 0, 4, 0, 13, 0, 1, 2, 3, 82]"

theorem fc23_response_witness:
  "get_be16 [8, 0, 0, 0, 0, 0, 0, 3, 82] 7 = 850
     \<and> (\<exists>w'. fc23_read_write_holding_regs (\<lambda>_. m7_env_example) (\<lambda>_. m7_env_example) fc23_example m7_boot
           = (Inr [8, 0, 0, 0, 0, 0, 0, 3, 82], w')
         \<and> holding_reg_rd m7_env_example w' 13 = Inr 850)"
proof -
  have u: "unit_is_plain m7_boot" by (simp add: m7_boot_def modbus_boot_def c_def)
  let ?w = "reg_set 13 850 m7_boot"
  have wr: "holding_reg_wr m7_env_example 13 850 m7_boot = (0, ?w)"
    by (rule holding_reg_wr_plain) (simp_all add: register_classes reg_value_ok_def c_def)
  have rd: "holding_reg_rd m7_env_example ?w a = Inr (reg_get a ?w)" if "a \<in> {10, 11, 12, 13}" for a
    using that by (intro holding_reg_rd_plain) (auto simp: register_classes)
  have regs: "reg_get 10 ?w = 0" "reg_get 11 ?w = 0" "reg_get 12 ?w = 0" "reg_get 13 ?w = 850"
    by (simp_all add: reg_get_def reg_set_def m7_boot_def modbus_boot_def c_def)
  have b: "be16 0 = [0, 0]" "be16 850 = [3, 82]" by (simp_all add: be16_def)
  have g: "get_be16 fc23_example 0 = 10" "get_be16 fc23_example 2 = 4" "get_be16 fc23_example 4 = 13"
    "get_be16 fc23_example 6 = 1" "get_be16 fc23_example 9 = 850" "length fc23_example = 11" "fc23_example ! 8 = 2"
    by (simp_all add: get_be16_def fc23_example_def)
  have u': "unit_is_plain ?w" using u by simp
  have "fc23_write_loop (\<lambda>_. m7_env_example) 13 0 [850] m7_boot = (True, ?w)"
    using u wr by (simp add: routed_holding_reg_wr_def)
  moreover have "fc23_read_loop (\<lambda>_. m7_env_example) 10 0 4 ?w = (Some [0, 0, 0, 850], ?w)"
    using u' rd regs by (simp add: routed_holding_reg_rd_def numeral_eq_Suc)
  ultimately have f: "fc23_read_write_holding_regs (\<lambda>_. m7_env_example) (\<lambda>_. m7_env_example) fc23_example m7_boot
      = (Inr [8, 0, 0, 0, 0, 0, 0, 3, 82], ?w)"
    by (simp add: fc23_read_write_holding_regs_def g b)
  have k: "(3 :: nat) < unat (get_be16 fc23_example 2)" by (simp add: g)
  have "holding_reg_rd m7_env_example ?w (get_be16 fc23_example 0 + of_nat 3)
      = Inr (get_be16 [8, 0, 0, 0, 0, 0, 0, 3, 82] (1 + 2 * 3))"
    using fc23_response [OF u f refl refl] k by blast
  moreover have "get_be16 [8, 0, 0, 0, 0, 0, 0, 3, 82] 7 = 850" by (simp add: get_be16_def)
  ultimately show ?thesis using f by (simp add: g)
qed

text \<open>Concrete commands: the motor registers at boot, submitted on an unbound link and on a bound one.\<close>

theorem modbus_apply_effect_witness:
  "reg_get 17 (snd (holding_reg_wr m7_env_example APP_MB_HREG_MOTOR_APPLY 1 m7_boot)) \<noteq> 0"
proof -
  obtain ret sent link where s: "(ret, sent, link) =
      app_ipc_motor_submit (me_send m7_env_example) (Some (motor_command_of_regs m7_boot)) (m7_link m7_boot)"
    by (metis prod.exhaust)
  obtain r w' where a: "(r, w') = holding_reg_wr m7_env_example APP_MB_HREG_MOTOR_APPLY 1 m7_boot" by (metis prod.exhaust)
  have "ret = - ENOTCONN"
    using s by (simp add: motor_command_of_regs_def m7_boot_def modbus_boot_def reg_get_def c_def
        app_ipc_motor_submit_def send_remote_command_locked_def m7_ipc_boot_def)
  with modbus_apply_effect [OF modbus_boot_inv s a, of 17] a [symmetric] show ?thesis
    by (simp add: c_def u16_of_int_def)
qed

theorem scanner_apply_claims_remote_witness:
  "reg_get 10 (snd (scanner_output_wr m7_env_example 2 1 (init_scanner_mapping_defaults m7_boot))) = 1"
proof -
  let ?w = "init_scanner_mapping_defaults m7_boot"
  have m: "reg_get (APP_MB_HREG_SCANNER_OUTPUT_MAP_BASE + 2) ?w = APP_MB_HREG_MOTOR_APPLY"
    using modbus_inv_length [OF modbus_boot_inv]
    by (simp add: init_scanner_mapping_defaults_def Let_def upt_rec numeral_eq_Suc)
      (simp add: reg_get_set c_def)
  obtain r w' where s: "(r, w') = scanner_output_wr m7_env_example 2 1 ?w" by (metis prod.exhaust)
  show ?thesis
    using scanner_apply_claims_remote [OF init_scanner_mapping_inv [OF modbus_boot_inv] _ m s] s [symmetric]
    by (simp add: APP_MB_HREG_MOTOR_MODE_def APP_MB_MOTOR_MODE_REMOTE_def)
qed

end
