(* ===== verification/Modbus_Server.thy ===== *)
theory Modbus_Server
  imports Modbus_Tcp
begin

text \<open>
  The Modbus/TCP thread of \<open>app_m7/src/protocols/modbus/app_modbus_tcp.c\<close>: \<open>raw_tx_cb\<close>, the transmission of
  a reply, the connections and the accept loop, and the exchange of a request and its response between
  this thread and the Modbus library's work queue, which share \<open>tcp_adu\<close> and the semaphore
  \<open>raw_response_ready\<close>. The library is a parameter: what it answers to a request, and when.
\<close>

section \<open>Replies and connections\<close>

text \<open>\<open>raw_tx_cb\<close> on \<open>tcp_adu\<close>; the data field has \<open>data_size\<close> bytes, of which the first are overwritten.
  It then gives the semaphore, whose limit is 1.\<close>

definition raw_tx_cb :: "nat \<Rightarrow> modbus_adu \<Rightarrow> modbus_adu \<Rightarrow> modbus_adu" where
  "raw_tx_cb data_size adu tcp_adu =
     (let n = min (unat (adu_length adu)) data_size
      in tcp_adu\<lparr>adu_trans_id := adu_trans_id adu, adu_proto_id := adu_proto_id adu,
                 adu_length := adu_length adu, adu_unit_id := adu_unit_id adu, adu_fc := adu_fc adu,
                 adu_data := take n (adu_data adu) @ drop n (adu_data tcp_adu)\<rparr>)"

text \<open>\<open>send_modbus_reply\<close>: the header, then \<open>length\<close> bytes of the data field, with the answers of the two
  transmissions. The second result is what was sent.\<close>

definition send_modbus_reply ::
  "(modbus_adu \<Rightarrow> u8 list) \<Rightarrow> int list \<Rightarrow> int list \<Rightarrow> int \<Rightarrow> modbus_adu \<Rightarrow> (int \<times> u8 list) option" where
  "send_modbus_reply put_header answers1 answers2 errno adu =
     (case send_all answers1 errno (put_header adu) of
        None \<Rightarrow> None
      | Some (ret, sent) \<Rightarrow>
        if ret < 0 then Some (ret, sent)
        else
          (case send_all answers2 errno (take (unat (adu_length adu)) (adu_data adu)) of
             None \<Rightarrow> None
           | Some (ret, sent') \<Rightarrow> if ret < 0 then Some (ret, sent @ sent') else Some (0, sent @ sent')))"

text \<open>The requests of a connection, each given by its outcome: the loop ends at the first that does not
  return 0, and the connection is closed. \<open>None\<close> while it waits for more.\<close>

fun serve_connection :: "(m7 \<Rightarrow> int \<times> m7) list \<Rightarrow> m7 \<Rightarrow> int option \<times> m7" where
  "serve_connection [] w = (None, w)"
| "serve_connection (request # requests) w =
     (let (ret, w) = request w
      in if ret = 0 then serve_connection requests w else (Some ret, w))"

text \<open>The accept loop: an accept that failed (\<open>None\<close>) is only logged; a connection whose requests are not
  over keeps the thread.\<close>

fun accept_loop :: "(m7 \<Rightarrow> int \<times> m7) list option list \<Rightarrow> m7 \<Rightarrow> m7" where
  "accept_loop [] w = w"
| "accept_loop (None # clients) w = accept_loop clients w"
| "accept_loop (Some requests # clients) w =
     (case serve_connection requests (modbus_connection_accepted w) of
        (None, w) \<Rightarrow> w
      | (Some ret, w) \<Rightarrow> accept_loop clients w)"

text \<open>The thread: the answers of \<open>zsock_socket\<close>, \<open>zsock_bind\<close> and \<open>zsock_listen\<close>, then the clients. The
  first result is the descriptors closed before the loop; \<open>None\<close> for the state when the thread ended.\<close>

definition modbus_tcp_thread_fn ::
  "int \<Rightarrow> int \<Rightarrow> int \<Rightarrow> (m7 \<Rightarrow> int \<times> m7) list option list \<Rightarrow> m7 \<Rightarrow> int list \<times> m7 option" where
  "modbus_tcp_thread_fn server bind_ret listen_ret clients w =
     (if server < 0 then ([], None)
      else if bind_ret < 0 then ([server], None)
      else if listen_ret < 0 then ([server], None)
      else ([], Some (accept_loop clients w)))"

section \<open>The exchange with the library\<close>

datatype sv_phase = Sv_idle | Sv_waiting

text \<open>\<open>sv_adu\<close> is \<open>tcp_adu\<close>, \<open>sv_ready\<close> the semaphore, \<open>sv_outstanding\<close> the requests the library has accepted
  and not answered. \<open>sv_log\<close> records each request concluded with the reply sent for it, and
  \<open>sv_timeouts\<close> counts the waits that expired.\<close>

record mb_server =
  sv_phase :: sv_phase
  sv_adu :: modbus_adu
  sv_ready :: bool
  sv_request :: modbus_adu
  sv_outstanding :: "modbus_adu list"
  sv_log :: "(modbus_adu \<times> modbus_adu) list"
  sv_timeouts :: nat

definition adu_zero :: modbus_adu where
  "adu_zero = \<lparr>adu_trans_id = 0, adu_proto_id = 0, adu_length = 0, adu_unit_id = 0, adu_fc = 0, adu_data = []\<rparr>"

definition mb_server_boot :: mb_server where
  "mb_server_boot = \<lparr>sv_phase = Sv_idle, sv_adu = adu_zero, sv_ready = False, sv_request = adu_zero,
     sv_outstanding = [], sv_log = [], sv_timeouts = 0\<rparr>"

text \<open>\<open>handle_modbus_connection\<close> up to the wait: the request is in \<open>tcp_adu\<close>, the semaphore is reset and
  the library has accepted the request.\<close>

definition submit_request :: "modbus_adu \<Rightarrow> mb_server \<Rightarrow> mb_server" where
  "submit_request adu sv = sv\<lparr>sv_phase := Sv_waiting, sv_adu := adu, sv_ready := False, sv_request := adu,
     sv_outstanding := sv_outstanding sv @ [adu]\<rparr>"

text \<open>The library answers its \<open>k\<close>-th request from its work queue.\<close>

definition library_responds ::
  "nat \<Rightarrow> (modbus_adu \<Rightarrow> modbus_adu) \<Rightarrow> nat \<Rightarrow> mb_server \<Rightarrow> mb_server" where
  "library_responds data_size respond k sv =
     sv\<lparr>sv_adu := raw_tx_cb data_size (respond (sv_outstanding sv ! k)) (sv_adu sv), sv_ready := True,
        sv_outstanding := take k (sv_outstanding sv) @ drop (Suc k) (sv_outstanding sv)\<rparr>"

text \<open>\<open>handle_modbus_connection\<close> from the wait on.\<close>

definition conclude_request :: "bool \<Rightarrow> (modbus_adu \<Rightarrow> modbus_adu) \<Rightarrow> mb_server \<Rightarrow> mb_server" where
  "conclude_request taken set_failure sv =
     (let adu = (if taken then sv_adu sv else set_failure (sv_adu sv))
      in sv\<lparr>sv_phase := Sv_idle, sv_adu := adu, sv_ready := False,
            sv_log := sv_log sv @ [(sv_request sv, adu)],
            sv_timeouts := (if taken then sv_timeouts sv else sv_timeouts sv + 1)\<rparr>)"

inductive server_step ::
  "nat \<Rightarrow> (modbus_adu \<Rightarrow> modbus_adu) \<Rightarrow> (modbus_adu \<Rightarrow> modbus_adu) \<Rightarrow> mb_server \<Rightarrow> mb_server \<Rightarrow> bool"
  for data_size respond set_failure where
  step_request: "sv_phase sv = Sv_idle \<Longrightarrow>
     server_step data_size respond set_failure sv (submit_request adu sv)"
| step_respond: "k < length (sv_outstanding sv) \<Longrightarrow>
     server_step data_size respond set_failure sv (library_responds data_size respond k sv)"
| step_reply: "sv_phase sv = Sv_waiting \<Longrightarrow> sv_ready sv \<Longrightarrow>
     server_step data_size respond set_failure sv (conclude_request True set_failure sv)"
| step_timeout: "sv_phase sv = Sv_waiting \<Longrightarrow> \<not> sv_ready sv \<Longrightarrow>
     server_step data_size respond set_failure sv (conclude_request False set_failure sv)"

inductive server_reach ::
  "nat \<Rightarrow> (modbus_adu \<Rightarrow> modbus_adu) \<Rightarrow> (modbus_adu \<Rightarrow> modbus_adu) \<Rightarrow> mb_server \<Rightarrow> bool"
  for data_size respond set_failure where
  reach_boot: "server_reach data_size respond set_failure mb_server_boot"
| reach_step: "server_reach data_size respond set_failure sv \<Longrightarrow>
     server_step data_size respond set_failure sv sv' \<Longrightarrow> server_reach data_size respond set_failure sv'"

text \<open>The reply belongs to its request: the same transaction and unit.\<close>

definition reply_matches :: "modbus_adu \<times> modbus_adu \<Rightarrow> bool" where
  "reply_matches p \<longleftrightarrow> adu_trans_id (snd p) = adu_trans_id (fst p) \<and> adu_unit_id (snd p) = adu_unit_id (fst p)"

lemma raw_tx_cb_header [simp]:
  "adu_trans_id (raw_tx_cb n adu old) = adu_trans_id adu"
  "adu_unit_id (raw_tx_cb n adu old) = adu_unit_id adu"
  "adu_fc (raw_tx_cb n adu old) = adu_fc adu"
  "adu_length (raw_tx_cb n adu old) = adu_length adu"
  by (simp_all add: raw_tx_cb_def Let_def)

text \<open>Without a timeout the library has at most the current request, and \<open>tcp_adu\<close> holds its answer when
  the semaphore has been given.\<close>

definition exchange_inv :: "mb_server \<Rightarrow> bool" where
  "exchange_inv sv \<longleftrightarrow> sv_timeouts sv = 0 \<longrightarrow>
     list_all reply_matches (sv_log sv)
     \<and> (sv_phase sv = Sv_idle \<longrightarrow> sv_outstanding sv = [])
     \<and> (sv_phase sv = Sv_waiting \<longrightarrow>
          (if sv_ready sv then sv_outstanding sv = [] \<and> reply_matches (sv_request sv, sv_adu sv)
           else sv_outstanding sv = [sv_request sv]))"

lemma server_step_inv:
  assumes "\<And>r. reply_matches (r, respond r)"
    and "server_step n respond set_failure sv sv'" "exchange_inv sv"
  shows "exchange_inv sv'"
  using assms(2)
proof (cases rule: server_step.cases)
  case (step_respond k)
  with assms(1,3) show ?thesis
    by (cases "sv_phase sv"; cases "sv_ready sv")
       (auto simp: exchange_inv_def library_responds_def reply_matches_def)
qed (use assms(3) in \<open>auto simp: exchange_inv_def submit_request_def conclude_request_def Let_def\<close>)

lemma server_reach_inv:
  assumes "\<And>r. reply_matches (r, respond r)" "server_reach n respond set_failure sv"
  shows "exchange_inv sv"
  using assms(2)
proof induction
  case reach_boot
  show ?case by (simp add: exchange_inv_def mb_server_boot_def)
next
  case (reach_step sv sv')
  then show ?case using server_step_inv[OF assms(1)] by blast
qed

text \<open>C16. As long as no wait for the library has expired, every reply sent carries the transaction and the
  unit of its request, in every interleaving of the server's thread and the library's work queue.\<close>

theorem modbus_replies_match_requests:
  assumes "\<And>r. reply_matches (r, respond r)"
    and "server_reach n respond set_failure sv" "sv_timeouts sv = 0"
  shows "list_all reply_matches (sv_log sv)"
  using server_reach_inv[OF assms(1,2)] assms(3) by (simp add: exchange_inv_def)

definition adu_of :: "u16 \<Rightarrow> modbus_adu" where
  "adu_of t = adu_zero\<lparr>adu_trans_id := t, adu_unit_id := 1, adu_fc := 3\<rparr>"

lemmas exchange_eval = submit_request_def library_responds_def conclude_request_def raw_tx_cb_def
  mb_server_boot_def adu_of_def adu_zero_def Let_def

lemma modbus_replies_match_requests_witness:
  "list_all reply_matches (sv_log (conclude_request True (\<lambda>a. a\<lparr>adu_fc := adu_fc a OR 0x80\<rparr>)
     (library_responds 252 (\<lambda>r. r) 0 (submit_request (adu_of 7) mb_server_boot))))"
proof (rule modbus_replies_match_requests [where n = 252 and respond = "\<lambda>r. r"])
  let ?f = "\<lambda>a. a\<lparr>adu_fc := adu_fc a OR 0x80\<rparr>"
  let ?s1 = "submit_request (adu_of 7) mb_server_boot"
  have "server_reach 252 (\<lambda>r. r) ?f ?s1"
    by (rule reach_step [OF reach_boot]) (rule step_request, simp add: mb_server_boot_def)
  then have "server_reach 252 (\<lambda>r. r) ?f (library_responds 252 (\<lambda>r. r) 0 ?s1)"
    by (rule reach_step) (rule step_respond, simp add: exchange_eval)
  then show "server_reach 252 (\<lambda>r. r) ?f (conclude_request True ?f (library_responds 252 (\<lambda>r. r) 0 ?s1))"
    by (rule reach_step) (rule step_reply, simp_all add: exchange_eval)
qed (simp_all add: exchange_eval reply_matches_def)

text \<open>After one expired wait this is lost: the late answer of the library to the first request is sent
  as the reply to the second, with the transaction of the first, since the semaphore is reset and
  \<open>tcp_adu\<close> filled before the library has been told to forget the first request.\<close>

theorem modbus_late_response_answers_next_request:
  "\<exists>sv. server_reach n (\<lambda>r. r) set_failure sv \<and> sv_timeouts sv = 1 \<and>
     (\<exists>reply. last (sv_log sv) = (adu_of 8, reply) \<and> adu_trans_id reply = 7)"
proof -
  let ?s1 = "submit_request (adu_of 7) mb_server_boot"
  let ?s2 = "conclude_request False set_failure ?s1"
  let ?s3 = "submit_request (adu_of 8) ?s2"
  let ?s4 = "library_responds n (\<lambda>r. r) 0 ?s3"
  have "server_reach n (\<lambda>r. r) set_failure ?s1"
    by (rule reach_step [OF reach_boot]) (rule step_request, simp add: mb_server_boot_def)
  then have "server_reach n (\<lambda>r. r) set_failure ?s2"
    by (rule reach_step) (rule step_timeout, simp_all add: exchange_eval)
  then have "server_reach n (\<lambda>r. r) set_failure ?s3"
    by (rule reach_step) (rule step_request, simp add: exchange_eval)
  then have "server_reach n (\<lambda>r. r) set_failure ?s4"
    by (rule reach_step) (rule step_respond, simp add: exchange_eval)
  then have "server_reach n (\<lambda>r. r) set_failure (conclude_request True set_failure ?s4)"
    by (rule reach_step) (rule step_reply, simp_all add: exchange_eval)
  moreover have "sv_timeouts (conclude_request True set_failure ?s4) = 1"
    "last (sv_log (conclude_request True set_failure ?s4)) = (adu_of 8, sv_adu ?s4)" "adu_trans_id (sv_adu ?s4) = 7"
    by (simp_all add: exchange_eval)
  ultimately show ?thesis by blast
qed

end
