(* ===== verification/C_Text.thy ===== *)
theory C_Text
  imports IE_Prelude
begin

text \<open>
  Text and numbers in C: what \<open>printf\<close> writes for \<open>%u\<close>, \<open>%d\<close> and \<open>%04x\<close>, and what \<open>strtoul (s, &end, 10)\<close>
  reads, with the 32-bit \<open>unsigned long\<close> of the Cortex-M7. A C string is a \<open>string\<close> without its
  terminating NUL.
\<close>

section \<open>Printing\<close>

definition digit_char :: "nat \<Rightarrow> char" where
  "digit_char d = char_of (if d < 10 then 48 + d else 87 + d)"

fun digits_of :: "nat \<Rightarrow> nat \<Rightarrow> string" where
  "digits_of base n = (if base < 2 then [] else if n < base then [digit_char n]
     else digits_of base (n div base) @ [digit_char (n mod base)])"

declare digits_of.simps [simp del]

definition dec_of_nat :: "nat \<Rightarrow> string" where
  "dec_of_nat n = digits_of 10 n"

definition dec_of_int :: "int \<Rightarrow> string" where
  "dec_of_int i = (if i < 0 then CHR ''-'' # dec_of_nat (nat (- i)) else dec_of_nat (nat i))"

definition hex4_of_nat :: "nat \<Rightarrow> string" where
  "hex4_of_nat n = (let h = digits_of 16 n in replicate (4 - length h) (CHR ''0'') @ h)"

section \<open>Reading\<close>

definition is_space_char :: "char \<Rightarrow> bool" where
  "is_space_char c \<longleftrightarrow> c = CHR '' '' \<or> (9 \<le> (of_char c :: nat) \<and> (of_char c :: nat) \<le> 13)"

definition is_digit_char :: "char \<Rightarrow> bool" where
  "is_digit_char c \<longleftrightarrow> 48 \<le> (of_char c :: nat) \<and> (of_char c :: nat) \<le> 57"

definition digits_value :: "string \<Rightarrow> nat" where
  "digits_value ds = foldl (\<lambda>v c. 10 * v + (of_char c - 48)) 0 ds"

text \<open>The value and the text that \<open>end\<close> points to: white space, an optional sign, digits. A value out of
  range gives \<open>ULONG_MAX\<close>; the minus sign negates modulo \<open>2 ^ 32\<close>. Without a digit nothing is read.\<close>

definition strtoul10 :: "string \<Rightarrow> nat \<times> string" where
  "strtoul10 s =
     (let s1 = dropWhile is_space_char s;
          (neg, s2) = (case s1 of c # cs \<Rightarrow> if c = CHR ''-'' then (True, cs)
                          else if c = CHR ''+'' then (False, cs) else (False, s1)
                       | [] \<Rightarrow> (False, []));
          ds = takeWhile is_digit_char s2
      in if ds = [] then (0, s)
         else
           let v = digits_value ds
           in (if 2 ^ 32 \<le> v then 2 ^ 32 - 1 else if neg then (2 ^ 32 - v) mod 2 ^ 32 else v,
               dropWhile is_digit_char s2))"

section \<open>Reading what was printed\<close>

lemma of_char_digit_char: "d < 10 \<Longrightarrow> of_char (digit_char d) = 48 + d"
  by (simp add: digit_char_def)

lemma digits_of_10:
  "n < 10 \<Longrightarrow> digits_of 10 n = [digit_char n]"
  "10 \<le> n \<Longrightarrow> digits_of 10 n = digits_of 10 (n div 10) @ [digit_char (n mod 10)]"
  by (simp_all add: digits_of.simps [of 10 n])

lemma digits_of_dec: "list_all is_digit_char (digits_of 10 n) \<and> digits_value (digits_of 10 n) = n \<and> digits_of 10 n \<noteq> []"
proof (induction n rule: less_induct)
  case (less n)
  show ?case
  proof (cases "n < 10")
    case True
    then show ?thesis
      by (simp add: digits_of_10 is_digit_char_def digits_value_def of_char_digit_char)
  next
    case False
    then have "n div 10 < n" by simp
    from less [OF this] False show ?thesis
      by (simp add: digits_of_10 is_digit_char_def digits_value_def of_char_digit_char)
  qed
qed

text \<open>\<open>strtoul\<close> reads back a printed number, whatever follows it.\<close>

lemma strtoul10_dec_of_nat:
  assumes "n < 2 ^ 32" and "rest = [] \<or> \<not> is_digit_char (hd rest)"
  shows "strtoul10 (dec_of_nat n @ rest) = (n, rest)"
proof -
  have d: "list_all is_digit_char (dec_of_nat n)" "digits_value (dec_of_nat n) = n" "dec_of_nat n \<noteq> []"
    using digits_of_dec [of n] by (auto simp: dec_of_nat_def)
  then obtain c cs where c: "dec_of_nat n = c # cs" "is_digit_char c" by (cases "dec_of_nat n") auto
  then have n: "\<not> is_space_char c" "c \<noteq> CHR ''-''" "c \<noteq> CHR ''+''"
    by (auto simp: is_space_char_def is_digit_char_def)
  have t: "takeWhile is_digit_char (dec_of_nat n @ rest) = dec_of_nat n"
    "dropWhile is_digit_char (dec_of_nat n @ rest) = rest"
    using d(1) assms(2) by (auto simp: list_all_iff takeWhile_eq_Nil_iff dropWhile_eq_self_iff)
  have "dropWhile is_space_char (dec_of_nat n @ rest) = dec_of_nat n @ rest"
    using c n by simp
  with c n t d assms(1) show ?thesis
    by (simp add: strtoul10_def Let_def)
qed

section \<open>Searching\<close>

text \<open>\<open>strstr\<close> and \<open>strchr\<close> give the suffix at the first occurrence; \<open>starts_with\<close> is
  \<open>strncmp (s, p, strlen (p)) == 0\<close>.\<close>

definition starts_with :: "string \<Rightarrow> string \<Rightarrow> bool" where
  "starts_with p s \<longleftrightarrow> take (length p) s = p"

fun strstr :: "string \<Rightarrow> string \<Rightarrow> string option" where
  "strstr [] p = (if p = [] then Some [] else None)"
| "strstr (c # s) p = (if starts_with p (c # s) then Some (c # s) else strstr s p)"

definition strchr :: "string \<Rightarrow> char \<Rightarrow> string option" where
  "strchr s c = (case dropWhile (\<lambda>x. x \<noteq> c) s of [] \<Rightarrow> None | r \<Rightarrow> Some r)"

lemma starts_with_append [simp]: "starts_with p (p @ s)"
  by (simp add: starts_with_def)

lemma starts_with_iff: "starts_with p s \<longleftrightarrow> (\<exists>t. s = p @ t)"
  by (metis append_eq_conv_conj append_take_drop_id starts_with_def)

text \<open>The specification of \<open>strstr\<close>: the pattern starts at the suffix and nowhere before it.\<close>

lemma strstr_Some:
  "strstr s p = Some t \<longleftrightarrow> (\<exists>n. t = drop n s \<and> n \<le> length s \<and> starts_with p t
     \<and> (\<forall>m < n. \<not> starts_with p (drop m s)))"
proof (induction s)
  case Nil
  then show ?case by (auto simp: starts_with_def)
next
  case (Cons c s)
  show ?case
  proof (cases "starts_with p (c # s)")
    case True
    then show ?thesis
      by (auto intro!: exI [of _ 0]) (metis drop0 gr0I)
  next
    case False
    have "(\<exists>n. t = drop n (c # s) \<and> n \<le> length (c # s) \<and> starts_with p t
        \<and> (\<forall>m < n. \<not> starts_with p (drop m (c # s))))
      \<longleftrightarrow> (\<exists>n. t = drop n s \<and> n \<le> length s \<and> starts_with p t \<and> (\<forall>m < n. \<not> starts_with p (drop m s)))"
      (is "(\<exists>n. ?P n) \<longleftrightarrow> (\<exists>n. ?Q n)")
    proof
      assume "\<exists>n. ?P n"
      then obtain n where n: "?P n" by blast
      with False obtain k where "n = Suc k" by (cases n) auto
      with n have "?Q k" by force
      then show "\<exists>n. ?Q n" by blast
    next
      assume "\<exists>n. ?Q n"
      then obtain n where "?Q n" by blast
      with False have "?P (Suc n)" by (auto simp: less_Suc_eq_0_disj)
      then show "\<exists>n. ?P n" by blast
    qed
    with False Cons.IH show ?thesis by simp
  qed
qed

text \<open>Text without the pattern's first character is skipped.\<close>

lemma strstr_skip: "p = c # cs \<Longrightarrow> c \<notin> set u \<Longrightarrow> strstr (u @ s) p = strstr s p"
  by (induction u) (auto simp: starts_with_def)

lemma strstr_length: "strstr s p = Some t \<Longrightarrow> length p \<le> length t \<and> length t \<le> length s"
  unfolding strstr_Some starts_with_iff by (metis diff_le_self le_add1 length_append length_drop)

lemma strchr_skip: "c \<notin> set u \<Longrightarrow> strchr (u @ c # s) c = Some (c # s)"
  by (simp add: strchr_def dropWhile_append)

lemma strchr_Some: "strchr s c = Some t \<Longrightarrow> \<exists>u. s = u @ t \<and> c \<notin> set u \<and> t \<noteq> [] \<and> hd t = c"
  unfolding strchr_def
  by (cases "dropWhile (\<lambda>x. x \<noteq> c) s")
    (auto simp: dropWhile_eq_Cons_conv intro!: exI [of _ "takeWhile (\<lambda>x. x \<noteq> c) s"] dest: set_takeWhileD)

section \<open>Bounded printing\<close>

text \<open>\<open>snprintk (&buf[off], size - off, ...)\<close> behind the text \<open>buf\<close>, with the test of the sources: an
  error when the text and its terminating NUL do not fit.\<close>

definition snprintk_at :: "nat \<Rightarrow> string \<Rightarrow> string \<Rightarrow> int + string" where
  "snprintk_at n s buf = (if n - length buf \<le> length s then Inl (- EMSGSIZE) else Inr (buf @ s))"

text \<open>The buffer after \<open>snprintk (buf, size, "%s", s)\<close>.\<close>

definition snprintk_buf :: "nat \<Rightarrow> string \<Rightarrow> string" where
  "snprintk_buf n s = take (n - 1) s"

lemma snprintk_at_fits: "length buf + length s < n \<Longrightarrow> snprintk_at n s buf = Inr (buf @ s)"
  by (simp add: snprintk_at_def)

lemma snprintk_buf_id: "length s < n \<Longrightarrow> snprintk_buf n s = s"
  by (simp add: snprintk_buf_def)

lemma snprintk_buf_length: "0 < n \<Longrightarrow> length (snprintk_buf n s) < n"
  by (simp add: snprintk_buf_def)

definition pad0 :: "nat \<Rightarrow> string \<Rightarrow> string" where
  "pad0 width s = replicate (width - length s) (CHR ''0'') @ s"

text \<open>\<open>%02x\<close> of a byte and \<open>%08x\<close> of a 32-bit word.\<close>

definition hex2 :: "u8 \<Rightarrow> string" where
  "hex2 b = pad0 2 (digits_of 16 (unat b))"

definition hex8 :: "u32 \<Rightarrow> string" where
  "hex8 w = pad0 8 (digits_of 16 (unat w))"

lemma length_digits_of: "2 \<le> base \<Longrightarrow> n < base ^ k \<Longrightarrow> 0 < k \<Longrightarrow> length (digits_of base n) \<le> k"
proof (induction k arbitrary: n)
  case (Suc k)
  show ?case
  proof (cases "n < base")
    case True
    with Suc.prems show ?thesis by (simp add: digits_of.simps [of base n])
  next
    case False
    with Suc.prems have k: "0 < k" by (cases k) auto
    have "n div base < base ^ k" using Suc.prems by (simp add: div_less_iff_less_mult mult.commute)
    with Suc.IH [of "n div base"] Suc.prems k False show ?thesis by (simp add: digits_of.simps [of base n])
  qed
qed simp

lemma length_dec_u16: "length (dec_of_nat (unat (x :: u16))) \<le> 5"
  unfolding dec_of_nat_def using length_digits_of [of 10 "unat x" 5] unat_u16_bound [of x] by simp

lemma length_dec_u32: "length (dec_of_nat (unat (x :: u32))) \<le> 10"
  unfolding dec_of_nat_def using length_digits_of [of 10 "unat x" 10] unat_u32_bound [of x] by simp

lemma length_dec_s16: "length (dec_of_int (s16_of_u16 x)) \<le> 6"
proof -
  have b: "- 32768 \<le> s16_of_u16 x" "s16_of_u16 x < 32768"
    using sint_range_size [of x] by (auto simp: s16_of_u16_def word_size)
  then have "nat \<bar>s16_of_u16 x\<bar> < 10 ^ 5" by simp
  then have "length (dec_of_nat (nat \<bar>s16_of_u16 x\<bar>)) \<le> 5"
    unfolding dec_of_nat_def using length_digits_of [of 10 "nat \<bar>s16_of_u16 x\<bar>" 5] by simp
  then show ?thesis by (auto simp: dec_of_int_def)
qed

lemma length_hex2 [simp]: "length (hex2 b) = 2"
  using length_digits_of [of 16 "unat b" 2] unat_u8_bound [of b] by (simp add: hex2_def pad0_def)

lemma length_hex8 [simp]: "length (hex8 w) = 8"
  using length_digits_of [of 16 "unat w" 8] unat_u32_bound [of w] by (simp add: hex8_def pad0_def)

text \<open>A printed number consists of digits.\<close>

lemma dec_of_nat_digits: "c \<in> set (dec_of_nat n) \<Longrightarrow> is_digit_char c"
  using digits_of_dec [of n] by (auto simp: dec_of_nat_def list_all_iff)

lemma dec_of_nat_no: "\<not> is_digit_char c \<Longrightarrow> c \<notin> set (dec_of_nat n)"
  using dec_of_nat_digits by blast

lemma dec_of_nat_Cons: obtains c cs where "dec_of_nat n = c # cs" "is_digit_char c"
  using dec_of_nat_digits [of "hd (dec_of_nat n)" n] digits_of_dec [of n]
  by (cases "dec_of_nat n") (auto simp: dec_of_nat_def)

section \<open>Searching in printed text\<close>

lemma starts_with_simps [simp]:
  "starts_with [] s" "\<not> starts_with (c # p) []" "starts_with (c # p) (d # s) = (c = d \<and> starts_with p s)"
  by (auto simp: starts_with_def)

lemma strstr_Cons_neq: "c \<noteq> d \<Longrightarrow> strstr (c # s) (d # p) = strstr s (d # p)"
  by simp

lemma strstr_Cons_eq: "strstr (d # s) (d # p) = (if starts_with p s then Some (d # s) else strstr s (d # p))"
  by simp

lemma strstr_dec: "\<not> is_digit_char d \<Longrightarrow> strstr (dec_of_nat n @ s) (d # p) = strstr s (d # p)"
  by (rule strstr_skip [OF refl]) (rule dec_of_nat_no)

lemma strchr_eval: "strchr (c # s) c = Some (c # s)" "c \<noteq> d \<Longrightarrow> strchr (d # s) c = strchr s c" "strchr [] c = None"
  by (simp_all add: strchr_def)

text \<open>Evaluation of a search in text made of literals and printed numbers.\<close>

lemmas strstr_eval = strstr_Cons_neq strstr_Cons_eq strstr_dec strchr_eval

lemma strstr_found:
  assumes "p = c # cs" and "c \<notin> set u"
  shows "strstr (u @ p @ s) p = Some (p @ s)"
  using strstr_skip [OF assms(1), of u "p @ s"] assms by simp

lemma not_digit_examples [simp]:
  "\<not> is_digit_char (CHR '','')" "\<not> is_digit_char (CHR ''}'')" "\<not> is_digit_char (CHR 0x22)"
  "\<not> is_digit_char (CHR '':'')" "\<not> is_digit_char (CHR ''-'')" "\<not> is_digit_char (CHR '' '')"
  "\<not> is_digit_char (CHR 0x09)"
  by (simp_all add: is_digit_char_def)

lemma strtoul10_u16:
  assumes "rest = [] \<or> \<not> is_digit_char (hd rest)"
  shows "strtoul10 (dec_of_nat (unat (v :: u16)) @ rest) = (unat v, rest)"
  by (rule strtoul10_dec_of_nat [OF _ assms]) (use unat_u16_bound [of v] in simp)

lemma dec_of_nat_nonempty [simp]: "dec_of_nat n \<noteq> []" "[] \<noteq> dec_of_nat n"
  using digits_of_dec [of n] by (auto simp: dec_of_nat_def)

text \<open>A printed number ends a skip over anything but digits.\<close>

lemma dropWhile_dec:
  assumes "\<And>c. is_digit_char c \<Longrightarrow> \<not> P c"
  shows "dropWhile P (dec_of_nat n @ s) = dec_of_nat n @ s"
  using dec_of_nat_Cons [of n] assms by (metis append_Cons dropWhile.simps(2))

end
