(* ===== verification/M7_Remote.thy ===== *)
theory M7_Remote
  imports Modbus_Service Ipc_End_To_End C_Text
begin

unbundle bit_operations_syntax

text \<open>
  Remote control from the Cortex-M7, the rest of \<open>app_m7/src/ipc/app_ipc.c\<close>: the periodic refresh of the
  remote command, which also claims the Modbus motor mode, and the shell commands \<open>m4 ...\<close>.

  The state is the record \<open>m7\<close> of \<open>Modbus_Tcp\<close>; the results are the return value, the message handed to
  the inter-core driver if any, and the new state, and for a shell command the lines it prints. Each
  section under \<open>remote_command_lock\<close> is one step; a command reads \<open>remote_command\<close> for its arguments
  before it takes the lock, in the same step of the model.
\<close>

section \<open>Refresh and updates of the remote command\<close>

definition remote_set :: "(app_remote_command \<Rightarrow> app_remote_command) \<Rightarrow> m7_ipc \<Rightarrow> m7_ipc" where
  "remote_set f s = s\<lparr>m7_remote_command := f (m7_remote_command s)\<rparr>"

text \<open>The handler starts with the work no longer scheduled.\<close>

definition remote_refresh_work_handler :: "m7_env \<Rightarrow> m7 \<Rightarrow> u8 list option \<times> m7" where
  "remote_refresh_work_handler e w =
     (let w = w\<lparr>m7_link := (m7_link w)\<lparr>m7_refresh_scheduled := False\<rparr>\<rparr>
      in if \<not> rc_enabled (m7_remote_command (m7_link w)) then (None, w)
         else
           let (ret, sent, link) = send_remote_command_locked (me_send e) True (m7_link w);
               w = w\<lparr>m7_link := link\<rparr>;
               (ret, w) = (if 0 \<le> ret then app_modbus_tcp_motor_set_mode e True w else (ret, w));
               w = (if 0 \<le> ret then w\<lparr>m7_link := (m7_link w)\<lparr>m7_refresh_scheduled := True\<rparr>\<rparr> else w)
           in (sent, w))"

definition remote_command_update ::
  "m7_env \<Rightarrow> bool \<Rightarrow> u16 \<Rightarrow> u16 \<Rightarrow> m7 \<Rightarrow> int \<times> u8 list option \<times> m7" where
  "remote_command_update e activate_remote control duty_permille w =
     (if \<not> rc_enabled (m7_remote_command (m7_link w)) \<and> \<not> activate_remote then (- EACCES, None, w)
      else
        let link = remote_set (\<lambda>rc. rc\<lparr>rc_enabled := True, rc_remote := True, rc_control := control,
                     rc_duty_permille := duty_permille, rc_timeout_ms := APP_IPC_REMOTE_TIMEOUT_MS,
                     rc_source := APP_MOTOR_COMMAND_SOURCE_SHELL\<rparr>) (m7_link w);
            (ret, sent, link) = send_remote_command_locked (me_send e) True link;
            link = (if 0 \<le> ret then link\<lparr>m7_refresh_scheduled := True\<rparr> else link)
        in (ret, sent, w\<lparr>m7_link := link\<rparr>))"

definition remote_command_disable :: "m7_env \<Rightarrow> m7 \<Rightarrow> int \<times> u8 list option \<times> m7" where
  "remote_command_disable e w =
     (let link = remote_set (\<lambda>rc. rc\<lparr>rc_source := APP_MOTOR_COMMAND_SOURCE_SHELL,
                   rc_timeout_ms := APP_IPC_REMOTE_TIMEOUT_MS\<rparr>) (m7_link w);
          (ret, sent, link) = send_remote_command_locked (me_send e) False link;
          w = w\<lparr>m7_link := link\<rparr>;
          (ret, w) = (if 0 \<le> ret then app_modbus_tcp_motor_set_mode e False w else (ret, w))
      in if 0 \<le> ret
         then (ret, sent, w\<lparr>m7_link := (remote_set (\<lambda>rc. rc\<lparr>rc_enabled := False, rc_control := 0\<rparr>)
                 (m7_link w))\<lparr>m7_refresh_scheduled := False\<rparr>\<rparr>)
         else (ret, sent, w))"

definition remote_command_reset :: "m7_env \<Rightarrow> m7 \<Rightarrow> int \<times> u8 list option \<times> m7" where
  "remote_command_reset e w =
     (let link = remote_set (\<lambda>rc. rc\<lparr>rc_source := APP_MOTOR_COMMAND_SOURCE_SHELL,
                   rc_timeout_ms := APP_IPC_REMOTE_TIMEOUT_MS,
                   rc_control := APP_MOTOR_COMMAND_ENABLE OR APP_MOTOR_COMMAND_RESET_FAULT\<rparr>) (m7_link w);
          (ret, sent, link) = send_remote_command_locked (me_send e)
                                (rc_enabled (m7_remote_command link)) link;
          link = (if 0 \<le> ret \<and> rc_enabled (m7_remote_command link)
                  then link\<lparr>m7_refresh_scheduled := True\<rparr> else link)
      in (ret, sent, w\<lparr>m7_link := link\<rparr>))"

section \<open>Shell commands\<close>

datatype shell_line = Shell_error string | Shell_print string

type_synonym shell_result = "int \<times> shell_line list \<times> u8 list option \<times> m7"

definition cmd_m4_status :: "m7 \<Rightarrow> int \<times> shell_line list" where
  "cmd_m4_status w =
     (let (initialized, bound, err) = app_ipc_get_status (m7_link w)
      in (0, [Shell_print (''IPC initialized : '' @ (if initialized then ''yes'' else ''no'')),
              Shell_print (''M4 endpoint    : '' @ (if bound then ''bound'' else ''not bound'')),
              Shell_print (''Last error     : '' @ dec_of_int err)]))"

text \<open>\<open>received\<close> and the times are those of \<open>app_ipc_ping\<close>.\<close>

definition cmd_m4_ping :: "m7_env \<Rightarrow> u32 \<Rightarrow> u32 \<Rightarrow> (u32 \<times> u8 list) list \<Rightarrow> m7 \<Rightarrow> shell_result" where
  "cmd_m4_ping e start_ms end_ms received w =
     (let (ret, round_trip_ms, sent, link) = app_ipc_ping (me_send e) start_ms end_ms received (m7_link w);
          w = w\<lparr>m7_link := link\<rparr>
      in if ret < 0
         then (ret, [Shell_error (if ret = - ETIMEDOUT then ''M4 ping timed out waiting for PONG''
                        else ''M4 ping request could not be sent: '' @ dec_of_int ret)], sent, w)
         else (0, [Shell_print (''M4 pong in '' @ dec_of_nat (unat (the round_trip_ms)) @ '' ms'')], sent, w))"

definition cmd_m4_state :: "m7_env \<Rightarrow> m7 \<Rightarrow> int \<times> shell_line list" where
  "cmd_m4_state e w =
     (let state = app_ipc_get_motor_state (me_now e) (m7_link w)
      in if \<not> ms_valid state then (- EAGAIN, [Shell_error ''No motor state received from M4 yet''])
         else
           let words = ms_words state;
               flags = words ! APP_MOTOR_STATE_FLAGS;
               mode = (if flags AND APP_MOTOR_STATE_FLAG_REMOTE \<noteq> 0 then ''Remote'' else ''Local'');
               motor_state = (if flags AND APP_MOTOR_STATE_FLAG_FAULT \<noteq> 0 then ''Fault''
                 else if flags AND APP_MOTOR_STATE_FLAG_STOPPING \<noteq> 0 then ''Stopping''
                 else if flags AND APP_MOTOR_STATE_FLAG_RUNNING \<noteq> 0 then ''Running''
                 else if flags AND APP_MOTOR_STATE_FLAG_READY \<noteq> 0 then ''Ready''
                 else ''Disabled'');
               safety = (if flags AND APP_MOTOR_STATE_FLAG_REMOTE_STOP_LATCH \<noteq> 0 then ''Physical STOP latched''
                 else if flags AND APP_MOTOR_STATE_FLAG_REMOTE_TIMEOUT \<noteq> 0 then ''Remote command timeout''
                 else ''OK'')
           in (0, [Shell_print (''Control mode    : '' @ mode),
                   Shell_print (''Motor state    : '' @ motor_state),
                   Shell_print (''Applied command: '' @ dec_of_nat (unat (words ! APP_MOTOR_STATE_APPLIED_DUTY_PERMILLE) div 10) @ '' %''),
                   Shell_print (''Target command : '' @ dec_of_nat (unat (words ! APP_MOTOR_STATE_TARGET_DUTY_PERMILLE) div 10) @ '' %''),
                   Shell_print (''Direction      : '' @ (if words ! APP_MOTOR_STATE_DIRECTION = 0 then ''forward'' else ''reverse'')),
                   Shell_print (''Fault          : '' @ dec_of_int (s16_of_u16 (words ! APP_MOTOR_STATE_FAULT_CODE))),
                   Shell_print (''Safety         : '' @ safety),
                   Shell_print (''Buttons        : 0x'' @ hex4_of_nat (unat (words ! APP_MOTOR_STATE_BUTTONS))),
                   Shell_print (''Potentiometer  : '' @ dec_of_nat (unat (words ! APP_MOTOR_STATE_POTENTIOMETER_RAW)) @ '' / 4095''),
                   Shell_print (''M7 -> M4 command age : '' @ dec_of_nat (unat (words ! APP_MOTOR_STATE_COMMAND_AGE_MS)) @ '' ms''),
                   Shell_print (''Last accepted command : '' @ dec_of_nat (unat (words ! APP_MOTOR_STATE_LAST_ACCEPTED_SEQUENCE))),
                   Shell_print (''M4 -> M7 cache age / heartbeat : '' @ dec_of_nat (unat (ms_age_ms state)) @ '' ms / ''
                     @ dec_of_nat (unat (words ! APP_MOTOR_STATE_HEARTBEAT)))]))"

definition report_remote_result :: "int \<times> u8 list option \<times> m7 \<Rightarrow> shell_result" where
  "report_remote_result r =
     (case r of (ret, sent, w) \<Rightarrow>
        if ret < 0
        then (ret, [Shell_error (if ret = - EACCES then ''Remote mode is disabled; run 'm4 remote' first''
                       else ''M4 command could not be queued: '' @ dec_of_int ret)], sent, w)
        else (0, [Shell_print ''M4 command queued''], sent, w))"

definition cmd_m4_remote :: "m7_env \<Rightarrow> m7 \<Rightarrow> shell_result" where
  "cmd_m4_remote e w = report_remote_result (remote_command_update e True
     APP_MOTOR_COMMAND_ENABLE APP_MOTOR_COMMAND_DUTY_MIN_PERMILLE w)"

definition cmd_m4_local :: "m7_env \<Rightarrow> m7 \<Rightarrow> shell_result" where
  "cmd_m4_local e w = report_remote_result (remote_command_disable e w)"

definition remote_direction_bit :: "m7 \<Rightarrow> u16" where
  "remote_direction_bit w = rc_control (m7_remote_command (m7_link w)) AND APP_MOTOR_COMMAND_DIRECTION_REVERSE"

definition remote_duty :: "m7 \<Rightarrow> u16" where
  "remote_duty w = rc_duty_permille (m7_remote_command (m7_link w))"

definition cmd_m4_start :: "m7_env \<Rightarrow> m7 \<Rightarrow> shell_result" where
  "cmd_m4_start e w = report_remote_result (remote_command_update e False
     (APP_MOTOR_COMMAND_ENABLE OR APP_MOTOR_COMMAND_RUN OR remote_direction_bit w) (remote_duty w) w)"

definition cmd_m4_stop :: "m7_env \<Rightarrow> m7 \<Rightarrow> shell_result" where
  "cmd_m4_stop e w = report_remote_result (remote_command_update e False
     (APP_MOTOR_COMMAND_ENABLE OR remote_direction_bit w) (remote_duty w) w)"

definition cmd_m4_quick_stop :: "m7_env \<Rightarrow> m7 \<Rightarrow> shell_result" where
  "cmd_m4_quick_stop e w = report_remote_result (remote_command_update e False
     (APP_MOTOR_COMMAND_ENABLE OR APP_MOTOR_COMMAND_QUICK_STOP OR remote_direction_bit w) (remote_duty w) w)"

definition require_motor_stopped :: "m7_env \<Rightarrow> m7 \<Rightarrow> int \<times> shell_line list" where
  "require_motor_stopped e w =
     (let state = app_ipc_get_motor_state (me_now e) (m7_link w)
      in if \<not> ms_valid state \<or> ms_stale state
         then (- EAGAIN, [Shell_error ''Motor state is unavailable or stale''])
         else if ms_words state ! APP_MOTOR_STATE_FLAGS
                   AND (APP_MOTOR_STATE_FLAG_RUNNING OR APP_MOTOR_STATE_FLAG_STOPPING) \<noteq> 0
         then (- EBUSY, [Shell_error ''Stop the motor before changing direction''])
         else (0, []))"

definition cmd_m4_reset :: "m7_env \<Rightarrow> m7 \<Rightarrow> shell_result" where
  "cmd_m4_reset e w = report_remote_result (remote_command_reset e w)"

definition cmd_m4_forward :: "m7_env \<Rightarrow> m7 \<Rightarrow> shell_result" where
  "cmd_m4_forward e w =
     (let (ret, lines) = require_motor_stopped e w
      in if ret < 0 then (ret, lines, None, w)
         else report_remote_result (remote_command_update e False APP_MOTOR_COMMAND_ENABLE (remote_duty w) w))"

definition cmd_m4_reverse :: "m7_env \<Rightarrow> m7 \<Rightarrow> shell_result" where
  "cmd_m4_reverse e w =
     (let (ret, lines) = require_motor_stopped e w
      in if ret < 0 then (ret, lines, None, w)
         else report_remote_result (remote_command_update e False
                (APP_MOTOR_COMMAND_ENABLE OR APP_MOTOR_COMMAND_DIRECTION_REVERSE) (remote_duty w) w))"

text \<open>\<open>argv\<close> includes the command name.\<close>

definition cmd_m4_duty :: "m7_env \<Rightarrow> string list \<Rightarrow> m7 \<Rightarrow> shell_result" where
  "cmd_m4_duty e argv w =
     (if length argv \<noteq> 2 then (- EINVAL, [], None, w)
      else
        let (duty, rest) = strtoul10 (argv ! 1)
        in if rest \<noteq> [] \<or> duty < unat APP_MOTOR_COMMAND_DUTY_MIN_PERMILLE
              \<or> unat APP_MOTOR_COMMAND_DUTY_MAX_PERMILLE < duty
           then (- EINVAL, [Shell_error ''Duty must be between 800 and 1000 permille''], None, w)
           else report_remote_result (remote_command_update e False
                  (rc_control (m7_remote_command (m7_link w))) (of_nat duty) w))"

definition cmd_m4_pause_refresh :: "m7 \<Rightarrow> shell_result" where
  "cmd_m4_pause_refresh w =
     (0, [Shell_print ''Remote refresh paused; M4 timeout should stop the motor in 1 s''], None,
      w\<lparr>m7_link := (remote_set (\<lambda>rc. rc\<lparr>rc_enabled := False\<rparr>) (m7_link w))\<lparr>m7_refresh_scheduled := False\<rparr>\<rparr>)"

section \<open>Facts shared by the commands\<close>

lemma motor_set_mode_effect:
  "app_modbus_tcp_motor_set_mode e remote w = (0, reg_set APP_MB_HREG_MOTOR_MODE (if remote then 1 else 0) w)"
proof -
  have "(if remote then APP_MB_MOTOR_MODE_REMOTE else APP_MB_MOTOR_MODE_LOCAL) = (if remote then 1 else 0)"
    by (simp add: c_def)
  then show ?thesis by (simp add: app_modbus_tcp_motor_set_mode_def holding_reg_wr_mode)
qed

text \<open>The stored command uses the five defined control bits only.\<close>

definition remote_bits_ok :: "m7_ipc \<Rightarrow> bool" where
  "remote_bits_ok s \<longleftrightarrow> rc_control (m7_remote_command s) AND NOT 0x1F = 0"

lemma remote_bits_ok_cong: "m7_remote_command s' = m7_remote_command s \<Longrightarrow> remote_bits_ok s' = remote_bits_ok s"
  by (simp add: remote_bits_ok_def)

lemma remote_bits_examples:
  "APP_MOTOR_COMMAND_ENABLE AND NOT 0x1F = 0" "APP_MOTOR_COMMAND_RUN AND NOT 0x1F = 0"
  "APP_MOTOR_COMMAND_QUICK_STOP AND NOT 0x1F = 0" "APP_MOTOR_COMMAND_RESET_FAULT AND NOT 0x1F = 0"
  "APP_MOTOR_COMMAND_DIRECTION_REVERSE AND NOT 0x1F = 0" "remote_direction_bit w AND NOT 0x1F = 0"
proof -
  show "remote_direction_bit w AND NOT 0x1F = 0"
    by (simp add: remote_direction_bit_def APP_MOTOR_COMMAND_DIRECTION_REVERSE_def and.assoc)
qed (simp_all add: c_def)

lemma remote_bits_or: "(a AND NOT 0x1F = 0) \<Longrightarrow> (b AND NOT 0x1F = 0) \<Longrightarrow> (a OR b) AND NOT 0x1F = (0 :: u16)"
  by (simp add: bit.conj_disj_distrib2)

lemma remote_set_fields [simp]:
  "m7_remote_command (remote_set f s) = f (m7_remote_command s)"
  "m7_endpoint_initialized (remote_set f s) = m7_endpoint_initialized s"
  "m7_endpoint_is_bound (remote_set f s) = m7_endpoint_is_bound s"
  "m7_refresh_scheduled (remote_set f s) = m7_refresh_scheduled s"
  by (simp_all add: remote_set_def)

text \<open>The message of a send, if any, and the M4's reaction to it.\<close>

lemma send_remote_command_message:
  "fst (snd (send_remote_command_locked send remote s)) =
     (if m7_endpoint_initialized s \<and> m7_endpoint_is_bound s
      then Some (command_bytes (remote_message remote s)) else None)"
  using send_remote_command_bytes send_remote_command_sent by auto

lemma remote_message_received:
  assumes "m7_command_ok s" and "remote_bits_ok s"
  shows "endpoint_received_m4 (command_bytes (remote_message remote s)) t =
    t\<lparr>m4_pending_command := remote_message remote s, m4_command_pending := True\<rparr>"
  using remote_message_valid [OF assms(1), of remote] assms(2)
  by (simp add: endpoint_received_m4_def remote_message_size frame_of_remote_message frame_init_m7_def
      sizeof_defs c_def remote_bits_ok_def Let_def)

section \<open>The shell commands as one type\<close>

datatype shell_command =
    M4_remote | M4_local | M4_start | M4_stop | M4_quickstop | M4_reset | M4_forward | M4_reverse
  | M4_duty "string list" | M4_pause

definition run_shell :: "m7_env \<Rightarrow> shell_command \<Rightarrow> m7 \<Rightarrow> shell_result" where
  "run_shell e c w = (case c of
       M4_remote \<Rightarrow> cmd_m4_remote e w | M4_local \<Rightarrow> cmd_m4_local e w | M4_start \<Rightarrow> cmd_m4_start e w
     | M4_stop \<Rightarrow> cmd_m4_stop e w | M4_quickstop \<Rightarrow> cmd_m4_quick_stop e w | M4_reset \<Rightarrow> cmd_m4_reset e w
     | M4_forward \<Rightarrow> cmd_m4_forward e w | M4_reverse \<Rightarrow> cmd_m4_reverse e w
     | M4_duty argv \<Rightarrow> cmd_m4_duty e argv w | M4_pause \<Rightarrow> cmd_m4_pause_refresh w)"

text \<open>What a command leaves behind: a valid stored command, and when a message was sent, that message.\<close>

definition link_good :: "m7_ipc \<Rightarrow> bool" where
  "link_good s \<longleftrightarrow> m7_command_ok s \<and> remote_bits_ok s"

definition sends_good :: "int \<times> u8 list option \<times> m7 \<Rightarrow> bool" where
  "sends_good r = (case r of (ret, sent, w) \<Rightarrow> link_good (m7_link w)
     \<and> (sent = None \<or> (\<exists>remote s. link_good s \<and> sent = Some (command_bytes (remote_message remote s)))))"

lemma link_good_keeps:
  "link_good (snd (snd (send_remote_command_locked send remote s))) = link_good s"
  using m7_command_ok_cong remote_bits_ok_cong send_remote_command_keeps(1)
  unfolding link_good_def by metis

lemma link_good_schedule [simp]: "link_good (s\<lparr>m7_refresh_scheduled := b\<rparr>) = link_good s"
  using m7_command_ok_cong [of "s\<lparr>m7_refresh_scheduled := b\<rparr>" s]
    remote_bits_ok_cong [of "s\<lparr>m7_refresh_scheduled := b\<rparr>" s]
  by (simp add: link_good_def)

lemma sends_good_send:
  assumes "link_good s" and "send_remote_command_locked send remote s = (ret, sent, s')"
  shows "link_good s' \<and> (sent = None \<or> (\<exists>remote s. link_good s \<and> sent = Some (command_bytes (remote_message remote s))))"
  using assms link_good_keeps [of send remote s] send_remote_command_message [of send remote s]
  by (auto split: if_splits)

lemma remote_command_update_good:
  assumes "link_good (m7_link w)" and "control AND NOT 0x1F = 0"
    and "APP_MOTOR_COMMAND_DUTY_MIN_PERMILLE \<le> duty" and "duty \<le> APP_MOTOR_COMMAND_DUTY_MAX_PERMILLE"
  shows "sends_good (remote_command_update e a control duty w)"
proof -
  let ?l = "remote_set (\<lambda>rc. rc\<lparr>rc_enabled := True, rc_remote := True, rc_control := control,
                     rc_duty_permille := duty, rc_timeout_ms := APP_IPC_REMOTE_TIMEOUT_MS,
                     rc_source := APP_MOTOR_COMMAND_SOURCE_SHELL\<rparr>) (m7_link w)"
  have l: "link_good ?l"
    using assms by (auto simp: link_good_def m7_command_ok_def remote_bits_ok_def Let_def c_def)
  obtain ret sent s' where s: "send_remote_command_locked (me_send e) True ?l = (ret, sent, s')"
    by (metis prod.exhaust)
  show ?thesis
    using sends_good_send [OF l s] assms(1) by (simp add: remote_command_update_def sends_good_def s Let_def)
qed

lemma remote_command_disable_good:
  assumes "link_good (m7_link w)"
  shows "sends_good (remote_command_disable e w)"
proof -
  let ?l = "remote_set (\<lambda>rc. rc\<lparr>rc_source := APP_MOTOR_COMMAND_SOURCE_SHELL,
                   rc_timeout_ms := APP_IPC_REMOTE_TIMEOUT_MS\<rparr>) (m7_link w)"
  have l: "link_good ?l"
    using assms by (auto simp: link_good_def m7_command_ok_def remote_bits_ok_def Let_def c_def)
  obtain ret sent s' where s: "send_remote_command_locked (me_send e) False ?l = (ret, sent, s')"
    by (metis prod.exhaust)
  have "link_good (remote_set (\<lambda>rc. rc\<lparr>rc_enabled := False, rc_control := 0\<rparr>) s')"
    using sends_good_send [OF l s] by (auto simp: link_good_def m7_command_ok_def remote_bits_ok_def Let_def)
  then show ?thesis
    using sends_good_send [OF l s]
    by (simp add: remote_command_disable_def sends_good_def s Let_def motor_set_mode_effect)
qed

lemma remote_command_reset_good:
  assumes "link_good (m7_link w)"
  shows "sends_good (remote_command_reset e w)"
proof -
  let ?l = "remote_set (\<lambda>rc. rc\<lparr>rc_source := APP_MOTOR_COMMAND_SOURCE_SHELL,
                   rc_timeout_ms := APP_IPC_REMOTE_TIMEOUT_MS,
                   rc_control := APP_MOTOR_COMMAND_ENABLE OR APP_MOTOR_COMMAND_RESET_FAULT\<rparr>) (m7_link w)"
  have l: "link_good ?l"
    using assms by (auto simp: link_good_def m7_command_ok_def remote_bits_ok_def Let_def c_def)
  obtain ret sent s' where s: "send_remote_command_locked (me_send e) (rc_enabled (m7_remote_command ?l)) ?l = (ret, sent, s')"
    by (metis prod.exhaust)
  show ?thesis
    using sends_good_send [OF l s] s by (simp add: remote_command_reset_def sends_good_def Let_def)
qed

lemma remote_duty_ok:
  "link_good (m7_link w) \<Longrightarrow> APP_MOTOR_COMMAND_DUTY_MIN_PERMILLE \<le> remote_duty w
     \<and> remote_duty w \<le> APP_MOTOR_COMMAND_DUTY_MAX_PERMILLE"
  by (simp add: link_good_def m7_command_ok_def remote_duty_def Let_def)

definition result_good :: "shell_result \<Rightarrow> bool" where
  "result_good r = (case r of (ret, lines, sent, w) \<Rightarrow> sends_good (ret, sent, w))"

lemma report_good: "result_good (report_remote_result r) = sends_good r"
  by (simp add: result_good_def report_remote_result_def sends_good_def split: prod.split)

lemma nothing_sent_good: "result_good (ret, lines, None, w) = link_good (m7_link w)"
  by (simp add: result_good_def sends_good_def)

lemma duty_word_ok:
  "800 \<le> duty \<Longrightarrow> duty \<le> 1000 \<Longrightarrow> APP_MOTOR_COMMAND_DUTY_MIN_PERMILLE \<le> of_nat duty
     \<and> of_nat duty \<le> APP_MOTOR_COMMAND_DUTY_MAX_PERMILLE"
  by (simp add: c_def word_le_nat_alt unat_of_nat)

lemma run_shell_good:
  assumes "link_good (m7_link w)"
  shows "result_good (run_shell e c w)"
proof -
  have d: "APP_MOTOR_COMMAND_DUTY_MIN_PERMILLE \<le> remote_duty w" "remote_duty w \<le> APP_MOTOR_COMMAND_DUTY_MAX_PERMILLE"
    "APP_MOTOR_COMMAND_DUTY_MIN_PERMILLE \<le> APP_MOTOR_COMMAND_DUTY_MAX_PERMILLE"
    using remote_duty_ok [OF assms] by (simp_all add: c_def)
  note b = remote_bits_examples [simplified] remote_bits_or [simplified]
  note up = report_good remote_command_update_good [OF assms] nothing_sent_good assms d b
  show ?thesis
  proof (cases c)
    case (M4_duty argv)
    obtain duty rest where dr: "strtoul10 (argv ! 1) = (duty, rest)" by (rule prod.exhaust)
    have "rc_control (m7_remote_command (m7_link w)) AND NOT 0x1F = 0"
      using assms by (simp add: link_good_def remote_bits_ok_def)
    moreover have "\<not> duty < unat APP_MOTOR_COMMAND_DUTY_MIN_PERMILLE \<Longrightarrow>
        \<not> unat APP_MOTOR_COMMAND_DUTY_MAX_PERMILLE < duty \<Longrightarrow> 800 \<le> duty \<and> duty \<le> 1000"
      by (simp add: c_def)
    ultimately show ?thesis
      using duty_word_ok [of duty]
      by (simp add: M4_duty run_shell_def cmd_m4_duty_def dr [unfolded One_nat_def] report_good nothing_sent_good assms
          remote_command_update_good)
  next
    case M4_pause
    then show ?thesis using assms
      by (simp add: run_shell_def cmd_m4_pause_refresh_def nothing_sent_good)
        (simp add: link_good_def m7_command_ok_def remote_bits_ok_def Let_def)
  qed (simp_all add: run_shell_def cmd_m4_remote_def cmd_m4_local_def cmd_m4_start_def cmd_m4_stop_def
      cmd_m4_quick_stop_def cmd_m4_reset_def cmd_m4_forward_def cmd_m4_reverse_def up
      remote_command_disable_good [OF assms] remote_command_reset_good [OF assms]
      require_motor_stopped_def Let_def)
qed

section \<open>Properties\<close>

text \<open>Every message a shell command sends is accepted by the other core: its callback stores exactly
  that message for execution, and the stored command stays valid for the next refresh. This holds from
  any state whose stored command is in range with known control bits, as at boot.\<close>

theorem shell_messages_accepted:
  assumes "m7_command_ok (m7_link w)" and "remote_bits_ok (m7_link w)"
    and "run_shell e c w = (ret, lines, sent, w')"
  shows "m7_command_ok (m7_link w') \<and> remote_bits_ok (m7_link w')
     \<and> (case sent of None \<Rightarrow> True | Some bytes \<Rightarrow> endpoint_received_m4 bytes t
          = t\<lparr>m4_pending_command := command_of bytes, m4_command_pending := True\<rparr>)"
proof -
  have "result_good (ret, lines, sent, w')"
    using run_shell_good [of w e c] assms by (simp add: link_good_def)
  then show ?thesis
    by (auto simp: result_good_def sends_good_def link_good_def remote_message_received)
qed

text \<open>Without remote mode the shell cannot move the motor: start, stop, quick stop and a valid duty
  return \<open>EACCES\<close> with the message to enable remote mode, the direction commands fail, nothing is sent
  and nothing changes.\<close>

theorem shell_needs_remote_mode:
  assumes "\<not> rc_enabled (m7_remote_command (m7_link w))"
    and "c \<in> {M4_start, M4_stop, M4_quickstop, M4_forward, M4_reverse, M4_duty argv}"
  shows "\<exists>ret lines. run_shell e c w = (ret, lines, None, w) \<and> ret < 0
     \<and> (c \<in> {M4_start, M4_stop, M4_quickstop} \<longrightarrow> ret = - EACCES)"
proof -
  have "report_remote_result (remote_command_update e False control duty w)
      = (- EACCES, [Shell_error ''Remote mode is disabled; run 'm4 remote' first''], None, w)" for control duty
    using assms(1) by (simp add: remote_command_update_def report_remote_result_def)
  note r = this
  have stopped: "fst (require_motor_stopped e w) < 0 \<or> fst (require_motor_stopped e w) = 0"
    by (simp add: require_motor_stopped_def Let_def)
  from assms(2) show ?thesis
    using stopped
    by (auto simp: run_shell_def cmd_m4_start_def cmd_m4_stop_def cmd_m4_quick_stop_def cmd_m4_forward_def
        cmd_m4_reverse_def cmd_m4_duty_def r case_prod_beta Let_def)
qed

text \<open>The direction can be changed from the shell only at standstill: a message is sent only when the
  cached motor state is valid, at most 100 ms old, and neither running nor stopping; the message then
  asks for no run.\<close>

theorem direction_change_needs_standstill:
  assumes "c \<in> {M4_forward, M4_reverse}" and "run_shell e c w = (ret, lines, Some bytes, w')"
    and "state = app_ipc_get_motor_state (me_now e) (m7_link w)"
  shows "ms_valid state \<and> unat (ms_age_ms state) \<le> 100
     \<and> ms_words state ! APP_MOTOR_STATE_FLAGS AND APP_MOTOR_STATE_FLAG_RUNNING = 0
     \<and> ms_words state ! APP_MOTOR_STATE_FLAGS AND APP_MOTOR_STATE_FLAG_STOPPING = 0
     \<and> command_words (command_of bytes) ! APP_MOTOR_COMMAND_CONTROL AND APP_MOTOR_COMMAND_RUN = 0"
proof -
  let ?flags = "ms_words state ! APP_MOTOR_STATE_FLAGS"
  have st: "require_motor_stopped e w = (0, [])"
  proof (rule ccontr)
    assume n: "require_motor_stopped e w \<noteq> (0, [])"
    then have "fst (require_motor_stopped e w) < 0"
      by (auto simp: require_motor_stopped_def Let_def split: if_splits)
    with assms(1,2) show False
      by (auto simp: run_shell_def cmd_m4_forward_def cmd_m4_reverse_def case_prod_beta)
  qed
  then have v: "ms_valid state" "\<not> ms_stale state"
    "?flags AND (APP_MOTOR_STATE_FLAG_RUNNING OR APP_MOTOR_STATE_FLAG_STOPPING) = 0"
    by (auto simp: require_motor_stopped_def assms(3) Let_def split: if_splits)
  then have flags: "?flags AND APP_MOTOR_STATE_FLAG_RUNNING = 0" "?flags AND APP_MOTOR_STATE_FLAG_STOPPING = 0"
    by (simp_all add: bit.conj_disj_distrib or_eq_0_iff)
  have age: "unat (ms_age_ms state) \<le> 100"
    using v(1,2) by (auto simp: assms(3) app_ipc_get_motor_state_def Let_def c_def word_less_nat_alt not_less
        split: if_splits)
  define control where "control = (if c = M4_forward then APP_MOTOR_COMMAND_ENABLE
     else APP_MOTOR_COMMAND_ENABLE OR APP_MOTOR_COMMAND_DIRECTION_REVERSE)"
  have c: "control AND APP_MOTOR_COMMAND_RUN = 0"
    "run_shell e c w = report_remote_result (remote_command_update e False control (remote_duty w) w)"
    using assms(1) st by (auto simp: run_shell_def cmd_m4_forward_def cmd_m4_reverse_def control_def c_def)
  have sent: "fst (snd (remote_command_update e False control (remote_duty w) w)) = Some bytes"
    using assms(2) c(2) by (auto simp: report_remote_result_def split: prod.splits if_splits)
  have "command_words (command_of bytes) ! APP_MOTOR_COMMAND_CONTROL = control"
    using sent
    by (auto simp: remote_command_update_def Let_def case_prod_beta send_remote_command_message
        remote_message_def split: if_splits)
  with c(1) have "command_words (command_of bytes) ! APP_MOTOR_COMMAND_CONTROL AND APP_MOTOR_COMMAND_RUN = 0"
    by simp
  with v flags age show ?thesis by blast
qed

lemma refresh_message:
  "fst (remote_refresh_work_handler e w) =
     (if rc_enabled (m7_remote_command (m7_link w)) \<and> m7_endpoint_initialized (m7_link w)
         \<and> m7_endpoint_is_bound (m7_link w)
      then Some (command_bytes (remote_message True (m7_link w))) else None)"
  by (simp add: remote_refresh_work_handler_def Let_def case_prod_beta send_remote_command_message)
    (simp add: remote_message_def Let_def)

text \<open>The refresh. While remote mode is enabled, each expiry that can send repeats the stored command
  as a remote command with a new sequence number, claims the Modbus motor mode and schedules the next
  one. When remote mode is disabled it sends nothing and ends. When the message cannot be sent it also
  ends, without a further attempt, so that the M4's timeout stops the motor.\<close>

theorem refresh_repeats_command:
  assumes "modbus_inv w" and "(sent, w') = remote_refresh_work_handler e w"
    and "ready = (m7_endpoint_initialized (m7_link w) \<and> m7_endpoint_is_bound (m7_link w))"
    and "enabled = rc_enabled (m7_remote_command (m7_link w))"
  shows "sent = (if enabled \<and> ready then Some (command_bytes (remote_message True (m7_link w))) else None)
     \<and> m7_remote_command (m7_link w') = m7_remote_command (m7_link w)
     \<and> m7_refresh_scheduled (m7_link w') = (enabled \<and> ready \<and> 0 \<le> fst (ipc_send_loop (me_send e) 0))
     \<and> m7_next_command_sequence (m7_link w') = m7_next_command_sequence (m7_link w) + (if enabled \<and> ready then 1 else 0)
     \<and> reg_get APP_MB_HREG_MOTOR_MODE w' = (if m7_refresh_scheduled (m7_link w') then APP_MB_MOTOR_MODE_REMOTE
          else reg_get APP_MB_HREG_MOTOR_MODE w)"
proof -
  have len: "length (mb_holding_regs (m7_modbus w)) = 60" using modbus_inv_length [OF assms(1)] .
  let ?l = "(m7_link w)\<lparr>m7_refresh_scheduled := False\<rparr>"
  obtain ret s l' where r: "send_remote_command_locked (me_send e) True ?l = (ret, s, l')" by (metis prod.exhaust)
  have l: "s = (if ready then Some (command_bytes (remote_message True (m7_link w))) else None)"
    "m7_remote_command l' = m7_remote_command (m7_link w)" "m7_refresh_scheduled l' = False"
    "m7_next_command_sequence l' = m7_next_command_sequence (m7_link w) + (if ready then 1 else 0)"
    "0 \<le> ret \<longleftrightarrow> ready \<and> 0 \<le> fst (ipc_send_loop (me_send e) 0)"
    using r by (auto simp: assms(3) send_remote_command_locked_def remote_message_def Let_def case_prod_beta
        sizeof_defs split: if_splits)
  let ?w = "reg_set APP_MB_HREG_MOTOR_MODE 1 (w\<lparr>m7_link := l'\<rparr>)"
  have h: "remote_refresh_work_handler e w = (if \<not> enabled then (None, w\<lparr>m7_link := ?l\<rparr>)
      else if 0 \<le> ret then (s, ?w\<lparr>m7_link := l'\<lparr>m7_refresh_scheduled := True\<rparr>\<rparr>)
      else (s, w\<lparr>m7_link := l'\<rparr>))"
    by (simp add: remote_refresh_work_handler_def r assms(4) Let_def motor_set_mode_effect)
  have mode: "reg_get APP_MB_HREG_MOTOR_MODE ?w = APP_MB_MOTOR_MODE_REMOTE"
    using len by (simp add: c_def)
  consider "\<not> enabled" | "enabled" "0 \<le> ret" | "enabled" "\<not> 0 \<le> ret" by blast
  then show ?thesis
    using assms(2) l mode by cases (cases ready; auto simp: h split: if_splits)+
qed

text \<open>\<open>m4 local\<close>: when the message goes out, the M7 forgets the remote command, stops the refresh and
  gives back the Modbus motor mode; when it does not, remote mode and refresh go on as before and the
  error is returned.\<close>

theorem shell_local_effect:
  assumes "modbus_inv w" and "run_shell e M4_local w = (ret, lines, sent, w')"
  shows "if 0 \<le> ret
     then \<not> rc_enabled (m7_remote_command (m7_link w')) \<and> rc_control (m7_remote_command (m7_link w')) = 0
       \<and> \<not> m7_refresh_scheduled (m7_link w') \<and> reg_get APP_MB_HREG_MOTOR_MODE w' = APP_MB_MOTOR_MODE_LOCAL
       \<and> (\<exists>bytes. sent = Some bytes \<and> command_words (command_of bytes) ! APP_MOTOR_COMMAND_MODE = 0)
     else rc_enabled (m7_remote_command (m7_link w')) = rc_enabled (m7_remote_command (m7_link w))
       \<and> rc_control (m7_remote_command (m7_link w')) = rc_control (m7_remote_command (m7_link w))
       \<and> m7_refresh_scheduled (m7_link w') = m7_refresh_scheduled (m7_link w)
       \<and> reg_get APP_MB_HREG_MOTOR_MODE w' = reg_get APP_MB_HREG_MOTOR_MODE w"
proof -
  have len: "length (mb_holding_regs (m7_modbus w)) = 60" using modbus_inv_length [OF assms(1)] .
  let ?l = "remote_set (\<lambda>rc. rc\<lparr>rc_source := APP_MOTOR_COMMAND_SOURCE_SHELL,
                   rc_timeout_ms := APP_IPC_REMOTE_TIMEOUT_MS\<rparr>) (m7_link w)"
  obtain r s l' where r: "send_remote_command_locked (me_send e) False ?l = (r, s, l')" by (metis prod.exhaust)
  have l: "0 \<le> r \<Longrightarrow> s = Some (command_bytes (remote_message False ?l))"
    "m7_remote_command l' = m7_remote_command ?l" "m7_refresh_scheduled l' = m7_refresh_scheduled (m7_link w)"
    using r by (auto simp: send_remote_command_locked_def remote_message_def Let_def case_prod_beta
        sizeof_defs split: if_splits)
  have m: "command_words (command_of (command_bytes (remote_message False ?l))) ! APP_MOTOR_COMMAND_MODE = 0"
    by (simp add: remote_message_def Let_def)
  let ?w = "reg_set APP_MB_HREG_MOTOR_MODE 0 (w\<lparr>m7_link := l'\<rparr>)"
  have d: "remote_command_disable e w = (if 0 \<le> r
      then (0, s, ?w\<lparr>m7_link := (remote_set (\<lambda>rc. rc\<lparr>rc_enabled := False, rc_control := 0\<rparr>) l')
                    \<lparr>m7_refresh_scheduled := False\<rparr>\<rparr>)
      else (r, s, w\<lparr>m7_link := l'\<rparr>))"
    by (simp add: remote_command_disable_def r Let_def motor_set_mode_effect)
  have mode: "reg_get APP_MB_HREG_MOTOR_MODE ?w = APP_MB_MOTOR_MODE_LOCAL"
    using len by (simp add: c_def)
  have res: "(if 0 \<le> r then 0 else r, s) = (ret, sent)"
    "w' = snd (snd (remote_command_disable e w))"
    using assms(2) by (auto simp: run_shell_def cmd_m4_local_def report_remote_result_def d split: if_splits)
  show ?thesis
    using res l m mode by (auto simp: d split: if_splits)
qed

text \<open>\<open>m4 reset\<close> in remote mode is repeated: from then on every refresh asks the M4 for a fault reset
  again, and the M4, on applying it, drops a STOP latch that the physical button set in the meantime.
  Only the next start, stop, direction or duty command ends this.\<close>

theorem reset_refresh_clears_latch:
  assumes "m7_command_ok (m7_link w)" and "rc_enabled (m7_remote_command (m7_link w))"
    and "run_shell e M4_reset w = (ret, lines, sent, w1)"
    and "m7_remote_command (m7_link w2) = m7_remote_command (m7_link w1)"
    and "remote_refresh_work_handler e' w2 = (Some bytes, w3)"
  shows "command_words (command_of bytes) ! APP_MOTOR_COMMAND_CONTROL AND APP_MOTOR_COMMAND_RESET_FAULT \<noteq> 0
     \<and> \<not> m4_remote_stop_latched (fst (process_pending_command drv now (endpoint_received_m4 bytes t, m)))"
proof -
  let ?l = "remote_set (\<lambda>rc. rc\<lparr>rc_source := APP_MOTOR_COMMAND_SOURCE_SHELL,
                   rc_timeout_ms := APP_IPC_REMOTE_TIMEOUT_MS,
                   rc_control := APP_MOTOR_COMMAND_ENABLE OR APP_MOTOR_COMMAND_RESET_FAULT\<rparr>) (m7_link w)"
  have "m7_remote_command (m7_link w1) = m7_remote_command ?l"
    using assms(3) send_remote_command_keeps(1) [of "me_send e" True ?l] assms(2)
    by (auto simp: run_shell_def cmd_m4_reset_def report_remote_result_def remote_command_reset_def Let_def
        case_prod_beta split: if_splits)
  then have rc: "m7_remote_command (m7_link w2) = m7_remote_command ?l" using assms(4) by simp
  have ok: "m7_command_ok (m7_link w2)" "remote_bits_ok (m7_link w2)"
    using assms(1) by (simp_all add: m7_command_ok_def remote_bits_ok_def rc Let_def) (simp_all add: c_def)
  have control: "command_words (remote_message True (m7_link w2)) ! APP_MOTOR_COMMAND_CONTROL = 9"
    by (simp add: remote_message_def Let_def rc) (simp add: c_def)
  have mode: "command_words (remote_message True (m7_link w2)) ! APP_MOTOR_COMMAND_MODE \<noteq> 0"
    by (simp add: remote_message_def Let_def rc) (simp add: c_def APP_MOTOR_COMMAND_MODE_SOURCE_def)
  have b: "bytes = command_bytes (remote_message True (m7_link w2))"
    using refresh_message [of e' w2] assms(5) by (simp split: if_splits)
  have v: "command_is_valid (remote_message True (m7_link w2)) 36"
    using remote_message_valid [OF ok(1), of True] ok(2) by (simp add: remote_bits_ok_def)
  have "\<not> m4_remote_stop_latched (fst (snd (apply_remote_command drv now (remote_message True (m7_link w2)) (s, m))))" for s m
    by (simp add: apply_remote_command_valid [OF v mode refl] control apply_remote_control_def
        APP_MOTOR_COMMAND_RESET_FAULT_def Let_def case_prod_beta)
  then show ?thesis
    by (simp add: b control APP_MOTOR_COMMAND_RESET_FAULT_def remote_message_received [OF ok]
        process_pending_command_def)
qed

section \<open>Concrete runs\<close>

definition m7_remote0 :: m7 where
  "m7_remote0 = m7_boot\<lparr>m7_link := remote_set (\<lambda>rc. rc\<lparr>rc_enabled := True\<rparr>) m7_bound0\<rparr>"

lemma m7_remote0_link:
  "m7_command_ok (m7_link m7_remote0)" "remote_bits_ok (m7_link m7_remote0)" "modbus_inv m7_remote0"
  "rc_enabled (m7_remote_command (m7_link m7_remote0))" "m7_endpoint_initialized (m7_link m7_remote0)"
  "m7_endpoint_is_bound (m7_link m7_remote0)"
proof -
  show ok: "m7_command_ok (m7_link m7_remote0)"
    by (simp add: m7_remote0_def m7_bound0_def m7_ipc_boot_def m7_command_ok_def c_def)
  show "modbus_inv m7_remote0"
    using modbus_inv_link [OF modbus_boot_inv ok] by (simp add: m7_remote0_def)
qed (simp_all add: m7_remote0_def m7_bound0_def m7_ipc_boot_def remote_bits_ok_def)

lemma m7_env_example_send: "ipc_send_loop (me_send m7_env_example) 0 = (36, 1)"
  using ipc_send_loop_success [of "me_send m7_env_example" 0] by (simp add: m7_env_example_def)

theorem shell_messages_accepted_witness:
  "\<exists>ret lines bytes w'. run_shell m7_env_example M4_start m7_remote0 = (ret, lines, Some bytes, w')
     \<and> m4_command_pending (endpoint_received_m4 bytes m4_ipc_boot)"
proof -
  obtain ret lines sent w' where r: "run_shell m7_env_example M4_start m7_remote0 = (ret, lines, sent, w')"
    by (metis prod.exhaust)
  have "sent \<noteq> None"
    using r m7_remote0_link(4-6)
    by (auto simp: run_shell_def cmd_m4_start_def report_remote_result_def remote_command_update_def
        send_remote_command_locked_def Let_def case_prod_beta split: if_splits)
  then obtain bytes where "sent = Some bytes" by blast
  with shell_messages_accepted [OF m7_remote0_link(1,2) r, of m4_ipc_boot] r show ?thesis by auto
qed

theorem shell_needs_remote_mode_witness:
  "\<exists>lines. run_shell m7_env_example M4_start m7_boot = (- EACCES, lines, None, m7_boot)"
  using shell_needs_remote_mode [of m7_boot M4_start "[]" m7_env_example] by (auto simp: m7_boot_def m7_ipc_boot_def)

definition m7_stopped0 :: m7 where
  "m7_stopped0 = m7_remote0\<lparr>m7_link := (m7_link m7_remote0)\<lparr>m7_motor_state_cache :=
     \<lparr>ms_valid = True, ms_stale = False, ms_sequence = 1, ms_age_ms = 0, ms_words = 2 # replicate 11 0\<rparr>\<rparr>\<rparr>"

theorem direction_change_needs_standstill_witness:
  "\<exists>ret lines bytes w'. run_shell m7_env_example M4_reverse m7_stopped0 = (ret, lines, Some bytes, w')
     \<and> command_words (command_of bytes) ! 0 AND APP_MOTOR_COMMAND_RUN = 0"
proof -
  obtain ret lines sent w' where r: "run_shell m7_env_example M4_reverse m7_stopped0 = (ret, lines, sent, w')"
    by (metis prod.exhaust)
  have st: "require_motor_stopped m7_env_example m7_stopped0 = (0, [])"
    by (simp add: require_motor_stopped_def m7_stopped0_def app_ipc_get_motor_state_def m7_env_example_def c_def)
  have "sent \<noteq> None"
    using r m7_remote0_link(4-6) st
    by (auto simp: run_shell_def cmd_m4_reverse_def report_remote_result_def remote_command_update_def
        send_remote_command_locked_def m7_stopped0_def Let_def case_prod_beta split: if_splits)
  then obtain bytes where "sent = Some bytes" by blast
  with direction_change_needs_standstill [OF _ _ refl, of M4_reverse m7_env_example m7_stopped0 ret lines bytes w'] r
  show ?thesis by auto
qed

theorem refresh_repeats_command_witness:
  "m7_refresh_scheduled (m7_link (snd (remote_refresh_work_handler m7_env_example m7_remote0)))"
proof -
  obtain sent w' where r: "(sent, w') = remote_refresh_work_handler m7_env_example m7_remote0" by (metis prod.exhaust)
  show ?thesis
    using refresh_repeats_command [OF m7_remote0_link(3) r refl refl] m7_remote0_link(4-6) r [symmetric]
    by (simp add: m7_env_example_send)
qed

theorem shell_local_effect_witness:
  "rc_enabled (m7_remote_command (m7_link (snd (snd (snd (run_shell m7_env_example M4_local m7_boot)))))) = False"
proof -
  obtain ret lines sent w' where r: "run_shell m7_env_example M4_local m7_boot = (ret, lines, sent, w')"
    by (metis prod.exhaust)
  show ?thesis
    using shell_local_effect [OF modbus_boot_inv r] r
    by (auto simp: m7_boot_def m7_ipc_boot_def split: if_splits)
qed

theorem reset_refresh_clears_latch_witness:
  "\<exists>bytes w3. remote_refresh_work_handler m7_env_example (snd (snd (snd (run_shell m7_env_example M4_reset m7_remote0))))
       = (Some bytes, w3)
     \<and> \<not> m4_remote_stop_latched (fst (process_pending_command drv_zero 0
          (endpoint_received_m4 bytes m4_ipc_latched, motor_ready0)))"
proof -
  obtain ret lines sent w1 where r: "run_shell m7_env_example M4_reset m7_remote0 = (ret, lines, sent, w1)"
    by (metis prod.exhaust)
  have w1: "rc_enabled (m7_remote_command (m7_link w1))" "m7_endpoint_initialized (m7_link w1)"
    "m7_endpoint_is_bound (m7_link w1)"
    using r m7_remote0_link(4-6)
    by (auto simp: run_shell_def cmd_m4_reset_def report_remote_result_def remote_command_reset_def
        send_remote_command_locked_def Let_def case_prod_beta split: if_splits)
  then obtain bytes w3 where "remote_refresh_work_handler m7_env_example w1 = (Some bytes, w3)"
    using refresh_message [of m7_env_example w1] by (metis prod.collapse)
  with reset_refresh_clears_latch [OF m7_remote0_link(1,4) r refl this, of drv_zero 0 m4_ipc_latched motor_ready0] r
  show ?thesis by auto
qed

end
