(* ===== verification/Ident.thy ===== *)
theory Ident
  imports Net_Cfg C_Text
begin

text \<open>
  Board and firmware identification, \<open>app_m7/src/core/ident.c\<close> and \<open>ident.h\<close>: the texts that the shell,
  discovery and EtherNet/IP show. The array sizes are those of \<open>struct app_ident_info\<close>.

  What the hardware and the network stack answer is the record \<open>board\<close>: \<open>hwinfo_get_device_id\<close> with its
  bytes, the link address of the default interface (\<open>None\<close> for \<open>NULL\<close>), \<open>net_if_ipv6_get_ll\<close> for a
  preferred and for any address, and \<open>net_addr_ntop\<close> on IPv6 addresses.
\<close>

section \<open>Data\<close>

definition APP_IDENT_DEVICE_NAME :: string where "APP_IDENT_DEVICE_NAME = ''STM32H747 Industrial Demo''"
definition APP_IDENT_HOST_NAME :: string where "APP_IDENT_HOST_NAME = ''industrial-ethernet''"
definition APP_IDENT_MANUFACTURER :: string where "APP_IDENT_MANUFACTURER = ''STMicroelectronics''"
definition APP_IDENT_MODEL :: string where "APP_IDENT_MODEL = ''STM32H747I-DISCO''"
definition APP_IDENT_FW_VERSION_MAJOR :: nat where "APP_IDENT_FW_VERSION_MAJOR = 0"
definition APP_IDENT_FW_VERSION_MINOR :: nat where "APP_IDENT_FW_VERSION_MINOR = 7"
definition APP_IDENT_FW_VERSION_PATCH :: nat where "APP_IDENT_FW_VERSION_PATCH = 0"
definition APP_IDENT_FW_VERSION_STR_LEN :: nat where [c_def]: "APP_IDENT_FW_VERSION_STR_LEN = 16"
definition APP_IDENT_MAC_STR_LEN :: nat where [c_def]: "APP_IDENT_MAC_STR_LEN = 18"
definition APP_IDENT_IPV4_STR_LEN :: nat where [c_def]: "APP_IDENT_IPV4_STR_LEN = 16"
definition APP_IDENT_IPV6_STR_LEN :: nat where [c_def]: "APP_IDENT_IPV6_STR_LEN = 46"
definition APP_IDENT_UUID_STR_LEN :: nat where [c_def]: "APP_IDENT_UUID_STR_LEN = 37"
definition APP_IDENT_HW_ID_STR_LEN :: nat where [c_def]: "APP_IDENT_HW_ID_STR_LEN = 25"
definition APP_IDENT_HW_ID_LEN :: nat where "APP_IDENT_HW_ID_LEN = 12"

record app_ident_info =
  ii_device_name :: string
  ii_manufacturer :: string
  ii_model :: string
  ii_firmware_version :: string
  ii_hardware_id :: string
  ii_mac :: string
  ii_ipv4 :: string
  ii_ipv6_link_local :: string
  ii_uuid :: string
  ii_ipv6_preferred :: bool

record board =
  bd_hwinfo :: "int \<times> u8 list"
  bd_link_addr :: "u8 list option"
  bd_ipv6_preferred :: "u8 list option"
  bd_ipv6_any :: "u8 list option"
  bd_ntop6 :: "u8 list \<Rightarrow> string option"

section \<open>Formatting\<close>

text \<open>The loop over the bytes still to print; \<open>dst\<close> is the text written so far.\<close>

fun hardware_id_loop :: "nat \<Rightarrow> u8 list \<Rightarrow> string \<Rightarrow> string" where
  "hardware_id_loop dst_size [] dst = dst"
| "hardware_id_loop dst_size (b # bs) dst =
     (if length dst + 2 < dst_size
      then if length (hex2 b) \<noteq> 2 then dst else hardware_id_loop dst_size bs (dst @ hex2 b)
      else dst)"

definition ident_format_hardware_id :: "board \<Rightarrow> nat \<Rightarrow> string" where
  "ident_format_hardware_id bd dst_size =
     (case bd_hwinfo bd of (len, device_id) \<Rightarrow>
        if len \<le> 0 then snprintk_buf dst_size ''unavailable''
        else hardware_id_loop dst_size (take (nat len) device_id) [])"

definition ident_format_mac :: "board \<Rightarrow> nat \<Rightarrow> bool \<times> string" where
  "ident_format_mac bd dst_size =
     (case bd_link_addr bd of None \<Rightarrow> (False, snprintk_buf dst_size ''unavailable'')
      | Some addr \<Rightarrow>
        if length addr < 6 then (False, snprintk_buf dst_size ''unavailable'')
        else (True, snprintk_buf dst_size (hex2 (addr ! 0) @ '':'' @ hex2 (addr ! 1) @ '':'' @ hex2 (addr ! 2)
               @ '':'' @ hex2 (addr ! 3) @ '':'' @ hex2 (addr ! 4) @ '':'' @ hex2 (addr ! 5))))"

definition ident_format_uuid :: "board \<Rightarrow> nat \<Rightarrow> string" where
  "ident_format_uuid bd dst_size =
     (case bd_link_addr bd of None \<Rightarrow> snprintk_buf dst_size ''unavailable''
      | Some addr \<Rightarrow>
        if length addr < 6 then snprintk_buf dst_size ''unavailable''
        else snprintk_buf dst_size (''00000000-0000-4000-8000-'' @ hex2 (addr ! 0) @ hex2 (addr ! 1)
               @ hex2 (addr ! 2) @ hex2 (addr ! 3) @ hex2 (addr ! 4) @ hex2 (addr ! 5)))"

text \<open>\<open>active\<close> is the result of \<open>net_cfg_get_active\<close>.\<close>

definition ident_format_ipv4 :: "int \<times> net_cfg_data \<Rightarrow> nat \<Rightarrow> string" where
  "ident_format_ipv4 active dst_size =
     (if fst active < 0 then snprintk_buf dst_size ''unavailable''
      else snprintk_buf dst_size (nd_ip (snd active)))"

text \<open>The results are the return value, the text and \<open>*preferred\<close>. \<open>net_addr_ntop\<close> gives \<open>NULL\<close> when the
  text does not fit.\<close>

definition ident_format_ipv6 :: "board \<Rightarrow> nat \<Rightarrow> bool \<times> string \<times> bool" where
  "ident_format_ipv6 bd dst_size =
     (let preferred = bd_ipv6_preferred bd \<noteq> None;
          address = (case bd_ipv6_preferred bd of None \<Rightarrow> bd_ipv6_any bd | Some a \<Rightarrow> Some a);
          result = (case address of None \<Rightarrow> None | Some a \<Rightarrow> bd_ntop6 bd a)
      in (case result of None \<Rightarrow> (False, snprintk_buf dst_size ''unavailable'', preferred)
          | Some text \<Rightarrow> if dst_size \<le> length text then (False, snprintk_buf dst_size ''unavailable'', preferred)
              else (True, text, preferred)))"

text \<open>The identity with every field that does not depend on the interface; \<open>info\<close> is never \<open>NULL\<close> in the
  program.\<close>

definition app_ident_get :: "bool \<Rightarrow> int \<times> net_cfg_data \<Rightarrow> board \<Rightarrow> int \<times> app_ident_info" where
  "app_ident_get has_iface active bd =
     (let info = \<lparr>ii_device_name = APP_IDENT_DEVICE_NAME, ii_manufacturer = APP_IDENT_MANUFACTURER,
            ii_model = APP_IDENT_MODEL,
            ii_firmware_version = snprintk_buf APP_IDENT_FW_VERSION_STR_LEN
              (dec_of_nat APP_IDENT_FW_VERSION_MAJOR @ ''.'' @ dec_of_nat APP_IDENT_FW_VERSION_MINOR @ ''.''
               @ dec_of_nat APP_IDENT_FW_VERSION_PATCH),
            ii_hardware_id = ident_format_hardware_id bd APP_IDENT_HW_ID_STR_LEN,
            ii_mac = [], ii_ipv4 = [], ii_ipv6_link_local = [], ii_uuid = [], ii_ipv6_preferred = False\<rparr>
      in if \<not> has_iface
         then (- ENODEV, info\<lparr>ii_mac := snprintk_buf APP_IDENT_MAC_STR_LEN ''unavailable'',
                ii_ipv4 := snprintk_buf APP_IDENT_IPV4_STR_LEN ''unavailable'',
                ii_ipv6_link_local := snprintk_buf APP_IDENT_IPV6_STR_LEN ''unavailable'',
                ii_uuid := snprintk_buf APP_IDENT_UUID_STR_LEN ''unavailable''\<rparr>)
         else
           let (ret, ipv6, preferred) = ident_format_ipv6 bd APP_IDENT_IPV6_STR_LEN
           in (0, info\<lparr>ii_mac := snd (ident_format_mac bd APP_IDENT_MAC_STR_LEN),
                ii_uuid := ident_format_uuid bd APP_IDENT_UUID_STR_LEN,
                ii_ipv4 := ident_format_ipv4 active APP_IDENT_IPV4_STR_LEN,
                ii_ipv6_link_local := ipv6, ii_ipv6_preferred := preferred\<rparr>))"

definition cmd_ident :: "bool \<Rightarrow> int \<times> net_cfg_data \<Rightarrow> board \<Rightarrow> int \<times> string list" where
  "cmd_ident has_iface active bd =
     (let info = snd (app_ident_get has_iface active bd)
      in (0, [''Device name     : '' @ ii_device_name info,
              ''Manufacturer    : '' @ ii_manufacturer info,
              ''Model           : '' @ ii_model info,
              ''Firmware version: '' @ ii_firmware_version info,
              ''Hardware ID     : '' @ ii_hardware_id info,
              ''MAC address     : '' @ ii_mac info,
              ''IPv4 address    : '' @ ii_ipv4 info,
              ''IPv6 link-local : '' @ ii_ipv6_link_local info
                @ (if ii_ipv6_preferred info then [] else '' (tentative/unavailable)''),
              ''Device UUID     : '' @ ii_uuid info]))"

section \<open>Texts fit their arrays\<close>

lemma hardware_id_loop_text:
  "length dst + 2 * length bs < n \<Longrightarrow> hardware_id_loop n bs dst = dst @ concat (List.map hex2 bs)"
  by (induction bs arbitrary: dst) simp_all

lemma hardware_id_loop_length: "length dst < n \<Longrightarrow> length (hardware_id_loop n bs dst) < n"
  by (induction bs arbitrary: dst) simp_all

lemma digits_value_append: "digits_value (a @ [c]) = 10 * digits_value a + (of_char c - 48)"
  by (simp add: digits_value_def)

text \<open>A byte can be read back from its two hexadecimal digits.\<close>

definition hex_digit_value :: "char \<Rightarrow> nat" where
  "hex_digit_value c = (let v = of_char c in if v < 58 then v - 48 else v - 87)"

lemma hex_digit_value_digit: "d < 16 \<Longrightarrow> hex_digit_value (digit_char d) = d"
  by (simp add: hex_digit_value_def digit_char_def Let_def)

lemma hex2_value: "16 * hex_digit_value (hex2 b ! 0) + hex_digit_value (hex2 b ! 1) = unat b"
proof (cases "unat b < 16")
  case True
  then show ?thesis
    by (simp add: hex2_def pad0_def digits_of.simps hex_digit_value_digit) (simp add: hex_digit_value_def)
next
  case False
  have "unat b div 16 < 16" using unat_u8_bound [of b] by simp
  with False show ?thesis by (simp add: hex2_def pad0_def digits_of.simps hex_digit_value_digit)
qed

lemma hex2_inject: "hex2 a = hex2 b \<Longrightarrow> a = b"
  using hex2_value [of a] hex2_value [of b] by (simp add: word_unat_eq_iff)

lemma hex2_append_inject: "hex2 a @ s = hex2 b @ t \<Longrightarrow> a = b \<and> s = t"
  using hex2_inject by (simp add: append_eq_append_conv)

lemma app_ident_get_fits:
  "let info = snd (app_ident_get has_iface active bd)
   in length (ii_firmware_version info) < APP_IDENT_FW_VERSION_STR_LEN
      \<and> length (ii_hardware_id info) < APP_IDENT_HW_ID_STR_LEN \<and> length (ii_mac info) < APP_IDENT_MAC_STR_LEN
      \<and> length (ii_ipv4 info) < APP_IDENT_IPV4_STR_LEN
      \<and> length (ii_ipv6_link_local info) < APP_IDENT_IPV6_STR_LEN \<and> length (ii_uuid info) < APP_IDENT_UUID_STR_LEN"
proof -
  have s: "\<And>t. length (snprintk_buf 16 t) < 16" "\<And>t. length (snprintk_buf 25 t) < 25"
    "\<And>t. length (snprintk_buf 18 t) < 18" "\<And>t. length (snprintk_buf 46 t) < 46"
    "\<And>t. length (snprintk_buf 37 t) < 37"
    by (simp_all add: snprintk_buf_def)
  have h: "length (ident_format_hardware_id bd 25) < 25"
    by (cases "bd_hwinfo bd") (simp add: ident_format_hardware_id_def s hardware_id_loop_length)
  have m: "length (snd (ident_format_mac bd 18)) < 18" "length (ident_format_uuid bd 37) < 37"
    "length (ident_format_ipv4 active 16) < 16"
    by (simp_all add: ident_format_mac_def ident_format_uuid_def ident_format_ipv4_def s split: option.split)
  have "length (fst (snd (ident_format_ipv6 bd 46))) < 46"
    by (auto simp: ident_format_ipv6_def Let_def s split: option.split)
  with h m s show ?thesis
    by (simp add: app_ident_get_def c_def Let_def case_prod_beta)
qed

text \<open>C37. Every text of the identity fits its array in \<open>struct app_ident_info\<close> with the terminating NUL,
  whatever the hardware and the network stack answer.\<close>

theorem ident_fits:
  "let info = snd (app_ident_get has_iface active bd)
   in length (ii_firmware_version info) < APP_IDENT_FW_VERSION_STR_LEN
      \<and> length (ii_hardware_id info) < APP_IDENT_HW_ID_STR_LEN \<and> length (ii_mac info) < APP_IDENT_MAC_STR_LEN
      \<and> length (ii_ipv4 info) < APP_IDENT_IPV4_STR_LEN
      \<and> length (ii_ipv6_link_local info) < APP_IDENT_IPV6_STR_LEN \<and> length (ii_uuid info) < APP_IDENT_UUID_STR_LEN"
  by (rule app_ident_get_fits)

text \<open>The UUID identifies the board: with a link address of at least six bytes nothing is cut off, and
  two boards with the same UUID have the same six bytes of their MAC address.\<close>

theorem ident_uuid_identifies_board:
  assumes "bd_link_addr bd = Some mac" and "6 \<le> length mac"
    and "bd_link_addr bd' = Some mac'" and "6 \<le> length mac'"
    and "ident_format_uuid bd APP_IDENT_UUID_STR_LEN = ident_format_uuid bd' APP_IDENT_UUID_STR_LEN"
  shows "length (ident_format_uuid bd APP_IDENT_UUID_STR_LEN) = 36 \<and> take 6 mac = take 6 mac'"
proof -
  let ?t = "\<lambda>m :: u8 list. hex2 (m ! 0) @ hex2 (m ! 1) @ hex2 (m ! 2) @ hex2 (m ! 3) @ hex2 (m ! 4) @ hex2 (m ! 5)"
  let ?u = "\<lambda>m. ''00000000-0000-4000-8000-'' @ ?t m"
  have u: "ident_format_uuid bd 37 = ?u mac" "ident_format_uuid bd' 37 = ?u mac'"
    using assms(1-4) by (simp_all add: ident_format_uuid_def snprintk_buf_def)
  then have "?t mac = ?t mac'" using assms(5) by (simp add: c_def)
  then have e: "mac ! 0 = mac' ! 0 \<and> mac ! 1 = mac' ! 1 \<and> mac ! 2 = mac' ! 2 \<and> mac ! 3 = mac' ! 3
      \<and> mac ! 4 = mac' ! 4 \<and> mac ! 5 = mac' ! 5"
    using hex2_inject by (simp add: append_eq_append_conv)
  have "take 6 mac = take 6 mac'"
  proof (rule nth_equalityI)
    fix i assume "i < length (take 6 mac)"
    then have "i = 0 \<or> i = 1 \<or> i = 2 \<or> i = 3 \<or> i = 4 \<or> i = 5" by auto
    with e show "take 6 mac ! i = take 6 mac' ! i" by auto
  qed (use assms in simp)
  with u show ?thesis by (simp add: c_def)
qed

definition board_example :: board where
  "board_example = \<lparr>bd_hwinfo = (12, [0, 1, 2, 3, 4, 5, 6, 7, 8, 9, 10, 11]),
     bd_link_addr = Some [0, 0x80, 0xe1, 0x0a, 0x0b, 0x0c], bd_ipv6_preferred = None, bd_ipv6_any = None,
     bd_ntop6 = (\<lambda>_. None)\<rparr>"

theorem ident_uuid_identifies_board_witness:
  "length (ident_format_uuid board_example APP_IDENT_UUID_STR_LEN) = 36"
  using ident_uuid_identifies_board [of board_example "[0, 0x80, 0xe1, 0x0a, 0x0b, 0x0c]" board_example
      "[0, 0x80, 0xe1, 0x0a, 0x0b, 0x0c]"]
  by (simp add: board_example_def)

end
