(* ===== verification/App_Eip.thy ===== *)
theory App_Eip
  imports Modbus_Service Ident
begin

unbundle bit_operations_syntax

text \<open>
  The EtherNet/IP application, \<open>app_m7/src/protocols/eip/app_eip.c\<close>: the callbacks through which OpENer,
  the protocol stack (a submodule), reaches the scanner window, the count of I/O connections, the
  configuration of the stack and the thread that runs it.

  The record \<open>eip\<close> holds the module's static variables; \<open>io_connection_count\<close> is Zephyr's \<open>atomic_t\<close>, a
  32-bit \<open>long\<close>. What OpENer and the heap answer are arguments; the calls into OpENer are a list of
  \<open>eip_call\<close>, in order. The scanner is that of \<open>Modbus_Tcp\<close>, and each access to it has its own answers,
  \<open>es i\<close> for word \<open>i\<close>.
\<close>

section \<open>State\<close>

definition APP_EIP_CONFIG_ASSEMBLY :: u32 where [c_def]: "APP_EIP_CONFIG_ASSEMBLY = 1"
definition APP_EIP_OUTPUT_ASSEMBLY :: u32 where [c_def]: "APP_EIP_OUTPUT_ASSEMBLY = 100"
definition APP_EIP_INPUT_ASSEMBLY :: u32 where [c_def]: "APP_EIP_INPUT_ASSEMBLY = 101"
definition APP_EIP_ASSEMBLY_WORD_COUNT :: nat where [c_def]: "APP_EIP_ASSEMBLY_WORD_COUNT = 5"
definition APP_EIP_ASSEMBLY_SIZE :: nat where [c_def]: "APP_EIP_ASSEMBLY_SIZE = APP_EIP_ASSEMBLY_WORD_COUNT * 2"
definition APP_EIP_SERIAL_NUMBER_FALLBACK :: u32 where "APP_EIP_SERIAL_NUMBER_FALLBACK = 1"

datatype eip_status = kEipStatusOk | kEipStatusError

datatype io_connection_event = kIoConnectionEventOpened | kIoConnectionEventTimedOut | kIoConnectionEventClosed

datatype config_control = kTcpipCfgCtrlStaticIp | kTcpipCfgCtrlDhcp

record eip =
  eip_input_assembly :: "u8 list"
  eip_output_assembly :: "u8 list"
  eip_io_connection_count :: u32
  eip_started :: bool
  eip_reboot_scheduled :: bool

definition eip_boot :: eip where
  "eip_boot = \<lparr>eip_input_assembly = replicate APP_EIP_ASSEMBLY_SIZE 0,
     eip_output_assembly = replicate APP_EIP_ASSEMBLY_SIZE 0, eip_io_connection_count = 0,
     eip_started = False, eip_reboot_scheduled = False\<rparr>"

section \<open>Connections\<close>

definition CheckIoConnectionEvent :: "u32 \<Rightarrow> u32 \<Rightarrow> io_connection_event \<Rightarrow> eip \<Rightarrow> eip" where
  "CheckIoConnectionEvent output_assembly_id input_assembly_id event s =
     (if output_assembly_id \<noteq> APP_EIP_OUTPUT_ASSEMBLY \<or> input_assembly_id \<noteq> APP_EIP_INPUT_ASSEMBLY then s
      else if event = kIoConnectionEventOpened
      then s\<lparr>eip_io_connection_count := eip_io_connection_count s + 1\<rparr>
      else if 0 <s eip_io_connection_count s
      then s\<lparr>eip_io_connection_count := eip_io_connection_count s - 1\<rparr>
      else s)"

definition app_eip_connection_count :: "eip \<Rightarrow> u16" where
  "app_eip_connection_count s = ucast (eip_io_connection_count s)"

section \<open>Assemblies\<close>

text \<open>The loop over the words still to write, from word \<open>i\<close>; it stops at the first error.\<close>

fun output_assembly_loop :: "(nat \<Rightarrow> m7_env) \<Rightarrow> u8 list \<Rightarrow> nat \<Rightarrow> nat \<Rightarrow> m7 \<Rightarrow> eip_status \<times> m7" where
  "output_assembly_loop es out i 0 w = (kEipStatusOk, w)"
| "output_assembly_loop es out i (Suc n) w =
     (let (ret, w) = scanner_output_wr (es i) (of_nat i) (get_le16 out (i * 2)) w
      in if ret < 0 then (kEipStatusError, w) else output_assembly_loop es out (i + 1) n w)"

definition AfterAssemblyDataReceived :: "(nat \<Rightarrow> m7_env) \<Rightarrow> u32 \<Rightarrow> eip \<Rightarrow> m7 \<Rightarrow> eip_status \<times> m7" where
  "AfterAssemblyDataReceived es instance_number s w =
     (if instance_number \<noteq> APP_EIP_OUTPUT_ASSEMBLY then (kEipStatusOk, w)
      else output_assembly_loop es (eip_output_assembly s) 0 APP_EIP_ASSEMBLY_WORD_COUNT w)"

text \<open>\<open>value\<close> stays 0 when the read fails.\<close>

definition value_or_zero :: "int + u16 \<Rightarrow> u16" where
  "value_or_zero r = (case r of Inl _ \<Rightarrow> 0 | Inr v \<Rightarrow> v)"

fun input_assembly_loop :: "(nat \<Rightarrow> m7_env) \<Rightarrow> nat \<Rightarrow> nat \<Rightarrow> u8 list \<Rightarrow> m7 \<Rightarrow> u8 list \<times> m7" where
  "input_assembly_loop es i 0 buf w = (buf, w)"
| "input_assembly_loop es i (Suc n) buf w =
     (let (r, w) = scanner_input_rd (es i) (of_nat i) w;
          word_value = value_or_zero r;
          buf = buf[i * 2 := ucast word_value, i * 2 + 1 := ucast (drop_bit 8 word_value)]
      in input_assembly_loop es (i + 1) n buf w)"

definition BeforeAssemblyDataSend :: "(nat \<Rightarrow> m7_env) \<Rightarrow> u32 \<Rightarrow> eip \<Rightarrow> m7 \<Rightarrow> bool \<times> eip \<times> m7" where
  "BeforeAssemblyDataSend es instance_number s w =
     (if instance_number \<noteq> APP_EIP_INPUT_ASSEMBLY then (True, s, w)
      else
        let (buf, w) = input_assembly_loop es 0 APP_EIP_ASSEMBLY_WORD_COUNT (eip_input_assembly s) w
        in (True, s\<lparr>eip_input_assembly := buf\<rparr>, w))"

section \<open>The device\<close>

definition ResetDevice :: "eip \<Rightarrow> eip_status \<times> eip" where
  "ResetDevice s = (kEipStatusOk, s\<lparr>eip_reboot_scheduled := True\<rparr>)"

definition ResetDeviceToInitialConfiguration :: "eip_status" where
  "ResetDeviceToInitialConfiguration = kEipStatusError"

text \<open>\<open>size_t\<close> has 32 bits and \<open>SIZE_MAX\<close> is its largest value. \<open>alloc size\<close> is the block
  \<open>k_heap_alloc\<close> returns, with whatever it contains.\<close>

definition CipCalloc :: "(u32 \<Rightarrow> u8 list option) \<Rightarrow> u32 \<Rightarrow> u32 \<Rightarrow> u8 list option" where
  "CipCalloc alloc number_of_elements size_of_element =
     (if size_of_element \<noteq> 0 \<and> (- 1) div size_of_element < number_of_elements then None
      else
        let n = number_of_elements * size_of_element
        in (case alloc n of None \<Rightarrow> None
            | Some memory \<Rightarrow> Some (replicate (unat n) 0 @ drop (unat n) memory)))"

datatype extended_device_status =
    kAtLeastOneIoConnectionInRunMode
  | kAtLeastOneIoConnectionEstablishedAllInIdleMode

definition RunIdleChanged :: "u32 \<Rightarrow> extended_device_status" where
  "RunIdleChanged run_idle_value =
     (if run_idle_value AND 1 \<noteq> 0 then kAtLeastOneIoConnectionInRunMode
      else kAtLeastOneIoConnectionEstablishedAllInIdleMode)"

section \<open>Start of the stack\<close>

text \<open>OpENer's \<open>g_tcpip\<close> as far as it is set here.\<close>

record g_tcpip =
  tcpip_ip_address :: u32
  tcpip_network_mask :: u32
  tcpip_gateway :: u32
  tcpip_config_control :: config_control
  tcpip_hostname :: string

datatype eip_call =
    Connection_list_initialize
  | Create_assembly u32 nat
  | Configure_exclusive_owner u32 u32 u32
  | Cip_stack_init u16
  | Ethernet_link_set_mac "u8 list"
  | Set_serial_number u32
  | Set_product_name string
  | Network_handler_initialize
  | Network_handler_process
  | Handle_application
  | Network_handler_finish
  | Shutdown_cip_stack

text \<open>The answers of \<open>CreateAssemblyObject\<close>, whether it succeeds, in order.\<close>

definition ApplicationInitialization :: "bool \<Rightarrow> bool \<Rightarrow> bool \<Rightarrow> eip_status \<times> eip_call list" where
  "ApplicationInitialization created_config created_input created_output =
     (let config = Create_assembly APP_EIP_CONFIG_ASSEMBLY 0;
          input = Create_assembly APP_EIP_INPUT_ASSEMBLY APP_EIP_ASSEMBLY_SIZE;
          output = Create_assembly APP_EIP_OUTPUT_ASSEMBLY APP_EIP_ASSEMBLY_SIZE
      in if \<not> created_config then (kEipStatusError, [config])
         else if \<not> created_input then (kEipStatusError, [config, input])
         else if \<not> created_output then (kEipStatusError, [config, input, output])
         else (kEipStatusOk, [config, input, output,
                 Configure_exclusive_owner APP_EIP_OUTPUT_ASSEMBLY APP_EIP_INPUT_ASSEMBLY APP_EIP_CONFIG_ASSEMBLY]))"

text \<open>The active configurations of the successive turns; \<open>None\<close> when the list ends before an address is
  there (the thread still waits).\<close>

fun wait_for_ipv4 :: "pton \<Rightarrow> (int \<times> net_cfg_data) list \<Rightarrow> net_cfg_data option" where
  "wait_for_ipv4 pton [] = None"
| "wait_for_ipv4 pton ((ret, active) # rest) =
     (if ret = 0 \<and> pton (nd_ip active) \<noteq> None \<and> pton (nd_ip active) \<noteq> Some 0 then Some active
      else wait_for_ipv4 pton rest)"

text \<open>\<open>s_addr\<close>: the address as the little-endian core reads its bytes in network order.\<close>

definition s_addr :: "u32 \<Rightarrow> u32" where
  "s_addr address = get_le32 (be32 address) 0"

definition configure_cip_network :: "pton \<Rightarrow> net_cfg_data \<Rightarrow> g_tcpip \<Rightarrow> int \<times> g_tcpip" where
  "configure_cip_network pton active g =
     (case pton (nd_ip active) of None \<Rightarrow> (- EINVAL, g)
      | Some address \<Rightarrow>
        let g = g\<lparr>tcpip_ip_address := s_addr address\<rparr>
        in (case pton (nd_mask active) of None \<Rightarrow> (- EINVAL, g)
            | Some address \<Rightarrow>
              let g = g\<lparr>tcpip_network_mask := s_addr address\<rparr>
              in (case pton (nd_gw active) of None \<Rightarrow> (- EINVAL, g)
                  | Some address \<Rightarrow>
                    (0, g\<lparr>tcpip_gateway := s_addr address,
                          tcpip_config_control := (if nd_mode active = NET_CFG_DHCP then kTcpipCfgCtrlDhcp
                             else kTcpipCfgCtrlStaticIp),
                          tcpip_hostname := APP_IDENT_HOST_NAME\<rparr>))))"

text \<open>The link address of the default interface, \<open>None\<close> without an interface or address.\<close>

definition app_eip_serial_number :: "u8 list option \<Rightarrow> u32" where
  "app_eip_serial_number link_address =
     (case link_address of None \<Rightarrow> APP_EIP_SERIAL_NUMBER_FALLBACK
      | Some addr \<Rightarrow> if length addr < 6 then APP_EIP_SERIAL_NUMBER_FALLBACK else get_be32 addr 2)"

definition configure_cip_identity :: "u8 list option \<Rightarrow> u32 \<Rightarrow> eip_call list" where
  "configure_cip_identity link_address serial =
     (case link_address of None \<Rightarrow> []
      | Some addr \<Rightarrow> if 6 \<le> length addr then [Ethernet_link_set_mac (take 6 addr)] else [])
     @ [Set_serial_number serial, Set_product_name APP_IDENT_DEVICE_NAME]"

text \<open>The loop of the thread, over the answers of \<open>NetworkHandlerProcessCyclic\<close>. \<open>None\<close> when they run out.\<close>

fun eip_network_loop :: "eip_status list \<Rightarrow> eip_call list option" where
  "eip_network_loop [] = None"
| "eip_network_loop (status # rest) =
     (if status = kEipStatusOk
      then map_option ((@) [Network_handler_process, Handle_application]) (eip_network_loop rest)
      else Some [Network_handler_process])"

text \<open>The thread once an address is active. \<open>None\<close> as result means that it runs on.\<close>

definition eip_thread_fn ::
  "pton \<Rightarrow> net_cfg_data \<Rightarrow> u8 list option \<Rightarrow> u32 \<Rightarrow> eip_status \<Rightarrow> eip_status \<Rightarrow> eip_status list
     \<Rightarrow> g_tcpip \<Rightarrow> eip_call list option \<times> g_tcpip" where
  "eip_thread_fn pton active link_address cycles init_status network_status process_statuses g =
     (let serial = app_eip_serial_number link_address;
          unique_connection_id = ucast (cycles XOR serial) :: u16;
          calls = [Connection_list_initialize, Cip_stack_init unique_connection_id]
      in if init_status \<noteq> kEipStatusOk then (Some calls, g)
         else
           let calls = calls @ configure_cip_identity link_address serial;
               (ret, g) = configure_cip_network pton active g
           in if ret < 0 then (Some (calls @ [Shutdown_cip_stack]), g)
              else if network_status \<noteq> kEipStatusOk
              then (Some (calls @ [Network_handler_initialize, Shutdown_cip_stack]), g)
              else (map_option (\<lambda>cyclic. calls @ [Network_handler_initialize] @ cyclic
                      @ [Network_handler_finish, Shutdown_cip_stack]) (eip_network_loop process_statuses), g))"

definition app_eip_start :: "eip \<Rightarrow> int \<times> eip" where
  "app_eip_start s = (if eip_started s then (0, s) else (0, s\<lparr>eip_started := True\<rparr>))"

section \<open>The connection count\<close>

text \<open>The count as a natural number: it goes up with a connection opened on the two assemblies and down,
  not below 0, with any other event on them.\<close>

definition connections_after :: "u32 \<times> u32 \<times> io_connection_event \<Rightarrow> nat \<Rightarrow> nat" where
  "connections_after ev n = (case ev of (output_id, input_id, event) \<Rightarrow>
     if output_id = 100 \<and> input_id = 101
     then (if event = kIoConnectionEventOpened then n + 1 else n - 1) else n)"

definition run_io_events :: "(u32 \<times> u32 \<times> io_connection_event) list \<Rightarrow> eip \<Rightarrow> eip" where
  "run_io_events evs s = fold (\<lambda>(output_id, input_id, event). CheckIoConnectionEvent output_id input_id event) evs s"

lemma CheckIoConnectionEvent_count:
  assumes "unat (eip_io_connection_count s) = n" and "n + 1 < 2 ^ 31"
  shows "unat (eip_io_connection_count (CheckIoConnectionEvent i j event s)) = connections_after (i, j, event) n
     \<and> connections_after (i, j, event) n \<le> n + 1"
proof -
  let ?c = "eip_io_connection_count s"
  have p: "0 <s ?c \<longleftrightarrow> 0 < n"
  proof -
    have "sint ?c = int n"
    proof -
      have u: "uint ?c = int n" using assms(1) by (metis uint_nat)
      then have "signed_take_bit 31 (uint ?c) = uint ?c"
        using assms(2) by (intro signed_take_bit_int_eq_self) simp_all
      with u show ?thesis by (simp add: sint_uint)
    qed
    then show ?thesis by (simp add: word_sless_alt)
  qed
  have "unat (?c + 1) = n + 1" using assms by (simp add: unat_word_ariths)
  moreover have "unat (?c - 1) = n - 1" if "0 < n"
    using that assms(1) by (subst unat_sub) (simp_all add: word_le_nat_alt)
  ultimately show ?thesis
    using assms p by (auto simp: CheckIoConnectionEvent_def connections_after_def c_def)
qed

text \<open>The number of I/O connections never goes below 0 and counts the connections exactly, for any
  sequence of fewer than \<open>2 ^ 31\<close> connection events, in any order and for any assemblies.\<close>

theorem eip_connection_count_exact:
  assumes "length evs < 2 ^ 31"
  shows "unat (eip_io_connection_count (run_io_events evs eip_boot)) = fold connections_after evs 0"
proof -
  have "unat (eip_io_connection_count (run_io_events evs s)) = fold connections_after evs n"
    if "unat (eip_io_connection_count s) = n" "n + length evs < 2 ^ 31" for s n
    using that
  proof (induction evs arbitrary: s n)
    case (Cons ev evs)
    obtain i j event where ev: "ev = (i, j, event)" by (cases ev) auto
    show ?case
      using CheckIoConnectionEvent_count [OF Cons.prems(1), of i j event] Cons.prems(2)
        Cons.IH [of "CheckIoConnectionEvent i j event s" "connections_after ev n"]
      by (simp add: run_io_events_def ev)
  qed (simp add: run_io_events_def)
  from this [of eip_boot 0] assms show ?thesis by (simp add: eip_boot_def)
qed

theorem eip_connection_count_exact_witness:
  "unat (eip_io_connection_count (run_io_events
     [(100, 101, kIoConnectionEventOpened), (100, 101, kIoConnectionEventTimedOut),
      (100, 101, kIoConnectionEventClosed), (100, 101, kIoConnectionEventOpened)] eip_boot)) = 1"
  using eip_connection_count_exact [of "[(100, 101, kIoConnectionEventOpened), (100, 101, kIoConnectionEventTimedOut),
      (100, 101, kIoConnectionEventClosed), (100, 101, kIoConnectionEventOpened)]"]
  by (simp add: connections_after_def)

section \<open>Memory and the thread\<close>

lemma unat_numeral_u32_max: "unat (4294967295 :: u32) = 4294967295"
  by simp

text \<open>\<open>CipCalloc\<close> never hands out a block smaller than what was asked for: when it succeeds the block
  starts with \<open>number * size\<close> zero bytes, the product taken without overflow.\<close>

theorem cip_calloc_no_overflow:
  assumes "CipCalloc alloc number n = Some memory"
    and "\<And>k block. alloc k = Some block \<Longrightarrow> length block = unat k"
  shows "length memory = unat number * unat n \<and> memory = replicate (unat number * unat n) 0"
proof -
  have le: "unat number * unat n < 2 ^ 32"
  proof (cases "n = 0")
    case False
    then have "0 < unat n" by (simp add: unat_gt_0)
    have "number \<le> (- 1) div n" using assms(1) False by (auto simp: CipCalloc_def not_less split: if_splits)
    then have "unat number \<le> unat (- 1 :: u32) div unat n" by (simp add: word_le_nat_alt unat_div)
    also have "\<dots> = 4294967295 div unat n"
    proof -
      have "(- 1 :: u32) = 4294967295" by simp
      then show ?thesis by (metis unat_numeral_u32_max)
    qed
    finally have "unat number * unat n \<le> 4294967295"
      using \<open>0 < unat n\<close> by (simp add: less_eq_div_iff_mult_less_eq)
    then show ?thesis by simp
  qed simp
  then have "unat (number * n) = unat number * unat n" by (simp add: unat_word_ariths)
  then show ?thesis
    using assms by (auto simp: CipCalloc_def Let_def split: if_splits option.splits)
qed

theorem cip_calloc_no_overflow_witness:
  "CipCalloc (\<lambda>k. Some (replicate (unat k) 7)) 3 4 = Some (replicate 12 0)
     \<and> CipCalloc (\<lambda>k. Some (replicate (unat k) 7)) 0x40000001 4 = None"
proof -
  let ?alloc = "\<lambda>k :: u32. Some (replicate (unat k) (7 :: u8))"
  obtain memory where m: "CipCalloc ?alloc 3 4 = Some memory" by (simp add: CipCalloc_def Let_def)
  then have "memory = replicate (unat (3 :: u32) * unat (4 :: u32)) 0"
    using cip_calloc_no_overflow [OF m] by auto
  with m show ?thesis by (simp add: CipCalloc_def Let_def)
qed

lemma eip_network_loop_calls:
  "eip_network_loop ss = Some calls \<Longrightarrow> Shutdown_cip_stack \<notin> set calls \<and> Network_handler_finish \<notin> set calls"
  by (induction ss arbitrary: calls) (auto split: if_splits)

lemma configure_cip_identity_calls: "Shutdown_cip_stack \<notin> set (configure_cip_identity a serial)"
  by (auto simp: configure_cip_identity_def split: option.splits)

text \<open>Whenever the EtherNet/IP thread ends, the CIP stack it started has been shut down, once and
  last; a stack whose start failed is not shut down.\<close>

theorem eip_thread_shuts_down:
  assumes "eip_thread_fn pton active link cycles init_status network_status statuses g = (Some calls, g')"
  shows "if init_status = kEipStatusOk
     then last calls = Shutdown_cip_stack \<and> Shutdown_cip_stack \<notin> set (butlast calls)
     else Shutdown_cip_stack \<notin> set calls"
  using assms configure_cip_identity_calls [of link "app_eip_serial_number link"]
  by (auto simp: eip_thread_fn_def Let_def case_prod_beta butlast_append split: if_splits
      dest!: eip_network_loop_calls)

theorem eip_thread_shuts_down_witness:
  "last (the (fst (eip_thread_fn pton_example \<lparr>nd_mode = 1, nd_ip = ''192.168.0.3'', nd_mask = ''255.255.255.0'',
       nd_gw = ''192.168.0.1''\<rparr> None 0 kEipStatusOk kEipStatusError []
       \<lparr>tcpip_ip_address = 0, tcpip_network_mask = 0, tcpip_gateway = 0,
        tcpip_config_control = kTcpipCfgCtrlDhcp, tcpip_hostname = []\<rparr>))) = Shutdown_cip_stack"
proof -
  let ?r = "eip_thread_fn pton_example \<lparr>nd_mode = 1, nd_ip = ''192.168.0.3'', nd_mask = ''255.255.255.0'',
       nd_gw = ''192.168.0.1''\<rparr> None 0 kEipStatusOk kEipStatusError []
       \<lparr>tcpip_ip_address = 0, tcpip_network_mask = 0, tcpip_gateway = 0,
        tcpip_config_control = kTcpipCfgCtrlDhcp, tcpip_hostname = []\<rparr>"
  have "fst ?r \<noteq> None" by (simp add: eip_thread_fn_def Let_def case_prod_beta)
  then obtain calls g' where "?r = (Some calls, g')" by (cases ?r) auto
  then show ?thesis using eip_thread_shuts_down by fastforce
qed

section \<open>The assemblies and the scanner window\<close>

lemma output_assembly_loop_inv: "modbus_inv w \<Longrightarrow> modbus_inv (snd (output_assembly_loop es out i n w))"
  by (induction n arbitrary: i w) (simp_all add: Let_def case_prod_beta scanner_output_wr_inv)

lemma input_assembly_loop_inv: "modbus_inv w \<Longrightarrow> modbus_inv (snd (input_assembly_loop es i n buf w))"
  by (induction n arbitrary: i buf w) (simp_all add: Let_def case_prod_beta scanner_input_rd_inv)

lemma eip_data_inv:
  "modbus_inv w \<Longrightarrow> modbus_inv (snd (AfterAssemblyDataReceived es k s w))"
  "modbus_inv w \<Longrightarrow> modbus_inv (snd (snd (BeforeAssemblyDataSend es k s w)))"
  by (simp_all add: AfterAssemblyDataReceived_def BeforeAssemblyDataSend_def output_assembly_loop_inv
      input_assembly_loop_inv case_prod_beta)

text \<open>A read changes the scanner's diagnostics only, and these do not show in the words.\<close>

lemma scanner_input_rd_keeps:
  "m7_modbus (snd (scanner_input_rd e a w)) = m7_modbus w" "m7_link (snd (scanner_input_rd e a w)) = m7_link w"
  "m7_net (snd (scanner_input_rd e a w)) = m7_net w"
  "sc_input_local_regs (m7_scanner (snd (scanner_input_rd e a w))) = sc_input_local_regs (m7_scanner w)"
  by (simp_all add: scanner_input_rd_def app_modbus_scanner_input_reg_rd_def case_prod_beta Let_def split: sum.split)

lemma holding_reg_rd_cong:
  "m7_modbus w' = m7_modbus w \<Longrightarrow> m7_link w' = m7_link w \<Longrightarrow> holding_reg_rd e w' = holding_reg_rd e w"
  by (simp add: holding_reg_rd_def motor_state_reg_read_def reg_get_def fun_eq_iff)

lemma scanner_input_rd_cong:
  assumes "m7_modbus w' = m7_modbus w" and "m7_link w' = m7_link w"
    and "sc_input_local_regs (m7_scanner w') = sc_input_local_regs (m7_scanner w)"
  shows "fst (scanner_input_rd e a w') = fst (scanner_input_rd e a w)"
  using holding_reg_rd_cong [OF assms(1,2), of e] assms(3)
  by (simp add: scanner_input_rd_def app_modbus_scanner_input_reg_rd_def scanner_map_rd_def case_prod_beta
      Let_def split: sum.split)

lemma input_assembly_loop_word:
  assumes "length buf = 10" and "i + n \<le> 5"
  shows "length (fst (input_assembly_loop es i n buf w)) = 10
     \<and> (k < 5 \<longrightarrow> get_le16 (fst (input_assembly_loop es i n buf w)) (2 * k) =
       (if i \<le> k \<and> k < i + n then value_or_zero (fst (scanner_input_rd (es k) (of_nat k) w))
        else get_le16 buf (2 * k)))"
  using assms
proof (induction n arbitrary: i buf w)
  case (Suc n)
  let ?r = "scanner_input_rd (es i) (of_nat i) w"
  let ?v = "value_or_zero (fst ?r)"
  let ?b = "buf[i * 2 := ucast ?v, i * 2 + 1 := ucast (drop_bit 8 ?v)]"
  have same: "fst (scanner_input_rd (es k) (of_nat k) (snd ?r)) = fst (scanner_input_rd (es k) (of_nat k) w)"
    by (rule scanner_input_rd_cong) (simp_all add: scanner_input_rd_keeps)
  have g: "k < 5 \<Longrightarrow> get_le16 ?b (2 * k) = (if k = i then ?v else get_le16 buf (2 * k))"
  proof (cases "k = i")
    case True
    assume "k < 5"
    have "get_le16 ?b (2 * i) = get_le16 (take (2 * i) buf @ le16 ?v @ []) (2 * i)"
      using Suc.prems by (simp add: get_le16_def le16_def nth_append mult.commute [of i 2] min_def)
    then show ?thesis
      using Suc.prems True get_le16_append [of "2 * i" "take (2 * i) buf" ?v "[]"] by simp
  next
    case False
    then have "2 * k \<noteq> 2 * i" "2 * k + 1 \<noteq> 2 * i" "2 * k \<noteq> 2 * i + 1" by presburger+
    with False show ?thesis by (simp add: get_le16_def mult.commute [of i 2])
  qed
  have s: "input_assembly_loop es i (Suc n) buf w = input_assembly_loop es (i + 1) n ?b (snd ?r)"
    by (simp add: Let_def case_prod_beta)
  have "length ?b = 10" "i + 1 + n \<le> 5" using Suc.prems by simp_all
  from Suc.IH [OF this, where w = "snd ?r"] same g show ?case
    unfolding s by (cases "k = i") auto
qed auto

text \<open>C35. The input assembly is the scanner's input window: after \<open>BeforeAssemblyDataSend\<close> each of its five
  little-endian words is what a Modbus client of Unit-ID 2 reads at that address, or 0 where that read
  fails, and the registers and the link are untouched. Other assemblies change nothing.\<close>

theorem eip_input_assembly_words:
  assumes "length (eip_input_assembly s) = 10" and "k < 5"
    and "(r, s', w') = BeforeAssemblyDataSend es instance_number s w"
  shows "if instance_number = 101
     then length (eip_input_assembly s') = 10
       \<and> get_le16 (eip_input_assembly s') (2 * k)
         = value_or_zero (fst (scanner_input_rd (es k) (of_nat k) w))
       \<and> m7_modbus w' = m7_modbus w \<and> m7_link w' = m7_link w
     else s' = s \<and> w' = w"
proof -
  have keeps: "m7_modbus (snd (input_assembly_loop es i n buf w)) = m7_modbus w
      \<and> m7_link (snd (input_assembly_loop es i n buf w)) = m7_link w" for i n buf w
    by (induction n arbitrary: i buf w) (simp_all add: Let_def case_prod_beta scanner_input_rd_keeps)
  show ?thesis
    using assms(3) input_assembly_loop_word [OF assms(1), of 0 5 es w k] assms(2) keeps
    by (auto simp: BeforeAssemblyDataSend_def c_def case_prod_beta)
qed

theorem eip_input_assembly_words_witness:
  "get_le16 (eip_input_assembly (fst (snd (BeforeAssemblyDataSend (\<lambda>_. m7_env_example) 101 eip_boot m7_boot)))) 4 = 0x747"
proof -
  obtain r s' w' where b: "(r, s', w') = BeforeAssemblyDataSend (\<lambda>_. m7_env_example) 101 eip_boot m7_boot"
    by (metis prod.exhaust)
  have "value_or_zero (fst (scanner_input_rd m7_env_example 2 m7_boot)) = 0x747"
    by (simp add: value_or_zero_def scanner_input_rd_def app_modbus_scanner_input_reg_rd_def scanner_map_rd_def
        holding_reg_rd_def m7_boot_def modbus_boot_def scanner_boot_def reg_get_def c_def is_motor_state_addr_def Let_def)
  with eip_input_assembly_words [OF _ _ b, of 2] b [symmetric] show ?thesis
    by (simp add: eip_boot_def c_def)
qed

text \<open>An output word that is kept locally or mapped to a plain register.\<close>

lemma reg_get_scanner [simp]: "reg_get a (w\<lparr>m7_scanner := s\<rparr>) = reg_get a w"
  by (simp add: reg_get_def)

lemma scanner_output_wr_stores:
  assumes "modbus_inv w" and "addr < 5"
    and "reg_get (APP_MB_HREG_SCANNER_OUTPUT_MAP_BASE + addr) w = target"
    and "target = APP_MB_SCAN_MAP_FREE \<or> (unat target < 60 \<and> \<not> is_read_only_addr target
       \<and> reg_value_ok target reg \<and> target \<noteq> APP_MB_HREG_MOTOR_APPLY \<and> target \<noteq> APP_MB_HREG_COMMAND)"
  shows "\<exists>sc. scanner_output_wr e addr reg w
     = (0, (if target = APP_MB_SCAN_MAP_FREE then w else reg_set target reg w)\<lparr>m7_scanner := sc\<rparr>)
    \<and> sc_output_local_regs sc = (if target = APP_MB_SCAN_MAP_FREE
        then (sc_output_local_regs (m7_scanner w))[unat addr := reg] else sc_output_local_regs (m7_scanner w))"
proof -
  have rd: "holding_reg_rd e w (APP_MB_HREG_SCANNER_OUTPUT_MAP_BASE + addr) = Inr target"
    using assms(2,3) by (simp add: holding_reg_rd_plain unat_map_addr register_classes word_less_nat_alt)
  have c: "\<not> APP_MODBUS_SCANNER_OUTPUT_REG_COUNT \<le> addr" using assms(2) by (simp add: c_def not_le)
  show ?thesis
  proof (cases "target = APP_MB_SCAN_MAP_FREE")
    case True
    then show ?thesis using rd c
      by (intro exI [of _ "update_access_diag (me_now e) addr True 0
            ((m7_scanner w)\<lparr>sc_output_local_regs := (sc_output_local_regs (m7_scanner w))[unat addr := reg]\<rparr>)"])
        (simp add: scanner_output_wr_def app_modbus_scanner_output_reg_wr_def scanner_map_rd_def)
  next
    case False
    with assms(4) have "holding_reg_wr e target reg w = (0, reg_set target reg w)"
      by (intro holding_reg_wr_plain) auto
    with False assms(4) rd c show ?thesis
      by (intro exI [of _ "update_access_diag (me_now e) addr True 0 (m7_scanner w)"])
        (simp add: scanner_output_wr_def app_modbus_scanner_output_reg_wr_def scanner_map_rd_def Let_def)
  qed
qed

text \<open>The mapping of the output window the server starts with: control, duty, \<open>APPLY\<close> and two words of
  application data.\<close>

definition default_output_mapping :: "m7 \<Rightarrow> bool" where
  "default_output_mapping w \<longleftrightarrow> reg_get 45 w = APP_MB_HREG_MOTOR_CONTROL
     \<and> reg_get 46 w = APP_MB_HREG_MOTOR_TARGET_DUTY \<and> reg_get 47 w = APP_MB_HREG_MOTOR_APPLY
     \<and> reg_get 48 w = APP_MB_SCAN_MAP_FREE \<and> reg_get 49 w = APP_MB_SCAN_MAP_FREE"

lemma init_mapping_default:
  assumes "length (mb_holding_regs (m7_modbus w)) = 60"
  shows "default_output_mapping (init_scanner_mapping_defaults w)"
proof -
  have "[2..<5] = [2, 3, 4 :: nat]" "[3..<5] = [3, 4 :: nat]" by (simp_all add: upt_rec)
  then show ?thesis
    using assms by (simp add: default_output_mapping_def init_scanner_mapping_defaults_def Let_def)
      (simp add: reg_get_set c_def)
qed

lemma output_assembly_loop_5:
  "output_assembly_loop es out 0 5 w =
     (let (ret, w) = scanner_output_wr (es 0) 0 (get_le16 out 0) w
      in if ret < 0 then (kEipStatusError, w) else (let (ret, w) = scanner_output_wr (es 1) 1 (get_le16 out 2) w
      in if ret < 0 then (kEipStatusError, w) else (let (ret, w) = scanner_output_wr (es 2) 2 (get_le16 out 4) w
      in if ret < 0 then (kEipStatusError, w) else (let (ret, w) = scanner_output_wr (es 3) 3 (get_le16 out 6) w
      in if ret < 0 then (kEipStatusError, w) else (let (ret, w) = scanner_output_wr (es 4) 4 (get_le16 out 8) w
      in if ret < 0 then (kEipStatusError, w) else (kEipStatusOk, w))))))"
  by (simp add: numeral_eq_Suc Let_def cong: if_cong prod.case_cong)

text \<open>C22. An output assembly commands the motor. With the mapping the server starts with, a received
  assembly whose third word is 1 sets the motor's control and duty registers to its first two words,
  claims remote mode and submits exactly one command, with that control and duty and the ramps and
  timeout of the registers, marked as a remote one. OpENer is told an error exactly when the submission
  failed; otherwise the fourth and fifth word, which are mapped to no register, are the scanner's local
  output words 3 and 4, and no other local word changes.\<close>

theorem eip_output_commands_motor:
  assumes "modbus_inv w" and "default_output_mapping w"
    and "eip_output_assembly s = le16_words [control, duty, 1, x, y]"
    and "(status, w') = AfterAssemblyDataReceived es 100 s w"
    and "(ret, sent, link) = app_ipc_motor_submit (me_send (es 2)) (Some ((motor_command_of_regs w)
           \<lparr>mc_control := control, mc_duty_permille := duty, mc_remote := True\<rparr>)) (m7_link w)"
  shows "m7_link w' = link \<and> (status = kEipStatusError \<longleftrightarrow> ret < 0)
     \<and> reg_get APP_MB_HREG_MOTOR_MODE w' = APP_MB_MOTOR_MODE_REMOTE
     \<and> reg_get APP_MB_HREG_MOTOR_CONTROL w' = control \<and> reg_get APP_MB_HREG_MOTOR_TARGET_DUTY w' = duty
     \<and> sc_output_local_regs (m7_scanner w') = (if ret < 0 then sc_output_local_regs (m7_scanner w)
          else (sc_output_local_regs (m7_scanner w))[3 := x, 4 := y])"
proof -
  have len: "length (mb_holding_regs (m7_modbus w)) = 60" using modbus_inv_length [OF assms(1)] .
  have words: "get_le16 (eip_output_assembly s) 0 = control" "get_le16 (eip_output_assembly s) 2 = duty"
    "get_le16 (eip_output_assembly s) 4 = 1" "get_le16 (eip_output_assembly s) 6 = x"
    "get_le16 (eip_output_assembly s) 8 = y"
    using get_le16_append [of 6 "le16 control @ le16 duty @ le16 1" x]
      get_le16_append [of 8 "le16 control @ le16 duty @ le16 1 @ le16 x" y "[]"] get_le16_append [of 0 "[]" control] get_le16_append [of 2 "le16 control" duty]
      get_le16_append [of 4 "le16 control @ le16 duty" 1]
    by (simp_all add: assms(3) le16_words_def)
  have map: "reg_get (APP_MB_HREG_SCANNER_OUTPUT_MAP_BASE + 0) w = APP_MB_HREG_MOTOR_CONTROL"
    "reg_get (APP_MB_HREG_SCANNER_OUTPUT_MAP_BASE + 1) w = APP_MB_HREG_MOTOR_TARGET_DUTY"
    "reg_get (APP_MB_HREG_SCANNER_OUTPUT_MAP_BASE + 2) w = APP_MB_HREG_MOTOR_APPLY"
    "reg_get (APP_MB_HREG_SCANNER_OUTPUT_MAP_BASE + 3) w = APP_MB_SCAN_MAP_FREE"
    "reg_get (APP_MB_HREG_SCANNER_OUTPUT_MAP_BASE + 4) w = APP_MB_SCAN_MAP_FREE"
    using assms(2) by (simp_all add: default_output_mapping_def APP_MB_HREG_SCANNER_OUTPUT_MAP_BASE_def)
  obtain sc0 where w1: "scanner_output_wr (es 0) 0 control w
      = (0, (reg_set APP_MB_HREG_MOTOR_CONTROL control w)\<lparr>m7_scanner := sc0\<rparr>)" (is "_ = (0, ?w1)")
    and local1: "sc_output_local_regs sc0 = sc_output_local_regs (m7_scanner w)"
    using scanner_output_wr_stores [OF assms(1) _ map(1), of control "es 0"]
    by (auto simp: c_def register_classes reg_value_ok_plain)
  have inv1: "modbus_inv ?w1" using scanner_output_wr_inv [OF assms(1), of "es 0" 0 control] w1 by simp
  have "reg_get (APP_MB_HREG_SCANNER_OUTPUT_MAP_BASE + 1) ?w1 = APP_MB_HREG_MOTOR_TARGET_DUTY"
    using map(2) by (simp add: c_def reg_get_set len)
  then obtain sc1 where w2: "scanner_output_wr (es 1) 1 duty ?w1
      = (0, (reg_set APP_MB_HREG_MOTOR_TARGET_DUTY duty ?w1)\<lparr>m7_scanner := sc1\<rparr>)" (is "_ = (0, ?w2)")
    and local2: "sc_output_local_regs sc1 = sc_output_local_regs sc0"
    using scanner_output_wr_stores [OF inv1, of 1 _ duty "es 1"]
    by (auto simp: c_def register_classes reg_value_ok_plain)
  have inv2: "modbus_inv ?w2" using scanner_output_wr_inv [OF inv1, of "es 1" 1 duty] w2 by simp
  have apply2: "reg_get (APP_MB_HREG_SCANNER_OUTPUT_MAP_BASE + 2) ?w2 = APP_MB_HREG_MOTOR_APPLY"
    using map(3) len by (simp add: c_def reg_get_set)
  have c: "(motor_command_of_regs ?w2)\<lparr>mc_remote := True\<rparr>
      = (motor_command_of_regs w)\<lparr>mc_control := control, mc_duty_permille := duty, mc_remote := True\<rparr>"
    using len by (simp add: motor_command_of_regs_def c_def reg_get_set)
  obtain r w3 where w3: "(r, w3) = scanner_output_wr (es 2) 2 1 ?w2" by (metis prod.exhaust)
  have three: "r = min ret 0" "m7_link w3 = link" "reg_get APP_MB_HREG_MOTOR_MODE w3 = APP_MB_MOTOR_MODE_REMOTE"
    using scanner_apply_effect [OF inv2 _ apply2 w3] assms(5) [symmetric] unfolding c by simp_all
  have keeps: "sc_output_local_regs (m7_scanner w3) = sc_output_local_regs (m7_scanner ?w2)"
    "a \<notin> {10, 12, 17, 18} \<Longrightarrow> reg_get a w3 = reg_get a ?w2" for a
    using scanner_apply_keeps(1) [where e = "es 2" and reg = 1, OF modbus_inv_length [OF inv2] _ apply2]
      scanner_apply_keeps(2) [where e = "es 2" and reg = 1 and a = a, OF modbus_inv_length [OF inv2] _ apply2]
      w3 [symmetric]
    by (simp_all add: c_def)
  have inv3: "modbus_inv w3" using scanner_output_wr_inv [OF inv2, of "es 2" 2 1] w3 [symmetric] by simp
  have regs3: "reg_get APP_MB_HREG_MOTOR_CONTROL w3 = control" "reg_get APP_MB_HREG_MOTOR_TARGET_DUTY w3 = duty"
    using keeps(2) [of 11] keeps(2) [of 13] len by (simp_all add: c_def reg_get_set)
  have free: "reg_get (APP_MB_HREG_SCANNER_OUTPUT_MAP_BASE + 3) w3 = APP_MB_SCAN_MAP_FREE"
    "reg_get (APP_MB_HREG_SCANNER_OUTPUT_MAP_BASE + 4) w3 = APP_MB_SCAN_MAP_FREE"
    using map(4,5) keeps(2) [of 48] keeps(2) [of 49] len by (simp_all add: c_def reg_get_set)
  obtain sc3 where w4: "scanner_output_wr (es 3) 3 x w3 = (0, w3\<lparr>m7_scanner := sc3\<rparr>)"
    and local4: "sc_output_local_regs sc3 = (sc_output_local_regs (m7_scanner w3))[3 := x]"
    using scanner_output_wr_stores [OF inv3 _ free(1), of x "es 3"] by auto
  have inv4: "modbus_inv (w3\<lparr>m7_scanner := sc3\<rparr>)" using scanner_output_wr_inv [OF inv3] w4 by (metis snd_conv)
  obtain sc4 where w5: "scanner_output_wr (es 4) 4 y (w3\<lparr>m7_scanner := sc3\<rparr>) = (0, w3\<lparr>m7_scanner := sc4\<rparr>)"
    and local5: "sc_output_local_regs sc4 = (sc_output_local_regs sc3)[4 := y]"
    using scanner_output_wr_stores [OF inv4, of 4 APP_MB_SCAN_MAP_FREE y "es 4"] free(2) by auto
  have run: "AfterAssemblyDataReceived es 100 s w
      = (if r < 0 then (kEipStatusError, w3) else (kEipStatusOk, w3\<lparr>m7_scanner := sc4\<rparr>))"
    using w1 w2 w3 [symmetric] w4 w5
    by (simp add: AfterAssemblyDataReceived_def APP_EIP_OUTPUT_ASSEMBLY_def APP_EIP_ASSEMBLY_WORD_COUNT_def
        words output_assembly_loop_5)
  have locals: "sc_output_local_regs (m7_scanner w3) = sc_output_local_regs (m7_scanner w)"
    "sc_output_local_regs sc4 = (sc_output_local_regs (m7_scanner w))[3 := x, 4 := y]"
    by (simp_all add: local1 local2 local4 local5 keeps(1))
  have scan: "reg_get a (w3\<lparr>m7_scanner := sc\<rparr>) = reg_get a w3" for a sc by (simp add: reg_get_def)
  show ?thesis
    using assms(4) run three regs3 locals by (simp add: scan min_def split: if_splits)
qed

text \<open>The state after start with the inter-core endpoint bound.\<close>

definition m7_scan_bound0 :: m7 where
  "m7_scan_bound0 = (init_scanner_mapping_defaults m7_boot)
     \<lparr>m7_link := m7_ipc_boot\<lparr>m7_endpoint_initialized := True, m7_endpoint_is_bound := True\<rparr>\<rparr>"

lemma m7_scan_bound0_inv: "modbus_inv m7_scan_bound0"
  unfolding m7_scan_bound0_def
  by (intro modbus_inv_link init_scanner_mapping_inv modbus_boot_inv)
    (simp add: m7_command_ok_cong [OF refl, of m7_ipc_boot] m7_command_ok_def m7_ipc_boot_def c_def)

lemma m7_scan_bound0_mapping: "default_output_mapping m7_scan_bound0"
  using init_mapping_default [OF modbus_inv_length [OF modbus_boot_inv]]
  by (simp add: m7_scan_bound0_def default_output_mapping_def)

lemma m7_scan_bound0_regs:
  "40 \<le> unat a \<and> unat a < 50 \<or> reg_get a m7_scan_bound0 = reg_get a m7_boot"
  using modbus_inv_length [OF modbus_boot_inv]
  by (simp add: m7_scan_bound0_def init_scanner_mapping_defaults_def Let_def upt_rec numeral_eq_Suc)
    (auto simp: reg_get_set c_def)

theorem eip_output_commands_motor_witness:
  "fst (AfterAssemblyDataReceived (\<lambda>_. m7_env_example) 100
     (eip_boot\<lparr>eip_output_assembly := le16_words [3, 900, 1, 0, 0]\<rparr>) m7_scan_bound0) = kEipStatusOk"
proof -
  let ?s = "eip_boot\<lparr>eip_output_assembly := le16_words [3, 900, 1, 0, 0]\<rparr>"
  obtain status w' where a: "(status, w') = AfterAssemblyDataReceived (\<lambda>_. m7_env_example) 100 ?s m7_scan_bound0"
    by (metis prod.exhaust)
  obtain ret sent link where s: "(ret, sent, link) = app_ipc_motor_submit (me_send m7_env_example)
      (Some ((motor_command_of_regs m7_scan_bound0)
           \<lparr>mc_control := 3, mc_duty_permille := 900, mc_remote := True\<rparr>)) (m7_link m7_scan_bound0)"
    by (metis prod.exhaust)
  have "reg_get 14 m7_scan_bound0 = 1000" "reg_get 15 m7_scan_bound0 = 4000" "reg_get 16 m7_scan_bound0 = 1000"
    using m7_scan_bound0_regs [of 14] m7_scan_bound0_regs [of 15] m7_scan_bound0_regs [of 16]
    by (simp_all add: m7_boot_def modbus_boot_def reg_get_def c_def)
  then have "0 \<le> ret"
    using s by (simp add: motor_command_of_regs_def c_def app_ipc_motor_submit_def send_remote_command_locked_def
        m7_scan_bound0_def Let_def case_prod_beta m7_env_example_def ipc_send_loop_success split: if_splits)
  with eip_output_commands_motor [OF m7_scan_bound0_inv m7_scan_bound0_mapping _ a s] a [symmetric] show ?thesis
    by (cases status) auto
qed

end
