(* ===== verification/Opener_Port.thy ===== *)
theory Opener_Port
  imports App_Eip
begin

unbundle bit_operations_syntax

text \<open>
  The port of OpENer to Zephyr: the clock and socket functions of \<open>app_m7/src/protocols/eip/opener_zephyr_port.c\<close>,
  the names \<open>platform_network_includes.h\<close> redirects, the configuration of the stack (\<open>opener_user_conf.h\<close>) and
  the identity of the device (\<open>devicedata.h\<close>).

  Each socket function is its result and the calls it makes on Zephyr's sockets, whose answers are arguments.
  \<open>MicroSeconds\<close> and \<open>MilliSeconds\<close> are types of OpENer, a submodule: the clock functions return words of any
  length. Zephyr's conversion of ticks is an argument too.
\<close>

datatype sock_level = SOL_SOCKET | IPPROTO_IP | Other_level
datatype sock_option = SO_BROADCAST | IP_MULTICAST_IF | IP_TOS | Other_option

text \<open>A value handed to \<open>zsock_setsockopt\<close>: the caller's bytes, or Zephyr's \<open>struct net_ip_mreq\<close> with the
  group and the interface.\<close>

datatype option_value = Option_bytes "u8 list" | Ip_mreq "u8 list" "u8 list"

datatype sock_call =
    Zsock_socket nat nat nat
  | Zsock_setsockopt int sock_level sock_option "option_value option" nat
  | Zsock_bind int
  | Zsock_listen int int
  | Zsock_shutdown int
  | Zsock_close int
  | Zsock_set_nonblock int

definition sizeof_net_in_addr :: nat where "sizeof_net_in_addr = 4"
definition sizeof_net_ip_mreq :: nat where "sizeof_net_ip_mreq = 8"

definition NetworkHandlerInitializePlatform :: int where
  "NetworkHandlerInitializePlatform = 0"

definition app_eip_socket :: "int \<Rightarrow> nat \<Rightarrow> nat \<Rightarrow> nat \<Rightarrow> int \<times> sock_call list" where
  "app_eip_socket answer fam ty protocol = (answer, [Zsock_socket fam ty protocol])"

text \<open>\<open>option_bytes\<close> is what \<open>option_value\<close> points to, \<open>None\<close> for \<open>NULL\<close>.\<close>

definition app_eip_setsockopt ::
  "int \<Rightarrow> int \<Rightarrow> sock_level \<Rightarrow> sock_option \<Rightarrow> u8 list option \<Rightarrow> nat \<Rightarrow> int \<times> sock_call list" where
  "app_eip_setsockopt answer sock level option_name option_bytes option_length =
     (if level = SOL_SOCKET \<and> option_name = SO_BROADCAST then (0, [])
      else if level = IPPROTO_IP \<and> option_name = IP_MULTICAST_IF \<and> option_bytes \<noteq> None
              \<and> option_length = sizeof_net_in_addr
      then (answer, [Zsock_setsockopt sock level option_name
              (map_option (\<lambda>b. Ip_mreq (replicate 4 0) (take sizeof_net_in_addr b)) option_bytes) sizeof_net_ip_mreq])
      else (answer, [Zsock_setsockopt sock level option_name (map_option Option_bytes option_bytes) option_length]))"

definition app_eip_bind :: "int \<Rightarrow> int \<Rightarrow> int \<times> sock_call list" where
  "app_eip_bind answer sock = (answer, [Zsock_bind sock])"

definition app_eip_listen :: "int \<Rightarrow> int \<Rightarrow> int \<Rightarrow> int \<times> sock_call list" where
  "app_eip_listen answer sock backlog = (answer, [Zsock_listen sock backlog])"

definition ShutdownSocketPlatform :: "int \<Rightarrow> sock_call list" where
  "ShutdownSocketPlatform sock = [Zsock_shutdown sock]"

definition CloseSocketPlatform :: "int \<Rightarrow> sock_call list" where
  "CloseSocketPlatform sock = [Zsock_close sock]"

definition SetSocketToNonBlocking :: "int \<Rightarrow> int \<Rightarrow> int \<times> sock_call list" where
  "SetSocketToNonBlocking answer sock = (answer, [Zsock_set_nonblock sock])"

definition SetQosOnSocket :: "int \<Rightarrow> int \<Rightarrow> u8 \<Rightarrow> int \<times> sock_call list" where
  "SetQosOnSocket answer sock qos_value =
     (let tos = push_bit 2 qos_value
      in (answer, [Zsock_setsockopt sock IPPROTO_IP IP_TOS (Some (Option_bytes [tos])) 1]))"

text \<open>The type-of-service byte carries the DSCP value in its six upper bits: for the 64 DSCP values it
  is the value times four, from which the value reads back; a larger value loses its upper bits.\<close>

theorem qos_byte_carries_dscp:
  "SetQosOnSocket answer sock q = (answer, [Zsock_setsockopt sock IPPROTO_IP IP_TOS (Some (Option_bytes [tos])) 1])
   \<Longrightarrow> unat tos = 4 * (unat q mod 64) \<and> (drop_bit 2 tos = q \<longleftrightarrow> unat q < 64)"
proof -
  assume "SetQosOnSocket answer sock q = (answer, [Zsock_setsockopt sock IPPROTO_IP IP_TOS (Some (Option_bytes [tos])) 1])"
  then have tos: "tos = push_bit 2 q" by (simp add: SetQosOnSocket_def)
  have "unat tos = unat q * 4 mod 256"
    by (simp add: tos push_bit_eq_mult unat_word_ariths)
  also have "\<dots> = 4 * (unat q mod 64)"
    using mult_mod_right[of 4 "unat q" 64] by (simp add: mult.commute)
  finally have u: "unat tos = 4 * (unat q mod 64)" .
  have "unat (drop_bit 2 tos) = unat q mod 64"
    by (simp add: unsigned_drop_bit_eq drop_bit_eq_div u unat_div_distrib)
  then have "drop_bit 2 tos = q \<longleftrightarrow> unat q mod 64 = unat q" by (metis word_unat_eq_iff)
  also have "\<dots> \<longleftrightarrow> unat q < 64" by (metis mod_less mod_less_divisor zero_less_numeral)
  finally show ?thesis using u by simp
qed

lemma qos_byte_carries_dscp_witness:
  "SetQosOnSocket 0 5 46 = (0, [Zsock_setsockopt 5 IPPROTO_IP IP_TOS (Some (Option_bytes [184])) 1])
   \<and> drop_bit 2 (184 :: u8) = 46"
proof -
  have s: "SetQosOnSocket 0 5 46 = (0, [Zsock_setsockopt 5 IPPROTO_IP IP_TOS (Some (Option_bytes [184])) 1])"
    by (simp add: SetQosOnSocket_def)
  from s qos_byte_carries_dscp[OF s] show ?thesis by simp
qed

text \<open>The two adaptations of \<open>setsockopt\<close>: a broadcast permission is not passed on, and an interface
  address becomes Zephyr's request structure with no group.\<close>

lemma setsockopt_adapted:
  "app_eip_setsockopt answer sock SOL_SOCKET SO_BROADCAST v n = (0, [])"
  "length addr = 4 \<Longrightarrow> app_eip_setsockopt answer sock IPPROTO_IP IP_MULTICAST_IF (Some addr) 4
     = (answer, [Zsock_setsockopt sock IPPROTO_IP IP_MULTICAST_IF (Some (Ip_mreq [0, 0, 0, 0] addr)) 8])"
  by (simp_all add: app_eip_setsockopt_def sizeof_net_in_addr_def sizeof_net_ip_mreq_def numeral_eq_Suc)

section \<open>The clock\<close>

text \<open>\<open>ticks_to_us\<close> is \<open>k_ticks_to_us_floor64\<close>; \<open>uptime_ticks\<close> and \<open>uptime_ms\<close> are the answers of
  \<open>k_uptime_ticks\<close> and \<open>k_uptime_get\<close>.\<close>

definition GetMicroSeconds :: "(64 word \<Rightarrow> 64 word) \<Rightarrow> 64 word \<Rightarrow> 'a::len word" where
  "GetMicroSeconds ticks_to_us uptime_ticks = ucast (ticks_to_us uptime_ticks)"

definition GetMilliSeconds :: "64 word \<Rightarrow> 'a::len word" where
  "GetMilliSeconds uptime_ms = ucast uptime_ms"

text \<open>Cutting the 64-bit clock to OpENer's type does no harm to elapsed times: whatever the length of
  \<open>MilliSeconds\<close>, the difference of two readings is the time between them as long as that fits the type, also
  when the type's clock has wrapped round in between.\<close>

theorem opener_clock_elapsed:
  fixes before after :: "64 word"
  assumes "before \<le> after" and "unat (after - before) < 2 ^ LENGTH('a)"
  shows "unat (GetMilliSeconds after - GetMilliSeconds before :: 'a::len word) = unat (after - before)"
proof -
  have d: "int (unat (after - before)) = uint after - uint before"
    using assms(1) uint_sub_lem [of before after] by (simp only: word_le_def uint_nat [symmetric])
  have "(GetMilliSeconds after - GetMilliSeconds before :: 'a word) = word_of_int (int (unat (after - before)))"
    unfolding d by (simp only: GetMilliSeconds_def ucast_eq wi_hom_sub)
  then have "(GetMilliSeconds after - GetMilliSeconds before :: 'a word) = word_of_nat (unat (after - before))" by simp
  then show ?thesis using assms(2) by (simp only: unat_of_nat mod_less)
qed

theorem opener_clock_elapsed_witness:
  "unat (GetMilliSeconds 0x100000005 - GetMilliSeconds 0xFFFFFFF0 :: 32 word) = 21"
  using opener_clock_elapsed [where before = "0xFFFFFFF0" and after = "0x100000005" and 'a = 32] by simp

section \<open>Error texts\<close>

text \<open>\<open>strerror\<close> is the C library's; the text it returns is static, and nothing is freed.\<close>

definition GetSocketErrorNumber :: "int \<Rightarrow> int" where
  "GetSocketErrorNumber errno = errno"

definition GetErrorMessage :: "(int \<Rightarrow> string) \<Rightarrow> int \<Rightarrow> string" where
  "GetErrorMessage strerror error_number = strerror error_number"

definition FreeErrorMessage :: "string \<Rightarrow> sock_call list" where
  "FreeErrorMessage error_message = []"

section \<open>The redirected names\<close>

text \<open>The macros of \<open>platform_network_includes.h\<close>, which every source of OpENer sees.\<close>

definition opener_socket_names :: "(string \<times> string) list" where
  "opener_socket_names =
     [(''socklen_t'', ''net_socklen_t''),
      (''FD_ZERO'', ''ZSOCK_FD_ZERO''),
      (''FD_ISSET'', ''ZSOCK_FD_ISSET''),
      (''FD_CLR'', ''ZSOCK_FD_CLR''),
      (''FD_SET'', ''ZSOCK_FD_SET''),
      (''select'', ''zsock_select''),
      (''socket'', ''app_eip_socket''),
      (''setsockopt'', ''app_eip_setsockopt''),
      (''bind'', ''app_eip_bind''),
      (''listen'', ''app_eip_listen''),
      (''accept'', ''zsock_accept''),
      (''recv'', ''zsock_recv''),
      (''recvfrom'', ''zsock_recvfrom''),
      (''send'', ''zsock_send''),
      (''sendto'', ''zsock_sendto''),
      (''getpeername'', ''zsock_getpeername''),
      (''inet_ntop'', ''zsock_inet_ntop'')]"

text \<open>The redirection is a function, no name is redirected to a redirected name, and exactly the four adapted
  functions go through the port.\<close>

lemma opener_socket_names_adapted:
  "distinct (List.map fst opener_socket_names)"
  "set (List.map fst opener_socket_names) \<inter> set (List.map snd opener_socket_names) = {}"
  "filter (\<lambda>(name, redirected). take 8 redirected = ''app_eip_'') opener_socket_names =
     List.map (\<lambda>name. (name, ''app_eip_'' @ name)) [''socket'', ''setsockopt'', ''bind'', ''listen'']"
  by (simp_all add: opener_socket_names_def)

section \<open>Configuration and identity\<close>

definition CIP_FILE_OBJECT :: nat where "CIP_FILE_OBJECT = 0"
definition CIP_SECURITY_OBJECTS :: nat where "CIP_SECURITY_OBJECTS = 0"
definition OPENER_IS_DLR_DEVICE :: nat where "OPENER_IS_DLR_DEVICE = 0"
definition OPENER_TCPIP_IFACE_CFG_SETTABLE :: nat where "OPENER_TCPIP_IFACE_CFG_SETTABLE = 0"
definition OPENER_ETHLINK_INSTANCE_CNT :: nat where "OPENER_ETHLINK_INSTANCE_CNT = 1"
definition OPENER_ETHLINK_LABEL_ENABLE :: nat where "OPENER_ETHLINK_LABEL_ENABLE = 0"
definition OPENER_ETHLINK_CNTRS_ENABLE :: nat where "OPENER_ETHLINK_CNTRS_ENABLE = 0"
definition OPENER_ETHLINK_IFACE_CTRL_ENABLE :: nat where "OPENER_ETHLINK_IFACE_CTRL_ENABLE = 0"
definition OPENER_CIP_NUM_APPLICATION_SPECIFIC_CONNECTABLE_OBJECTS :: nat where
  "OPENER_CIP_NUM_APPLICATION_SPECIFIC_CONNECTABLE_OBJECTS = 0"
definition OPENER_CIP_NUM_EXPLICIT_CONNS :: nat where "OPENER_CIP_NUM_EXPLICIT_CONNS = 6"
definition OPENER_CIP_NUM_EXLUSIVE_OWNER_CONNS :: nat where "OPENER_CIP_NUM_EXLUSIVE_OWNER_CONNS = 1"
definition OPENER_CIP_NUM_INPUT_ONLY_CONNS :: nat where "OPENER_CIP_NUM_INPUT_ONLY_CONNS = 0"
definition OPENER_CIP_NUM_INPUT_ONLY_CONNS_PER_CON_PATH :: nat where "OPENER_CIP_NUM_INPUT_ONLY_CONNS_PER_CON_PATH = 0"
definition OPENER_CIP_NUM_LISTEN_ONLY_CONNS :: nat where "OPENER_CIP_NUM_LISTEN_ONLY_CONNS = 0"
definition OPENER_CIP_NUM_LISTEN_ONLY_CONNS_PER_CON_PATH :: nat where "OPENER_CIP_NUM_LISTEN_ONLY_CONNS_PER_CON_PATH = 0"
definition OPENER_NUMBER_OF_SUPPORTED_SESSIONS :: nat where "OPENER_NUMBER_OF_SUPPORTED_SESSIONS = 6"
definition kOpenerTimerTickInMilliSeconds :: "'a::len word" where "kOpenerTimerTickInMilliSeconds = 10"

text \<open>\<open>OPENER_ASSERT\<close>: \<open>None\<close> when the assertion fails and the program ends.\<close>

definition OPENER_ASSERT :: "bool \<Rightarrow> unit option" where
  "OPENER_ASSERT assertion = (if assertion then Some () else None)"

definition OPENER_DEVICE_VENDOR_ID :: u16 where "OPENER_DEVICE_VENDOR_ID = 0xffff"
definition OPENER_DEVICE_TYPE :: u16 where "OPENER_DEVICE_TYPE = 12"
definition OPENER_DEVICE_PRODUCT_CODE :: u16 where "OPENER_DEVICE_PRODUCT_CODE = 1"
definition OPENER_DEVICE_MAJOR_REVISION :: nat where "OPENER_DEVICE_MAJOR_REVISION = APP_IDENT_FW_VERSION_MAJOR"
definition OPENER_DEVICE_MINOR_REVISION :: nat where "OPENER_DEVICE_MINOR_REVISION = APP_IDENT_FW_VERSION_MINOR"
definition OPENER_DEVICE_NAME :: string where "OPENER_DEVICE_NAME = APP_IDENT_DEVICE_NAME"

text \<open>The stack has room for the connection points the application configures, and the product name it sets
  at the start is the one compiled in.\<close>

lemma opener_tables_suffice:
  "length (filter (\<lambda>c. \<exists>a b d. c = Configure_exclusive_owner a b d) (snd (ApplicationInitialization x y z)))
     \<le> OPENER_CIP_NUM_EXLUSIVE_OWNER_CONNS"
  "Set_product_name OPENER_DEVICE_NAME \<in> set (configure_cip_identity addr serial)"
  by (simp_all add: ApplicationInitialization_def OPENER_CIP_NUM_EXLUSIVE_OWNER_CONNS_def Let_def
      configure_cip_identity_def OPENER_DEVICE_NAME_def)

end
