(* ===== verification/App_Dpws.thy ===== *)
theory App_Dpws
  imports Ident
begin

unbundle bit_operations_syntax

text \<open>
  Discovery, \<open>app_m7/src/protocols/dpws/app_dpws.c\<close>: the answer to a WS-Discovery probe and the metadata
  document that the web server sends for the device's path.

  A request is a C string. The identity is the result of \<open>app_ident_get\<close>; it, the cycle counter, the
  uptime and the sockets' answers are arguments. The record \<open>dpws\<close> holds the module's static variables
  but its buffers, which are results. A built document is \<open>Inr\<close> the text, whose length is what the C
  function returns, or \<open>Inl\<close> the error.
\<close>

section \<open>Data\<close>

definition APP_DPWS_PACKET_SIZE :: nat where [c_def]: "APP_DPWS_PACKET_SIZE = 2048"
definition APP_DPWS_METADATA_XML_SIZE :: nat where [c_def]: "APP_DPWS_METADATA_XML_SIZE = 4096"
definition APP_DPWS_METADATA_PATH_PREFIX :: string where "APP_DPWS_METADATA_PATH_PREFIX = ''/dpws/''"
definition APP_DPWS_DISCOVERY_10 :: string where
  "APP_DPWS_DISCOVERY_10 = ''http://schemas.xmlsoap.org/ws/2005/04/discovery''"
definition APP_DPWS_DISCOVERY_11 :: string where
  "APP_DPWS_DISCOVERY_11 = ''http://docs.oasis-open.org/ws-dd/ns/discovery/2009/01''"
definition APP_DPWS_ADDRESSING_10 :: string where
  "APP_DPWS_ADDRESSING_10 = ''http://schemas.xmlsoap.org/ws/2004/08/addressing''"
definition APP_DPWS_ADDRESSING_11 :: string where
  "APP_DPWS_ADDRESSING_11 = ''http://www.w3.org/2005/08/addressing''"
definition APP_DPWS_TRANSFER :: string where
  "APP_DPWS_TRANSFER = ''http://schemas.xmlsoap.org/ws/2004/09/transfer''"
definition APP_DPWS_DEVICE_PROFILE :: string where
  "APP_DPWS_DEVICE_PROFILE = ''http://schemas.xmlsoap.org/ws/2006/02/devprof''"
definition APP_DPWS_METADATA_EXCHANGE :: string where
  "APP_DPWS_METADATA_EXCHANGE = ''http://schemas.xmlsoap.org/ws/2004/09/mex''"

record app_dpws_profile =
  pf_discovery_ns :: string
  pf_addressing_ns :: string
  pf_anonymous :: string

definition profile_10 :: app_dpws_profile where
  "profile_10 = \<lparr>pf_discovery_ns = APP_DPWS_DISCOVERY_10, pf_addressing_ns = APP_DPWS_ADDRESSING_10,
     pf_anonymous = ''http://schemas.xmlsoap.org/ws/2004/08/addressing/role/anonymous''\<rparr>"

definition profile_11 :: app_dpws_profile where
  "profile_11 = \<lparr>pf_discovery_ns = APP_DPWS_DISCOVERY_11, pf_addressing_ns = APP_DPWS_ADDRESSING_11,
     pf_anonymous = ''http://www.w3.org/2005/08/addressing/anonymous''\<rparr>"

record dpws =
  dpws_message_number :: u32
  dpws_started :: bool

definition dpws_boot :: dpws where
  "dpws_boot = \<lparr>dpws_message_number = 0, dpws_started = False\<rparr>"

datatype family = AF_INET | AF_INET6

section \<open>Requests\<close>

definition dpws_profile_from_request :: "string \<Rightarrow> app_dpws_profile" where
  "dpws_profile_from_request request =
     (if strstr request APP_DPWS_DISCOVERY_11 \<noteq> None then profile_11 else profile_10)"

text \<open>\<open>None\<close> is \<open>false\<close>. The end tag is looked for at the next \<open><\<close>.\<close>

definition dpws_extract_element :: "string \<Rightarrow> string \<Rightarrow> nat \<Rightarrow> string option" where
  "dpws_extract_element xml element value_size =
     (let marker = snprintk_buf 40 (element @ ''>'')
      in (case strstr xml marker of None \<Rightarrow> None
          | Some start \<Rightarrow>
            (case strchr start (CHR ''>'') of None \<Rightarrow> None
             | Some start \<Rightarrow>
               let start = tl start
               in (case strchr start (CHR ''<'') of None \<Rightarrow> None
                   | Some end_ptr \<Rightarrow>
                     let len = length start - length end_ptr
                     in if len = 0 \<or> value_size \<le> len then None else Some (take len start)))))"

definition dpws_is_probe :: "string \<Rightarrow> bool" where
  "dpws_is_probe request \<longleftrightarrow>
     strstr request ''/Probe'' \<noteq> None
     \<and> strstr request ''ProbeMatches'' = None
     \<and> (strstr request APP_DPWS_DISCOVERY_10 \<noteq> None \<or> strstr request APP_DPWS_DISCOVERY_11 \<noteq> None)"

section \<open>Answers\<close>

text \<open>\<open>atomic_inc\<close> gives the previous value.\<close>

definition dpws_make_message_uuid :: "u32 \<Rightarrow> dpws \<Rightarrow> string \<times> dpws" where
  "dpws_make_message_uuid cycles s =
     (let sequence = dpws_message_number s + 1
      in (snprintk_buf APP_IDENT_UUID_STR_LEN (''00000000-0000-4000-8000-'' @ hex8 cycles
            @ hex4_of_nat (unat (sequence AND 0xffff))),
          s\<lparr>dpws_message_number := sequence\<rparr>))"

definition dpws_format_xaddrs :: "app_ident_info \<Rightarrow> family \<Rightarrow> int + string" where
  "dpws_format_xaddrs ident fam =
     (let has_ipv4 = (ii_ipv4 ident \<noteq> ''unavailable'' \<and> ii_ipv4 ident \<noteq> ''0.0.0.0'');
          has_ipv6 = (ii_ipv6_link_local ident \<noteq> ''unavailable'')
      in if fam = AF_INET6 \<and> has_ipv6 \<and> has_ipv4
         then Inr (''http://['' @ ii_ipv6_link_local ident @ '']/dpws/'' @ ii_uuid ident
                   @ '' http://'' @ ii_ipv4 ident @ ''/dpws/'' @ ii_uuid ident)
         else if has_ipv4 \<and> has_ipv6
         then Inr (''http://'' @ ii_ipv4 ident @ ''/dpws/'' @ ii_uuid ident
                   @ '' http://['' @ ii_ipv6_link_local ident @ '']/dpws/'' @ ii_uuid ident)
         else if has_ipv6
         then Inr (''http://['' @ ii_ipv6_link_local ident @ '']/dpws/'' @ ii_uuid ident)
         else if has_ipv4
         then Inr (''http://'' @ ii_ipv4 ident @ ''/dpws/'' @ ii_uuid ident)
         else Inl (- ENETDOWN))"

text \<open>The text up to the \<open>RelatesTo\<close> element, and the whole document.\<close>

definition probe_match_head :: "app_dpws_profile \<Rightarrow> string \<Rightarrow> string" where
  "probe_match_head profile message_uuid = concat [
     ''<?xml version=\"1.0\" encoding=\"utf-8\"?><soap:Envelope xmlns:soap=\"http://www.w3.org/2003/'',
     ''05/soap-envelope\" xmlns:wsa=\"'', pf_addressing_ns profile, ''\" xmlns:wsd=\"'',
     pf_discovery_ns profile, ''\" xmlns:wsdp=\"'', APP_DPWS_DEVICE_PROFILE,
     ''\" xmlns:ie=\"urn:industrial-ethernet\"><soap:Header><wsa:Action>'', pf_discovery_ns profile,
     ''/ProbeMatches</wsa:Action><wsa:MessageID>urn:uuid:'', message_uuid, ''</wsa:MessageID><wsa:'']"

definition probe_match_xml ::
  "app_dpws_profile \<Rightarrow> string \<Rightarrow> string \<Rightarrow> u32 \<Rightarrow> app_ident_info \<Rightarrow> string \<Rightarrow> string" where
  "probe_match_xml profile message_uuid relates_to message_number ident xaddrs = probe_match_head profile message_uuid
     @ ''RelatesTo>'' @ relates_to @ concat [''</wsa:RelatesTo><wsa:To>'',
     pf_anonymous profile, ''</wsa:To><wsd:AppSequence InstanceId=\"1\" MessageNumber=\"'',
     dec_of_nat (unat message_number),
     ''\"/></soap:Header><soap:Body><wsd:ProbeMatches><wsd:ProbeMatch><wsa:EndpointReference>'',
     ''<wsa:Address>urn:uuid:'', ii_uuid ident,
     ''</wsa:Address></wsa:EndpointReference><wsd:Types>wsdp:Device ie:IndustrialEthernetDevice'',
     ''</wsd:Types><wsd:Scopes>urn:industrial-ethernet:name:'', APP_IDENT_HOST_NAME,
     '' urn:industrial-ethernet:model:'', ii_model ident, ''</wsd:Scopes><wsd:XAddrs>'', xaddrs,
     ''</wsd:XAddrs><wsd:MetadataVersion>1</wsd:MetadataVersion></wsd:ProbeMatch>'',
     ''</wsd:ProbeMatches></soap:Body></soap:Envelope>'']"

definition dpws_build_probe_match ::
  "int \<times> app_ident_info \<Rightarrow> u32 \<Rightarrow> nat \<Rightarrow> string \<Rightarrow> family \<Rightarrow> dpws \<Rightarrow> (int + string) \<times> dpws" where
  "dpws_build_probe_match ident_ret cycles reply_size request fam s =
     (let profile = dpws_profile_from_request request
      in (case dpws_extract_element request ''MessageID'' 64 of None \<Rightarrow> (Inl (- EINVAL), s)
          | Some relates_to \<Rightarrow>
            case ident_ret of (ret, ident) \<Rightarrow>
            if ret < 0 \<or> ii_uuid ident = ''unavailable'' then (Inl (- ENODEV), s)
            else
              (case dpws_format_xaddrs ident fam of Inl ret \<Rightarrow> (Inl ret, s)
               | Inr xaddrs \<Rightarrow>
                 if 192 \<le> length xaddrs then (Inl (- EMSGSIZE), s)
                 else
                   let (message_uuid, s) = dpws_make_message_uuid cycles s;
                       message_number = dpws_message_number s;
                       text = probe_match_xml profile message_uuid relates_to message_number ident xaddrs
                   in if reply_size \<le> length text then (Inl (- EMSGSIZE), s) else (Inr text, s))))"

definition metadata_xml :: "string \<Rightarrow> string \<Rightarrow> string \<Rightarrow> app_ident_info \<Rightarrow> nat \<Rightarrow> string" where
  "metadata_xml message_uuid relates_to presentation_url ident uptime_s = concat [
     ''<?xml version=\"1.0\" encoding=\"utf-8\"?><soap:Envelope xmlns:soap=\"http://www.w3.org/2003/'',
     ''05/soap-envelope\" xmlns:wsa=\"'', APP_DPWS_ADDRESSING_10, ''\" xmlns:wsx=\"'',
     APP_DPWS_METADATA_EXCHANGE, ''\" xmlns:wsdp=\"'', APP_DPWS_DEVICE_PROFILE,
     ''\" xmlns:ie=\"urn:industrial-ethernet\" xml:lang=\"en\"><soap:Header><wsa:Action>'',
     APP_DPWS_TRANSFER, ''/GetResponse</wsa:Action><wsa:MessageID>urn:uuid:'', message_uuid,
     ''</wsa:MessageID><wsa:RelatesTo>'', relates_to, ''</wsa:RelatesTo><wsa:To>'',
     pf_anonymous profile_10,
     ''</wsa:To></soap:Header><soap:Body><wsx:Metadata><wsx:MetadataSection Dialect=\"'',
     APP_DPWS_DEVICE_PROFILE, ''/ThisModel\"><wsdp:ThisModel><wsdp:Manufacturer>'',
     ii_manufacturer ident,
     ''</wsdp:Manufacturer><wsdp:ManufacturerUrl>https://www.st.com/</wsdp:ManufacturerUrl>'',
     ''<wsdp:ModelName>'', ii_model ident, ''</wsdp:ModelName><wsdp:ModelNumber>'', ii_model ident,
     ''</wsdp:ModelNumber><wsdp:ModelUrl>https://www.st.com/stm32h747i-disco</wsdp:ModelUrl>'',
     ''<wsdp:PresentationUrl>'', presentation_url,
     ''</wsdp:PresentationUrl></wsdp:ThisModel></wsx:MetadataSection>'',
     ''<wsx:MetadataSection Dialect=\"'', APP_DPWS_DEVICE_PROFILE,
     ''/ThisDevice\"><wsdp:ThisDevice><wsdp:FriendlyName>'', ii_device_name ident,
     ''</wsdp:FriendlyName><wsdp:FirmwareVersion>'', ii_firmware_version ident,
     ''</wsdp:FirmwareVersion><wsdp:SerialNumber>'', ii_hardware_id ident,
     ''</wsdp:SerialNumber></wsdp:ThisDevice></wsx:MetadataSection>'',
     ''<wsx:MetadataSection Dialect=\"urn:industrial-ethernet:device-info\"><ie:DeviceInfo>'',
     ''<ie:ProductCode>STM32H747-DEMO</ie:ProductCode>'',
     ''<ie:ProductRange>Industrial Ethernet Demo</ie:ProductRange>'',
     ''<ie:ProductCapability>Modbus TCP, EtherNet/IP, HTTP, DPWS</ie:ProductCapability>'',
     ''<ie:HardwareRevision>'', ii_model ident,
     ''</ie:HardwareRevision><ie:FriendlyNameSource>Device</ie:FriendlyNameSource>'',
     ''<ie:PhysicalLocation>Local network</ie:PhysicalLocation><ie:NodeName>'', APP_IDENT_HOST_NAME,
     ''</ie:NodeName><ie:TimeSinceBoot>'', dec_of_nat uptime_s,
     ''</ie:TimeSinceBoot><ie:ServicesSupported>HTTP,ModbusTCP,EtherNetIP,WS-Discovery</ie:Serv'',
     ''icesSupported><ie:MacAddress>'', ii_mac ident, ''</ie:MacAddress><ie:IPv4Address>'',
     ii_ipv4 ident, ''</ie:IPv4Address><ie:IPv6Address>'', ii_ipv6_link_local ident,
     ''</ie:IPv6Address><ie:DeviceUUID>'', ii_uuid ident,
     ''</ie:DeviceUUID></ie:DeviceInfo></wsx:MetadataSection></wsx:Metadata></soap:Body>'',
     ''</soap:Envelope>'']"

definition app_dpws_is_metadata_path :: "int \<times> app_ident_info \<Rightarrow> string \<Rightarrow> bool" where
  "app_dpws_is_metadata_path ident_ret path =
     (case ident_ret of (ret, ident) \<Rightarrow>
        if ret < 0 then False
        else
          let expected = snprintk_buf (length APP_DPWS_METADATA_PATH_PREFIX + 1 + APP_IDENT_UUID_STR_LEN)
                (APP_DPWS_METADATA_PATH_PREFIX @ ii_uuid ident)
          in path = expected)"

definition app_dpws_build_metadata ::
  "int \<times> app_ident_info \<Rightarrow> u32 \<Rightarrow> nat \<Rightarrow> nat \<Rightarrow> string \<Rightarrow> dpws \<Rightarrow> (int + string) \<times> dpws" where
  "app_dpws_build_metadata ident_ret cycles uptime_ms xml_size request s =
     (if strstr request (APP_DPWS_TRANSFER @ ''/Get'') = None then (Inl (- EINVAL), s)
      else
        let uptime_s = uptime_ms div 1000;
            relates_to = (case dpws_extract_element request ''MessageID'' 64 of None \<Rightarrow> [] | Some v \<Rightarrow> v)
        in case ident_ret of (ret, ident) \<Rightarrow>
           if ret < 0 then (Inl (- ENODEV), s)
           else
             let (message_uuid, s) = dpws_make_message_uuid cycles s;
                 presentation_url = (if ii_ipv6_link_local ident \<noteq> ''unavailable''
                   then snprintk_buf 96 (''http://['' @ ii_ipv6_link_local ident @ '']/'')
                   else snprintk_buf 96 (''http://'' @ ii_ipv4 ident @ ''/''));
                 text = metadata_xml message_uuid relates_to presentation_url ident uptime_s
             in if xml_size \<le> length text then (Inl (- EMSGSIZE), s) else (Inr text, s))"

section \<open>The thread\<close>

text \<open>Joining the multicast group: whether the address parses, the answer of \<open>zsock_setsockopt\<close> and
  \<open>errno\<close>; the IPv6 and the IPv4 function have the same text.\<close>

abbreviation (input) EINPROGRESS :: int where "EINPROGRESS \<equiv> 119"

definition dpws_join :: "bool \<Rightarrow> int \<Rightarrow> int \<Rightarrow> int" where
  "dpws_join parsed ret errno =
     (if \<not> parsed then - EINVAL
      else if ret < 0 \<and> errno \<noteq> EALREADY \<and> errno \<noteq> EINPROGRESS then - errno
      else 0)"

text \<open>The socket, or the error, and whether a socket was closed again.\<close>

definition dpws_create_socket :: "int \<Rightarrow> int \<Rightarrow> int \<Rightarrow> int \<Rightarrow> int \<times> bool" where
  "dpws_create_socket sock errno bind_ret join_ret =
     (if sock < 0 then (- errno, False)
      else
        let ret = (if bind_ret = 0 then join_ret else bind_ret)
        in if ret < 0 then (ret, True) else (sock, False))"

text \<open>A datagram on one of the sockets: the answer of the receive, its bytes and the sender's family. The
  result is the reply handed to \<open>zsock_sendto\<close>, if any.\<close>

definition dpws_process_probe ::
  "int \<times> app_ident_info \<Rightarrow> u32 \<Rightarrow> int \<Rightarrow> string \<Rightarrow> family \<Rightarrow> dpws \<Rightarrow> string option \<times> dpws" where
  "dpws_process_probe ident_ret cycles len bytes fam s =
     (if len < 0 then (None, s)
      else
        let request = c_string (take (nat len) bytes)
        in if \<not> dpws_is_probe request then (None, s)
           else
             (case dpws_build_probe_match ident_ret cycles APP_DPWS_PACKET_SIZE request fam s of
                (Inl reply_len, s) \<Rightarrow> (None, s)
              | (Inr reply, s) \<Rightarrow> (Some reply, s)))"

text \<open>The wait at the start of the thread: one turn per element, with whether there is an interface,
  whether the link is up, and the identity; the number of turns waited, \<open>None\<close> when it waits on.\<close>

fun dpws_wait :: "(bool \<times> bool \<times> app_ident_info) list \<Rightarrow> nat option" where
  "dpws_wait [] = None"
| "dpws_wait ((has_iface, link_up, ident) # rest) =
     (if \<not> has_iface \<or> \<not> link_up \<or> \<not> ii_ipv6_preferred ident then map_option Suc (dpws_wait rest)
      else Some 0)"

text \<open>The sockets the thread listens on; without one it ends.\<close>

definition dpws_sockets :: "int \<Rightarrow> int \<Rightarrow> int list" where
  "dpws_sockets sock6 sock4 = (if 0 \<le> sock6 then [sock6] else []) @ (if 0 \<le> sock4 then [sock4] else [])"

text \<open>One turn of the thread's loop: the answer of \<open>zsock_poll\<close> and, for each socket that has one, the
  waiting datagram. The results are the replies handed to \<open>zsock_sendto\<close>, in order.\<close>

definition dpws_turn ::
  "int \<Rightarrow> (int \<times> app_ident_info \<times> u32 \<times> int \<times> string \<times> family) option list \<Rightarrow> dpws \<Rightarrow> string list \<times> dpws" where
  "dpws_turn ret ready s =
     (if ret < 0 then ([], s)
      else fold (\<lambda>datagram (replies, s). case datagram of None \<Rightarrow> (replies, s)
             | Some (ident_ret, ident, cycles, len, bytes, fam) \<Rightarrow>
               let (reply, s) = dpws_process_probe (ident_ret, ident) cycles len bytes fam s
               in (replies @ (case reply of None \<Rightarrow> [] | Some r \<Rightarrow> [r]), s)) ready ([], s))"

definition app_dpws_start :: "dpws \<Rightarrow> int \<times> dpws" where
  "app_dpws_start s = (if dpws_started s then (0, s) else (0, s\<lparr>dpws_started := True\<rparr>))"

section \<open>Lengths\<close>

lemma dpws_ns_lengths:
  "length APP_DPWS_DISCOVERY_10 = 47" "length APP_DPWS_DISCOVERY_11 = 53"
  "length APP_DPWS_ADDRESSING_10 = 48" "length APP_DPWS_ADDRESSING_11 = 36"
  "length APP_DPWS_TRANSFER = 46" "length APP_DPWS_DEVICE_PROFILE = 45"
  "length APP_DPWS_METADATA_EXCHANGE = 41"
  by (simp_all add: APP_DPWS_DISCOVERY_10_def APP_DPWS_DISCOVERY_11_def APP_DPWS_ADDRESSING_10_def
      APP_DPWS_ADDRESSING_11_def APP_DPWS_TRANSFER_def APP_DPWS_DEVICE_PROFILE_def APP_DPWS_METADATA_EXCHANGE_def)

lemma profile_lengths:
  "length (pf_discovery_ns (dpws_profile_from_request r)) \<le> 53"
  "length (pf_addressing_ns (dpws_profile_from_request r)) \<le> 49"
  "length (pf_anonymous (dpws_profile_from_request r)) \<le> 64"
  by (simp_all add: dpws_profile_from_request_def profile_10_def profile_11_def dpws_ns_lengths)

lemma ident_name_lengths:
  "length APP_IDENT_HOST_NAME = 19" "length APP_IDENT_DEVICE_NAME = 25" "length APP_IDENT_MANUFACTURER = 18"
  "length APP_IDENT_MODEL = 16"
  by (simp_all add: APP_IDENT_HOST_NAME_def APP_IDENT_DEVICE_NAME_def APP_IDENT_MANUFACTURER_def APP_IDENT_MODEL_def)

text \<open>An identity as \<open>app_ident_get\<close> makes it.\<close>

definition ident_sized :: "app_ident_info \<Rightarrow> bool" where
  "ident_sized info \<longleftrightarrow> length (ii_firmware_version info) < 16 \<and> length (ii_hardware_id info) < 25
     \<and> length (ii_mac info) < 18 \<and> length (ii_ipv4 info) < 16 \<and> length (ii_ipv6_link_local info) < 46
     \<and> length (ii_uuid info) < 37 \<and> ii_device_name info = APP_IDENT_DEVICE_NAME
     \<and> ii_manufacturer info = APP_IDENT_MANUFACTURER \<and> ii_model info = APP_IDENT_MODEL"

lemma app_ident_get_sized: "ident_sized (snd (app_ident_get has_iface active bd))"
  using app_ident_get_fits [of has_iface active bd]
  by (simp add: ident_sized_def c_def Let_def) (simp add: app_ident_get_def Let_def case_prod_beta)

lemma strchr_Nil [simp]: "strchr [] c = None"
  by (simp add: strchr_def)

lemma dpws_extract_length: "dpws_extract_element xml el n = Some v \<Longrightarrow> 0 < length v \<and> length v < n"
  by (auto simp: dpws_extract_element_def Let_def split: option.splits if_splits)

lemma message_uuid_length: "length (fst (dpws_make_message_uuid cycles s)) < 37"
  by (simp add: dpws_make_message_uuid_def Let_def c_def snprintk_buf_def)

lemma xaddrs_length:
  "ident_sized ident \<Longrightarrow> dpws_format_xaddrs ident fam = Inr x \<Longrightarrow> length x \<le> 161"
  by (auto simp: dpws_format_xaddrs_def Let_def ident_sized_def split: if_splits)

lemma probe_match_length:
  assumes "ident_sized ident" and "length u < 37" and "length r < 64" and "length x \<le> 161"
    and "length (pf_discovery_ns pf) \<le> 53" and "length (pf_addressing_ns pf) \<le> 49" and "length (pf_anonymous pf) \<le> 64"
  shows "length (probe_match_xml pf u r n ident x) < 2048"
  using assms length_dec_u32 [of n]
  by (simp add: probe_match_xml_def probe_match_head_def ident_sized_def ident_name_lengths dpws_ns_lengths)

lemma metadata_length:
  assumes "ident_sized ident" and "length u < 37" and "length r < 64" and "length p < 96" and "t < 10 ^ 20"
  shows "length (metadata_xml u r p ident t) < 4096"
proof -
  have "length (dec_of_nat t) \<le> 20"
    unfolding dec_of_nat_def using length_digits_of [of 10 t 20] assms(5) by simp
  then show ?thesis
    using assms by (simp add: metadata_xml_def ident_sized_def ident_name_lengths dpws_ns_lengths profile_10_def)
qed

text \<open>C36. Discovery never overflows its buffers: with the identity of \<open>app_ident_get\<close> the answer to a
  probe always fits the 2048 bytes of the reply, whatever the request, and the metadata document always
  fits the 4096 bytes of its buffer, for any uptime that a 64-bit counter of milliseconds can hold.\<close>

theorem dpws_documents_fit:
  assumes "uptime_ms < 2 ^ 64"
  shows "fst (dpws_build_probe_match (app_ident_get has_iface active bd) cycles APP_DPWS_PACKET_SIZE request fam s)
       \<noteq> Inl (- EMSGSIZE)
     \<and> fst (app_dpws_build_metadata (app_ident_get has_iface active bd) cycles uptime_ms
              APP_DPWS_METADATA_XML_SIZE request s) \<noteq> Inl (- EMSGSIZE)"
proof -
  obtain ret ident where id: "app_ident_get has_iface active bd = (ret, ident)" by (rule prod.exhaust)
  have sized: "ident_sized ident" using app_ident_get_sized [of has_iface active bd] id by simp
  have t: "uptime_ms div 1000 < 10 ^ 20" using assms by simp
  let ?uuid = "fst (dpws_make_message_uuid cycles s)"
  have m: "length (metadata_xml ?uuid r (snprintk_buf 96 p) ident (uptime_ms div 1000)) < 4096"
    if "length r < 64" for r p
    using metadata_length [OF sized message_uuid_length that _ t] by (simp add: snprintk_buf_def)
  have p: "length (probe_match_xml (dpws_profile_from_request request) ?uuid r n ident x) < 2048"
    if "length r < 64" "length x \<le> 161" for r x n
    using probe_match_length [OF sized message_uuid_length that profile_lengths] .
  have x: "\<not> 192 \<le> length x" if "dpws_format_xaddrs ident fam = Inr x" for x
    using xaddrs_length [OF sized that] by simp
  have e: "dpws_format_xaddrs ident fam \<noteq> Inl (- EMSGSIZE)"
    by (simp add: dpws_format_xaddrs_def Let_def)
  have "fst (dpws_build_probe_match (ret, ident) cycles APP_DPWS_PACKET_SIZE request fam s) \<noteq> Inl (- EMSGSIZE)"
  proof (cases "dpws_extract_element request ''MessageID'' 64")
    case None
    then show ?thesis by (simp add: dpws_build_probe_match_def)
  next
    case (Some r)
    from dpws_extract_length [OF this] have "length r < 64" by simp
    note r = Some this
    show ?thesis
    proof (cases "dpws_format_xaddrs ident fam")
      case (Inl k)
      then show ?thesis using r e by (simp add: dpws_build_probe_match_def)
    next
      case (Inr y)
      then have "length y \<le> 161" by (rule xaddrs_length [OF sized])
      then show ?thesis
        using Inr r p [of r y "dpws_message_number (snd (dpws_make_message_uuid cycles s))"]
        by (simp add: dpws_build_probe_match_def Let_def case_prod_beta c_def not_le)
    qed
  qed
  moreover have "fst (app_dpws_build_metadata (ret, ident) cycles uptime_ms
              APP_DPWS_METADATA_XML_SIZE request s) \<noteq> Inl (- EMSGSIZE)"
  proof -
    let ?r = "case dpws_extract_element request ''MessageID'' 64 of None \<Rightarrow> [] | Some v \<Rightarrow> v"
    have "length ?r < 64" by (auto split: option.split dest: dpws_extract_length)
    from m [OF this, of "''http://['' @ ii_ipv6_link_local ident @ '']/''"]
      m [OF this, of "''http://'' @ ii_ipv4 ident @ ''/''"]
    show ?thesis
      by (simp only: app_dpws_build_metadata_def Let_def case_prod_beta c_def if_distrib [of fst] fst_conv snd_conv
          prod.case) (simp add: not_le)
  qed
  ultimately show ?thesis by (simp add: id)
qed

theorem dpws_documents_fit_witness:
  "fst (dpws_build_probe_match (app_ident_get True (0, net_cfg_boot) board_example) 7 APP_DPWS_PACKET_SIZE
     ''x'' AF_INET dpws_boot) \<noteq> Inl (- EMSGSIZE)"
  using dpws_documents_fit [of 1000] by simp

section \<open>Message identifiers\<close>

lemma strstr_here: "starts_with p s \<Longrightarrow> s \<noteq> [] \<Longrightarrow> strstr s p = Some s"
  by (cases s) simp_all

lemma marker_text: "length el < 39 \<Longrightarrow> snprintk_buf 40 (el @ ''>'') = el @ ''>''"
  by (simp add: snprintk_buf_def)

lemma dpws_extract_found:
  assumes "strstr xml (el @ ''>'') = Some (el @ CHR ''>'' # v @ CHR ''<'' # post)"
    and "length el < 39" and "CHR ''>'' \<notin> set el" and "CHR ''<'' \<notin> set v"
  shows "dpws_extract_element xml el n = (if v = [] \<or> n \<le> length v then None else Some v)"
proof -
  have "strchr (el @ CHR ''>'' # v @ CHR ''<'' # post) (CHR ''>'') = Some (CHR ''>'' # v @ CHR ''<'' # post)"
    using assms(3) by (rule strchr_skip)
  moreover have "strchr (v @ CHR ''<'' # post) (CHR ''<'') = Some (CHR ''<'' # post)"
    using assms(4) by (rule strchr_skip)
  ultimately show ?thesis
    using assms(1) marker_text [OF assms(2)] by (simp add: dpws_extract_element_def Let_def)
qed

lemma dpws_extract_no_lt:
  assumes "dpws_extract_element xml el n = Some v"
  shows "CHR ''<'' \<notin> set v"
proof -
  obtain s e where e: "strchr s (CHR ''<'') = Some e" and v: "v = take (length s - length e) s"
    using assms by (auto simp: dpws_extract_element_def Let_def split: option.splits if_splits)
  from strchr_Some [OF e] obtain u where "s = u @ e" "CHR ''<'' \<notin> set u" by blast
  with v show ?thesis by simp
qed

lemma hex_digits: "c \<in> set (digits_of 16 n) \<Longrightarrow> of_char c \<in> {48..57} \<union> {97..(102 :: nat)}"
proof (induction n rule: less_induct)
  case (less n)
  have d: "of_char (digit_char d) \<in> {48..57} \<union> {97..(102 :: nat)}" if "d < 16" for d
    using that by (auto simp: digit_char_def)
  show ?case
  proof (cases "n < 16")
    case True
    with less.prems d show ?thesis by (auto simp: digits_of.simps [of 16 n])
  next
    case False
    then have "n div 16 < n" "n mod 16 < 16" by simp_all
    have "c \<in> set (digits_of 16 (n div 16)) \<or> c = digit_char (n mod 16)"
      using less.prems False by (auto simp add: digits_of.simps [of 16 n])
    with less.IH [OF \<open>n div 16 < n\<close>] d [OF \<open>n mod 16 < 16\<close>] show ?thesis by blast
  qed
qed

lemma message_uuid_no_R: "CHR ''R'' \<notin> set (fst (dpws_make_message_uuid cycles s))"
proof -
  have "CHR ''R'' \<notin> set (digits_of 16 n)" for n using hex_digits [of "CHR ''R''" n] by auto
  then show ?thesis
    by (auto simp: dpws_make_message_uuid_def Let_def snprintk_buf_def hex8_def hex4_of_nat_def pad0_def
        dest!: in_set_takeD split: if_splits)
qed

text \<open>An answer names the probe it answers: the \<open>RelatesTo\<close> element of every probe match carries the
  request's \<open>MessageID\<close>, character for character.\<close>

theorem dpws_reply_relates_to_probe:
  assumes "fst (dpws_build_probe_match ident_ret cycles n request fam s) = Inr reply"
  shows "dpws_extract_element request ''MessageID'' 64 \<noteq> None
     \<and> dpws_extract_element reply ''RelatesTo'' 64 = dpws_extract_element request ''MessageID'' 64"
proof -
  obtain r where r: "dpws_extract_element request ''MessageID'' 64 = Some r"
    using assms by (cases "dpws_extract_element request ''MessageID'' 64") (auto simp: dpws_build_probe_match_def)
  let ?pf = "dpws_profile_from_request request" and ?u = "fst (dpws_make_message_uuid cycles s)"
  obtain k ident x where reply: "reply = probe_match_xml ?pf ?u r k ident x"
    using assms r by (auto simp: dpws_build_probe_match_def Let_def case_prod_beta split: sum.splits if_splits)
  have pf: "CHR ''R'' \<notin> set (pf_discovery_ns ?pf)" "CHR ''R'' \<notin> set (pf_addressing_ns ?pf)"
    by (simp_all add: dpws_profile_from_request_def profile_10_def profile_11_def APP_DPWS_DISCOVERY_10_def
        APP_DPWS_DISCOVERY_11_def APP_DPWS_ADDRESSING_10_def APP_DPWS_ADDRESSING_11_def)
  have "CHR ''R'' \<notin> set (probe_match_head ?pf ?u)"
    using pf message_uuid_no_R [of cycles s] by (simp add: probe_match_head_def APP_DPWS_DEVICE_PROFILE_def)
  from strstr_skip [OF _ this] have "strstr (probe_match_head ?pf ?u @ (''RelatesTo>'' @ t)) ''RelatesTo>''
      = strstr (''RelatesTo>'' @ t) ''RelatesTo>''" for t by blast
  then have "strstr (probe_match_head ?pf ?u @ (''RelatesTo>'' @ t)) ''RelatesTo>'' = Some (''RelatesTo>'' @ t)" for t
    by (metis Nil_is_append_conv list.discI starts_with_append strstr_here)
  then have "\<exists>post. strstr reply (''RelatesTo'' @ ''>'') = Some (''RelatesTo'' @ CHR ''>'' # r @ CHR ''<'' # post)"
    unfolding reply probe_match_xml_def by simp
  then obtain post where "strstr reply (''RelatesTo'' @ ''>'') = Some (''RelatesTo'' @ CHR ''>'' # r @ CHR ''<'' # post)"
    by blast
  from dpws_extract_found [OF this _ _ dpws_extract_no_lt [OF r]] dpws_extract_length [OF r]
  have "dpws_extract_element reply ''RelatesTo'' 64 = Some r" by simp
  with r show ?thesis by simp
qed

text \<open>A message identifier whose element carries an attribute is lost. The search looks for the name
  directly followed by \<open>></\<close>, so it finds the closing tag and the text behind it, which is empty: the
  probe goes unanswered with \<open>EINVAL\<close>, although XML and WS-Addressing allow attributes there.\<close>

theorem dpws_message_id_with_attribute_lost:
  assumes "request = pre @ ''<wsa:MessageID '' @ attributes @ ''>'' @ message_id @ ''</wsa:MessageID><'' @ post"
    and "CHR ''M'' \<notin> set (pre @ attributes @ message_id)"
  shows "dpws_extract_element request ''MessageID'' 64 = None
     \<and> fst (dpws_build_probe_match ident_ret cycles n request fam s) = Inl (- EINVAL)"
proof -
  let ?t = "'' '' @ attributes @ ''>'' @ message_id @ ''</wsa:''"
  let ?tail = "''MessageID'' @ CHR ''>'' # [] @ CHR ''<'' # post"
  have p: "strstr (u @ v) ''MessageID>'' = strstr v ''MessageID>''" if "CHR ''M'' \<notin> set u" for u v
    using that by (intro strstr_skip) simp_all
  have "request = (pre @ ''<wsa:'') @ CHR ''M'' # (''essageID'' @ ?t) @ ?tail" by (simp add: assms(1))
  then have "strstr request ''MessageID>'' = strstr (CHR ''M'' # (''essageID'' @ ?t) @ ?tail) ''MessageID>''"
    using p [of "pre @ ''<wsa:''"] assms(2) by simp
  also have "\<dots> = strstr ((''essageID'' @ ?t) @ ?tail) ''MessageID>''"
    by (simp add: starts_with_def)
  also have "\<dots> = strstr ?tail ''MessageID>''"
    using p [of "''essageID'' @ ?t"] assms(2) by simp
  also have "\<dots> = Some ?tail" by (simp add: starts_with_def)
  finally have "strstr request (''MessageID'' @ ''>'') = Some ?tail" by simp
  from dpws_extract_found [OF this, of 64] have "dpws_extract_element request ''MessageID'' 64 = None" by simp
  then show ?thesis by (simp add: dpws_build_probe_match_def)
qed

theorem dpws_message_id_with_attribute_lost_witness:
  "dpws_extract_element ''<wsa:MessageID id=1>uuid:7</wsa:MessageID></h>'' ''MessageID'' 64 = None"
  using dpws_message_id_with_attribute_lost [of "''<wsa:MessageID id=1>uuid:7</wsa:MessageID></h>''" "[]" "''id=1''"
      "''uuid:7''" "''/h>''"]
  by simp

section \<open>The advertised addresses\<close>

text \<open>Every address a probe match advertises leads to the metadata: the addresses are URLs of a host of
  the device with the path \<open>/dpws/<uuid>\<close>, and that path, and no other, is the one the web server answers
  with the metadata document.\<close>

theorem dpws_addresses_are_served:
  assumes "dpws_format_xaddrs (snd (app_ident_get has_iface active bd)) fam = Inr xaddrs"
    and "0 \<le> fst (app_ident_get has_iface active bd)"
    and "path = ''/dpws/'' @ ii_uuid (snd (app_ident_get has_iface active bd))"
  shows "(\<exists>host. xaddrs = ''http://'' @ host @ path
       \<or> (\<exists>host'. xaddrs = ''http://'' @ host @ path @ '' http://'' @ host' @ path))
     \<and> app_dpws_is_metadata_path (app_ident_get has_iface active bd) p = (p = path)"
proof -
  obtain ret ident where id: "app_ident_get has_iface active bd = (ret, ident)" by (rule prod.exhaust)
  have sized: "length (ii_uuid ident) < 37"
    using app_ident_get_sized [of has_iface active bd] id by (simp add: ident_sized_def)
  have b: "''['' @ a @ '']/dpws/'' @ u = (''['' @ a @ '']'') @ ''/dpws/'' @ u" for a u by simp
  have "app_dpws_is_metadata_path (ret, ident) p = (p = path)"
    using assms(2,3) sized
    by (simp add: id app_dpws_is_metadata_path_def APP_DPWS_METADATA_PATH_PREFIX_def snprintk_buf_def
        APP_IDENT_UUID_STR_LEN_def)
  moreover have "\<exists>host. xaddrs = ''http://'' @ host @ path
       \<or> (\<exists>host'. xaddrs = ''http://'' @ host @ path @ '' http://'' @ host' @ path)"
  proof -
    let ?h6 = "''['' @ ii_ipv6_link_local ident @ '']''" and ?h4 = "ii_ipv4 ident"
    have "xaddrs = ''http://'' @ ?h6 @ path @ '' http://'' @ ?h4 @ path
        \<or> xaddrs = ''http://'' @ ?h4 @ path @ '' http://'' @ ?h6 @ path
        \<or> xaddrs = ''http://'' @ ?h6 @ path \<or> xaddrs = ''http://'' @ ?h4 @ path"
      using assms(1,3) by (auto simp: id dpws_format_xaddrs_def Let_def split: if_splits)
    then show ?thesis by blast
  qed
  ultimately show ?thesis by (simp add: id)
qed

lemma xaddrs_example: "ii_ipv4 ident = ''192.168.0.3'' \<Longrightarrow> \<exists>x. dpws_format_xaddrs ident AF_INET = Inr x"
  by (auto simp: dpws_format_xaddrs_def Let_def)

theorem dpws_addresses_are_served_witness:
  "app_dpws_is_metadata_path (app_ident_get True (0, net_cfg_boot) board_example)
     (''/dpws/'' @ ii_uuid (snd (app_ident_get True (0, net_cfg_boot) board_example)))"
proof -
  let ?id = "app_ident_get True (0, net_cfg_boot) board_example"
  have "ii_ipv4 (snd ?id) = ''192.168.0.3''"
    by (simp add: app_ident_get_def Let_def case_prod_beta ident_format_ipv4_def net_cfg_boot_def
        NET_CFG_DEFAULT_IP_def snprintk_buf_def c_def)
  from xaddrs_example [OF this] obtain x where "dpws_format_xaddrs (snd ?id) AF_INET = Inr x" by blast
  moreover have "fst ?id = 0" by (simp add: app_ident_get_def Let_def case_prod_beta)
  ultimately show ?thesis using dpws_addresses_are_served [of True "(0, net_cfg_boot)" board_example AF_INET] by simp
qed

text \<open>A request on which the answer is built.\<close>

theorem dpws_reply_relates_to_probe_witness:
  "dpws_extract_element ''<wsa:MessageID>uuid:7</wsa:MessageID>'' ''MessageID'' 64 \<noteq> None"
proof -
  let ?r = "''<wsa:MessageID>uuid:7</wsa:MessageID>''"
  let ?id = "app_ident_get True (0, net_cfg_boot) board_example"
  have m: "dpws_extract_element ?r ''MessageID'' 64 = Some ''uuid:7''"
    by (simp add: dpws_extract_element_def snprintk_buf_def starts_with_def strchr_def)
  have id: "fst ?id = 0" "ii_uuid (snd ?id) \<noteq> ''unavailable''" "ii_ipv4 (snd ?id) = ''192.168.0.3''"
    by (simp_all add: app_ident_get_def Let_def case_prod_beta ident_format_ipv4_def net_cfg_boot_def
        NET_CFG_DEFAULT_IP_def snprintk_buf_def c_def ident_format_uuid_def board_example_def)
  obtain x where x: "dpws_format_xaddrs (snd ?id) AF_INET = Inr x"
    using xaddrs_example [OF id(3)] by blast
  have "length x < 192" using xaddrs_length [OF app_ident_get_sized x] by simp
  with m id x obtain reply where
    "fst (dpws_build_probe_match ?id 7 (Suc (length (probe_match_xml profile_10
        (fst (dpws_make_message_uuid 7 dpws_boot)) ''uuid:7'' 1 (snd ?id) x))) ?r AF_INET dpws_boot) = Inr reply"
    by (simp add: dpws_build_probe_match_def Let_def case_prod_beta not_le dpws_profile_from_request_def
        starts_with_def APP_DPWS_DISCOVERY_11_def)
      (simp add: dpws_make_message_uuid_def Let_def dpws_boot_def)
  from dpws_reply_relates_to_probe [OF this] show ?thesis by simp
qed

end
