(* ===== verification/App_Web.thy ===== *)
theory App_Web
  imports Modbus_Service App_Dpws
begin

unbundle bit_operations_syntax

text \<open>
  The web server, \<open>app_m7/src/web/app_web.c\<close>: the JSON documents of the REST interface, the parsing of
  requests, the routes, and the transmission of a response.

  A request is the C string received on a connection; the body is \<open>None\<close> when the request has no empty
  line. The handlers take \<open>client\<close>, which tells for a response what \<open>send_response\<close> returns, and give that
  value, the response, and the new state \<open>web_world\<close>: the modules of \<open>m7\<close>, discovery, and the static
  variables of the server. A document is \<open>Inr\<close> its text or \<open>Inl\<close> the error; a length is that of the text.
  One \<open>m7_env\<close> holds what Zephyr answers during a request. The page, the style sheet, the script and the
  logo are data, a parameter.
\<close>

section \<open>State, environment and responses\<close>

definition APP_WEB_REQ_BUF_SIZE :: nat where [c_def]: "APP_WEB_REQ_BUF_SIZE = 1536"
definition APP_WEB_JSON_BUF_SIZE :: nat where [c_def]: "APP_WEB_JSON_BUF_SIZE = 2048"

record web =
  web_started :: bool
  web_reboot_scheduled :: bool

record web_world =
  ww_m7 :: m7
  ww_dpws :: dpws
  ww_web :: web

record web_env =
  we_m7 :: m7_env
  we_ident :: "int \<times> app_ident_info"
  we_cycles :: u32
  we_index_html :: string
  we_css :: string
  we_js :: string
  we_logo :: string

record http_response =
  hr_code :: nat
  hr_reason :: string
  hr_type :: string
  hr_body :: string

abbreviation CRLF :: string where "CRLF \<equiv> [CHR 0x0D, CHR 0x0A]"
abbreviation QUOTE :: char where "QUOTE \<equiv> CHR 0x22"

section \<open>Transmission\<close>

text \<open>The answer of the \<open>k\<close>-th \<open>zsock_send\<close> is \<open>ans k\<close>. The results are the return value, the bytes taken
  by the stack, and the number of the next call.\<close>

function web_send_all :: "(nat \<Rightarrow> int) \<Rightarrow> int \<Rightarrow> nat \<Rightarrow> string \<Rightarrow> int \<times> string \<times> nat" where
  "web_send_all ans errno k [] = (0, [], k)"
| "web_send_all ans errno k (b # buf) =
     (let ret = ans k
      in if ret < 0 then (- errno, [], k + 1)
         else if ret = 0 then (- ENOTCONN, [], k + 1)
         else
           let (r, sent, k') = web_send_all ans errno (k + 1) (drop (nat ret) (b # buf))
           in (r, take (nat ret) (b # buf) @ sent, k'))"
  by pat_completeness auto
termination
  by (relation "measure (\<lambda>(ans, errno, k, buf). length buf)") auto

definition http_header :: "http_response \<Rightarrow> string" where
  "http_header r = concat [''HTTP/1.1 '', dec_of_nat (hr_code r), '' '', hr_reason r, CRLF,
     ''Content-Type: '', hr_type r, CRLF,
     ''Content-Length: '', dec_of_nat (unat (of_nat (length (hr_body r)) :: u32)), CRLF,
     ''Connection: close'', CRLF, ''Cache-Control: no-store'', CRLF, CRLF]"

definition send_response_data :: "(nat \<Rightarrow> int) \<Rightarrow> int \<Rightarrow> http_response \<Rightarrow> int \<times> string" where
  "send_response_data ans errno r =
     (if 256 \<le> length (http_header r) then (- EMSGSIZE, [])
      else
        let (ret, sent, k) = web_send_all ans errno 0 (http_header r)
        in if ret < 0 \<or> length (hr_body r) = 0 then (ret, sent)
           else let (ret, sent', k) = web_send_all ans errno k (hr_body r) in (ret, sent @ sent'))"

definition response :: "nat \<Rightarrow> string \<Rightarrow> string \<Rightarrow> string \<Rightarrow> http_response" where
  "response code reason type_text body =
     \<lparr>hr_code = code, hr_reason = reason, hr_type = type_text, hr_body = body\<rparr>"

text \<open>A one-member object with the value unquoted or quoted, as the sources write them.\<close>

definition json_flag :: "string \<Rightarrow> string" where
  "json_flag name = concat [[CHR ''{'', QUOTE], name, [QUOTE], '':true}'']"

definition json_error :: "string \<Rightarrow> string" where
  "json_error name = concat [[CHR ''{'', QUOTE], ''error'', [QUOTE], '':'', [QUOTE], name, [QUOTE, CHR ''}'']]"

definition JSON_TYPE :: string where "JSON_TYPE = ''application/json''"

definition not_found :: http_response where
  "not_found = response 404 ''Not Found'' JSON_TYPE (json_error ''not_found'')"

definition bad_request :: http_response where
  "bad_request = response 400 ''Bad Request'' JSON_TYPE (json_error ''bad_request'')"

section \<open>Documents\<close>

definition read_holding_or_zero :: "m7_env \<Rightarrow> u16 \<Rightarrow> m7 \<Rightarrow> u16" where
  "read_holding_or_zero e addr w = (case app_modbus_tcp_holding_read e addr w of Inl _ \<Rightarrow> 0 | Inr v \<Rightarrow> v)"

text \<open>A member \<open>"name":\<close>, and one with a number.\<close>

definition json_key :: "string \<Rightarrow> string" where
  "json_key name = QUOTE # name @ [QUOTE, CHR '':'']"

definition json_num :: "string \<Rightarrow> nat \<Rightarrow> string" where
  "json_num name n = json_key name @ dec_of_nat n"

definition json_bool :: "bool \<Rightarrow> string" where
  "json_bool b = (if b then ''true'' else ''false'')"

definition m7_active :: "m7_env \<Rightarrow> m7 \<Rightarrow> int \<times> net_cfg_data" where
  "m7_active e w = net_cfg_get_active (me_ntop e) (me_has_iface e) (me_addrs e) (me_netmask_of e)
     (me_gateway e) (m7_net w)"

definition json_status :: "m7_env \<Rightarrow> m7 \<Rightarrow> int + string" where
  "json_status e w =
     (let active = snd (m7_active e w);
          last_status = read_holding_or_zero e APP_MB_HREG_STATUS w
      in Inr (concat [''{'', json_num ''mode'' (nd_mode active),
           '','', json_key ''ip'', [QUOTE], nd_ip active, [QUOTE],
           '','', json_key ''mask'', [QUOTE], nd_mask active, [QUOTE],
           '','', json_key ''gw'', [QUOTE], nd_gw active, [QUOTE],
           '','', json_key ''link'', json_bool (net_cfg_link_is_up (me_has_iface e) (me_if_up e) (me_carrier e)),
           '','', json_num ''modbus_connections'' (unat (app_modbus_tcp_connection_count w)),
           '','', json_num ''heartbeat'' (unat (app_modbus_tcp_heartbeat_count w)),
           '','', json_key ''last_status'', dec_of_int (s16_of_u16 last_status), ''}'']))"

text \<open>The loops that print an array: \<open>rd i\<close> reads element \<open>i\<close>.\<close>

fun json_loop :: "(nat \<Rightarrow> 'w \<Rightarrow> u16 \<times> 'w) \<Rightarrow> nat \<Rightarrow> nat \<Rightarrow> nat \<Rightarrow> string \<Rightarrow> 'w \<Rightarrow> (int + string) \<times> 'w" where
  "json_loop rd json_len i 0 buf w = (Inr buf, w)"
| "json_loop rd json_len i (Suc n) buf w =
     (let (v, w) = rd i w
      in case snprintk_at json_len ((if i = 0 then [] else '','') @ dec_of_nat (unat v)) buf of
           Inl ret \<Rightarrow> (Inl ret, w)
         | Inr buf \<Rightarrow> json_loop rd json_len (i + 1) n buf w)"

definition json_registers :: "m7_env \<Rightarrow> nat \<Rightarrow> m7 \<Rightarrow> int + string" where
  "json_registers e json_len w =
     (case snprintk_at json_len (concat [''{'', json_num ''count'' (unat APP_MODBUS_HOLDING_REG_COUNT), '','',
             json_key ''holding'', ''['']) [] of Inl ret \<Rightarrow> Inl ret
      | Inr buf \<Rightarrow>
        (case fst (json_loop (\<lambda>i w. (read_holding_or_zero e (of_nat i) w, w)) json_len 0
               (unat APP_MODBUS_HOLDING_REG_COUNT) buf w) of Inl ret \<Rightarrow> Inl ret
         | Inr buf \<Rightarrow> snprintk_at json_len '']}'' buf))"

definition json_register :: "m7_env \<Rightarrow> u16 \<Rightarrow> m7 \<Rightarrow> int + string" where
  "json_register e reg_id w =
     (case app_modbus_tcp_holding_read e reg_id w of Inl ret \<Rightarrow> Inl ret
      | Inr v \<Rightarrow> Inr (concat [''{'', json_num ''id'' (unat reg_id), '','', json_num ''value'' (unat v), ''}'']))"

text \<open>A word of the scanner's input or output image, 0 when it cannot be read.\<close>

definition scanner_output_rd :: "m7_env \<Rightarrow> u16 \<Rightarrow> m7 \<Rightarrow> (int + u16) \<times> m7" where
  "scanner_output_rd e addr w =
     (let (r, sc) = app_modbus_scanner_output_reg_rd (Some (holding_reg_rd e)) (me_now e) addr (m7_scanner w, w)
      in (r, w\<lparr>m7_scanner := sc\<rparr>))"

definition scanner_value :: "m7_env \<Rightarrow> bool \<Rightarrow> nat \<Rightarrow> m7 \<Rightarrow> u16 \<times> m7" where
  "scanner_value e input i w =
     (let (r, w) = (if input then scanner_input_rd e (of_nat i) w else scanner_output_rd e (of_nat i) w)
      in (case r of Inl _ \<Rightarrow> 0 | Inr v \<Rightarrow> v, w))"

definition json_scanner_image :: "m7_env \<Rightarrow> nat \<Rightarrow> bool \<Rightarrow> m7 \<Rightarrow> (int + string) \<times> m7" where
  "json_scanner_image e json_len input w =
     (let map_base = (if input then APP_MB_HREG_SCANNER_INPUT_MAP_BASE else APP_MB_HREG_SCANNER_OUTPUT_MAP_BASE);
          count = (if input then unat APP_MODBUS_SCANNER_INPUT_REG_COUNT
                   else unat APP_MODBUS_SCANNER_OUTPUT_REG_COUNT)
      in case snprintk_at json_len (concat [''{'', json_num ''count'' count, '','', json_key ''mapping'', ''['']) [] of
           Inl ret \<Rightarrow> (Inl ret, w)
         | Inr buf \<Rightarrow>
        (case json_loop (\<lambda>i w. (read_holding_or_zero e (map_base + of_nat i) w, w)) json_len 0 count buf w of
           (Inl ret, w) \<Rightarrow> (Inl ret, w)
         | (Inr buf, w) \<Rightarrow>
           (case snprintk_at json_len (concat [''],'', json_key ''values'', ''['']) buf of
              Inl ret \<Rightarrow> (Inl ret, w)
            | Inr buf \<Rightarrow>
              (case json_loop (scanner_value e input) json_len 0 count buf w of
                 (Inl ret, w) \<Rightarrow> (Inl ret, w)
               | (Inr buf, w) \<Rightarrow> (snprintk_at json_len '']}'' buf, w)))))"

text \<open>The inner documents are printed into the rest of the buffer.\<close>

definition json_scanner :: "m7_env \<Rightarrow> nat \<Rightarrow> m7 \<Rightarrow> (int + string) \<times> m7" where
  "json_scanner e json_len w =
     (case snprintk_at json_len (''{'' @ json_key ''input'') [] of Inl ret \<Rightarrow> (Inl ret, w)
      | Inr buf \<Rightarrow>
     (case json_scanner_image e (json_len - length buf) True w of (Inl ret, w) \<Rightarrow> (Inl (- EMSGSIZE), w)
      | (Inr image_text, w) \<Rightarrow>
     (case snprintk_at json_len image_text buf of Inl ret \<Rightarrow> (Inl ret, w)
      | Inr buf \<Rightarrow>
     (case snprintk_at json_len ('','' @ json_key ''output'') buf of Inl ret \<Rightarrow> (Inl ret, w)
      | Inr buf \<Rightarrow>
     (case json_scanner_image e (json_len - length buf) False w of (Inl ret, w) \<Rightarrow> (Inl (- EMSGSIZE), w)
      | (Inr image_text, w) \<Rightarrow>
     (case snprintk_at json_len image_text buf of Inl ret \<Rightarrow> (Inl ret, w)
      | Inr buf \<Rightarrow> (snprintk_at json_len ''}'' buf, w)))))))"

definition json_motor_state :: "m7_env \<Rightarrow> m7 \<Rightarrow> int + string" where
  "json_motor_state e w =
     (let state = app_ipc_get_motor_state (me_now e) (m7_link w);
          word_at = (\<lambda>i. unat (ms_words state ! i))
      in if \<not> ms_valid state then Inr (concat [''{'', json_key ''available'', ''false}''])
         else Inr (concat [''{'', json_key ''available'', ''true,'', json_key ''stale'', json_bool (ms_stale state),
           '','', json_num ''flags'' (word_at APP_MOTOR_STATE_FLAGS),
           '','', json_num ''applied'' (word_at APP_MOTOR_STATE_APPLIED_DUTY_PERMILLE),
           '','', json_num ''target'' (word_at APP_MOTOR_STATE_TARGET_DUTY_PERMILLE),
           '','', json_num ''direction'' (word_at APP_MOTOR_STATE_DIRECTION),
           '','', json_num ''fault'' (word_at APP_MOTOR_STATE_FAULT_CODE),
           '','', json_num ''buttons'' (word_at APP_MOTOR_STATE_BUTTONS),
           '','', json_num ''potentiometer'' (word_at APP_MOTOR_STATE_POTENTIOMETER_RAW),
           '','', json_num ''command_age_ms'' (word_at APP_MOTOR_STATE_COMMAND_AGE_MS),
           '','', json_num ''heartbeat'' (word_at APP_MOTOR_STATE_HEARTBEAT),
           '','', json_num ''sequence'' (word_at APP_MOTOR_STATE_LAST_ACCEPTED_SEQUENCE), ''}'']))"

section \<open>Parsing\<close>

text \<open>Everything before the first digit is skipped, a sign included.\<close>

definition parse_value :: "string option \<Rightarrow> int + u16" where
  "parse_value body =
     (case body of None \<Rightarrow> Inl (- EINVAL)
      | Some body \<Rightarrow>
        let cursor = (case strstr body ''value'' of Some s \<Rightarrow> drop (length ''value'') s | None \<Rightarrow> body);
            cursor = dropWhile (\<lambda>c. \<not> is_digit_char c) cursor
        in if cursor = [] then Inl (- EINVAL)
           else
             let (parsed, rest) = strtoul10 cursor
             in if rest = cursor \<or> 65535 < parsed then Inl (- EINVAL) else Inr (of_nat parsed))"

definition parse_named_value :: "string option \<Rightarrow> string \<Rightarrow> int + u16" where
  "parse_named_value body name =
     (case body of None \<Rightarrow> Inl (- EINVAL)
      | Some body \<Rightarrow>
        let key = QUOTE # name @ [QUOTE]
        in if 32 \<le> length key then Inl (- EINVAL)
           else
             (case strstr body key of None \<Rightarrow> Inl (- ENOENT)
              | Some cursor \<Rightarrow>
                (case strchr (drop (length key) cursor) (CHR '':'') of None \<Rightarrow> Inl (- EINVAL)
                 | Some cursor \<Rightarrow>
                   let cursor = dropWhile (\<lambda>c. c = CHR '' '' \<or> c = CHR 0x09) (tl cursor);
                       (parsed, rest) = strtoul10 cursor
                   in if rest = cursor \<or> 65535 < parsed then Inl (- EINVAL) else Inr (of_nat parsed))))"

definition parse_id_after_prefix :: "string \<Rightarrow> string \<Rightarrow> u16 option" where
  "parse_id_after_prefix path pre =
     (if \<not> starts_with pre path then None
      else
        let cursor = drop (length pre) path; (parsed, rest) = strtoul10 cursor
        in if rest = cursor \<or> rest \<noteq> [] \<or> 65535 < parsed then None else Some (of_nat parsed))"

definition parse_request_line :: "string \<Rightarrow> nat \<Rightarrow> nat \<Rightarrow> (string \<times> string) option" where
  "parse_request_line req method_len path_len =
     (case strchr req (CHR '' '') of None \<Rightarrow> None
      | Some method_end \<Rightarrow>
        let len = length req - length method_end
        in if len = 0 \<or> method_len \<le> len then None
           else
             let method = take len req; path_start = dropWhile (\<lambda>c. c = CHR '' '') method_end
             in (case strchr path_start (CHR '' '') of None \<Rightarrow> None
                 | Some path_end \<Rightarrow>
                   let len = length path_start - length path_end
                   in if len = 0 \<or> path_len \<le> len then None else Some (method, take len path_start)))"

section \<open>Commands\<close>

definition motor_optional_fields :: "(string \<times> u16) list" where
  "motor_optional_fields = [(''duty'', APP_MB_HREG_MOTOR_TARGET_DUTY), (''accel'', APP_MB_HREG_MOTOR_ACCEL_RAMP),
     (''decel'', APP_MB_HREG_MOTOR_DECEL_RAMP), (''timeout'', APP_MB_HREG_MOTOR_TIMEOUT)]"

fun optional_fields_loop :: "m7_env \<Rightarrow> string option \<Rightarrow> (string \<times> u16) list \<Rightarrow> m7 \<Rightarrow> int \<times> m7" where
  "optional_fields_loop e body [] w = (0, w)"
| "optional_fields_loop e body ((name, reg) # rest) w =
     (case parse_named_value body name of
        Inl ret \<Rightarrow> if ret = - ENOENT then optional_fields_loop e body rest w else (ret, w)
      | Inr v \<Rightarrow>
        let (ret, w) = app_modbus_tcp_holding_write e reg v w
        in if ret < 0 then (ret, w) else optional_fields_loop e body rest w)"

definition apply_motor_command :: "m7_env \<Rightarrow> string option \<Rightarrow> m7 \<Rightarrow> int \<times> m7" where
  "apply_motor_command e body w =
     (case parse_named_value body ''control'' of Inl ret \<Rightarrow> (ret, w)
      | Inr v \<Rightarrow>
        let (ret, w) = app_modbus_tcp_holding_write e APP_MB_HREG_MOTOR_CONTROL v w
        in if ret < 0 then (ret, w)
           else
             let (ret, w) = optional_fields_loop e body motor_optional_fields w
             in if ret < 0 then (ret, w)
                else
                  let (ret, w) = app_modbus_tcp_motor_set_mode e True w
                  in if ret < 0 then (ret, w)
                     else app_modbus_tcp_holding_write e APP_MB_HREG_MOTOR_APPLY APP_MB_MOTOR_APPLY_COMMAND w)"

definition apply_motor_local :: "m7_env \<Rightarrow> m7 \<Rightarrow> int \<times> m7" where
  "apply_motor_local e w =
     (let (ret, w) = app_modbus_tcp_holding_write e APP_MB_HREG_MOTOR_CONTROL 0 w
      in if ret < 0 then (ret, w)
         else
           let (ret, w) = app_modbus_tcp_motor_set_mode e False w
           in if ret < 0 then (ret, w)
              else app_modbus_tcp_holding_write e APP_MB_HREG_MOTOR_APPLY APP_MB_MOTOR_APPLY_COMMAND w)"

section \<open>Routes\<close>

type_synonym client = "http_response \<Rightarrow> int"
type_synonym handled = "int \<times> http_response \<times> web_world"

definition send_to :: "client \<Rightarrow> http_response \<Rightarrow> web_world \<Rightarrow> handled" where
  "send_to client r w = (client r, r, w)"

definition ok_json :: "string \<Rightarrow> http_response" where
  "ok_json body = response 200 ''OK'' JSON_TYPE body"

definition accepted_json :: "string \<Rightarrow> http_response" where
  "accepted_json body = response 202 ''Accepted'' JSON_TYPE body"

definition json_overflow :: http_response where
  "json_overflow = response 500 ''Internal Server Error'' JSON_TYPE (json_error ''json_overflow'')"

text \<open>The document a GET path names, \<open>None\<close> when there is none, with the state after reading it.\<close>

definition api_document :: "m7_env \<Rightarrow> string \<Rightarrow> m7 \<Rightarrow> (int + string) option \<times> m7" where
  "api_document e path w =
     (if path = ''/api/status'' then (Some (json_status e w), w)
      else if path = ''/api/registers'' then (Some (json_registers e APP_WEB_JSON_BUF_SIZE w), w)
      else case parse_id_after_prefix path ''/api/registers/'' of
        Some reg_id \<Rightarrow> (Some (json_register e reg_id w), w)
      | None \<Rightarrow>
        if path = ''/api/scanner''
        then (case json_scanner e APP_WEB_JSON_BUF_SIZE w of (doc, w) \<Rightarrow> (Some doc, w))
        else if path = ''/api/scanner/input''
        then (case json_scanner_image e APP_WEB_JSON_BUF_SIZE True w of (doc, w) \<Rightarrow> (Some doc, w))
        else if path = ''/api/scanner/output''
        then (case json_scanner_image e APP_WEB_JSON_BUF_SIZE False w of (doc, w) \<Rightarrow> (Some doc, w))
        else if path = ''/api/motor/state'' then (Some (json_motor_state e w), w)
        else (None, w))"

definition handle_api_get :: "client \<Rightarrow> web_env \<Rightarrow> string \<Rightarrow> web_world \<Rightarrow> handled" where
  "handle_api_get client we path ww =
     (case api_document (we_m7 we) path (ww_m7 ww) of
        (None, w) \<Rightarrow> send_to client not_found ww
      | (Some doc, w) \<Rightarrow>
        let ww = ww\<lparr>ww_m7 := w\<rparr>
        in (case doc of Inl len \<Rightarrow> send_to client json_overflow ww
            | Inr json \<Rightarrow>
              if APP_WEB_JSON_BUF_SIZE \<le> length json then send_to client json_overflow ww
              else send_to client (ok_json json) ww))"

text \<open>The write a PUT path names: \<open>None\<close> without a route, \<open>Some None\<close> for an index out of range.\<close>

definition api_put_write :: "m7_env \<Rightarrow> string \<Rightarrow> u16 \<Rightarrow> m7 \<Rightarrow> (int \<times> m7) option option" where
  "api_put_write e path v w =
     (case parse_id_after_prefix path ''/api/registers/'' of
        Some reg_id \<Rightarrow> Some (Some (app_modbus_tcp_holding_write e reg_id v w))
      | None \<Rightarrow>
     (case parse_id_after_prefix path ''/api/scanner/output/'' of
        Some reg_id \<Rightarrow> Some (Some (scanner_output_wr e reg_id v w))
      | None \<Rightarrow>
     (case parse_id_after_prefix path ''/api/scanner/input-mapping/'' of
        Some reg_id \<Rightarrow>
          if APP_MODBUS_SCANNER_INPUT_REG_COUNT \<le> reg_id then Some None
          else Some (Some (app_modbus_tcp_holding_write e (APP_MB_HREG_SCANNER_INPUT_MAP_BASE + reg_id) v w))
      | None \<Rightarrow>
     (case parse_id_after_prefix path ''/api/scanner/output-mapping/'' of
        Some reg_id \<Rightarrow>
          if APP_MODBUS_SCANNER_OUTPUT_REG_COUNT \<le> reg_id then Some None
          else Some (Some (app_modbus_tcp_holding_write e (APP_MB_HREG_SCANNER_OUTPUT_MAP_BASE + reg_id) v w))
      | None \<Rightarrow> None))))"

definition handle_api_put :: "client \<Rightarrow> web_env \<Rightarrow> string \<Rightarrow> string option \<Rightarrow> web_world \<Rightarrow> handled" where
  "handle_api_put client we path body ww =
     (case parse_value body of Inl ret \<Rightarrow> send_to client bad_request ww
      | Inr v \<Rightarrow>
        (case api_put_write (we_m7 we) path v (ww_m7 ww) of
           None \<Rightarrow> send_to client not_found ww
         | Some None \<Rightarrow> send_to client bad_request ww
         | Some (Some (ret, w)) \<Rightarrow>
           let ww = ww\<lparr>ww_m7 := w\<rparr>
           in if ret < 0 then send_to client bad_request ww
              else send_to client (ok_json (json_flag ''ok'')) ww))"

definition handle_api_post :: "client \<Rightarrow> web_env \<Rightarrow> string \<Rightarrow> string option \<Rightarrow> web_world \<Rightarrow> handled" where
  "handle_api_post client we path body ww =
     (if path = ''/api/commands/save-config''
      then let (ret, w) = app_modbus_tcp_holding_write (we_m7 we) APP_MB_HREG_COMMAND APP_MB_CMD_SAVE (ww_m7 ww);
               ww = ww\<lparr>ww_m7 := w\<rparr>
           in if ret < 0 then send_to client bad_request ww
              else send_to client (ok_json (json_flag ''ok'')) ww
      else if path = ''/api/commands/reboot''
      then let (ret, r, ww) = send_to client (accepted_json (json_flag ''ok'')) ww
           in (ret, r, if ret = 0 then ww\<lparr>ww_web := (ww_web ww)\<lparr>web_reboot_scheduled := True\<rparr>\<rparr> else ww)
      else if path = ''/api/motor/command''
      then let (ret, w) = apply_motor_command (we_m7 we) body (ww_m7 ww);
               ww = ww\<lparr>ww_m7 := w\<rparr>
           in if ret < 0 then send_to client bad_request ww
              else send_to client (accepted_json (json_flag ''queued'')) ww
      else if path = ''/api/motor/local''
      then let (ret, w) = apply_motor_local (we_m7 we) (ww_m7 ww);
               ww = ww\<lparr>ww_m7 := w\<rparr>
           in if ret < 0 then send_to client bad_request ww
              else send_to client (accepted_json (json_flag ''queued'')) ww
      else send_to client not_found ww)"

definition request_body :: "string \<Rightarrow> string option" where
  "request_body req = map_option (drop 4) (strstr req (CRLF @ CRLF))"

definition method_not_allowed :: http_response where
  "method_not_allowed = response 405 ''Method Not Allowed'' JSON_TYPE (json_error ''method_not_allowed'')"

definition handle_http_request :: "client \<Rightarrow> web_env \<Rightarrow> string \<Rightarrow> web_world \<Rightarrow> handled" where
  "handle_http_request client we req ww =
     (case parse_request_line req 8 96 of None \<Rightarrow> send_to client bad_request ww
      | Some (method, path) \<Rightarrow>
        let body = request_body req
        in if method = ''GET''
           then if path = ''/'' \<or> path = ''/index.html''
                then send_to client (response 200 ''OK'' ''text/html; charset=utf-8'' (we_index_html we)) ww
                else if path = ''/app.css''
                then send_to client (response 200 ''OK'' ''text/css; charset=utf-8'' (we_css we)) ww
                else if path = ''/app.js''
                then send_to client (response 200 ''OK'' ''application/javascript; charset=utf-8'' (we_js we)) ww
                else if path = ''/logo.jpg''
                then send_to client (response 200 ''OK'' ''image/jpeg'' (we_logo we)) ww
                else if starts_with ''/api/'' path then handle_api_get client we path ww
                else send_to client not_found ww
           else if method = ''POST''
           then if app_dpws_is_metadata_path (we_ident we) path
                then (case app_dpws_build_metadata (we_ident we) (we_cycles we) (me_uptime_ms (we_m7 we))
                             APP_DPWS_METADATA_XML_SIZE req (ww_dpws ww) of
                        (Inl len, d) \<Rightarrow> send_to client bad_request (ww\<lparr>ww_dpws := d\<rparr>)
                      | (Inr xml, d) \<Rightarrow> send_to client (response 200 ''OK'' ''application/soap+xml; charset=utf-8'' xml)
                          (ww\<lparr>ww_dpws := d\<rparr>))
                else handle_api_post client we path body ww
           else if method = ''PUT'' then handle_api_put client we path body ww
           else send_to client method_not_allowed ww)"

section \<open>Connections\<close>

text \<open>A connection: the answers of \<open>zsock_accept\<close> and \<open>zsock_recv\<close> with the received bytes, and of the
  sends. The result is what the client receives, \<open>None\<close> without a request.\<close>

record web_conn =
  wc_accept :: int
  wc_len :: int
  wc_bytes :: string
  wc_send :: "nat \<Rightarrow> int"
  wc_errno :: int

definition app_web_serve_client :: "web_env \<Rightarrow> web_conn \<Rightarrow> web_world \<Rightarrow> string option \<times> web_world" where
  "app_web_serve_client we c ww =
     (if wc_accept c < 0 \<or> wc_len c \<le> 0 then (None, ww)
      else
        let req = c_string (take (nat (wc_len c)) (wc_bytes c));
            (ret, r, ww) = handle_http_request (\<lambda>r. fst (send_response_data (wc_send c) (wc_errno c) r)) we req ww
        in (Some (snd (send_response_data (wc_send c) (wc_errno c) r)), ww))"

text \<open>One turn of the thread's loop: the answer of \<open>zsock_poll\<close> and, for each listener that has one, the
  waiting connection with the answers during it.\<close>

definition app_web_turn :: "int \<Rightarrow> (web_env \<times> web_conn) option list \<Rightarrow> web_world \<Rightarrow> web_world" where
  "app_web_turn ret ready ww =
     (if ret < 0 then ww
      else fold (\<lambda>c ww. case c of None \<Rightarrow> ww | Some (we, c) \<Rightarrow> snd (app_web_serve_client we c ww)) ready ww)"

text \<open>A listener: the answers of \<open>zsock_socket\<close>, \<open>zsock_setsockopt\<close> (IPv6 only), \<open>zsock_bind\<close>,
  \<open>zsock_listen\<close> and \<open>errno\<close>; the result and whether the socket was closed again.\<close>

definition app_web_create_listener :: "family \<Rightarrow> int \<Rightarrow> int \<Rightarrow> int \<Rightarrow> int \<Rightarrow> int \<Rightarrow> int \<times> bool" where
  "app_web_create_listener fam server opt_ret bind_ret listen_ret errno =
     (if server < 0 then (- errno, False)
      else if fam = AF_INET6 \<and> opt_ret < 0 then (- errno, True)
      else if bind_ret < 0 then (- errno, True)
      else if listen_ret < 0 then (- errno, True)
      else (server, False))"

text \<open>The listeners the thread runs with, \<open>None\<close> when it ends at once.\<close>

definition app_web_listeners :: "int \<Rightarrow> int \<Rightarrow> (int \<times> int) option" where
  "app_web_listeners listener4 listener6 =
     (if listener4 < 0 then None else if listener6 < 0 then None else Some (listener4, listener6))"

definition app_web_start :: "web \<Rightarrow> int \<times> web" where
  "app_web_start s = (if web_started s then (0, s) else (0, s\<lparr>web_started := True\<rparr>))"

end
