(* ===== verification/Web_Service.thy ===== *)
theory Web_Service
  imports App_Web App_Eip
begin

unbundle bit_operations_syntax

text \<open>
  What a client of the web server of \<open>App_Web\<close> obtains: complete responses whose documents always fit
  their buffer, reads that change nothing, register writes and motor commands with the effect of the
  corresponding Modbus accesses, and what happens to malformed requests.
\<close>

section \<open>Every handler keeps the register bank's invariant\<close>

lemma holding_write_inv: "modbus_inv w \<Longrightarrow> modbus_inv (snd (app_modbus_tcp_holding_write e a v w))"
  by (simp add: app_modbus_tcp_holding_write_def holding_reg_wr_inv)

lemma motor_set_mode_inv: "modbus_inv w \<Longrightarrow> modbus_inv (snd (app_modbus_tcp_motor_set_mode e b w))"
  by (simp add: app_modbus_tcp_motor_set_mode_def holding_reg_wr_inv)

lemma optional_fields_loop_inv: "modbus_inv w \<Longrightarrow> modbus_inv (snd (optional_fields_loop e body fs w))"
proof (induction fs arbitrary: w)
  case (Cons f fs)
  obtain name reg where "f = (name, reg)" by (rule prod.exhaust)
  with Cons holding_write_inv [OF Cons.prems] show ?case
    by (simp add: Let_def case_prod_beta split: sum.split)
qed simp

lemma apply_motor_command_inv: "modbus_inv w \<Longrightarrow> modbus_inv (snd (apply_motor_command e body w))"
  by (auto simp: apply_motor_command_def Let_def case_prod_beta holding_write_inv motor_set_mode_inv
      optional_fields_loop_inv split: sum.split)

lemma apply_motor_local_inv: "modbus_inv w \<Longrightarrow> modbus_inv (snd (apply_motor_local e w))"
  by (auto simp: apply_motor_local_def Let_def case_prod_beta holding_write_inv motor_set_mode_inv)

lemma scanner_output_rd_keeps:
  "m7_modbus (snd (scanner_output_rd e a w)) = m7_modbus w" "m7_link (snd (scanner_output_rd e a w)) = m7_link w"
  "m7_net (snd (scanner_output_rd e a w)) = m7_net w"
  "scanner_inv (m7_scanner w) \<Longrightarrow> scanner_inv (m7_scanner (snd (scanner_output_rd e a w)))"
  by (simp_all add: scanner_output_rd_def case_prod_beta scanner_rd_inv)

text \<open>What a reading operation leaves alone: everything but the scanner's diagnostics of reads, which
  \<open>without_reads\<close> blanks out. Its count of writes and its local words are not among them.\<close>

definition without_reads :: "scanner \<Rightarrow> scanner" where
  "without_reads sc = sc\<lparr>sc_read_count := 0, sc_last_addr := 0, sc_last_error := 0, sc_last_access_ms := 0,
     sc_period_ms := 0\<rparr>"

definition reads_only :: "m7 \<Rightarrow> m7 \<Rightarrow> bool" where
  "reads_only w w' \<longleftrightarrow>
     w'\<lparr>m7_scanner := without_reads (m7_scanner w')\<rparr> = w\<lparr>m7_scanner := without_reads (m7_scanner w)\<rparr>"

lemma reads_only_same:
  assumes "reads_only w w'"
  shows "m7_modbus w' = m7_modbus w" "m7_link w' = m7_link w" "m7_net w' = m7_net w" "m7_stored w' = m7_stored w"
    and "scanner_inv (m7_scanner w') = scanner_inv (m7_scanner w)"
    and "w' = w\<lparr>m7_scanner := (m7_scanner w)\<lparr>sc_read_count := sc_read_count (m7_scanner w'),
      sc_last_addr := sc_last_addr (m7_scanner w'), sc_last_error := sc_last_error (m7_scanner w'),
      sc_last_access_ms := sc_last_access_ms (m7_scanner w'), sc_period_ms := sc_period_ms (m7_scanner w')\<rparr>\<rparr>"
  using assms
  by (cases w; cases w'; cases "m7_scanner w"; cases "m7_scanner w'";
      simp add: reads_only_def without_reads_def scanner_inv_def)+

lemma without_reads_diag [simp]: "without_reads (update_access_diag now addr False err sc) = without_reads sc"
  by (simp add: without_reads_def update_access_diag_def Let_def)

lemma scanner_rd_without_reads [simp]:
  "without_reads (snd (app_modbus_scanner_input_reg_rd rd now addr (sc, w))) = without_reads sc"
  "without_reads (snd (app_modbus_scanner_output_reg_rd rd now addr (sc, w))) = without_reads sc"
  by (simp_all add: app_modbus_scanner_input_reg_rd_def app_modbus_scanner_output_reg_rd_def Let_def split: sum.split)

lemma reads_only_refl [simp]: "reads_only w w"
  by (simp add: reads_only_def)

lemma reads_only_trans: "reads_only w w1 \<Longrightarrow> reads_only w1 w2 \<Longrightarrow> reads_only w w2"
  by (simp add: reads_only_def)

lemma reads_only_inv: "reads_only w w' \<Longrightarrow> modbus_inv w \<Longrightarrow> modbus_inv w'"
  using reads_only_same [of w w'] by (simp add: modbus_inv_def)

lemma scanner_value_reads: "reads_only w (snd (scanner_value e input i w))"
  by (simp add: scanner_value_def case_prod_beta reads_only_def scanner_input_rd_def scanner_output_rd_def)

lemma json_loop_reads:
  "(\<And>i w. reads_only w (snd (rd i w))) \<Longrightarrow> reads_only w (snd (json_loop rd n i k buf w))"
proof (induction k arbitrary: i buf w)
  case (Suc k)
  show ?case
    using Suc.prems Suc.IH [OF Suc.prems] reads_only_trans [OF Suc.prems [of w i]]
    by (auto simp: Let_def case_prod_beta split: sum.split)
qed simp

lemma json_loop_reads_result:
  assumes "json_loop rd n i k buf w = (r, w')" and "\<And>i w. reads_only w (snd (rd i w))"
  shows "reads_only w w'"
  using json_loop_reads [of rd w n i k buf, OF assms(2)] assms(1) by simp

lemma json_loop_readsD:
  "json_loop (scanner_value e input) n i k buf w = (r, w') \<Longrightarrow> reads_only w w'"
  "json_loop (\<lambda>i w. (f i w, w)) n i k buf w = (r, w') \<Longrightarrow> reads_only w w'"
  by (erule json_loop_reads_result, simp add: scanner_value_reads)+

lemma json_scanner_image_reads: "json_scanner_image e n input w = (r, w') \<Longrightarrow> reads_only w w'"
  unfolding json_scanner_image_def Let_def
  by (auto split: sum.splits prod.splits dest!: json_loop_readsD intro: reads_only_trans)

lemma json_scanner_reads: "json_scanner e n w = (r, w') \<Longrightarrow> reads_only w w'"
  unfolding json_scanner_def
  by (auto split: sum.splits prod.splits dest!: json_scanner_image_reads intro: reads_only_trans)

lemma api_document_reads: "api_document e path w = (r, w') \<Longrightarrow> reads_only w w'"
  unfolding api_document_def
  by (auto split: option.splits prod.splits if_splits dest: json_scanner_image_reads json_scanner_reads)

lemma api_put_write_inv:
  "modbus_inv w \<Longrightarrow> api_put_write e path v w = Some (Some (ret, w')) \<Longrightarrow> modbus_inv w'"
  using holding_write_inv [of w e] scanner_output_wr_inv [of w e]
  unfolding api_put_write_def
  by (auto split: option.splits if_splits) (metis snd_conv)+

lemma handle_api_post_inv: "modbus_inv (ww_m7 ww) \<Longrightarrow> modbus_inv (ww_m7 (snd (snd (handle_api_post client we path body ww))))"
  by (simp add: handle_api_post_def send_to_def Let_def case_prod_beta holding_write_inv apply_motor_command_inv
      apply_motor_local_inv)

lemma handle_api_put_inv: "modbus_inv (ww_m7 ww) \<Longrightarrow> modbus_inv (ww_m7 (snd (snd (handle_api_put client we path body ww))))"
  unfolding handle_api_put_def
  by (auto simp: send_to_def Let_def split: sum.split option.split dest: api_put_write_inv)

lemma handle_api_get_inv: "modbus_inv (ww_m7 ww) \<Longrightarrow> modbus_inv (ww_m7 (snd (snd (handle_api_get client we path ww))))"
  unfolding handle_api_get_def
  by (auto simp: send_to_def Let_def split: sum.split option.split prod.split
      dest!: api_document_reads intro: reads_only_inv)

lemma handle_http_request_inv:
  "modbus_inv (ww_m7 ww) \<Longrightarrow> modbus_inv (ww_m7 (snd (snd (handle_http_request client we req ww))))"
  unfolding handle_http_request_def
  by (auto simp: send_to_def Let_def handle_api_get_inv handle_api_put_inv handle_api_post_inv
      split: option.split sum.split prod.split)

lemma app_web_serve_client_inv:
  "modbus_inv (ww_m7 ww) \<Longrightarrow> modbus_inv (ww_m7 (snd (app_web_serve_client we c ww)))"
  using handle_http_request_inv by (simp add: app_web_serve_client_def Let_def case_prod_beta)

section \<open>Documents fit their buffer\<close>

lemma json_loop_fits:
  assumes "length buf + 6 * k < n"
  shows "\<exists>t. fst (json_loop rd n i k buf w) = Inr t \<and> length t \<le> length buf + 6 * k"
  using assms
proof (induction k arbitrary: i buf w)
  case (Suc k)
  obtain v w1 where v: "rd i w = (v, w1)" by (rule prod.exhaust)
  let ?t = "(if i = 0 then [] else '','') @ dec_of_nat (unat v)"
  have l: "length ?t \<le> 6" using length_dec_u16 [of v] by simp
  have "length buf + length ?t < n" using Suc.prems l unfolding mult_Suc_right by linarith
  then have s: "snprintk_at n ?t buf = Inr (buf @ ?t)" by (rule snprintk_at_fits)
  have "length (buf @ ?t) + 6 * k < n" using Suc.prems l by (simp del: append_assoc)
  from Suc.IH [OF this, of "i + 1" w1] obtain t where
    "fst (json_loop rd n (i + 1) k (buf @ ?t) w1) = Inr t" "length t \<le> length (buf @ ?t) + 6 * k" by blast
  then show ?case using l unfolding json_loop.simps Let_def v prod.case s sum.case by (intro exI [of _ t]) auto
qed simp

lemma json_key_length [simp]: "length (json_key name) = length name + 3"
  by (simp add: json_key_def)

lemma json_num_length [simp]: "length (json_num name n) = length name + 3 + length (dec_of_nat n)"
  by (simp add: json_num_def)

lemma json_bool_length: "length (json_bool b) \<le> 5"
  by (simp add: json_bool_def)

lemma dec_small: "n < 100 \<Longrightarrow> length (dec_of_nat n) \<le> 2"
  unfolding dec_of_nat_def using length_digits_of [of 10 n 2] by simp

lemma json_registers_fits: "\<exists>t. json_registers e 2048 w = Inr t \<and> length t < 2048"
proof -
  let ?h = "concat [''{'', json_num ''count'' (unat APP_MODBUS_HOLDING_REG_COUNT), '','', json_key ''holding'', ''['']"
  have h: "length ?h \<le> 30" using dec_small [of 60] by (simp add: c_def)
  let ?rd = "\<lambda>i w. (read_holding_or_zero e (of_nat i) w, w)"
  obtain t where t: "fst (json_loop ?rd 2048 0 60 ?h w) = Inr t" "length t \<le> length ?h + 6 * 60"
    using json_loop_fits [of ?h 60 2048 ?rd 0 w] h by auto
  have u: "unat APP_MODBUS_HOLDING_REG_COUNT = 60" by (simp add: c_def)
  have "json_registers e 2048 w = Inr (t @ '']}'')"
    using t h unfolding json_registers_def u by (simp add: snprintk_at_def)
  then show ?thesis using t h by simp
qed

lemma json_scanner_image_fits:
  assumes "200 < n"
  shows "\<exists>t. fst (json_scanner_image e n input w) = Inr t \<and> length t \<le> 110"
proof -
  let ?h = "concat [''{'', json_num ''count'' 5, '','', json_key ''mapping'', ''['']"
  let ?m = "concat [''],'', json_key ''values'', ''['']"
  let ?b = "if input then APP_MB_HREG_SCANNER_INPUT_MAP_BASE else APP_MB_HREG_SCANNER_OUTPUT_MAP_BASE"
  let ?rd = "\<lambda>i w. (read_holding_or_zero e (?b + of_nat i) w, w)"
  have h: "length ?h \<le> 30" "length ?m = 12" using dec_small [of 5] by simp_all
  obtain r w1 where l1: "json_loop ?rd n 0 5 ?h w = (r, w1)" by (rule prod.exhaust)
  with json_loop_fits [of ?h 5 n ?rd 0 w] h assms obtain t where t: "r = Inr t" "length t \<le> length ?h + 30" by auto
  have s1: "snprintk_at n ?m t = Inr (t @ ?m)" using t h assms by (intro snprintk_at_fits) linarith
  obtain r2 w2 where l2: "json_loop (scanner_value e input) n 0 5 (t @ ?m) w1 = (r2, w2)" by (rule prod.exhaust)
  have "length (t @ ?m) + 6 * 5 < n" using t h assms by (simp del: concat.simps)
  with json_loop_fits [of "t @ ?m" 5 n "scanner_value e input" 0 w1] l2 obtain t2 where
    t2: "r2 = Inr t2" "length t2 \<le> length (t @ ?m) + 30" by auto
  have s2: "snprintk_at n '']}'' t2 = Inr (t2 @ '']}'')"
    using t t2 h assms by (intro snprintk_at_fits) (simp del: concat.simps)
  have c: "(if input then unat APP_MODBUS_SCANNER_INPUT_REG_COUNT else unat APP_MODBUS_SCANNER_OUTPUT_REG_COUNT) = 5"
    by (simp add: c_def)
  have s0: "snprintk_at n ?h [] = Inr ?h" using snprintk_at_fits [of "[]" ?h n] h assms by simp
  have "fst (json_scanner_image e n input w) = Inr (t2 @ '']}'')"
    unfolding json_scanner_image_def Let_def c s0 sum.case l1 prod.case t(1) s1 l2 t2(1) s2 by simp
  then show ?thesis using t t2 h by (simp del: concat.simps)
qed

lemma json_scanner_fits: "\<exists>t. fst (json_scanner e 2048 w) = Inr t \<and> length t < 2048"
proof -
  let ?h = "''{'' @ json_key ''input''" and ?m = "'','' @ json_key ''output''"
  have h: "length ?h = 9" "length ?m = 10" by simp_all
  have s0: "snprintk_at 2048 ?h [] = Inr ?h" using snprintk_at_fits [of "[]" ?h 2048] h by simp
  obtain r w1 where i1: "json_scanner_image e (2048 - length ?h) True w = (r, w1)" by (rule prod.exhaust)
  with json_scanner_image_fits [of "2048 - length ?h" e True w] h obtain t
    where t: "r = Inr t" "length t \<le> 110" by auto
  have s1: "snprintk_at 2048 t ?h = Inr (?h @ t)" using t h by (intro snprintk_at_fits) linarith
  let ?b = "(?h @ t) @ ?m"
  have s2: "snprintk_at 2048 ?m (?h @ t) = Inr ?b" using t h
    by (intro snprintk_at_fits) (simp del: json_key_length append.simps append_assoc)
  have b: "length ?b \<le> 129" using t h by (simp del: json_key_length append.simps append_assoc)
  obtain r2 w2 where i2: "json_scanner_image e (2048 - length ?b) False w1 = (r2, w2)" by (rule prod.exhaust)
  have "200 < 2048 - length ?b" using b by linarith
  from json_scanner_image_fits [OF this, of e False w1] i2 obtain t2
    where t2: "r2 = Inr t2" "length t2 \<le> 110" by auto
  have s3: "snprintk_at 2048 t2 ?b = Inr (?b @ t2)" using t2 b by (intro snprintk_at_fits) linarith
  have s4: "snprintk_at 2048 ''}'' (?b @ t2) = Inr ((?b @ t2) @ ''}'')"
    using t2 b by (intro snprintk_at_fits) (simp del: json_key_length append_assoc)
  have "fst (json_scanner e 2048 w) = Inr ((?b @ t2) @ ''}'')"
    unfolding json_scanner_def s0 sum.case i1 prod.case t(1) s1 s2 i2 t2(1) s3 s4 by simp
  then show ?thesis using t2 b by (simp del: json_key_length append_assoc)
qed

lemma json_register_fits:
  assumes "json_register e reg_id w = Inr t"
  shows "length t < 2048"
proof -
  obtain v where "app_modbus_tcp_holding_read e reg_id w = Inr v"
    using assms by (cases "app_modbus_tcp_holding_read e reg_id w") (auto simp: json_register_def)
  then have "t = concat [''{'', json_num ''id'' (unat reg_id), '','', json_num ''value'' (unat v), ''}'']"
    using assms by (simp add: json_register_def)
  then show ?thesis using length_dec_u16 [of reg_id] length_dec_u16 [of v] by simp
qed

lemma json_motor_state_fits:
  assumes "json_motor_state e w = Inr t"
  shows "length t < 2048"
proof -
  have d: "length (dec_of_nat (unat (ws ! i))) \<le> 5" for ws :: "u16 list" and i by (rule length_dec_u16)
  let ?s = "app_ipc_get_motor_state (me_now e) (m7_link w)"
  show ?thesis
    using assms json_bool_length [of "ms_stale ?s"] d [of "ms_words ?s" APP_MOTOR_STATE_FLAGS]
      d [of "ms_words ?s" APP_MOTOR_STATE_APPLIED_DUTY_PERMILLE] d [of "ms_words ?s" APP_MOTOR_STATE_TARGET_DUTY_PERMILLE]
      d [of "ms_words ?s" APP_MOTOR_STATE_DIRECTION] d [of "ms_words ?s" APP_MOTOR_STATE_FAULT_CODE]
      d [of "ms_words ?s" APP_MOTOR_STATE_BUTTONS] d [of "ms_words ?s" APP_MOTOR_STATE_POTENTIOMETER_RAW]
      d [of "ms_words ?s" APP_MOTOR_STATE_COMMAND_AGE_MS] d [of "ms_words ?s" APP_MOTOR_STATE_HEARTBEAT]
      d [of "ms_words ?s" APP_MOTOR_STATE_LAST_ACCEPTED_SEQUENCE]
    by (auto simp: json_motor_state_def Let_def split: if_splits)
qed

text \<open>The active configuration's texts fit, when the saved ones and those of \<open>net_addr_ntop\<close> do.\<close>

lemma net_cfg_select_mode: "fst (net_cfg_select as (m, s)) \<le> max m 1"
  by (induction as "(m, s)" arbitrary: m s rule: net_cfg_select.induct) (auto simp: c_def split: if_splits)

lemma active_fits:
  assumes "\<And>a. length (me_ntop e a) \<le> 15" and "active = snd (m7_active e w)"
  shows "length (nd_ip active) \<le> 15 \<and> length (nd_mask active) \<le> 15 \<and> length (nd_gw active) \<le> 15
     \<and> nd_mode active \<le> max (nd_mode (m7_net w)) 1"
proof -
  have m: "m \<le> max (nd_mode (m7_net w)) 1" if "net_cfg_select as (nd_mode (m7_net w), s) = (m, t)" for m as s t
    using net_cfg_select_mode [of as "nd_mode (m7_net w)" s] that by simp
  show ?thesis
    unfolding assms(2) m7_active_def net_cfg_get_active_def
    by (auto simp: net_cfg_get_saved_def net_cfg_copy_def Let_def assms(1) m le_max_iff_disj
        split: option.split prod.split dest!: m)
qed

lemma json_status_fits:
  assumes "\<And>a. length (me_ntop e a) \<le> 15" and "nd_mode (m7_net w) < 2 ^ 32" and "json_status e w = Inr t"
  shows "length t < 2048"
proof -
  let ?a = "snd (m7_active e w)"
  note a = active_fits [OF assms(1) refl, of w]
  then have "nd_mode ?a < 10 ^ 10" using assms(2) by (auto simp: max_def split: if_splits)
  then have "length (dec_of_nat (nd_mode ?a)) \<le> 10"
    unfolding dec_of_nat_def using length_digits_of [of 10 "nd_mode ?a" 10] by simp
  then show ?thesis
    using a assms(3) json_bool_length [of "net_cfg_link_is_up (me_has_iface e) (me_if_up e) (me_carrier e)"]
      length_dec_u16 [of "app_modbus_tcp_connection_count w"] length_dec_u16 [of "app_modbus_tcp_heartbeat_count w"]
      length_dec_s16 [of "read_holding_or_zero e APP_MB_HREG_STATUS w"]
    by (auto simp: json_status_def Let_def)
qed

lemma api_document_error:
  assumes "\<And>a. length (me_ntop e a) \<le> 15" and "nd_mode (m7_net w) < 2 ^ 32"
    and "api_document e path w = (Some doc, w')" and "case doc of Inl _ \<Rightarrow> True | Inr t \<Rightarrow> 2048 \<le> length t"
  obtains reg_id err where "parse_id_after_prefix path ''/api/registers/'' = Some reg_id"
    "app_modbus_tcp_holding_read e reg_id w = Inl err"
proof -
  have s: "\<exists>t. fst (json_scanner e 2048 w) = Inr t \<and> length t < 2048"
    "\<exists>t. fst (json_scanner_image e 2048 b w) = Inr t \<and> length t < 2048" for b
    using json_scanner_fits json_scanner_image_fits [of 2048 e b w] by fastforce+
  have "\<exists>t. json_motor_state e w = Inr t" "\<exists>t. json_status e w = Inr t"
    by (simp_all add: json_motor_state_def json_status_def Let_def)
  then have m: "\<exists>t. json_motor_state e w = Inr t \<and> length t < 2048"
    "\<exists>t. json_status e w = Inr t \<and> length t < 2048"
    using json_motor_state_fits json_status_fits [OF assms(1,2)] by blast+
  have "\<exists>reg_id err. parse_id_after_prefix path ''/api/registers/'' = Some reg_id
      \<and> app_modbus_tcp_holding_read e reg_id w = Inl err"
  proof (cases "path = ''/api/status'' \<or> path = ''/api/registers''")
    case True
    then show ?thesis
      using assms(3,4) m(2) json_registers_fits [of e w]
      by (auto simp: api_document_def APP_WEB_JSON_BUF_SIZE_def split: sum.splits)
  next
    case False
    note other = this
    show ?thesis
    proof (cases "parse_id_after_prefix path ''/api/registers/''")
      case None
      with other show ?thesis
        using assms(3,4) s(1) s(2) [of True] s(2) [of False] m
        by (auto simp: api_document_def APP_WEB_JSON_BUF_SIZE_def split: if_splits prod.splits sum.splits)
    next
      case (Some reg_id)
      with other have doc: "doc = json_register e reg_id w" using assms(3) by (auto simp: api_document_def)
      show ?thesis
      proof (cases "app_modbus_tcp_holding_read e reg_id w")
        case (Inr v)
        then obtain t where "json_register e reg_id w = Inr t" by (simp add: json_register_def)
        with json_register_fits [OF this] doc assms(4) show ?thesis by simp
      qed (use Some in blast)
    qed
  qed
  with that show thesis by blast
qed

lemma handle_codes:
  "hr_code (fst (snd (handle_api_put client we path body ww))) \<noteq> 500"
  "hr_code (fst (snd (handle_api_post client we path body ww))) \<noteq> 500"
  by (auto simp: handle_api_put_def handle_api_post_def send_to_def Let_def case_prod_beta bad_request_def
      not_found_def ok_json_def accepted_json_def response_def split: sum.split option.split)

text \<open>C29. No document ever overflows the 2048 bytes of its buffer: the only requests the server answers
  with 500 are reads of a single register that cannot be read (outside the map, or motor state that the
  other core has not sent yet). The hypotheses are that addresses print with at most 15 characters and
  that the stored mode is a C enumeration.\<close>

theorem web_500_only_unreadable_register:
  assumes "\<And>a. length (me_ntop (we_m7 we) a) \<le> 15" and "nd_mode (m7_net (ww_m7 ww)) < 2 ^ 32"
    and "(ret, r, ww') = handle_http_request client we req ww" and "hr_code r = 500"
  shows "\<exists>path reg_id err. parse_request_line req 8 96 = Some (''GET'', path)
     \<and> parse_id_after_prefix path ''/api/registers/'' = Some reg_id
     \<and> app_modbus_tcp_holding_read (we_m7 we) reg_id (ww_m7 ww) = Inl err"
proof -
  have r: "r = fst (snd (handle_http_request client we req ww))" using assms(3) by (metis fst_conv snd_conv)
  then obtain path where p: "parse_request_line req 8 96 = Some (''GET'', path)"
      and r': "r = fst (snd (handle_api_get client we path ww))"
    using assms(4) handle_codes
    by (fastforce simp: handle_http_request_def send_to_def Let_def bad_request_def not_found_def response_def
        method_not_allowed_def split: option.splits if_splits prod.splits sum.splits)
  obtain doc w where d: "api_document (we_m7 we) path (ww_m7 ww) = (Some doc, w)"
      "case doc of Inl _ \<Rightarrow> True | Inr t \<Rightarrow> 2048 \<le> length t"
    using r' assms(4)
    by (fastforce simp: handle_api_get_def send_to_def Let_def not_found_def response_def ok_json_def c_def
        split: option.splits prod.splits sum.splits if_splits)
  show ?thesis using api_document_error [OF assms(1,2) d] p by blast
qed

section \<open>Complete responses\<close>

text \<open>The responses the handlers make have short reasons and types and a code of three digits.\<close>

definition plain_response :: "http_response \<Rightarrow> bool" where
  "plain_response r \<longleftrightarrow> hr_code r < 1000 \<and> length (hr_reason r) \<le> 21 \<and> length (hr_type r) \<le> 40"

named_theorems response_defs

lemmas [response_defs] = bad_request_def not_found_def ok_json_def accepted_json_def json_overflow_def
  method_not_allowed_def

lemma plain_responses [simp]:
  "plain_response bad_request" "plain_response not_found" "plain_response json_overflow"
  "plain_response method_not_allowed" "plain_response (ok_json t)" "plain_response (accepted_json t)"
  by (simp_all add: plain_response_def response_defs response_def JSON_TYPE_def)

lemma send_to_response [simp]: "fst (snd (send_to client r ww)) = r" "snd (snd (send_to client r ww)) = ww"
  by (simp_all add: send_to_def)

lemma handled_plain:
  "plain_response (fst (snd (handle_api_get client we path ww)))"
  "plain_response (fst (snd (handle_api_put client we path body ww)))"
  "plain_response (fst (snd (handle_api_post client we path body ww)))"
  by (auto simp: handle_api_get_def handle_api_put_def handle_api_post_def Let_def case_prod_beta
      split: sum.split option.split)

lemma handle_http_request_plain: "plain_response (fst (snd (handle_http_request client we req ww)))"
proof -
  have t: "plain_response (response 200 ''OK'' t b)" if "length t \<le> 40" for t b
    using that by (simp add: plain_response_def response_def)
  show ?thesis
    by (auto simp: handle_http_request_def Let_def handled_plain t split: option.split sum.split prod.split)
qed

lemma http_header_length: "plain_response r \<Longrightarrow> length (http_header r) < 256"
proof -
  assume p: "plain_response r"
  then have "length (dec_of_nat (hr_code r)) \<le> 3"
    unfolding dec_of_nat_def plain_response_def using length_digits_of [of 10 "hr_code r" 3] by simp
  moreover have "length (dec_of_nat (unat (of_nat (length (hr_body r)) :: u32))) \<le> 10"
    by (rule length_dec_u32)
  ultimately show ?thesis using p by (simp add: http_header_def plain_response_def)
qed

lemma web_send_all_complete:
  "(\<And>k. 0 < ans k) \<Longrightarrow> fst (web_send_all ans errno k buf) = 0 \<and> fst (snd (web_send_all ans errno k buf)) = buf"
proof (induction ans errno k buf rule: web_send_all.induct)
  case (2 ans errno k b buf)
  have "0 < ans k" by (rule "2.prems")
  then have pos: "ans k \<noteq> 0" "\<not> ans k < 0" "0 \<le> ans k" by simp_all
  then show ?case using "2.IH" [OF refl _ _ "2.prems"]
    by (simp add: Let_def case_prod_beta del: drop_Suc_Cons take_Suc_Cons)
qed simp

lemma web_send_all_prefix:
  "errno > 0 \<Longrightarrow> (\<exists>rest. buf = fst (snd (web_send_all ans errno k buf)) @ rest)
     \<and> (0 \<le> fst (web_send_all ans errno k buf) \<longrightarrow> fst (snd (web_send_all ans errno k buf)) = buf)"
proof (induction ans errno k buf rule: web_send_all.induct)
  case (2 ans errno k b buf)
  show ?case
  proof (cases "0 < ans k")
    case True
    let ?n = "nat (ans k)" and ?r = "web_send_all ans errno (k + 1) (drop (nat (ans k)) (b # buf))"
    have e: "web_send_all ans errno k (b # buf) = (fst ?r, take ?n (b # buf) @ fst (snd ?r), snd (snd ?r))"
      using True by (simp add: Let_def case_prod_beta)
    have ih: "(\<exists>rest. drop ?n (b # buf) = fst (snd ?r) @ rest)
        \<and> (0 \<le> fst ?r \<longrightarrow> fst (snd ?r) = drop ?n (b # buf))"
      using 2 True by simp
    show ?thesis unfolding e fst_conv snd_conv
      using ih by (metis append.assoc append_take_drop_id)
  next
    case False
    then show ?thesis using 2 by (auto simp: Let_def)
  qed
qed simp

text \<open>Every request is answered completely: the header of every response fits its 256 bytes, and a
  client whose connection takes at least one byte per call receives the whole header and the whole body.
  On any connection, when the server reports success the
  client has received all of it, and otherwise a prefix of the header and body.\<close>

theorem web_response_complete:
  assumes "(ret, r, ww') = handle_http_request client we req ww" and "0 < errno"
    and "(sent_ret, sent) = send_response_data ans errno r"
  shows "length (http_header r) < 256 \<and> (\<exists>rest. http_header r @ hr_body r = sent @ rest)
     \<and> (if sent_ret = 0 \<or> (\<forall>k. 0 < ans k) then sent_ret = 0 \<and> sent = http_header r @ hr_body r else True)"
proof -
  have "plain_response r" using handle_http_request_plain assms(1) by (metis fst_conv snd_conv)
  then have h: "length (http_header r) < 256" by (rule http_header_length)
  obtain r1 s1 k1 where a: "web_send_all ans errno 0 (http_header r) = (r1, s1, k1)" by (metis prod.exhaust)
  obtain r2 s2 k2 where b: "web_send_all ans errno k1 (hr_body r) = (r2, s2, k2)" by (metis prod.exhaust)
  have s: "(sent_ret, sent) = (if r1 < 0 \<or> length (hr_body r) = 0 then (r1, s1) else (r2, s1 @ s2))"
    using assms(3) h by (simp add: send_response_data_def a b not_le)
  have p1: "\<exists>rest. http_header r = s1 @ rest" "0 \<le> r1 \<Longrightarrow> s1 = http_header r"
    using web_send_all_prefix [OF assms(2), of "http_header r" ans 0] by (simp_all add: a)
  have p2: "\<exists>rest. hr_body r = s2 @ rest" "0 \<le> r2 \<Longrightarrow> s2 = hr_body r"
    using web_send_all_prefix [OF assms(2), of "hr_body r" ans k1] by (simp_all add: b)
  have c: "r1 = 0 \<and> s1 = http_header r \<and> r2 = 0 \<and> s2 = hr_body r" if "\<forall>k. 0 < ans k"
    using web_send_all_complete [of ans errno 0 "http_header r"] web_send_all_complete [of ans errno k1 "hr_body r"]
      that by (simp add: a b)
  have "\<exists>rest. http_header r @ hr_body r = sent @ rest"
    using s p1 p2 by (auto split: if_splits)
  moreover have "if sent_ret = 0 \<or> (\<forall>k. 0 < ans k) then sent_ret = 0 \<and> sent = http_header r @ hr_body r else True"
    using s p1(2) p2(2) c by (auto split: if_splits)
  ultimately show ?thesis using h by blast
qed

theorem web_response_complete_witness:
  "\<exists>r. snd (send_response_data (\<lambda>_. 100) 5 r) = http_header r @ hr_body r \<and> length (http_header r) < 256"
proof -
  let ?we = "\<lparr>we_m7 = m7_env_example, we_ident = (0, snd (app_ident_get True (0, net_cfg_boot) board_example)),
     we_cycles = 0, we_index_html = ''page'', we_css = [], we_js = [], we_logo = []\<rparr>"
  let ?ww = "\<lparr>ww_m7 = m7_boot, ww_dpws = dpws_boot, ww_web = \<lparr>web_started = True, web_reboot_scheduled = False\<rparr>\<rparr>"
  obtain ret r ww' where h: "(ret, r, ww') = handle_http_request (\<lambda>_. 0) ?we ''GET / HTTP/1.1'' ?ww"
    by (metis prod.exhaust)
  obtain sent_ret sent where s: "(sent_ret, sent) = send_response_data (\<lambda>_. 100) 5 r" by (metis prod.exhaust)
  have "sent = http_header r @ hr_body r" "length (http_header r) < 256"
    using web_response_complete [OF h _ s] by simp_all
  with s show ?thesis by (intro exI [of _ r]) (metis snd_conv)
qed

end
