(* ===== verification/Web_Requests.thy ===== *)
theory Web_Requests
  imports Web_Service
begin

unbundle bit_operations_syntax

text \<open>
  The meaning of the requests of \<open>App_Web\<close>: what the parsers read in printed documents, the effect of a
  PUT on a register and of a POST of a motor command, and what the parsers make of signs and of malformed
  fields.
\<close>

section \<open>Requests\<close>

text \<open>A request with the target of its first line and the body behind the empty line; \<open>headers\<close> is the
  rest of the head.\<close>

definition http_request :: "string \<Rightarrow> string \<Rightarrow> string \<Rightarrow> string \<Rightarrow> string" where
  "http_request method path headers body =
     method @ '' '' @ path @ '' HTTP/1.1'' @ headers @ CRLF @ CRLF @ body"

definition headers_ok :: "string \<Rightarrow> string \<Rightarrow> bool" where
  "headers_ok headers body \<longleftrightarrow> request_body (headers @ CRLF @ CRLF @ body) = Some body"

lemma headers_ok_Nil [simp]: "headers_ok [] body"
  by (simp add: headers_ok_def request_body_def starts_with_def)

lemma parse_request_line_http:
  assumes "CHR '' '' \<notin> set method" and "0 < length method" and "length method < 8"
    and "CHR '' '' \<notin> set path" and "0 < length path" and "length path < 96"
  shows "parse_request_line (http_request method path headers body) 8 96 = Some (method, path)"
proof -
  let ?rest = "CHR '' '' # ''HTTP/1.1'' @ headers @ CRLF @ CRLF @ body"
  have r: "http_request method path headers body = method @ CHR '' '' # path @ ?rest"
    by (simp add: http_request_def)
  have s: "strchr (method @ CHR '' '' # path @ ?rest) (CHR '' '') = Some (CHR '' '' # path @ ?rest)"
    by (rule strchr_skip [OF assms(1)])
  have d: "dropWhile (\<lambda>c. c = CHR '' '') (CHR '' '' # path @ ?rest) = path @ ?rest"
    using assms(4,5) by (cases path) auto
  have p: "strchr (path @ ?rest) (CHR '' '') = Some ?rest" by (rule strchr_skip [OF assms(4)])
  have l: "length (method @ CHR '' '' # path @ ?rest) - length (CHR '' '' # path @ ?rest) = length method"
    "length (path @ ?rest) - length ?rest = length path" by simp_all
  show ?thesis
    unfolding r parse_request_line_def s option.case Let_def l d p using assms by (simp add: not_le)
qed

lemma request_body_http:
  assumes "CHR 0x0D \<notin> set (method @ path)" and "headers_ok headers body"
  shows "request_body (http_request method path headers body) = Some body"
proof -
  have "strstr ((method @ '' '' @ path @ '' HTTP/1.1'') @ headers @ CRLF @ CRLF @ body) (CRLF @ CRLF)
      = strstr (headers @ CRLF @ CRLF @ body) (CRLF @ CRLF)"
    using assms(1) by (intro strstr_skip [where c = "CHR 0x0D"]) simp_all
  then show ?thesis using assms(2) by (simp add: http_request_def request_body_def headers_ok_def)
qed

section \<open>Numbers in requests\<close>

lemma parse_id_printed:
  "parse_id_after_prefix (pre @ dec_of_nat (unat reg_id)) pre = Some reg_id"
  using strtoul10_u16 [of "[]" reg_id] unat_u16_bound [of reg_id]
  by (simp add: parse_id_after_prefix_def)

lemma parse_value_printed:
  assumes "strstr body ''value'' = Some (''value'' @ skipped @ dec_of_nat (unat v) @ rest)"
    and "list_all (\<lambda>c. \<not> is_digit_char c) skipped" and "rest = [] \<or> \<not> is_digit_char (hd rest)"
  shows "parse_value (Some body) = Inr v"
proof -
  have d: "dropWhile (\<lambda>c. \<not> is_digit_char c) (skipped @ dec_of_nat (unat v) @ rest) = dec_of_nat (unat v) @ rest"
    using assms(2) dropWhile_dec [of "\<lambda>c. \<not> is_digit_char c"] by (simp add: dropWhile_append list_all_iff)
  have "drop (length ''value'') (''value'' @ skipped @ dec_of_nat (unat v) @ rest)
      = skipped @ dec_of_nat (unat v) @ rest" by simp
  moreover have "strtoul10 (dec_of_nat (unat v) @ rest) = (unat v, rest)" by (rule strtoul10_u16 [OF assms(3)])
  ultimately show ?thesis
    unfolding parse_value_def option.case Let_def assms(1) using d unat_u16_bound [of v] by simp
qed

text \<open>A field found behind its name reads back as printed.\<close>

lemma parse_named_value_printed:
  assumes "strstr body (QUOTE # name @ [QUOTE])
      = Some ((QUOTE # name @ [QUOTE]) @ CHR '':'' # dec_of_nat (unat v) @ rest)"
    and "length name < 30" and "rest = [] \<or> \<not> is_digit_char (hd rest)"
  shows "parse_named_value (Some body) name = Inr v"
proof -
  let ?key = "QUOTE # name @ [QUOTE]"
  have k: "\<not> 32 \<le> length ?key" using assms(2) by simp
  have d: "drop (length ?key) (?key @ CHR '':'' # dec_of_nat (unat v) @ rest) = CHR '':'' # dec_of_nat (unat v) @ rest"
    by simp
  have w: "dropWhile (\<lambda>c. c = CHR '' '' \<or> c = CHR 0x09) (dec_of_nat (unat v) @ rest) = dec_of_nat (unat v) @ rest"
    by (rule dropWhile_dec) auto
  show ?thesis
    unfolding parse_named_value_def option.case Let_def assms(1) d strchr_eval list.sel w
      strtoul10_u16 [OF assms(3)]
    using k unat_u16_bound [of v] by simp
qed

text \<open>What a GET of a register prints, a PUT reads back: the document of a readable register parses to
  the register's value, and to its number under \<open>"id"\<close>.\<close>

theorem web_register_document_roundtrip:
  assumes "json_register e reg_id w = Inr json"
  shows "parse_value (Some json) = app_modbus_tcp_holding_read e reg_id w
     \<and> parse_named_value (Some json) ''id'' = Inr reg_id
     \<and> parse_named_value (Some json) ''value'' = app_modbus_tcp_holding_read e reg_id w"
proof -
  obtain v where v: "app_modbus_tcp_holding_read e reg_id w = Inr v"
    using assms by (cases "app_modbus_tcp_holding_read e reg_id w") (auto simp: json_register_def)
  have json: "json = concat [''{'', json_num ''id'' (unat reg_id), '','', json_num ''value'' (unat v), ''}'']"
    using assms v by (simp add: json_register_def)
  have "strstr json ''value'' = Some (''value'' @ [QUOTE, CHR '':''] @ dec_of_nat (unat v) @ ''}'')"
    by (simp add: json json_num_def json_key_def strstr_eval is_digit_char_def del: strstr.simps(2))
  then have "parse_value (Some json) = Inr v" by (rule parse_value_printed) simp_all
  moreover have "parse_named_value (Some json) ''id'' = Inr reg_id"
    by (rule parse_named_value_printed [where rest = "'','' @ json_num ''value'' (unat v) @ ''}''"])
      (simp_all add: json json_num_def json_key_def strstr_eval del: strstr.simps(2))
  moreover have "parse_named_value (Some json) ''value'' = Inr v"
    by (rule parse_named_value_printed [where rest = "''}''"])
      (simp_all add: json json_num_def json_key_def strstr_eval del: strstr.simps(2))
  ultimately show ?thesis by (simp add: v)
qed

theorem web_register_document_roundtrip_witness:
  "\<exists>json. json_register m7_env_example 13 m7_boot = Inr json \<and> parse_value (Some json) = Inr 800"
proof -
  have v: "app_modbus_tcp_holding_read m7_env_example 13 m7_boot = Inr 800"
    by (simp add: app_modbus_tcp_holding_read_def holding_reg_rd_def m7_boot_def modbus_boot_def reg_get_def c_def
        is_motor_state_addr_def)
  then obtain json where j: "json_register m7_env_example 13 m7_boot = Inr json" by (simp add: json_register_def)
  from web_register_document_roundtrip [OF this] v j show ?thesis by simp
qed

section \<open>Register writes\<close>

lemma metadata_path_api: "\<not> app_dpws_is_metadata_path ident_ret (''/api/'' @ p)"
  by (simp add: app_dpws_is_metadata_path_def snprintk_buf_def APP_DPWS_METADATA_PATH_PREFIX_def
      APP_IDENT_UUID_STR_LEN_def split: prod.split)

lemma handle_put_request:
  assumes "CHR '' '' \<notin> set path" and "0 < length path" and "length path < 96" and "CHR 0x0D \<notin> set path"
    and "headers_ok headers body"
  shows "handle_http_request client we (http_request ''PUT'' path headers body) ww
     = handle_api_put client we path (Some body) ww"
  using assms parse_request_line_http [of "''PUT''" path headers body] request_body_http [of "''PUT''" path headers body]
  by (simp add: handle_http_request_def)

lemma put_register_effect:
  assumes "parse_value (Some body) = Inr v" and "headers_ok headers body"
    and "path = ''/api/registers/'' @ dec_of_nat (unat reg_id)"
    and "(rc, w) = holding_reg_wr (we_m7 we) reg_id v (ww_m7 ww)"
    and "(ret, r, ww') = handle_http_request client we (http_request ''PUT'' path headers body) ww"
  shows "ww' = ww\<lparr>ww_m7 := w\<rparr> \<and> r = (if rc < 0 then bad_request else ok_json (json_flag ''ok''))"
proof -
  have "CHR '' '' \<notin> set (dec_of_nat n)" "CHR 0x0D \<notin> set (dec_of_nat n)" for n
    using dec_of_nat_no [of "CHR '' ''"] dec_of_nat_no [of "CHR 0x0D"] by (simp_all add: is_digit_char_def)
  then have "handle_http_request client we (http_request ''PUT'' path headers body) ww
      = handle_api_put client we path (Some body) ww"
    using length_dec_u16 [of reg_id] assms(2,3) by (intro handle_put_request) simp_all
  also have "\<dots> = (if rc < 0 then send_to client bad_request (ww\<lparr>ww_m7 := w\<rparr>)
      else send_to client (ok_json (json_flag ''ok'')) (ww\<lparr>ww_m7 := w\<rparr>))"
    using assms(1) assms(4) [symmetric] parse_id_printed [of "''/api/registers/''" reg_id]
    by (simp add: assms(3) handle_api_put_def api_put_write_def app_modbus_tcp_holding_write_def Let_def
        split: prod.split)
  finally show ?thesis
    using assms(5) by (auto simp: send_to_def split: if_splits)
qed

text \<open>C23. A PUT on \<open>/api/registers/<n>\<close> has the effect of the Modbus write of register \<open>n\<close> with the number
  in its body, for every register, every value and every way the headers are written: the same new
  state, answered with 200 when the write is accepted and 400 when it is refused.\<close>

theorem web_put_register:
  assumes "parse_value (Some body) = Inr v" and "headers_ok headers body"
    and "path = ''/api/registers/'' @ dec_of_nat (unat reg_id)"
    and "(rc, w) = holding_reg_wr (we_m7 we) reg_id v (ww_m7 ww)"
    and "(ret, r, ww') = handle_http_request client we (http_request ''PUT'' path headers body) ww"
  shows "ww' = ww\<lparr>ww_m7 := w\<rparr> \<and> hr_code r = (if rc < 0 then 400 else 200)"
  using put_register_effect [OF assms] by (simp add: bad_request_def ok_json_def response_def)

definition web_env_example :: web_env where
  "web_env_example = \<lparr>we_m7 = m7_env_example,
     we_ident = app_ident_get True (0, net_cfg_boot) board_example, we_cycles = 0,
     we_index_html = ''page'', we_css = [], we_js = [], we_logo = []\<rparr>"

definition web_world_of :: "m7 \<Rightarrow> web_world" where
  "web_world_of w = \<lparr>ww_m7 = w, ww_dpws = dpws_boot, ww_web = \<lparr>web_started = True, web_reboot_scheduled = False\<rparr>\<rparr>"

theorem web_put_register_witness:
  "reg_get 13 (ww_m7 (snd (snd (handle_http_request (\<lambda>_. 0) web_env_example
     (http_request ''PUT'' (''/api/registers/'' @ dec_of_nat (unat (13 :: u16))) [] (''value='' @ dec_of_nat (unat (900 :: u16)))) (web_world_of m7_boot))))) = 900"
proof -
  let ?body = "''value='' @ dec_of_nat (unat (900 :: u16))"
  have "strstr ?body ''value'' = Some (''value'' @ ''='' @ dec_of_nat (unat (900 :: u16)) @ [])"
    by (simp add: strstr_eval del: strstr.simps(2))
  then have p: "parse_value (Some ?body) = Inr 900"
    by (rule parse_value_printed) (simp_all add: is_digit_char_def)
  let ?path = "''/api/registers/'' @ dec_of_nat (unat (13 :: u16))"
  obtain ret r ww' where h: "(ret, r, ww') = handle_http_request (\<lambda>_. 0) web_env_example
      (http_request ''PUT'' ?path [] (''value='' @ dec_of_nat (unat (900 :: u16)))) (web_world_of m7_boot)" by (metis prod.exhaust)
  have w: "(0, reg_set 13 900 m7_boot) = holding_reg_wr (we_m7 web_env_example) 13 900 (ww_m7 (web_world_of m7_boot))"
    by (subst holding_reg_wr_plain) (simp_all add: reg_value_ok_plain register_classes c_def web_world_of_def)
  from web_put_register [OF p headers_ok_Nil refl w h] have "ww_m7 ww' = reg_set 13 900 m7_boot"
    by simp
  then show ?thesis
    using h [symmetric] by (simp add: reg_get_set modbus_inv_length [OF modbus_boot_inv])
qed

section \<open>Motor commands\<close>

text \<open>The field of a command, or the register's value when the body does not name it.\<close>

definition field_or :: "string option \<Rightarrow> string \<Rightarrow> u16 \<Rightarrow> u16" where
  "field_or body name old = (case parse_named_value body name of Inr v \<Rightarrow> v | Inl _ \<Rightarrow> old)"

definition field_readable :: "string option \<Rightarrow> string \<Rightarrow> bool" where
  "field_readable body name = (case parse_named_value body name of Inr _ \<Rightarrow> True | Inl ret \<Rightarrow> ret = - ENOENT)"

lemma holding_write_motor:
  "addr \<in> {APP_MB_HREG_MOTOR_CONTROL, APP_MB_HREG_MOTOR_TARGET_DUTY, APP_MB_HREG_MOTOR_ACCEL_RAMP,
     APP_MB_HREG_MOTOR_DECEL_RAMP, APP_MB_HREG_MOTOR_TIMEOUT}
   \<Longrightarrow> app_modbus_tcp_holding_write e addr v w = (0, reg_set addr v w)"
  unfolding app_modbus_tcp_holding_write_def
  by (rule holding_reg_wr_plain) (auto simp: c_def register_classes reg_value_ok_plain)

lemma reg_set_same: "reg_get a w = v \<Longrightarrow> unat a < length (mb_holding_regs (m7_modbus w)) \<Longrightarrow> reg_set a v w = w"
  by (auto simp: reg_set_def reg_get_def)

lemma optional_field:
  assumes "field_readable body name" and "unat reg < length (mb_holding_regs (m7_modbus w))"
    and "reg \<in> {APP_MB_HREG_MOTOR_TARGET_DUTY, APP_MB_HREG_MOTOR_ACCEL_RAMP,
      APP_MB_HREG_MOTOR_DECEL_RAMP, APP_MB_HREG_MOTOR_TIMEOUT}"
  shows "optional_fields_loop e body ((name, reg) # rest) w
     = optional_fields_loop e body rest (reg_set reg (field_or body name (reg_get reg w)) w)"
  using assms holding_write_motor [of reg e] reg_set_same [OF refl assms(2)]
  by (auto simp: field_readable_def field_or_def split: sum.splits)

text \<open>The command a body stands for, with the registers as defaults.\<close>

definition command_of_body :: "string option \<Rightarrow> u16 \<Rightarrow> m7 \<Rightarrow> app_ipc_motor_command" where
  "command_of_body body control w = \<lparr>mc_control = control,
     mc_duty_permille = field_or body ''duty'' (reg_get APP_MB_HREG_MOTOR_TARGET_DUTY w),
     mc_accel_ramp = field_or body ''accel'' (reg_get APP_MB_HREG_MOTOR_ACCEL_RAMP w),
     mc_decel_ramp = field_or body ''decel'' (reg_get APP_MB_HREG_MOTOR_DECEL_RAMP w),
     mc_timeout_ms = field_or body ''timeout'' (reg_get APP_MB_HREG_MOTOR_TIMEOUT w),
     mc_source = APP_MOTOR_COMMAND_SOURCE_MODBUS, mc_remote = True\<rparr>"

lemma apply_motor_command_effect:
  assumes "modbus_inv w" and "parse_named_value body ''control'' = Inr c"
    and "field_readable body ''duty''" and "field_readable body ''accel''"
    and "field_readable body ''decel''" and "field_readable body ''timeout''"
    and "(ret, sent, link) = app_ipc_motor_submit (me_send e) (Some (command_of_body body c w)) (m7_link w)"
    and "(r, w') = apply_motor_command e body w"
  shows "r = min ret 0 \<and> m7_link w' = link \<and> reg_get APP_MB_HREG_MOTOR_MODE w' = APP_MB_MOTOR_MODE_REMOTE"
proof -
  have len: "length (mb_holding_regs (m7_modbus w)) = 60" using modbus_inv_length [OF assms(1)] .
  let ?d = "field_or body ''duty'' (reg_get APP_MB_HREG_MOTOR_TARGET_DUTY w)"
  let ?a = "field_or body ''accel'' (reg_get APP_MB_HREG_MOTOR_ACCEL_RAMP w)"
  let ?b = "field_or body ''decel'' (reg_get APP_MB_HREG_MOTOR_DECEL_RAMP w)"
  let ?t = "field_or body ''timeout'' (reg_get APP_MB_HREG_MOTOR_TIMEOUT w)"
  let ?w5 = "reg_set APP_MB_HREG_MOTOR_TIMEOUT ?t (reg_set APP_MB_HREG_MOTOR_DECEL_RAMP ?b
     (reg_set APP_MB_HREG_MOTOR_ACCEL_RAMP ?a (reg_set APP_MB_HREG_MOTOR_TARGET_DUTY ?d
       (reg_set APP_MB_HREG_MOTOR_CONTROL c w))))"
  let ?w6 = "reg_set APP_MB_HREG_MOTOR_MODE 1 ?w5"
  have neq: "unat APP_MB_HREG_MOTOR_CONTROL = 11" "unat APP_MB_HREG_MOTOR_TARGET_DUTY = 13"
    "unat APP_MB_HREG_MOTOR_ACCEL_RAMP = 14" "unat APP_MB_HREG_MOTOR_DECEL_RAMP = 15"
    "unat APP_MB_HREG_MOTOR_TIMEOUT = 16" "unat APP_MB_HREG_MOTOR_MODE = 10" by (simp_all add: c_def)
  have fields: "optional_fields_loop e body motor_optional_fields (reg_set APP_MB_HREG_MOTOR_CONTROL c w) = (0, ?w5)"
    using assms(3-6) len
    by (simp add: motor_optional_fields_def optional_field neq del: optional_fields_loop.simps(2))
  have mode: "app_modbus_tcp_motor_set_mode e True ?w5 = (0, ?w6)"
    using holding_reg_wr_mode [of 1 e ?w5] by (simp add: app_modbus_tcp_motor_set_mode_def APP_MB_MOTOR_MODE_REMOTE_def)
  have w': "(r, w') = holding_reg_wr e APP_MB_HREG_MOTOR_APPLY 1 ?w6"
    using assms(8) by (simp add: apply_motor_command_def assms(2) holding_write_motor fields mode
        app_modbus_tcp_holding_write_def [of e APP_MB_HREG_MOTOR_APPLY] APP_MB_MOTOR_APPLY_COMMAND_def)
  have inv5: "modbus_inv ?w5" using assms(1)
    by (intro modbus_inv_reg_set) (simp_all add: reg_value_ok_plain c_def)
  then have inv6: "modbus_inv ?w6"
    by (rule modbus_inv_reg_set) (simp_all add: reg_value_ok_def register_classes c_def)
  have "motor_command_of_regs ?w6 = command_of_body body c w"
    unfolding motor_command_of_regs_mode [OF inv5]
    using len by (simp add: motor_command_of_regs_def command_of_body_def neq reg_get_set)
  then have s: "(ret, sent, link) = app_ipc_motor_submit (me_send e) (Some (motor_command_of_regs ?w6)) (m7_link ?w6)"
    using assms(7) by simp
  show ?thesis
    using motor_apply_effect [OF inv6 s w', of APP_MB_HREG_MOTOR_MODE] len
    by (simp add: reg_get_set neq) (simp add: c_def)
qed

lemma handle_post_request:
  assumes "headers_ok headers body" and "CHR '' '' \<notin> set p" and "CHR 0x0D \<notin> set p" and "length p < 90"
  shows "handle_http_request client we (http_request ''POST'' (''/api/'' @ p) headers body) ww
     = handle_api_post client we (''/api/'' @ p) (Some body) ww"
  using assms parse_request_line_http [of "''POST''" "''/api/'' @ p" headers body] metadata_path_api [of _ p]
    request_body_http [of "''POST''" "''/api/'' @ p" headers body]
  by (simp add: handle_http_request_def)

lemma web_post_motor_command_effect:
  assumes "modbus_inv (ww_m7 ww)" and "headers_ok headers body" and "parse_named_value (Some body) ''control'' = Inr c"
    and "field_readable (Some body) ''duty''" and "field_readable (Some body) ''accel''"
    and "field_readable (Some body) ''decel''" and "field_readable (Some body) ''timeout''"
    and "(rc, sent, link) = app_ipc_motor_submit (me_send (we_m7 we))
           (Some (command_of_body (Some body) c (ww_m7 ww))) (m7_link (ww_m7 ww))"
    and "(ret, r, ww') = handle_http_request client we (http_request ''POST'' ''/api/motor/command'' headers body) ww"
  shows "m7_link (ww_m7 ww') = link \<and> hr_code r = (if rc < 0 then 400 else 202)
     \<and> reg_get APP_MB_HREG_MOTOR_MODE (ww_m7 ww') = APP_MB_MOTOR_MODE_REMOTE"
proof -
  obtain q w' where a: "(q, w') = apply_motor_command (we_m7 we) (Some body) (ww_m7 ww)" by (metis prod.exhaust)
  note effect = apply_motor_command_effect [OF assms(1,3-8) a]
  have "handle_http_request client we (http_request ''POST'' ''/api/motor/command'' headers body) ww
      = handle_api_post client we ''/api/motor/command'' (Some body) ww"
    using handle_post_request [OF assms(2), of "''motor/command''"] by simp
  with assms(9) have "(ret, r, ww') = (if q < 0 then send_to client bad_request (ww\<lparr>ww_m7 := w'\<rparr>)
      else send_to client (accepted_json (json_flag ''queued'')) (ww\<lparr>ww_m7 := w'\<rparr>))"
    using a [symmetric] by (simp add: handle_api_post_def)
  then show ?thesis
    using effect by (auto simp: send_to_def bad_request_def accepted_json_def response_def split: if_splits)
qed

text \<open>A POST of a motor command has the documented effect: with a readable \<open>control\<close> field, and every
  other field either readable or absent, it submits one command of the Modbus source in remote mode, the
  absent fields taken from the registers; it is answered with 202 when the inter-core link took the
  command and 400 when not, and the motor mode register then shows remote.\<close>

theorem web_post_motor_command:
  assumes "modbus_inv (ww_m7 ww)" and "headers_ok headers body" and "parse_named_value (Some body) ''control'' = Inr c"
    and "field_readable (Some body) ''duty''" and "field_readable (Some body) ''accel''"
    and "field_readable (Some body) ''decel''" and "field_readable (Some body) ''timeout''"
    and "(rc, sent, link) = app_ipc_motor_submit (me_send (we_m7 we))
           (Some (command_of_body (Some body) c (ww_m7 ww))) (m7_link (ww_m7 ww))"
    and "(ret, r, ww') = handle_http_request client we (http_request ''POST'' ''/api/motor/command'' headers body) ww"
  shows "m7_link (ww_m7 ww') = link \<and> hr_code r = (if rc < 0 then 400 else 202)
     \<and> reg_get APP_MB_HREG_MOTOR_MODE (ww_m7 ww') = APP_MB_MOTOR_MODE_REMOTE"
  using assms by (rule web_post_motor_command_effect)

text \<open>The body as the documentation writes it, without the spaces.\<close>

definition motor_json :: "u16 \<Rightarrow> u16 \<Rightarrow> u16 \<Rightarrow> u16 \<Rightarrow> u16 \<Rightarrow> string" where
  "motor_json c d a b t = concat [''{'', json_num ''control'' (unat c), '','', json_num ''duty'' (unat d), '','',
     json_num ''accel'' (unat a), '','', json_num ''decel'' (unat b), '','', json_num ''timeout'' (unat t), ''}'']"

lemma motor_json_fields:
  "parse_named_value (Some (motor_json c d a b t)) ''control'' = Inr c"
  "parse_named_value (Some (motor_json c d a b t)) ''duty'' = Inr d"
  "parse_named_value (Some (motor_json c d a b t)) ''accel'' = Inr a"
  "parse_named_value (Some (motor_json c d a b t)) ''decel'' = Inr b"
  "parse_named_value (Some (motor_json c d a b t)) ''timeout'' = Inr t"
  by (rule parse_named_value_printed [where rest = "'','' @ drop 0 _"] parse_named_value_printed [where rest = "''}''"],
      simp add: motor_json_def json_num_def json_key_def strstr_eval del: strstr.simps(2), simp, simp)+

text \<open>The documented JSON of a motor command, whatever the five values, is read back field by field:
  it stands for exactly the command it was printed from, in remote mode.\<close>

theorem web_motor_json_roundtrip:
  "parse_named_value (Some (motor_json c d a b t)) ''control'' = Inr c
     \<and> command_of_body (Some (motor_json c d a b t)) c w
       = \<lparr>mc_control = c, mc_duty_permille = d, mc_accel_ramp = a, mc_decel_ramp = b, mc_timeout_ms = t,
          mc_source = APP_MOTOR_COMMAND_SOURCE_MODBUS, mc_remote = True\<rparr>"
  by (simp add: command_of_body_def field_or_def motor_json_fields)

theorem web_post_motor_command_witness:
  "hr_code (fst (snd (handle_http_request (\<lambda>_. 0) web_env_example
     (http_request ''POST'' ''/api/motor/command'' [] (motor_json 3 900 1000 4000 1000)) (web_world_of m7_scan_bound0)))) = 202"
proof -
  let ?body = "motor_json 3 900 1000 4000 1000"
  have f: "field_readable (Some ?body) ''duty''" "field_readable (Some ?body) ''accel''"
    "field_readable (Some ?body) ''decel''" "field_readable (Some ?body) ''timeout''"
    by (simp_all add: field_readable_def motor_json_fields)
  obtain rc sent link where s: "(rc, sent, link) = app_ipc_motor_submit (me_send (we_m7 web_env_example))
      (Some (command_of_body (Some ?body) 3 (ww_m7 (web_world_of m7_scan_bound0)))) (m7_link (ww_m7 (web_world_of m7_scan_bound0)))"
    by (metis prod.exhaust)
  have "0 \<le> rc"
    using s by (simp add: command_of_body_def field_or_def motor_json_fields c_def app_ipc_motor_submit_def
        send_remote_command_locked_def m7_scan_bound0_def web_world_of_def web_env_example_def Let_def case_prod_beta
        m7_env_example_def ipc_send_loop_success split: if_splits)
  obtain ret r ww' where h: "(ret, r, ww') = handle_http_request (\<lambda>_. 0) web_env_example
      (http_request ''POST'' ''/api/motor/command'' [] ?body) (web_world_of m7_scan_bound0)" by (metis prod.exhaust)
  have "modbus_inv (ww_m7 (web_world_of m7_scan_bound0))" by (simp add: web_world_of_def m7_scan_bound0_inv)
  from web_post_motor_command [OF this headers_ok_Nil motor_json_fields(1) f s h] \<open>0 \<le> rc\<close> h [symmetric]
  show ?thesis by simp
qed

section \<open>Reading is safe\<close>

text \<open>C34. A request that is neither a POST nor a PUT, malformed ones included, changes nothing of the device but
  the scanner's diagnostics of reads: their count, and address, error, time and period of the last access. The
  scanner's local words and its count of writes, every register, the configuration, the settings, the
  inter-core link, discovery and the server itself stay as they are.\<close>

theorem web_get_is_safe:
  assumes "(ret, r, ww') = handle_http_request client we req ww"
    and "case parse_request_line req 8 96 of None \<Rightarrow> True | Some (method, path) \<Rightarrow> method \<noteq> ''POST'' \<and> method \<noteq> ''PUT''"
    and "sc = m7_scanner (ww_m7 ww')"
  shows "ww' = ww\<lparr>ww_m7 := (ww_m7 ww)\<lparr>m7_scanner := (m7_scanner (ww_m7 ww))
      \<lparr>sc_read_count := sc_read_count sc, sc_last_addr := sc_last_addr sc, sc_last_error := sc_last_error sc,
       sc_last_access_ms := sc_last_access_ms sc, sc_period_ms := sc_period_ms sc\<rparr>\<rparr>\<rparr>"
proof -
  have g: "reads_only (ww_m7 ww) (ww_m7 (snd (snd (handle_api_get client we path ww))))
      \<and> ww_dpws (snd (snd (handle_api_get client we path ww))) = ww_dpws ww
      \<and> ww_web (snd (snd (handle_api_get client we path ww))) = ww_web ww" for path
    by (auto simp: handle_api_get_def Let_def split: option.split prod.split sum.split dest: api_document_reads)
  define same where "same v \<longleftrightarrow> reads_only (ww_m7 ww) (ww_m7 v) \<and> ww_dpws v = ww_dpws ww \<and> ww_web v = ww_web ww" for v :: web_world
  have s: "same ww" "same (snd (snd (handle_api_get client we path ww)))" for path
    using g by (simp_all add: same_def)
  have "same (snd (snd (handle_http_request client we req ww)))"
  proof (cases "parse_request_line req 8 96")
    case None
    then show ?thesis by (simp add: handle_http_request_def s)
  next
    case (Some mp)
    obtain meth path where "mp = (meth, path)" by (rule prod.exhaust)
    with Some assms(2) show ?thesis by (simp add: handle_http_request_def Let_def s)
  qed
  then have "same ww'" using assms(1) by (metis snd_conv)
  then have "reads_only (ww_m7 ww) (ww_m7 ww')" "ww_dpws ww' = ww_dpws ww" "ww_web ww' = ww_web ww"
    by (simp_all add: same_def)
  with reads_only_same(6) [OF this(1)] show ?thesis
    unfolding assms(3) by (intro web_world.equality) simp_all
qed

theorem web_get_is_safe_witness:
  "sc_output_local_regs (m7_scanner (ww_m7 (snd (snd (handle_http_request (\<lambda>_. 0) web_env_example ''GET /api/scanner ''
     (web_world_of m7_boot)))))) = replicate 5 0"
proof -
  obtain ret r ww' where h: "(ret, r, ww') = handle_http_request (\<lambda>_. 0) web_env_example ''GET /api/scanner ''
      (web_world_of m7_boot)" by (metis prod.exhaust)
  have "parse_request_line ''GET /api/scanner '' 8 96 = Some (''GET'', ''/api/scanner'')"
    by (simp add: parse_request_line_def strchr_eval)
  with arg_cong [OF web_get_is_safe [OF h _ refl], of "\<lambda>v. sc_output_local_regs (m7_scanner (ww_m7 v))"] h [symmetric]
  show ?thesis by (simp add: web_world_of_def m7_boot_def scanner_boot_def)
qed

section \<open>Signs and malformed fields\<close>

text \<open>Signs in requests are not refused. A negative value in a PUT is written as its absolute value, and
  a register number with a minus sign wraps around \<open>2 ^ 32\<close>: \<open>-4294967283\<close> names register 13.\<close>

theorem web_signs_ignored:
  "parse_value (Some (''{'' @ json_key ''value'' @ ''-'' @ dec_of_nat (unat v) @ ''}'')) = Inr v
     \<and> parse_id_after_prefix (''/api/registers/-'' @ dec_of_nat (4294967296 - unat reg_id)) ''/api/registers/''
       = (if reg_id = 0 then None else Some reg_id)"
proof
  have "strstr (''{'' @ json_key ''value'' @ ''-'' @ dec_of_nat (unat v) @ ''}'') ''value''
      = Some (''value'' @ [QUOTE, CHR '':'', CHR ''-''] @ dec_of_nat (unat v) @ ''}'')"
    by (simp add: json_key_def strstr_eval del: strstr.simps(2))
  then show "parse_value (Some (''{'' @ json_key ''value'' @ ''-'' @ dec_of_nat (unat v) @ ''}'')) = Inr v"
    by (rule parse_value_printed) simp_all
next
  let ?n = "4294967296 - unat reg_id"
  have d: "takeWhile is_digit_char (dec_of_nat n) = dec_of_nat n" "dropWhile is_digit_char (dec_of_nat n) = []" for n
    using digits_of_dec [of n] by (simp_all add: dec_of_nat_def list_all_iff takeWhile_eq_all_conv)
  have v: "digits_value (dec_of_nat ?n) = ?n" using digits_of_dec [of ?n] by (simp add: dec_of_nat_def)
  have "strtoul10 (CHR ''-'' # dec_of_nat ?n) = (if reg_id = 0 then 4294967295 else unat reg_id, [])"
  proof -
    have s: "strtoul10 (CHR ''-'' # dec_of_nat ?n)
        = (if 2 ^ 32 \<le> ?n then 2 ^ 32 - 1 else (2 ^ 32 - ?n) mod 2 ^ 32, [])"
      unfolding strtoul10_def Let_def by (simp add: is_space_char_def d v)
    have "reg_id = 0 \<longleftrightarrow> unat reg_id = 0" by (simp add: unat_eq_0)
    then show ?thesis unfolding s using unat_u16_bound [of reg_id] by auto
  qed
  then show "parse_id_after_prefix (''/api/registers/-'' @ dec_of_nat ?n) ''/api/registers/''
      = (if reg_id = 0 then None else Some reg_id)"
    using unat_u16_bound [of reg_id] by (simp add: parse_id_after_prefix_def)
qed

text \<open>A refused motor command is not undone. When the \<open>control\<close> field is readable and \<open>duty\<close> is not,
  the answer is 400 and no command is sent, but the control register already holds the new value, and
  the next \<open>APPLY\<close> of any client sends it.\<close>

theorem web_refused_command_leaves_control:
  assumes "modbus_inv (ww_m7 ww)" and "headers_ok headers body" and "parse_named_value (Some body) ''control'' = Inr c"
    and "parse_named_value (Some body) ''duty'' = Inl rc" and "rc = - EINVAL"
    and "(ret, r, ww') = handle_http_request client we (http_request ''POST'' ''/api/motor/command'' headers body) ww"
  shows "hr_code r = 400 \<and> m7_link (ww_m7 ww') = m7_link (ww_m7 ww)
     \<and> reg_get APP_MB_HREG_MOTOR_CONTROL (ww_m7 ww') = c \<and> mc_control (motor_command_of_regs (ww_m7 ww')) = c"
proof -
  have a: "apply_motor_command (we_m7 we) (Some body) (ww_m7 ww)
      = (- EINVAL, reg_set APP_MB_HREG_MOTOR_CONTROL c (ww_m7 ww))"
    using assms(3-5) by (simp add: apply_motor_command_def holding_write_motor motor_optional_fields_def)
  have "handle_http_request client we (http_request ''POST'' ''/api/motor/command'' headers body) ww
      = handle_api_post client we ''/api/motor/command'' (Some body) ww"
    using handle_post_request [OF assms(2), of "''motor/command''"] by simp
  with assms(6) show ?thesis
    using modbus_inv_length [OF assms(1)]
    by (simp add: handle_api_post_def a send_to_def bad_request_def response_def motor_command_of_regs_def
        APP_MB_HREG_MOTOR_CONTROL_def)
qed

theorem web_refused_command_leaves_control_witness:
  "reg_get APP_MB_HREG_MOTOR_CONTROL (ww_m7 (snd (snd (handle_http_request (\<lambda>_. 0) web_env_example
     (http_request ''POST'' ''/api/motor/command'' []
        (concat [''{'', json_num ''control'' (unat (3 :: u16)), '','', json_key ''duty'', ''x}''])) (web_world_of m7_boot))))) = 3"
proof -
  let ?body = "concat [''{'', json_num ''control'' (unat (3 :: u16)), '','', json_key ''duty'', ''x}'']"
  have c: "parse_named_value (Some ?body) ''control'' = Inr 3"
    by (rule parse_named_value_printed [where rest = "'','' @ json_key ''duty'' @ ''x}''"])
      (simp_all add: json_num_def json_key_def strstr_eval del: strstr.simps(2))
  have "strtoul10 ''x}'' = (0, ''x}'')"
    by (simp add: strtoul10_def is_space_char_def is_digit_char_def)
  then have d: "parse_named_value (Some ?body) ''duty'' = Inl (- EINVAL)"
    by (simp add: parse_named_value_def json_num_def json_key_def strstr_eval del: strstr.simps(2))
  obtain ret r ww' where h: "(ret, r, ww') = handle_http_request (\<lambda>_. 0) web_env_example
      (http_request ''POST'' ''/api/motor/command'' [] ?body) (web_world_of m7_boot)" by (metis prod.exhaust)
  have "modbus_inv (ww_m7 (web_world_of m7_boot))" by (simp add: web_world_of_def modbus_boot_inv)
  from web_refused_command_leaves_control [OF this headers_ok_Nil c d refl h] h [symmetric] show ?thesis by simp
qed

text \<open>A GET of a register past the map.\<close>

lemma get_register_60:
  "parse_request_line (http_request ''GET'' ''/api/registers/60'' [] []) 8 96 = Some (''GET'', ''/api/registers/60'')"
  "parse_id_after_prefix ''/api/registers/60'' ''/api/registers/'' = Some 60"
proof -
  show "parse_request_line (http_request ''GET'' ''/api/registers/60'' [] []) 8 96 = Some (''GET'', ''/api/registers/60'')"
    by (rule parse_request_line_http) simp_all
  have "''/api/registers/60'' = ''/api/registers/'' @ dec_of_nat (unat (60 :: u16))"
    by (simp add: dec_of_nat_def digits_of.simps digit_char_def char_of_def bit_Suc_0_iff)
  then show "parse_id_after_prefix ''/api/registers/60'' ''/api/registers/'' = Some 60"
    using parse_id_printed[of "''/api/registers/''" 60] by (simp only:)
qed

theorem web_500_only_unreadable_register_witness:
  "\<exists>err. app_modbus_tcp_holding_read m7_env_example 60 m7_boot = Inl err"
proof -
  obtain ret r ww' where h: "(ret, r, ww') = handle_http_request (\<lambda>_. 0) web_env_example
      (http_request ''GET'' ''/api/registers/60'' [] []) (web_world_of m7_boot)" by (metis prod.exhaust)
  have unreadable: "json_register m7_env_example 60 m7_boot = Inl (- ENOTSUP)"
    by (simp add: json_register_def app_modbus_tcp_holding_read_def holding_reg_rd_def c_def)
  have "hr_code r = 500"
    using h get_register_60 unreadable
    by (simp add: handle_http_request_def handle_api_get_def api_document_def web_env_example_def web_world_of_def
        send_to_def json_overflow_def response_def starts_with_def)
  from web_500_only_unreadable_register[OF _ _ h this] get_register_60 show ?thesis
    by (simp add: web_env_example_def web_world_of_def m7_boot_def m7_env_example_def ntop_example_def net_cfg_boot_def c_def)
qed

section \<open>One receive per request\<close>

text \<open>A connection is read once: when a PUT's headers arrive alone and the body follows in a segment of
  its own, the request is answered with 400 and writes nothing, although the whole request is valid.\<close>

theorem web_split_put_refused:
  assumes "headers_ok headers []" and "path = ''/api/registers/'' @ dec_of_nat (unat (reg_id :: u16))"
    and "(ret, r, ww') = handle_http_request client we (http_request ''PUT'' path headers []) ww"
  shows "hr_code r = 400 \<and> ww' = ww"
proof -
  have "CHR '' '' \<notin> set (dec_of_nat n)" "CHR 0x0D \<notin> set (dec_of_nat n)" for n
    using dec_of_nat_no [of "CHR '' ''"] dec_of_nat_no [of "CHR 0x0D"] by (simp_all add: is_digit_char_def)
  then have "handle_http_request client we (http_request ''PUT'' path headers []) ww
      = handle_api_put client we path (Some []) ww"
    using length_dec_u16 [of reg_id] assms(1,2) by (intro handle_put_request) simp_all
  moreover have "parse_value (Some []) = Inl (- EINVAL)" by (simp add: parse_value_def)
  ultimately show ?thesis
    using assms(3) by (auto simp: handle_api_put_def send_to_def bad_request_def response_def)
qed

theorem web_split_put_refused_witness:
  "hr_code (fst (snd (handle_http_request (\<lambda>_. 0) web_env_example
     (http_request ''PUT'' (''/api/registers/'' @ dec_of_nat (unat (13 :: u16))) [] []) (web_world_of m7_boot)))) = 400"
proof -
  obtain ret r ww' where h: "(ret, r, ww') = handle_http_request (\<lambda>_. 0) web_env_example
     (http_request ''PUT'' (''/api/registers/'' @ dec_of_nat (unat (13 :: u16))) [] []) (web_world_of m7_boot)"
    by (metis prod.exhaust)
  from web_split_put_refused [OF headers_ok_Nil refl h] h [symmetric] show ?thesis by simp
qed

end
