(* ===== verification/App_Lcd.thy ===== *)
theory App_Lcd
  imports Modbus_Tcp C_Text
begin

unbundle bit_operations_syntax

text \<open>
  The local dashboard, \<open>app_m7/src/ui/app_lcd.c\<close>, in the configuration with LVGL and a display, and
  \<open>app_m7/src/shell/util_cmds.c\<close>.

  The record \<open>lcd\<close> holds the module's static variables and the thread's local \<open>next_refresh\<close>; for the
  LVGL objects it holds what the module makes of them, the texts and colours of the labels it changes and
  whether a button is disabled; for the panel, whether it was blanked and its brightness as the driver
  accepted them. \<open>create_dashboard\<close> gives the widgets it lays out. The drivers' answers and the clock are
  arguments.
\<close>

section \<open>State\<close>

definition APP_LCD_REFRESH_MS :: u32 where [c_def]: "APP_LCD_REFRESH_MS = 500"
definition APP_LCD_REBOOT_CONFIRM_MS :: u32 where [c_def]: "APP_LCD_REBOOT_CONFIRM_MS = 3000"
definition APP_LCD_START_IN_STANDBY :: nat where "APP_LCD_START_IN_STANDBY = 1"

record lcd_labels =
  lb_ip :: string
  lb_mode :: string
  lb_connections :: string
  lb_heartbeat :: string
  lb_link :: string
  lb_link_color :: nat
  lb_status :: string
  lb_motor_mode :: string
  lb_motor_state :: string
  lb_motor_applied :: string
  lb_motor_target :: string
  lb_motor_direction :: string
  lb_motor_fault :: string
  lb_motor_safety :: string

record lcd =
  lcd_started :: bool
  lcd_sleeping :: bool
  lcd_wake_requested :: bool
  lcd_reboot_confirm_until :: u32
  lcd_reboot_scheduled :: bool
  lcd_reboot_label :: string
  lcd_reboot_color :: nat
  lcd_reboot_disabled :: bool
  lcd_sleep_label :: string
  lcd_sleep_disabled :: bool
  lcd_blanked :: bool
  lcd_brightness :: u8
  lcd_labels :: lcd_labels
  lcd_next_refresh :: u32

text \<open>\<open>(int32_t)(a - b) < 0\<close>.\<close>

definition before_u32 :: "u32 \<Rightarrow> u32 \<Rightarrow> bool" where
  "before_u32 a b \<longleftrightarrow> sint (a - b) < 0"

section \<open>Layout\<close>

datatype lcd_widget =
    Lcd_panel int int int int
  | Lcd_label string int int nat nat
  | Lcd_button string int int int int

text \<open>The position of a label on a panel is relative to the panel's content, 12 pixels inside.\<close>

definition make_panel :: "int \<Rightarrow> int \<Rightarrow> int \<Rightarrow> int \<Rightarrow> lcd_widget" where
  "make_panel x y width height = Lcd_panel x y width height"

definition make_label :: "int \<times> int \<Rightarrow> string \<Rightarrow> int \<Rightarrow> int \<Rightarrow> nat \<Rightarrow> nat \<Rightarrow> lcd_widget" where
  "make_label origin text_value x y font color = Lcd_label text_value (fst origin + x) (snd origin + y) font color"

definition panel_origin :: "int \<Rightarrow> int \<Rightarrow> int \<times> int" where
  "panel_origin x y = (x + 12, y + 12)"

definition make_kpi :: "string \<Rightarrow> int \<Rightarrow> lcd_widget list" where
  "make_kpi name x = [make_panel x 82 180 82, make_label (panel_origin x 82) name 0 0 14 0x93a4b8,
     make_label (panel_origin x 82) ''-'' 0 28 20 0xf7fafc]"

definition create_network_panel :: "lcd_widget list" where
  "create_network_panel =
     (let panel = panel_origin 20 180
      in [make_panel 20 180 365 244,
          make_label panel ''Network and services'' 0 0 20 0xf7fafc,
          make_label panel ''Ethernet link'' 0 50 14 0x93a4b8,
          make_label panel ''-'' 235 50 14 0xf7fafc,
          make_label panel ''Modbus TCP'' 0 88 14 0x93a4b8,
          make_label panel ''Port 502'' 235 88 14 0x16b67a,
          make_label panel ''Scanner window'' 0 126 14 0x93a4b8,
          make_label panel ''Unit-ID 2'' 235 126 14 0xf7fafc,
          make_label panel ''Last command'' 0 164 14 0x93a4b8,
          make_label panel ''-'' 235 164 14 0xf7fafc])"

definition make_motor_value :: "int \<times> int \<Rightarrow> string \<Rightarrow> int \<Rightarrow> lcd_widget list" where
  "make_motor_value panel name y = [make_label panel name 0 y 14 0x93a4b8, make_label panel ''-'' 205 y 14 0xf7fafc]"

definition create_motor_panel :: "lcd_widget list" where
  "create_motor_panel =
     (let panel = panel_origin 400 180
      in [make_panel 400 180 380 244, make_label panel ''Motor controller (M4)'' 0 0 20 0xf7fafc]
         @ make_motor_value panel ''Control mode'' 40
         @ make_motor_value panel ''Motor state'' 66
         @ make_motor_value panel ''Applied speed'' 92
         @ make_motor_value panel ''Target speed'' 118
         @ make_motor_value panel ''Direction'' 144
         @ make_motor_value panel ''Fault'' 170
         @ make_motor_value panel ''Safety'' 196)"

definition create_dashboard :: "lcd_widget list" where
  "create_dashboard =
     [make_label (0, 0) ''Industrial Ethernet'' 20 14 24 0xf7fafc,
      make_label (0, 0) ''Local supervision / STM32H747 / Zephyr'' 20 47 14 0x93a4b8,
      Lcd_button ''Reboot'' 635 18 88 38,
      Lcd_button ''Sleep'' 535 18 82 38,
      make_label (0, 0) ''M7'' 738 22 14 0x2fda9a]
     @ make_kpi ''IP address'' 20 @ make_kpi ''IP mode'' 215
     @ make_kpi ''Modbus clients'' 410 @ make_kpi ''Heartbeat'' 605
     @ create_network_panel @ create_motor_panel
     @ [make_label (0, 0) ''HTTP 80'' 20 449 14 0x708399,
        make_label (0, 0) ''MODBUS TCP 502'' 110 449 14 0x708399,
        make_label (0, 0) ''EIP 44818'' 270 449 14 0x708399]"

text \<open>The state when the dashboard has just been laid out: the labels that change show a dash.\<close>

definition lcd_boot :: lcd where
  "lcd_boot = \<lparr>lcd_started = False, lcd_sleeping = False, lcd_wake_requested = False,
     lcd_reboot_confirm_until = 0, lcd_reboot_scheduled = False, lcd_reboot_label = ''Reboot'',
     lcd_reboot_color = 0x263442, lcd_reboot_disabled = False, lcd_sleep_label = ''Sleep'',
     lcd_sleep_disabled = False, lcd_blanked = False, lcd_brightness = 255,
     lcd_labels = \<lparr>lb_ip = ''-'', lb_mode = ''-'', lb_connections = ''-'', lb_heartbeat = ''-'', lb_link = ''-'',
       lb_link_color = 0xf7fafc, lb_status = ''-'', lb_motor_mode = ''-'', lb_motor_state = ''-'',
       lb_motor_applied = ''-'', lb_motor_target = ''-'', lb_motor_direction = ''-'', lb_motor_fault = ''-'',
       lb_motor_safety = ''-''\<rparr>,
     lcd_next_refresh = 0\<rparr>"

section \<open>Data shown\<close>

definition motor_state_text :: "u16 \<Rightarrow> string" where
  "motor_state_text flags =
     (if flags AND APP_MOTOR_STATE_FLAG_FAULT \<noteq> 0 then ''Fault''
      else if flags AND APP_MOTOR_STATE_FLAG_STOPPING \<noteq> 0 then ''Stopping''
      else if flags AND APP_MOTOR_STATE_FLAG_RUNNING \<noteq> 0 then ''Running''
      else if flags AND APP_MOTOR_STATE_FLAG_READY \<noteq> 0 then ''Ready''
      else ''Disabled'')"

definition motor_safety_text :: "u16 \<Rightarrow> bool \<Rightarrow> string" where
  "motor_safety_text flags stale =
     (if flags AND APP_MOTOR_STATE_FLAG_REMOTE_STOP_LATCH \<noteq> 0 then ''STOP latched''
      else if flags AND APP_MOTOR_STATE_FLAG_REMOTE_TIMEOUT \<noteq> 0 then ''Remote timeout''
      else if stale then ''Cache stale''
      else ''OK'')"

definition refresh_motor :: "app_ipc_motor_state \<Rightarrow> lcd_labels \<Rightarrow> lcd_labels" where
  "refresh_motor st lb =
     (if \<not> ms_valid st
      then lb\<lparr>lb_motor_mode := ''Unavailable'', lb_motor_state := ''IPC unavailable'', lb_motor_applied := ''-'',
              lb_motor_target := ''-'', lb_motor_direction := ''-'', lb_motor_fault := ''-'', lb_motor_safety := ''-''\<rparr>
      else
        let words = ms_words st; flags = words ! APP_MOTOR_STATE_FLAGS;
            remote = flags AND APP_MOTOR_STATE_FLAG_REMOTE \<noteq> 0
        in lb\<lparr>lb_motor_mode := (if remote then ''Remote'' else ''Local''),
              lb_motor_state := motor_state_text flags,
              lb_motor_applied := dec_of_nat (unat (words ! APP_MOTOR_STATE_APPLIED_DUTY_PERMILLE) div 10) @ '' %'',
              lb_motor_target := dec_of_nat (unat (words ! APP_MOTOR_STATE_TARGET_DUTY_PERMILLE) div 10) @ '' %'',
              lb_motor_direction := (if words ! APP_MOTOR_STATE_DIRECTION \<noteq> 0 then ''Reverse'' else ''Forward''),
              lb_motor_fault := dec_of_nat (unat (words ! APP_MOTOR_STATE_FAULT_CODE)),
              lb_motor_safety := motor_safety_text flags (ms_stale st)\<rparr>)"

definition refresh_dashboard :: "m7_env \<Rightarrow> m7 \<Rightarrow> lcd \<Rightarrow> lcd" where
  "refresh_dashboard e w s =
     (let lb = lcd_labels s;
          (ret, active) = net_cfg_get_active (me_ntop e) (me_has_iface e) (me_addrs e) (me_netmask_of e)
                            (me_gateway e) (m7_net w);
          lb = (if ret = 0 then lb\<lparr>lb_ip := nd_ip active,
                  lb_mode := (if nd_mode active = NET_CFG_STATIC then ''Static'' else ''DHCP'')\<rparr> else lb);
          link_up = net_cfg_link_is_up (me_has_iface e) (me_if_up e) (me_carrier e);
          lb = lb\<lparr>lb_link := (if link_up then ''UP'' else ''DOWN''),
                  lb_link_color := (if link_up then 0x16b67a else 0xe05a5a),
                  lb_connections := dec_of_nat (unat (app_modbus_tcp_connection_count w)),
                  lb_heartbeat := dec_of_nat (unat (app_modbus_tcp_heartbeat_count w))\<rparr>;
          lb = (case app_modbus_tcp_holding_read e APP_MB_HREG_STATUS w of Inl _ \<Rightarrow> lb
                | Inr status \<Rightarrow> lb\<lparr>lb_status := dec_of_int (s16_of_u16 status)\<rparr>)
      in s\<lparr>lcd_labels := refresh_motor (app_ipc_get_motor_state (me_now e) (m7_link w)) lb\<rparr>)"

section \<open>Buttons, standby and wake\<close>

definition reset_reboot_button :: "lcd \<Rightarrow> lcd" where
  "reset_reboot_button s = s\<lparr>lcd_reboot_confirm_until := 0, lcd_reboot_label := ''Reboot'', lcd_reboot_color := 0x263442\<rparr>"

definition reboot_button_event :: "u32 \<Rightarrow> lcd \<Rightarrow> lcd" where
  "reboot_button_event now s =
     (if lcd_reboot_confirm_until s \<noteq> 0 \<and> before_u32 now (lcd_reboot_confirm_until s)
      then s\<lparr>lcd_reboot_label := ''Restarting'', lcd_reboot_disabled := True, lcd_reboot_scheduled := True\<rparr>
      else s\<lparr>lcd_reboot_confirm_until := now + APP_LCD_REBOOT_CONFIRM_MS, lcd_reboot_label := ''Confirm reboot'',
             lcd_reboot_color := 0xc48628\<rparr>)"

text \<open>The answers of the three calls on the panel, in the order of the code; a negative answer leaves the
  panel as it was.\<close>

definition enter_standby :: "int \<Rightarrow> int \<Rightarrow> int \<Rightarrow> lcd \<Rightarrow> int \<times> lcd" where
  "enter_standby dim_ret blank_ret undim_ret s =
     (if lcd_sleeping s then (0, s)
      else
        let s = (if dim_ret < 0 then s else s\<lparr>lcd_brightness := 0\<rparr>)
        in if blank_ret < 0
           then (blank_ret, if undim_ret < 0 then s else s\<lparr>lcd_brightness := 255\<rparr>)
           else
             let s = s\<lparr>lcd_blanked := True, lcd_sleeping := True\<rparr>;
                 s = reset_reboot_button s
             in (0, s\<lparr>lcd_sleep_label := ''Sleeping'', lcd_sleep_disabled := True\<rparr>))"

definition sleep_button_event :: "int \<Rightarrow> int \<Rightarrow> int \<Rightarrow> lcd \<Rightarrow> lcd" where
  "sleep_button_event dim_ret blank_ret undim_ret s = snd (enter_standby dim_ret blank_ret undim_ret s)"

text \<open>A press on the touch panel; while the panel sleeps \<open>lv_indev_wait_release\<close> keeps it from the buttons.\<close>

definition wake_display_event :: "lcd \<Rightarrow> lcd" where
  "wake_display_event s = (if \<not> lcd_sleeping s then s else s\<lparr>lcd_wake_requested := True\<rparr>)"

definition wake_display :: "m7_env \<Rightarrow> m7 \<Rightarrow> int \<Rightarrow> int \<Rightarrow> lcd \<Rightarrow> lcd" where
  "wake_display e w unblank_ret bright_ret s =
     (let s = s\<lparr>lcd_wake_requested := False\<rparr>
      in if unblank_ret < 0 then s
         else
           let s = s\<lparr>lcd_blanked := False\<rparr>;
               s = (if bright_ret < 0 then s else s\<lparr>lcd_brightness := 255\<rparr>);
               s = s\<lparr>lcd_sleeping := False, lcd_sleep_label := ''Sleep'', lcd_sleep_disabled := False\<rparr>
           in refresh_dashboard e w s)"

section \<open>The thread\<close>

text \<open>The start of the thread: the devices' readiness and the panel's answers; \<open>None\<close> when it ends.\<close>

definition lcd_thread_init ::
  "bool \<Rightarrow> bool \<Rightarrow> m7_env \<Rightarrow> m7 \<Rightarrow> int \<Rightarrow> int \<Rightarrow> int \<Rightarrow> lcd \<Rightarrow> lcd option" where
  "lcd_thread_init display_ready panel_ready e w dim_ret blank_ret undim_ret s =
     (if \<not> display_ready then None
      else if \<not> panel_ready then None
      else
        let s = refresh_dashboard e w s
        in Some (if APP_LCD_START_IN_STANDBY \<noteq> 0 then snd (enter_standby dim_ret blank_ret undim_ret s) else s))"

text \<open>One turn of the loop without \<open>lv_timer_handler\<close>, which runs the events of the buttons.\<close>

definition lcd_turn :: "m7_env \<Rightarrow> m7 \<Rightarrow> u32 \<Rightarrow> int \<Rightarrow> int \<Rightarrow> lcd \<Rightarrow> lcd" where
  "lcd_turn e w now unblank_ret bright_ret s =
     (let s = (if lcd_wake_requested s then wake_display e w unblank_ret bright_ret s else s);
          s = (if lcd_reboot_confirm_until s \<noteq> 0 \<and> \<not> before_u32 now (lcd_reboot_confirm_until s)
               then reset_reboot_button s else s)
      in if \<not> lcd_sleeping s \<and> \<not> before_u32 now (lcd_next_refresh s)
         then (refresh_dashboard e w s)\<lparr>lcd_next_refresh := now + APP_LCD_REFRESH_MS\<rparr>
         else s)"

definition app_lcd_start :: "lcd \<Rightarrow> int \<times> lcd" where
  "app_lcd_start s = (if lcd_started s then (0, s) else (0, s\<lparr>lcd_started := True\<rparr>))"

text \<open>What happens to the dashboard: turns, clicks on its two buttons, and touches.\<close>

datatype lcd_event =
    Lcd_turn m7_env m7 u32 int int
  | Reboot_click u32
  | Sleep_click int int int
  | Touch

definition lcd_step :: "lcd_event \<Rightarrow> lcd \<Rightarrow> lcd" where
  "lcd_step ev s = (case ev of
       Lcd_turn e w now unblank_ret bright_ret \<Rightarrow> lcd_turn e w now unblank_ret bright_ret s
     | Reboot_click now \<Rightarrow> reboot_button_event now s
     | Sleep_click dim_ret blank_ret undim_ret \<Rightarrow> sleep_button_event dim_ret blank_ret undim_ret s
     | Touch \<Rightarrow> wake_display_event s)"

definition lcd_run :: "lcd_event list \<Rightarrow> lcd \<Rightarrow> lcd" where
  "lcd_run evs s = fold lcd_step evs s"

section \<open>Shell utilities\<close>

text \<open>\<open>uptime_ms\<close> is \<open>k_uptime_get ()\<close>, not negative; \<open>cmd_reboot\<close> prints and does not return.\<close>

definition cmd_uptime :: "nat \<Rightarrow> int \<times> string list" where
  "cmd_uptime uptime_ms =
     (let seconds = uptime_ms div 1000; milliseconds = uptime_ms mod 1000
      in (0, [''Uptime: '' @ dec_of_nat seconds @ ''.'' @ pad0 3 (dec_of_nat milliseconds) @ '' s'']))"

definition cmd_reboot :: "string list" where
  "cmd_reboot = [''Rebooting...'']"

section \<open>Reboot, standby and refresh\<close>

lemma before_u32_nat:
  assumes "a < 2 ^ 31" "b < 2 ^ 31"
  shows "before_u32 (x + of_nat a) (x + of_nat b) \<longleftrightarrow> a < b"
proof -
  have eq: "(x + of_nat a :: u32) - (x + of_nat b) = of_int (int a - int b)"
    by simp
  have sint: "sint (of_int (int a - int b) :: u32) = int a - int b"
    unfolding signed_of_int of_int_eq_id id_apply using assms by (intro signed_take_bit_int_eq_self) simp_all
  show ?thesis
    unfolding before_u32_def eq sint by auto
qed

lemma refresh_dashboard_keeps [simp]:
  "lcd_sleeping (refresh_dashboard e w s) = lcd_sleeping s"
  "lcd_blanked (refresh_dashboard e w s) = lcd_blanked s"
  "lcd_sleep_disabled (refresh_dashboard e w s) = lcd_sleep_disabled s"
  "lcd_wake_requested (refresh_dashboard e w s) = lcd_wake_requested s"
  "lcd_reboot_confirm_until (refresh_dashboard e w s) = lcd_reboot_confirm_until s"
  "lcd_reboot_scheduled (refresh_dashboard e w s) = lcd_reboot_scheduled s"
  "lcd_next_refresh (refresh_dashboard e w s) = lcd_next_refresh s"
  by (simp_all add: refresh_dashboard_def Let_def split: prod.splits)

lemma wake_display_keeps [simp]:
  "lcd_reboot_confirm_until (wake_display e w ub br s) = lcd_reboot_confirm_until s"
  "lcd_reboot_scheduled (wake_display e w ub br s) = lcd_reboot_scheduled s"
  "lcd_next_refresh (wake_display e w ub br s) = lcd_next_refresh s"
  "\<not> lcd_wake_requested (wake_display e w ub br s)"
  by (simp_all add: wake_display_def Let_def)

lemma lcd_turn_reboot:
  "lcd_reboot_scheduled (lcd_turn e w now ub br s) = lcd_reboot_scheduled s"
  "lcd_reboot_confirm_until (lcd_turn e w now ub br s)
     = (if before_u32 now (lcd_reboot_confirm_until s) then lcd_reboot_confirm_until s else 0)"
  by (simp_all add: lcd_turn_def reset_reboot_button_def Let_def)

text \<open>Turns of the loop between the times \<open>from\<close> and \<open>from + upto\<close>.\<close>

fun turn_within :: "u32 \<Rightarrow> nat \<Rightarrow> nat \<Rightarrow> lcd_event \<Rightarrow> bool" where
  "turn_within from lo hi (Lcd_turn e w now ub br) = (lo \<le> unat (now - from) \<and> unat (now - from) < hi)"
| "turn_within from lo hi _ = False"

lemma turn_withinE:
  assumes "turn_within from lo hi ev"
  obtains e w k ub br where "ev = Lcd_turn e w (from + of_nat k) ub br" "lo \<le> k" "k < hi" "k < 2 ^ 32"
proof (cases ev)
  case (Lcd_turn e w now ub br)
  have "now = from + of_nat (unat (now - from))" by simp
  moreover have "unat (now - from) < 2 ^ 32" using unsigned_less[of "now - from", where ?'a = nat] by simp
  ultimately show ?thesis using assms Lcd_turn that[of e w "unat (now - from)" ub br] by simp
qed (use assms in auto)

lemma turns_keep_confirmation:
  assumes "list_all (turn_within t0 0 (Suc d)) turns" "d < 2 ^ 31"
    and "lcd_reboot_confirm_until s = t0 + APP_LCD_REBOOT_CONFIRM_MS \<or>
         3000 \<le> d \<and> lcd_reboot_confirm_until s = 0"
  shows "lcd_reboot_scheduled (lcd_run turns s) = lcd_reboot_scheduled s \<and>
    (lcd_reboot_confirm_until (lcd_run turns s) = t0 + APP_LCD_REBOOT_CONFIRM_MS \<or>
     3000 \<le> d \<and> lcd_reboot_confirm_until (lcd_run turns s) = 0)"
  using assms
proof (induction turns arbitrary: s)
  case Nil
  then show ?case by (simp add: lcd_run_def)
next
  case (Cons ev turns)
  from Cons.prems(1) have "turn_within t0 0 (Suc d) ev" by simp
  then obtain e w k ub br where ev: "ev = Lcd_turn e w (t0 + of_nat k) ub br" "k \<le> d"
    by (rule turn_withinE) auto
  have "before_u32 (t0 + of_nat k) (t0 + APP_LCD_REBOOT_CONFIRM_MS) \<longleftrightarrow> k < 3000"
    using before_u32_nat[of k 3000 t0] ev(2) Cons.prems(2) by (simp add: APP_LCD_REBOOT_CONFIRM_MS_def)
  then have "lcd_reboot_scheduled (lcd_step ev s) = lcd_reboot_scheduled s \<and>
      (lcd_reboot_confirm_until (lcd_step ev s) = t0 + APP_LCD_REBOOT_CONFIRM_MS \<or>
       3000 \<le> d \<and> lcd_reboot_confirm_until (lcd_step ev s) = 0)"
    using Cons.prems(3) ev by (auto simp: lcd_step_def lcd_turn_reboot)
  with Cons.IH[of "lcd_step ev s"] Cons.prems(1,2) show ?case by (simp add: lcd_run_def)
qed

text \<open>Two clicks on \<open>Reboot\<close> with nothing but turns of the loop between them reboot the board exactly
  when the second comes less than 3000 ms after the first, whether the loop has already withdrawn the
  question or not.\<close>

theorem lcd_reboot_two_clicks:
  assumes "lcd_reboot_confirm_until s = 0" "\<not> lcd_reboot_scheduled s"
    and "t0 + APP_LCD_REBOOT_CONFIRM_MS \<noteq> 0" "d < 2 ^ 31"
    and "list_all (turn_within t0 0 (Suc d)) turns"
  shows "lcd_reboot_scheduled (lcd_run (Reboot_click t0 # turns @ [Reboot_click (t0 + of_nat d)]) s)
    \<longleftrightarrow> d < 3000"
proof -
  let ?s = "lcd_run turns (lcd_step (Reboot_click t0) s)"
  have start: "lcd_reboot_confirm_until (lcd_step (Reboot_click t0) s) = t0 + APP_LCD_REBOOT_CONFIRM_MS"
    "\<not> lcd_reboot_scheduled (lcd_step (Reboot_click t0) s)"
    using assms by (simp_all add: lcd_step_def reboot_button_event_def)
  have after: "\<not> lcd_reboot_scheduled ?s"
    "lcd_reboot_confirm_until ?s = t0 + APP_LCD_REBOOT_CONFIRM_MS \<or> 3000 \<le> d \<and> lcd_reboot_confirm_until ?s = 0"
    using turns_keep_confirmation[OF assms(5,4), of "lcd_step (Reboot_click t0) s"] start by auto
  have "before_u32 (t0 + of_nat d) (t0 + APP_LCD_REBOOT_CONFIRM_MS) \<longleftrightarrow> d < 3000"
    using before_u32_nat[of d 3000 t0] assms(4) by (simp add: APP_LCD_REBOOT_CONFIRM_MS_def)
  then have "lcd_reboot_scheduled (lcd_step (Reboot_click (t0 + of_nat d)) ?s) \<longleftrightarrow> d < 3000"
    using after assms(3) by (auto simp: lcd_step_def reboot_button_event_def)
  then show ?thesis by (simp add: lcd_run_def)
qed

lemma lcd_reboot_two_clicks_witness:
  "lcd_reboot_scheduled (lcd_run (Reboot_click 100 # [] @ [Reboot_click (100 + of_nat 2999)]) lcd_boot)
   \<and> \<not> lcd_reboot_scheduled (lcd_run (Reboot_click 100 # [] @ [Reboot_click (100 + of_nat 3000)]) lcd_boot)"
  using lcd_reboot_two_clicks[of lcd_boot 100 2999 "[]"] lcd_reboot_two_clicks[of lcd_boot 100 3000 "[]"]
  by (simp add: lcd_boot_def APP_LCD_REBOOT_CONFIRM_MS_def)

definition lcd_inv :: "lcd \<Rightarrow> bool" where
  "lcd_inv s \<longleftrightarrow> (lcd_blanked s \<longrightarrow> lcd_sleeping s) \<and> lcd_sleep_disabled s = lcd_sleeping s"

lemma lcd_step_inv: "lcd_inv s \<Longrightarrow> lcd_inv (lcd_step ev s)"
  by (auto simp: lcd_inv_def lcd_step_def lcd_turn_def wake_display_def reset_reboot_button_def
      reboot_button_event_def sleep_button_event_def enter_standby_def wake_display_event_def Let_def
      split: lcd_event.splits)

lemma lcd_run_inv: "lcd_inv s \<Longrightarrow> lcd_inv (lcd_run evs s)"
  unfolding lcd_run_def by (induction evs arbitrary: s) (simp_all add: lcd_step_inv)

text \<open>C39. After every sequence of turns, clicks and touches, whatever the panel's driver answers, a dark
  panel can be woken: the module knows that it sleeps, the \<open>Sleep\<close> button is disabled exactly then, and
  a touch followed by a turn in which the driver unblanks the panel lights it again.\<close>

theorem lcd_dark_panel_wakes:
  "0 \<le> unblank_ret \<Longrightarrow>
   \<not> lcd_blanked (lcd_run (evs @ [Touch, Lcd_turn e w now unblank_ret bright_ret]) lcd_boot) \<and>
   lcd_sleep_disabled (lcd_run evs lcd_boot) = lcd_sleeping (lcd_run evs lcd_boot)"
proof -
  assume r: "0 \<le> unblank_ret"
  have "lcd_inv lcd_boot" by (simp add: lcd_inv_def lcd_boot_def)
  from lcd_run_inv[OF this, of evs] have inv: "lcd_inv (lcd_run evs lcd_boot)" .
  have "\<not> lcd_blanked (lcd_turn e w now unblank_ret bright_ret (wake_display_event s))" if "lcd_inv s" for s
    using that r by (auto simp: lcd_inv_def wake_display_event_def lcd_turn_def wake_display_def
        reset_reboot_button_def Let_def)
  from this[OF inv] inv show ?thesis by (simp add: lcd_run_def lcd_step_def lcd_inv_def)
qed

theorem lcd_dark_panel_wakes_witness:
  "\<not> lcd_blanked (lcd_run [Sleep_click 0 0 0, Touch, Lcd_turn m7_env_example m7_boot 5 0 0] lcd_boot)"
  using lcd_dark_panel_wakes [of 0 "[Sleep_click 0 0 0]" m7_env_example m7_boot 5 0] by simp

lemma not_due_after_half_range:
  assumes "2 ^ 31 \<le> k" "k < 2 ^ 32"
  shows "before_u32 (x + of_nat k) x"
proof -
  have "(of_int (2 ^ 32) :: u32) = 0" by simp
  then have "of_nat k = (of_int (int k - 2 ^ 32) :: u32)" by (simp only: of_int_diff of_int_of_nat_eq diff_0_right)
  then have "sint (x + of_nat k - x) = sint (of_int (int k - 2 ^ 32) :: u32)" by (simp only: add_diff_cancel_left')
  also have "\<dots> = int k - 2 ^ 32"
    unfolding signed_of_int of_int_eq_id id_apply using assms by (intro signed_take_bit_int_eq_self) simp_all
  finally show ?thesis using assms(2) by (simp add: before_u32_def)
qed

lemma refresh_dashboard_labels:
  "lcd_labels s = lcd_labels t \<Longrightarrow> lcd_labels (refresh_dashboard e w s) = lcd_labels (refresh_dashboard e w t)"
  by (simp add: refresh_dashboard_def Let_def split_def cong: sum.case_cong)

lemma refresh_dashboard_heartbeat:
  "lb_heartbeat (lcd_labels (refresh_dashboard e w s)) = dec_of_nat (unat (mb_heartbeat_counter (m7_modbus w)))"
  by (simp add: refresh_dashboard_def refresh_motor_def app_modbus_tcp_heartbeat_count_def Let_def split_def split: sum.split)

lemma lcd_turn_not_due:
  assumes "\<not> lcd_wake_requested s" "before_u32 now (lcd_next_refresh s)"
  shows "lcd_labels (lcd_turn e w now ub br s) = lcd_labels s"
    and "lcd_next_refresh (lcd_turn e w now ub br s) = lcd_next_refresh s"
    and "\<not> lcd_wake_requested (lcd_turn e w now ub br s)"
  using assms by (simp_all add: lcd_turn_def reset_reboot_button_def Let_def)

lemma turns_not_due:
  assumes "list_all (turn_within (lcd_next_refresh s) (2 ^ 31) (2 ^ 32)) turns" "\<not> lcd_wake_requested s"
  shows "lcd_labels (lcd_run turns s) = lcd_labels s"
  using assms
proof (induction turns arbitrary: s)
  case Nil
  then show ?case by (simp add: lcd_run_def)
next
  case (Cons ev turns)
  from Cons.prems(1) have "turn_within (lcd_next_refresh s) (2 ^ 31) (2 ^ 32) ev" by simp
  then obtain e w k ub br where ev: "ev = Lcd_turn e w (lcd_next_refresh s + of_nat k) ub br" "2 ^ 31 \<le> k" "k < 2 ^ 32"
    by (rule turn_withinE)
  note not_due = lcd_turn_not_due[OF Cons.prems(2) not_due_after_half_range[OF ev(2,3)], of e w ub br]
  from not_due Cons ev(1) show ?case by (simp add: lcd_run_def lcd_step_def)
qed

text \<open>The refresh is due when \<open>(int32_t)(now - next_refresh)\<close> is not negative, and a sleeping dashboard
  does not advance \<open>next_refresh\<close>: when the panel is woken more than \<open>2 ^ 31\<close> ms after the last refresh
  was due, it shows the data of that moment and every later turn leaves them, until the clock has gone
  round to \<open>next_refresh\<close>.\<close>

theorem lcd_frozen_after_long_standby:
  assumes "lcd_wake_requested s" "0 \<le> unblank_ret"
    and "2 ^ 31 \<le> asleep" "asleep < 2 ^ 32"
    and "list_all (turn_within (lcd_next_refresh s) (2 ^ 31) (2 ^ 32)) turns"
  shows "lcd_labels (lcd_run (Lcd_turn e w (lcd_next_refresh s + of_nat asleep) unblank_ret bright_ret # turns) s)
    = lcd_labels (refresh_dashboard e w s)"
proof -
  let ?now = "lcd_next_refresh s + of_nat asleep"
  let ?woken = "wake_display e w unblank_ret bright_ret s"
  have due: "before_u32 ?now (lcd_next_refresh ?woken)"
    using not_due_after_half_range[OF assms(3,4)] by simp
  have turn: "lcd_turn e w ?now unblank_ret bright_ret s = lcd_turn e w ?now unblank_ret bright_ret ?woken"
    using assms(1) by (simp add: lcd_turn_def Let_def)
  note first = lcd_turn_not_due[OF wake_display_keeps(4) due, of e w unblank_ret bright_ret]
  have "lcd_labels (lcd_run turns (lcd_turn e w ?now unblank_ret bright_ret ?woken)) = lcd_labels ?woken"
    using turns_not_due[of "lcd_turn e w ?now unblank_ret bright_ret ?woken" turns] first assms(5) by simp
  moreover have "lcd_labels ?woken = lcd_labels (refresh_dashboard e w s)"
    using assms(2) by (auto simp: wake_display_def Let_def intro: refresh_dashboard_labels)
  ultimately show ?thesis using turn by (simp add: lcd_run_def lcd_step_def)
qed

definition m7_beat :: "u16 \<Rightarrow> m7" where
  "m7_beat n = modbus_set (\<lambda>mb. mb\<lparr>mb_heartbeat_counter := n\<rparr>) m7_boot"

definition lcd_asleep_example :: lcd where
  "lcd_asleep_example = lcd_run [Sleep_click 0 0 0, Touch] lcd_boot"

lemma lcd_frozen_after_long_standby_witness:
  "lb_heartbeat (lcd_labels (lcd_run [Lcd_turn m7_env_example m7_boot 0x80000000 0 0,
       Lcd_turn m7_env_example (m7_beat 9) 0x90000000 0 0] lcd_asleep_example)) = ''0''
   \<and> lb_heartbeat (lcd_labels (refresh_dashboard m7_env_example (m7_beat 9) lcd_boot)) = ''9''"
proof -
  have s: "lcd_wake_requested lcd_asleep_example" "lcd_next_refresh lcd_asleep_example = 0"
    by (simp_all add: lcd_asleep_example_def lcd_run_def lcd_step_def sleep_button_event_def enter_standby_def
        wake_display_event_def reset_reboot_button_def lcd_boot_def Let_def)
  have "lcd_labels (lcd_run (Lcd_turn m7_env_example m7_boot (lcd_next_refresh lcd_asleep_example + of_nat 0x80000000) 0 0
      # [Lcd_turn m7_env_example (m7_beat 9) 0x90000000 0 0]) lcd_asleep_example)
    = lcd_labels (refresh_dashboard m7_env_example m7_boot lcd_asleep_example)"
    by (rule lcd_frozen_after_long_standby) (simp_all add: s)
  moreover have "lb_heartbeat (lcd_labels (refresh_dashboard m7_env_example m7_boot lcd_asleep_example)) = ''0''"
    "lb_heartbeat (lcd_labels (refresh_dashboard m7_env_example (m7_beat 9) lcd_boot)) = ''9''"
    by (simp_all add: refresh_dashboard_heartbeat m7_beat_def modbus_set_def m7_boot_def modbus_boot_def
        dec_of_nat_def digits_of.simps digit_char_def char_of_def bit_Suc_0_iff)
  ultimately show ?thesis by (simp add: s(2))
qed

end
