(* ===== verification/M7_Main.thy ===== *)
theory M7_Main
  imports App_Eip Web_Requests App_Lcd Modbus_Server M7_Remote
begin

text \<open>
  The main program of the Cortex-M7, \<open>app_m7/src/core/main.c\<close>, and the services together: \<open>m7_sys\<close> holds
  the state of every component, with the calls that configured the interface; \<open>main_start\<close> is the part of \<open>main\<close> before its loop, \<open>main_turn\<close> a turn of
  the loop, and \<open>sys_step\<close> an operation of any component on the shared state. Operations do not overlap
  here; the locks of the code see to that, apart from the lock order recorded with \<open>Modbus_Tcp\<close>.
\<close>

section \<open>State\<close>

record m7_sys =
  sy_m7 :: m7
  sy_eip :: eip
  sy_web :: web
  sy_dpws :: dpws
  sy_lcd :: lcd
  sy_led :: bool
  sy_iface :: "net_action list"

definition sys_boot :: m7_sys where
  "sys_boot = \<lparr>sy_m7 = m7_boot, sy_eip = eip_boot, sy_web = \<lparr>web_started = False, web_reboot_scheduled = False\<rparr>,
     sy_dpws = dpws_boot, sy_lcd = lcd_boot, sy_led = False, sy_iface = []\<rparr>"

definition sys_m7 :: "(m7 \<Rightarrow> m7) \<Rightarrow> m7_sys \<Rightarrow> m7_sys" where
  "sys_m7 f s = s\<lparr>sy_m7 := f (sy_m7 s)\<rparr>"

section \<open>Network events\<close>

datatype mgmt_event = NET_EVENT_IPV4_DHCP_BOUND | Other_event

text \<open>The addresses of the interface, as in \<open>net_cfg_get_active\<close>; the result is the address logged.\<close>

definition net_event_handler ::
  "ntop \<Rightarrow> mgmt_event \<Rightarrow> (bool \<times> net_addr_type \<times> u32) list \<Rightarrow> string option" where
  "net_event_handler ntop event addrs =
     (if event \<noteq> NET_EVENT_IPV4_DHCP_BOUND then None
      else map_option (\<lambda>(used, ty, a). ntop a) (find (\<lambda>(used, ty, a). used \<and> ty = NET_ADDR_DHCP) addrs))"

section \<open>Start\<close>

text \<open>What the calls of \<open>main\<close> find.\<close>

record start_env =
  se_led_ready :: bool
  se_settings_ret :: int
  se_settings :: settings_answers
  se_m7 :: m7_env
  se_add_ok :: bool
  se_netmask_ok :: bool
  se_ipc_ready :: bool
  se_ipc_open :: int
  se_ipc_register :: int
  se_iface1 :: int
  se_iface2 :: int
  se_init1 :: int
  se_init2 :: int
  se_fc1 :: int
  se_fc2 :: int

text \<open>The services that can fail to start, in the messages of \<open>main\<close>.\<close>

datatype start_failure =
    Settings_failed int | Load_failed int | Net_failed int | Ipc_failed int | Modbus_failed int
  | Eip_failed int | Web_failed int | Dpws_failed int | Lcd_failed int

definition failed :: "(int \<Rightarrow> start_failure) \<Rightarrow> int \<Rightarrow> start_failure list" where
  "failed what ret = (if ret < 0 then [what ret] else [])"

definition start_settings :: "start_env \<Rightarrow> m7 \<Rightarrow> start_failure list \<times> m7" where
  "start_settings se w =
     (if se_settings_ret se < 0 then ([Settings_failed (se_settings_ret se)], w)
      else let (ret, blob, cfg) = net_cfg_load (me_pton (se_m7 se)) (se_settings se) (m7_net w)
           in (failed Load_failed ret, (settings_keep (sa_save_ret (se_settings se)) blob w)\<lparr>m7_net := cfg\<rparr>))"

text \<open>The start of every service once there is an interface.\<close>

definition start_services :: "start_env \<Rightarrow> m7_sys \<Rightarrow> start_failure list \<times> m7_sys" where
  "start_services se s =
     (let w = sy_m7 s;
          (net_ret, actions) = net_cfg_start (me_pton (se_m7 se)) True (se_add_ok se) (se_netmask_ok se) (m7_net w);
          (ipc_ret, link) = app_ipc_init_m7 (se_ipc_ready se) (se_ipc_open se) (se_ipc_register se) (m7_link w);
          (modbus_ret, w) = app_modbus_tcp_start (se_m7 se) (se_iface1 se) (se_iface2 se) (se_init1 se) (se_init2 se)
                              (se_fc1 se) (se_fc2 se) (w\<lparr>m7_link := link\<rparr>);
          (eip_ret, eip) = app_eip_start (sy_eip s);
          (web_ret, web) = app_web_start (sy_web s);
          (dpws_ret, dpws) = app_dpws_start (sy_dpws s);
          (lcd_ret, lcd) = app_lcd_start (sy_lcd s)
      in (failed Net_failed net_ret @ failed Ipc_failed ipc_ret @ failed Modbus_failed modbus_ret
            @ failed Eip_failed eip_ret @ failed Web_failed web_ret @ failed Dpws_failed dpws_ret
            @ failed Lcd_failed lcd_ret,
          s\<lparr>sy_iface := sy_iface s @ actions, sy_m7 := w, sy_eip := eip, sy_web := web, sy_dpws := dpws, sy_lcd := lcd\<rparr>))"

text \<open>\<open>main\<close> up to its loop: the value it returns, or \<open>None\<close> when it goes on to the loop, and the failures
  it logged.\<close>

definition main_start :: "start_env \<Rightarrow> m7_sys \<Rightarrow> int option \<times> start_failure list \<times> m7_sys" where
  "main_start se s =
     (if \<not> se_led_ready se then (Some (- 1), [], s)
      else
        let s = s\<lparr>sy_led := True\<rparr>;
            (failures, w) = start_settings se (sy_m7 s);
            s = s\<lparr>sy_m7 := w\<rparr>
        in if \<not> me_has_iface (se_m7 se) then (Some (- 1), failures, s)
           else let (more, s) = start_services se s in (None, failures @ more, s))"

definition main_turn :: "m7_sys \<Rightarrow> m7_sys" where
  "main_turn s = sys_m7 app_modbus_tcp_heartbeat_tick (s\<lparr>sy_led := \<not> sy_led s\<rparr>)"

section \<open>The running system\<close>

datatype sys_op =
    Main_turn
  | Modbus modbus_op
  | Eip_event u32 u32 io_connection_event
  | Eip_received "nat \<Rightarrow> m7_env" u32 "u8 list"
  | Eip_send "nat \<Rightarrow> m7_env" u32
  | Web int "(web_env \<times> web_conn) option list"
  | Probe "int \<times> app_ident_info" u32 int string family
  | Shell m7_env shell_command
  | Refresh_work m7_env
  | Ping "nat \<Rightarrow> int" u32 u32 "(u32 \<times> u8 list) list"
  | Link_bound
  | Link_unbound
  | Link_error
  | Lcd_loop m7_env u32 int int
  | Lcd_reboot u32
  | Lcd_sleep int int int
  | Lcd_touch

definition sys_web :: "(web_world \<Rightarrow> web_world) \<Rightarrow> m7_sys \<Rightarrow> m7_sys" where
  "sys_web f s =
     (let ww = f \<lparr>ww_m7 = sy_m7 s, ww_dpws = sy_dpws s, ww_web = sy_web s\<rparr>
      in s\<lparr>sy_m7 := ww_m7 ww, sy_dpws := ww_dpws ww, sy_web := ww_web ww\<rparr>)"

text \<open>OpENer copies the data of a connection into the assembly's memory, whose size it knows from
  \<open>CreateAssemblyObject\<close>, before it calls the application.\<close>

definition sys_step :: "sys_op \<Rightarrow> m7_sys \<Rightarrow> m7_sys" where
  "sys_step p s = (case p of
       Main_turn \<Rightarrow> main_turn s
     | Modbus q \<Rightarrow> sys_m7 (modbus_step q) s
     | Eip_event output_id input_id event \<Rightarrow> s\<lparr>sy_eip := CheckIoConnectionEvent output_id input_id event (sy_eip s)\<rparr>
     | Eip_received es instance_number data \<Rightarrow>
         (let eip = (if length data = APP_EIP_ASSEMBLY_SIZE then (sy_eip s)\<lparr>eip_output_assembly := data\<rparr> else sy_eip s)
          in s\<lparr>sy_eip := eip, sy_m7 := snd (AfterAssemblyDataReceived es instance_number eip (sy_m7 s))\<rparr>)
     | Eip_send es instance_number \<Rightarrow>
         (let (sent, eip, w) = BeforeAssemblyDataSend es instance_number (sy_eip s) (sy_m7 s)
          in s\<lparr>sy_eip := eip, sy_m7 := w\<rparr>)
     | Web ret ready \<Rightarrow> sys_web (app_web_turn ret ready) s
     | Probe ident_ret cycles len bytes fam \<Rightarrow>
         s\<lparr>sy_dpws := snd (dpws_process_probe ident_ret cycles len bytes fam (sy_dpws s))\<rparr>
     | Shell e c \<Rightarrow> sys_m7 (\<lambda>w. snd (snd (snd (run_shell e c w)))) s
     | Refresh_work e \<Rightarrow> sys_m7 (\<lambda>w. snd (remote_refresh_work_handler e w)) s
     | Ping send start_ms end_ms received \<Rightarrow>
         sys_m7 (\<lambda>w. w\<lparr>m7_link := snd (snd (snd (app_ipc_ping send start_ms end_ms received (m7_link w))))\<rparr>) s
     | Link_bound \<Rightarrow> sys_m7 (\<lambda>w. w\<lparr>m7_link := endpoint_bound_callback_m7 (m7_link w)\<rparr>) s
     | Link_unbound \<Rightarrow> sys_m7 (\<lambda>w. w\<lparr>m7_link := endpoint_unbound_m7 (m7_link w)\<rparr>) s
     | Link_error \<Rightarrow> sys_m7 (\<lambda>w. w\<lparr>m7_link := endpoint_error_m7 (m7_link w)\<rparr>) s
     | Lcd_loop e now unblank_ret bright_ret \<Rightarrow>
         s\<lparr>sy_lcd := lcd_step (Lcd_turn e (sy_m7 s) now unblank_ret bright_ret) (sy_lcd s)\<rparr>
     | Lcd_reboot now \<Rightarrow> s\<lparr>sy_lcd := lcd_step (Reboot_click now) (sy_lcd s)\<rparr>
     | Lcd_sleep dim_ret blank_ret undim_ret \<Rightarrow>
         s\<lparr>sy_lcd := lcd_step (Sleep_click dim_ret blank_ret undim_ret) (sy_lcd s)\<rparr>
     | Lcd_touch \<Rightarrow> s\<lparr>sy_lcd := lcd_step Touch (sy_lcd s)\<rparr>)"

definition sys_run :: "sys_op list \<Rightarrow> m7_sys \<Rightarrow> m7_sys" where
  "sys_run ops s = fold sys_step ops s"

section \<open>Every operation keeps the invariant\<close>

lemma send_command_ok:
  "m7_command_ok s \<Longrightarrow> m7_command_ok (snd (snd (send_remote_command_locked send remote s)))"
  by (simp only: m7_command_ok_cong[OF send_remote_command_keeps(1)])

lemma m7_command_ok_schedule [simp]: "m7_command_ok (s\<lparr>m7_refresh_scheduled := b\<rparr>) = m7_command_ok s"
  by (rule m7_command_ok_cong) simp

lemma modbus_inv_command_ok: "modbus_inv w \<Longrightarrow> m7_command_ok (m7_link w)"
  by (simp add: modbus_inv_def)

lemma remote_set_ok:
  assumes "m7_command_ok s"
    and "APP_MOTOR_COMMAND_DUTY_MIN_PERMILLE \<le> duty" "duty \<le> APP_MOTOR_COMMAND_DUTY_MAX_PERMILLE"
  shows "m7_command_ok (remote_set (\<lambda>rc. rc\<lparr>rc_enabled := e, rc_remote := True, rc_control := control,
           rc_duty_permille := duty, rc_timeout_ms := APP_IPC_REMOTE_TIMEOUT_MS,
           rc_source := APP_MOTOR_COMMAND_SOURCE_SHELL\<rparr>) s)"
    and "m7_command_ok (remote_set (\<lambda>rc. rc\<lparr>rc_source := APP_MOTOR_COMMAND_SOURCE_SHELL,
           rc_timeout_ms := APP_IPC_REMOTE_TIMEOUT_MS\<rparr>) s)"
    and "m7_command_ok (remote_set (\<lambda>rc. rc\<lparr>rc_source := APP_MOTOR_COMMAND_SOURCE_SHELL,
           rc_timeout_ms := APP_IPC_REMOTE_TIMEOUT_MS, rc_control := control\<rparr>) s)"
    and "m7_command_ok (remote_set (\<lambda>rc. rc\<lparr>rc_enabled := False, rc_control := 0\<rparr>) s)"
    and "m7_command_ok (remote_set (\<lambda>rc. rc\<lparr>rc_enabled := False\<rparr>) s)"
  using assms by (auto simp: m7_command_ok_def Let_def c_def)

lemma set_mode_inv: "modbus_inv w \<Longrightarrow> modbus_inv (snd (app_modbus_tcp_motor_set_mode e remote w))"
  by (simp add: app_modbus_tcp_motor_set_mode_def holding_reg_wr_inv)

lemma remote_command_update_inv:
  assumes "modbus_inv w" "APP_MOTOR_COMMAND_DUTY_MIN_PERMILLE \<le> duty" "duty \<le> APP_MOTOR_COMMAND_DUTY_MAX_PERMILLE"
  shows "modbus_inv (snd (snd (remote_command_update e activate control duty w)))"
  using assms(1) remote_set_ok(1)[OF modbus_inv_command_ok[OF assms(1)] assms(2,3)]
  by (simp add: remote_command_update_def Let_def case_prod_beta modbus_inv_link send_command_ok)

lemma duty_range: "m7_command_ok (m7_link w) \<Longrightarrow> APP_MOTOR_COMMAND_DUTY_MIN_PERMILLE \<le> remote_duty w"
  "m7_command_ok (m7_link w) \<Longrightarrow> remote_duty w \<le> APP_MOTOR_COMMAND_DUTY_MAX_PERMILLE"
  "APP_MOTOR_COMMAND_DUTY_MIN_PERMILLE \<le> APP_MOTOR_COMMAND_DUTY_MAX_PERMILLE"
  by (simp_all add: m7_command_ok_def remote_duty_def Let_def c_def)

lemma remote_command_disable_inv:
  assumes "modbus_inv w"
  shows "modbus_inv (snd (snd (remote_command_disable e w)))"
proof -
  note ok = remote_set_ok(2)[OF modbus_inv_command_ok[OF assms] order_refl duty_range(3)]
  have "modbus_inv (w\<lparr>m7_link := snd (snd (send_remote_command_locked (me_send e) False
      (remote_set (\<lambda>rc. rc\<lparr>rc_source := APP_MOTOR_COMMAND_SOURCE_SHELL, rc_timeout_ms := APP_IPC_REMOTE_TIMEOUT_MS\<rparr>)
        (m7_link w))))\<rparr>)"
    by (rule modbus_inv_link[OF assms send_command_ok[OF ok]])
  note w1 = this set_mode_inv[OF this, of e False]
  note off = remote_set_ok(4)[OF modbus_inv_command_ok[OF w1(2)] order_refl duty_range(3)]
  show ?thesis
    using w1 off by (simp add: remote_command_disable_def Let_def case_prod_beta modbus_inv_link)
qed

lemma remote_command_reset_inv: "modbus_inv w \<Longrightarrow> modbus_inv (snd (snd (remote_command_reset e w)))"
  using remote_set_ok(3)[OF modbus_inv_command_ok order_refl duty_range(3)]
  by (simp add: remote_command_reset_def Let_def case_prod_beta modbus_inv_link send_command_ok)

lemma remote_refresh_inv: "modbus_inv w \<Longrightarrow> modbus_inv (snd (remote_refresh_work_handler e w))"
proof -
  assume w: "modbus_inv w"
  let ?w = "w\<lparr>m7_link := (m7_link w)\<lparr>m7_refresh_scheduled := False\<rparr>\<rparr>"
  have "modbus_inv (?w\<lparr>m7_link := snd (snd (send_remote_command_locked (me_send e) True (m7_link ?w)))\<rparr>)"
    using w by (intro modbus_inv_link send_command_ok) (simp_all add: modbus_inv_def)
  note w1 = this set_mode_inv[OF this, of e True]
  show ?thesis
    using w w1 modbus_inv_command_ok[OF w1(2)] modbus_inv_command_ok[OF w]
    by (simp add: remote_refresh_work_handler_def Let_def case_prod_beta modbus_inv_link)
qed

lemma report_state [simp]: "snd (snd (snd (report_remote_result r))) = snd (snd r)"
  by (simp add: report_remote_result_def split: prod.split)

lemma run_shell_inv:
  assumes "modbus_inv w"
  shows "modbus_inv (snd (snd (snd (run_shell e c w))))"
proof -
  note ok = modbus_inv_command_ok[OF assms]
  note ops = remote_command_update_inv[OF assms] remote_command_disable_inv[OF assms]
    remote_command_reset_inv[OF assms] duty_range(1,2)[OF ok] duty_range(3) assms
  show ?thesis
  proof (cases c)
    case (M4_duty argv)
    obtain duty rest where dr: "strtoul10 (argv ! 1) = (duty, rest)" by (rule prod.exhaust)
    have "\<not> duty < unat APP_MOTOR_COMMAND_DUTY_MIN_PERMILLE \<Longrightarrow>
        \<not> unat APP_MOTOR_COMMAND_DUTY_MAX_PERMILLE < duty \<Longrightarrow> 800 \<le> duty \<and> duty \<le> 1000"
      by (simp add: c_def)
    then show ?thesis
      using duty_word_ok[of duty] assms
      by (auto simp: M4_duty run_shell_def cmd_m4_duty_def dr[unfolded One_nat_def] remote_command_update_inv)
  next
    case M4_pause
    then show ?thesis
      using assms remote_set_ok(5)[OF ok order_refl duty_range(3)]
      by (simp add: run_shell_def cmd_m4_pause_refresh_def modbus_inv_link)
  qed (simp_all add: run_shell_def cmd_m4_remote_def cmd_m4_local_def cmd_m4_start_def cmd_m4_stop_def
      cmd_m4_quick_stop_def cmd_m4_reset_def cmd_m4_forward_def cmd_m4_reverse_def ops case_prod_beta)
qed

lemma fold_received_command:
  "m7_remote_command (fold (\<lambda>(now, data). endpoint_received_m7 now data) received s) = m7_remote_command s"
  by (induction received arbitrary: s) (auto simp: endpoint_received_m7_command)

lemma ping_inv:
  "modbus_inv w \<Longrightarrow>
   modbus_inv (w\<lparr>m7_link := snd (snd (snd (app_ipc_ping send start_ms end_ms received (m7_link w))))\<rparr>)"
proof (rule modbus_inv_link)
  assume w: "modbus_inv w"
  have same: "m7_remote_command (snd (snd (snd (app_ipc_ping send start_ms end_ms received s))))
      = m7_remote_command s" for s
    by (simp add: app_ipc_ping_def Let_def case_prod_beta fold_received_command)
  show "m7_command_ok (snd (snd (snd (app_ipc_ping send start_ms end_ms received (m7_link w)))))"
    unfolding m7_command_ok_cong[OF same] by (rule modbus_inv_command_ok[OF w])
qed

definition sys_inv :: "m7_sys \<Rightarrow> bool" where
  "sys_inv s \<longleftrightarrow> modbus_inv (sy_m7 s)
     \<and> length (eip_input_assembly (sy_eip s)) = APP_EIP_ASSEMBLY_SIZE
     \<and> length (eip_output_assembly (sy_eip s)) = APP_EIP_ASSEMBLY_SIZE
     \<and> lcd_inv (sy_lcd s)"

lemma input_assembly_loop_length: "length (fst (input_assembly_loop es i n buf w)) = length buf"
  by (induction n arbitrary: i buf w) (simp_all add: Let_def case_prod_beta)

lemma BeforeAssemblyDataSend_keeps:
  "length (eip_input_assembly (fst (snd (BeforeAssemblyDataSend es k s w)))) = length (eip_input_assembly s)"
  "eip_output_assembly (fst (snd (BeforeAssemblyDataSend es k s w))) = eip_output_assembly s"
  by (simp_all add: BeforeAssemblyDataSend_def case_prod_beta input_assembly_loop_length)

lemma CheckIoConnectionEvent_keeps:
  "eip_input_assembly (CheckIoConnectionEvent i j ev s) = eip_input_assembly s"
  "eip_output_assembly (CheckIoConnectionEvent i j ev s) = eip_output_assembly s"
  by (simp_all add: CheckIoConnectionEvent_def)

lemma app_web_turn_inv: "modbus_inv (ww_m7 ww) \<Longrightarrow> modbus_inv (ww_m7 (app_web_turn ret ready ww))"
proof -
  have "modbus_inv (ww_m7 ww) \<Longrightarrow> modbus_inv (ww_m7 (fold (\<lambda>c ww. case c of None \<Rightarrow> ww
      | Some (we, c) \<Rightarrow> snd (app_web_serve_client we c ww)) ready ww))"
    by (induction ready arbitrary: ww) (auto simp: app_web_serve_client_inv split: option.split)
  then show "modbus_inv (ww_m7 ww) \<Longrightarrow> ?thesis" by (simp add: app_web_turn_def)
qed

lemma sys_m7_inv: "sys_inv s \<Longrightarrow> (\<And>w. modbus_inv w \<Longrightarrow> modbus_inv (f w)) \<Longrightarrow> sys_inv (sys_m7 f s)"
  by (simp add: sys_inv_def sys_m7_def)

lemma link_events_inv:
  "modbus_inv w \<Longrightarrow> modbus_inv (w\<lparr>m7_link := endpoint_bound_callback_m7 (m7_link w)\<rparr>)"
  "modbus_inv w \<Longrightarrow> modbus_inv (w\<lparr>m7_link := endpoint_unbound_m7 (m7_link w)\<rparr>)"
  "modbus_inv w \<Longrightarrow> modbus_inv (w\<lparr>m7_link := endpoint_error_m7 (m7_link w)\<rparr>)"
  by (simp_all add: modbus_inv_def m7_command_ok_def endpoint_bound_callback_m7_def endpoint_unbound_m7_def
      endpoint_error_m7_def Let_def)

lemma sys_lcd_inv: "sys_inv s \<Longrightarrow> sys_inv (s\<lparr>sy_lcd := lcd_step ev (sy_lcd s)\<rparr>)"
  by (simp add: sys_inv_def lcd_step_inv)

lemma main_turn_inv: "sys_inv s \<Longrightarrow> sys_inv (main_turn s)"
  by (simp add: main_turn_def sys_m7_def sys_inv_def app_modbus_tcp_heartbeat_tick_def modbus_inv_modbus_set)

lemma sys_step_inv: "sys_inv s \<Longrightarrow> sys_inv (sys_step p s)"
proof (cases p)
  case (Eip_received es k data)
  then show "sys_inv s \<Longrightarrow> ?thesis" by (simp add: sys_step_def Let_def sys_inv_def eip_data_inv)
next
  case (Eip_send es k)
  then show "sys_inv s \<Longrightarrow> ?thesis"
    by (simp add: sys_step_def case_prod_beta sys_inv_def eip_data_inv BeforeAssemblyDataSend_keeps)
next
  case (Web ret ready)
  then show "sys_inv s \<Longrightarrow> ?thesis" by (simp add: sys_step_def sys_web_def Let_def sys_inv_def app_web_turn_inv)
next
  case (Probe ident_ret cycles len bytes fam)
  then show "sys_inv s \<Longrightarrow> ?thesis" by (simp add: sys_step_def sys_inv_def)
next
  case (Eip_event i j ev)
  then show "sys_inv s \<Longrightarrow> ?thesis" by (simp add: sys_step_def sys_inv_def CheckIoConnectionEvent_keeps)
qed (simp_all add: sys_step_def main_turn_inv sys_lcd_inv sys_m7_inv modbus_step_inv run_shell_inv
    remote_refresh_inv ping_inv link_events_inv)

lemma sys_run_inv: "sys_inv s \<Longrightarrow> sys_inv (sys_run ops s)"
  unfolding sys_run_def by (induction ops arbitrary: s) (simp_all add: sys_step_inv)

lemma sys_boot_inv: "sys_inv sys_boot"
  by (simp add: sys_inv_def sys_boot_def modbus_boot_inv eip_boot_def lcd_inv_def lcd_boot_def)

lemma start_services_inv: "sys_inv s \<Longrightarrow> sys_inv (snd (start_services se s))"
proof -
  assume s: "sys_inv s"
  have "m7_remote_command (snd (app_ipc_init_m7 r o1 r1 l)) = m7_remote_command l" for r o1 r1 l
    by (simp add: app_ipc_init_m7_def)
  then have "m7_command_ok (snd (app_ipc_init_m7 r o1 r1 (m7_link (sy_m7 s))))" for r o1 r1
    using s by (simp add: m7_command_ok_def sys_inv_def modbus_inv_def)
  then show ?thesis
    using s by (simp add: start_services_def Let_def case_prod_beta sys_inv_def app_modbus_tcp_start_inv
        modbus_inv_link app_eip_start_def app_lcd_start_def lcd_inv_def)
qed

lemma main_start_inv: "sys_inv s \<Longrightarrow> sys_inv (snd (snd (main_start se s)))"
proof -
  assume s: "sys_inv s"
  have w: "modbus_inv (snd (start_settings se (sy_m7 s)))"
    using s by (simp add: start_settings_def case_prod_beta modbus_inv_net sys_inv_def)
  show ?thesis
    using start_services_inv[of "s\<lparr>sy_led := True, sy_m7 := snd (start_settings se (sy_m7 s))\<rparr>" se] s w
    by (simp add: main_start_def Let_def case_prod_beta sys_inv_def)
qed

section \<open>Properties\<close>

text \<open>C9. However the start goes and whatever the clients do afterwards, over Modbus, EtherNet/IP, HTTP, the
  shell, discovery probes, the display and the inter-core link, in any order and with any answers of the
  systems below: the mapping registers, the motor mode and the stored remote command stay valid, the
  assemblies keep the size they were registered with, and the dashboard knows whether it sleeps.\<close>

theorem m7_system_invariant: "sys_inv (sys_run ops (snd (snd (main_start se sys_boot))))"
  by (intro sys_run_inv main_start_inv sys_boot_inv)

lemma remote_message_outcome:
  assumes "m7_command_ok s"
  shows "endpoint_received_m4 (command_bytes (remote_message remote s)) t =
    (if rc_control (m7_remote_command s) AND NOT 0x1F = 0
     then t\<lparr>m4_pending_command := remote_message remote s, m4_command_pending := True\<rparr> else t)"
  using remote_message_valid [OF assms, of remote]
  by (simp add: endpoint_received_m4_def remote_message_size frame_of_remote_message frame_init_m7_def
      sizeof_defs c_def Let_def)

definition refresh_in_range :: "app_motor_command_message \<Rightarrow> bool" where
  "refresh_in_range m \<longleftrightarrow>
     (let ws = command_words m
      in unat (ws ! 1) \<in> {800..1000} \<and> unat (ws ! 2) \<in> {1..10000} \<and> unat (ws ! 3) \<in> {1..10000}
         \<and> unat (ws ! 5) \<in> {100..10000} \<and> ws ! 4 \<in> {0x101, 0x201})"

lemma remote_message_in_range: "m7_command_ok s \<Longrightarrow> refresh_in_range (remote_message True s)"
  by (auto simp: m7_command_ok_def refresh_in_range_def remote_message_def Let_def c_def word_le_nat_alt
      APP_MOTOR_COMMAND_MODE_SOURCE_def nth_Cons')

lemma refresh_sends:
  "fst (remote_refresh_work_handler e w) =
     (if rc_enabled (m7_remote_command (m7_link w)) \<and> m7_endpoint_initialized (m7_link w) \<and> m7_endpoint_is_bound (m7_link w)
      then Some (command_bytes (remote_message True (m7_link w))) else None)"
proof -
  have "remote_message True (s\<lparr>m7_refresh_scheduled := False\<rparr>) = remote_message True s" for s
    by (simp add: remote_message_def)
  then show ?thesis
    by (simp add: remote_refresh_work_handler_def Let_def case_prod_beta send_remote_command_message)
qed

text \<open>In every state the system reaches, the periodic refresh sends nothing, or a remote-mode message
  whose duty, ramps, timeout and source the other core accepts; it is executed unless the control word
  has a bit outside the five defined ones, in which case it is dropped.\<close>

theorem m7_refresh_always_in_contract:
  "case fst (remote_refresh_work_handler e (sy_m7 (sys_run ops (snd (snd (main_start se sys_boot)))))) of
     None \<Rightarrow> True
   | Some bytes \<Rightarrow> refresh_in_range (command_of bytes)
       \<and> endpoint_received_m4 bytes t =
           (if command_words (command_of bytes) ! 0 AND NOT 0x1F = 0
            then t\<lparr>m4_pending_command := command_of bytes, m4_command_pending := True\<rparr> else t)"
proof -
  let ?w = "sy_m7 (sys_run ops (snd (snd (main_start se sys_boot))))"
  have "sys_inv (sys_run ops (snd (snd (main_start se sys_boot))))"
    by (intro sys_run_inv main_start_inv sys_boot_inv)
  then have ok: "m7_command_ok (m7_link ?w)" by (simp add: sys_inv_def modbus_inv_def)
  have "command_words (remote_message True s) ! 0 = rc_control (m7_remote_command s)" for s
    by (simp add: remote_message_def Let_def)
  then show ?thesis
    using remote_message_in_range[OF ok] remote_message_outcome[OF ok, of True t] by (simp add: refresh_sends)
qed

text \<open>What the start leaves of the network configuration.\<close>

definition started_cfg :: "start_env \<Rightarrow> net_cfg_data" where
  "started_cfg se = (if se_settings_ret se < 0 then net_cfg_boot
     else snd (snd (net_cfg_load (me_pton (se_m7 se)) (se_settings se) net_cfg_boot)))"

text \<open>The registers that give the configuration \<open>d\<close>.\<close>

definition regs_show_cfg :: "pton \<Rightarrow> net_cfg_data \<Rightarrow> m7 \<Rightarrow> bool" where
  "regs_show_cfg pton d w \<longleftrightarrow>
     reg_get APP_MB_HREG_SIGNATURE w = APP_MODBUS_MAP_SIGNATURE
     \<and> reg_get APP_MB_HREG_MODE w = of_nat (nd_mode d)
     \<and> reg_get APP_MB_HREG_IP_MSW w = ipv4_word_msw pton (nd_ip d) \<and> reg_get APP_MB_HREG_IP_LSW w = ipv4_word_lsw pton (nd_ip d)
     \<and> reg_get APP_MB_HREG_MASK_MSW w = ipv4_word_msw pton (nd_mask d)
     \<and> reg_get APP_MB_HREG_MASK_LSW w = ipv4_word_lsw pton (nd_mask d)
     \<and> reg_get APP_MB_HREG_GW_MSW w = ipv4_word_msw pton (nd_gw d) \<and> reg_get APP_MB_HREG_GW_LSW w = ipv4_word_lsw pton (nd_gw d)"

lemma regs_show_cfg_cong:
  "(\<And>a. unat a < 8 \<Longrightarrow> reg_get a w' = reg_get a w) \<Longrightarrow> regs_show_cfg pton d w' = regs_show_cfg pton d w"
  by (simp add: regs_show_cfg_def c_def)

lemma sync_shows_cfg:
  "length (mb_holding_regs (m7_modbus w)) = 60 \<Longrightarrow>
   regs_show_cfg pton (net_cfg_get_saved (m7_net w)) (sync_holding_regs_from_saved_cfg pton w)"
  unfolding regs_show_cfg_def by (simp only: reg_get_sync Let_def) (simp add: c_def)

lemma init_scanner_mapping_keeps:
  "length (mb_holding_regs (m7_modbus w)) = 60 \<Longrightarrow> unat a < 40 \<Longrightarrow>
   reg_get a (init_scanner_mapping_defaults w) = reg_get a w"
  by (simp add: init_scanner_mapping_defaults_def Let_def upt_rec numeral_eq_Suc) (auto simp: reg_get_set c_def)

lemma reg_set_started [simp]: "mb_server_started (m7_modbus (reg_set a v w)) = mb_server_started (m7_modbus w)"
  by (simp add: reg_set_def)

lemma init_scanner_mapping_fields [simp]:
  "m7_net (init_scanner_mapping_defaults w) = m7_net w" "m7_link (init_scanner_mapping_defaults w) = m7_link w"
  "mb_server_started (m7_modbus (init_scanner_mapping_defaults w)) = mb_server_started (m7_modbus w)"
  by (simp_all add: init_scanner_mapping_defaults_def Let_def upt_rec numeral_eq_Suc)

lemma sync_fields [simp]:
  "m7_net (sync_holding_regs_from_saved_cfg pton w) = m7_net w"
  "m7_link (sync_holding_regs_from_saved_cfg pton w) = m7_link w"
  "mb_server_started (m7_modbus (sync_holding_regs_from_saved_cfg pton w)) = mb_server_started (m7_modbus w)"
  "length (mb_holding_regs (m7_modbus (sync_holding_regs_from_saved_cfg pton w))) = length (mb_holding_regs (m7_modbus w))"
  by (simp_all add: sync_holding_regs_from_saved_cfg_def Let_def)

lemma reg_get_modbus_set: "mb_holding_regs (f (m7_modbus w)) = mb_holding_regs (m7_modbus w) \<Longrightarrow>
   reg_get a (modbus_set f w) = reg_get a w"
  by (simp add: reg_get_def)

lemma init_modbus_server_effect:
  assumes "length (mb_holding_regs (m7_modbus w)) = 60" "(ret, w') = init_modbus_server e i1 i2 n1 n2 f1 f2 w"
  shows "(0 \<le> ret \<longleftrightarrow> 0 \<le> i1 \<and> 0 \<le> i2 \<and> 0 \<le> n1 \<and> 0 \<le> n2 \<and> 0 \<le> f1 \<and> 0 \<le> f2)"
    and "m7_net w' = m7_net w" "m7_link w' = m7_link w" "mb_server_started (m7_modbus w') = mb_server_started (m7_modbus w)"
    and "regs_show_cfg (me_pton e) (net_cfg_get_saved (m7_net w)) w'"
proof -
  let ?sync = "sync_holding_regs_from_saved_cfg (me_pton e) w"
  let ?w = "reg_set APP_MB_HREG_STATUS 0 (init_scanner_mapping_defaults ?sync)"
  have w': "w' = snd (init_modbus_server e i1 i2 n1 n2 f1 f2 w)" using assms(2) by (metis snd_conv)
  show "m7_net w' = m7_net w" "m7_link w' = m7_link w" "mb_server_started (m7_modbus w') = mb_server_started (m7_modbus w)"
    unfolding w' by (simp_all add: init_modbus_server_def Let_def)
  have "reg_get a w' = reg_get a ?sync" if "unat a < 8" for a
    unfolding w' using that assms(1)
    by (simp add: init_modbus_server_def Let_def reg_get_modbus_set reg_get_set init_scanner_mapping_keeps c_def
        init_scanner_mapping_keeps[unfolded One_nat_def])
  then show "regs_show_cfg (me_pton e) (net_cfg_get_saved (m7_net w)) w'"
    using sync_shows_cfg[OF assms(1)] regs_show_cfg_cong by blast
  show "(0 \<le> ret \<longleftrightarrow> 0 \<le> i1 \<and> 0 \<le> i2 \<and> 0 \<le> n1 \<and> 0 \<le> n2 \<and> 0 \<le> f1 \<and> 0 \<le> f2)"
    using assms(2) by (auto simp: init_modbus_server_def Let_def split: if_splits)
qed

lemma app_modbus_tcp_start_effect:
  assumes "length (mb_holding_regs (m7_modbus w)) = 60" "\<not> mb_server_started (m7_modbus w)"
    and "(ret, w') = app_modbus_tcp_start e i1 i2 n1 n2 f1 f2 w"
  shows "ret < 0 \<longleftrightarrow> \<not> mb_server_started (m7_modbus w')"
    and "mb_server_started (m7_modbus w') \<longleftrightarrow> 0 \<le> i1 \<and> 0 \<le> i2 \<and> 0 \<le> n1 \<and> 0 \<le> n2 \<and> 0 \<le> f1 \<and> 0 \<le> f2"
    and "m7_net w' = m7_net w" "m7_link w' = m7_link w"
    and "regs_show_cfg (me_pton e) (net_cfg_get_saved (m7_net w)) w'"
proof -
  obtain r w1 where init: "init_modbus_server e i1 i2 n1 n2 f1 f2 w = (r, w1)" by (rule prod.exhaust)
  note eff = init_modbus_server_effect[OF assms(1) init[symmetric]]
  have w': "(ret, w') = (if r < 0 then (r, w1) else (0, modbus_set (\<lambda>mb. mb\<lparr>mb_server_started := True\<rparr>) w1))"
    using assms(2,3) by (simp add: app_modbus_tcp_start_def init)
  show "ret < 0 \<longleftrightarrow> \<not> mb_server_started (m7_modbus w')" "m7_net w' = m7_net w" "m7_link w' = m7_link w"
    "mb_server_started (m7_modbus w') \<longleftrightarrow> 0 \<le> i1 \<and> 0 \<le> i2 \<and> 0 \<le> n1 \<and> 0 \<le> n2 \<and> 0 \<le> f1 \<and> 0 \<le> f2"
    using w' eff(1-4) assms(2) by (auto split: if_splits)
  show "regs_show_cfg (me_pton e) (net_cfg_get_saved (m7_net w)) w'"
    using w' eff(5) regs_show_cfg_cong[of "modbus_set (\<lambda>mb. mb\<lparr>mb_server_started := True\<rparr>) w1" w1]
    by (auto simp: reg_get_modbus_set split: if_splits)
qed

text \<open>The code a message of \<open>main\<close> prints, and the first error of a sequence of calls.\<close>

definition failure_code :: "start_failure \<Rightarrow> int" where
  "failure_code f = (case f of
     Settings_failed r \<Rightarrow> r | Load_failed r \<Rightarrow> r | Net_failed r \<Rightarrow> r | Ipc_failed r \<Rightarrow> r | Modbus_failed r \<Rightarrow> r
   | Eip_failed r \<Rightarrow> r | Web_failed r \<Rightarrow> r | Dpws_failed r \<Rightarrow> r | Lcd_failed r \<Rightarrow> r)"

definition first_error :: "int list \<Rightarrow> int" where
  "first_error rets = (case filter (\<lambda>r. r < 0) rets of [] \<Rightarrow> 0 | r # rs \<Rightarrow> r)"

lemma app_modbus_tcp_start_error:
  assumes "\<not> mb_server_started (m7_modbus w)"
  shows "fst (app_modbus_tcp_start e i1 i2 n1 n2 f1 f2 w) = first_error [i1, i2, n1, n2, f1, f2]"
  using assms by (simp add: app_modbus_tcp_start_def init_modbus_server_def first_error_def Let_def case_prod_beta)

text \<open>The start that reaches the loop.\<close>

lemma main_start_reaches_loop:
  assumes "se_led_ready se" "me_has_iface (se_m7 se)"
  shows "\<exists>failures s. main_start se sys_boot = (None, failures, s)
    \<and> eip_started (sy_eip s) \<and> web_started (sy_web s) \<and> dpws_started (sy_dpws s) \<and> lcd_started (sy_lcd s)
    \<and> (mb_server_started (m7_modbus (sy_m7 s)) \<longleftrightarrow> 0 \<le> se_iface1 se \<and> 0 \<le> se_iface2 se \<and> 0 \<le> se_init1 se
         \<and> 0 \<le> se_init2 se \<and> 0 \<le> se_fc1 se \<and> 0 \<le> se_fc2 se)
    \<and> (m7_endpoint_initialized (m7_link (sy_m7 s)) \<longleftrightarrow> se_ipc_ready se
         \<and> (0 \<le> se_ipc_open se \<or> se_ipc_open se = - EALREADY) \<and> 0 \<le> se_ipc_register se)
    \<and> failures = filter (\<lambda>f. failure_code f < 0)
         [if se_settings_ret se < 0 then Settings_failed (se_settings_ret se)
          else Load_failed (fst (net_cfg_load (me_pton (se_m7 se)) (se_settings se) net_cfg_boot)),
          Net_failed (fst (net_cfg_start (me_pton (se_m7 se)) True (se_add_ok se) (se_netmask_ok se) (started_cfg se))),
          Ipc_failed (if \<not> se_ipc_ready se then - ENODEV
            else if se_ipc_open se \<noteq> - EALREADY \<and> se_ipc_open se < 0 then se_ipc_open se else se_ipc_register se),
          Modbus_failed (first_error [se_iface1 se, se_iface2 se, se_init1 se, se_init2 se, se_fc1 se, se_fc2 se])]
    \<and> sy_iface s = snd (net_cfg_start (me_pton (se_m7 se)) True (se_add_ok se) (se_netmask_ok se) (started_cfg se))
    \<and> m7_net (sy_m7 s) = started_cfg se
    \<and> regs_show_cfg (me_pton (se_m7 se)) (net_cfg_get_saved (started_cfg se)) (sy_m7 s)"
proof -
  obtain failures0 w0 where ss: "start_settings se m7_boot = (failures0, w0)" by (rule prod.exhaust)
  have w0: "m7_net w0 = started_cfg se" "m7_modbus w0 = m7_modbus m7_boot" "m7_link w0 = m7_ipc_boot"
    "failures0 = (if se_settings_ret se < 0 then [Settings_failed (se_settings_ret se)]
      else failed Load_failed (fst (net_cfg_load (me_pton (se_m7 se)) (se_settings se) net_cfg_boot)))"
    using ss by (auto simp: start_settings_def started_cfg_def failed_def m7_boot_def case_prod_beta split: if_splits)
  obtain ipc_ret link where ipc: "app_ipc_init_m7 (se_ipc_ready se) (se_ipc_open se) (se_ipc_register se) m7_ipc_boot
      = (ipc_ret, link)" by (rule prod.exhaust)
  have link: "m7_endpoint_initialized link \<longleftrightarrow> se_ipc_ready se
        \<and> (0 \<le> se_ipc_open se \<or> se_ipc_open se = - EALREADY) \<and> 0 \<le> se_ipc_register se"
    "ipc_ret = (if \<not> se_ipc_ready se then - ENODEV
       else if se_ipc_open se < 0 \<and> se_ipc_open se \<noteq> - EALREADY then se_ipc_open se else min (se_ipc_register se) 0)"
    using ipc by (auto simp: app_ipc_init_m7_def m7_ipc_boot_def c_def split: if_splits)
  let ?args = "\<lambda>f. f (se_m7 se) (se_iface1 se) (se_iface2 se) (se_init1 se) (se_init2 se) (se_fc1 se) (se_fc2 se)"
  have len: "length (mb_holding_regs (m7_modbus (w0\<lparr>m7_link := link\<rparr>))) = 60"
    using modbus_inv_length[OF modbus_boot_inv] by (simp add: w0)
  have off: "\<not> mb_server_started (m7_modbus (w0\<lparr>m7_link := link\<rparr>))" by (simp add: w0 m7_boot_def modbus_boot_def)
  obtain mret w2 where mb: "?args app_modbus_tcp_start (w0\<lparr>m7_link := link\<rparr>) = (mret, w2)" by (rule prod.exhaust)
  note eff = app_modbus_tcp_start_effect[OF len off mb[symmetric]] and err = app_modbus_tcp_start_error [OF off]
  have mret: "mret = first_error [se_iface1 se, se_iface2 se, se_init1 se, se_init2 se, se_fc1 se, se_fc2 se]"
    using err [of "se_m7 se" "se_iface1 se" "se_iface2 se" "se_init1 se" "se_init2 se" "se_fc1 se" "se_fc2 se"] mb by simp
  obtain net_ret actions where nc: "net_cfg_start (me_pton (se_m7 se)) True (se_add_ok se) (se_netmask_ok se)
      (started_cfg se) = (net_ret, actions)" by (rule prod.exhaust)
  have run: "main_start se sys_boot = (None, failures0 @ failed Net_failed net_ret @ failed Ipc_failed ipc_ret
        @ failed Modbus_failed mret,
      sys_boot\<lparr>sy_led := True, sy_iface := actions, sy_m7 := w2, sy_eip := eip_boot\<lparr>eip_started := True\<rparr>,
        sy_web := \<lparr>web_started = True, web_reboot_scheduled = False\<rparr>, sy_dpws := dpws_boot\<lparr>dpws_started := True\<rparr>,
        sy_lcd := lcd_boot\<lparr>lcd_started := True\<rparr>\<rparr>)"
    using assms by (simp add: main_start_def ss start_services_def Let_def w0 nc ipc mb sys_boot_def app_eip_start_def
        app_web_start_def app_dpws_start_def app_lcd_start_def eip_boot_def dpws_boot_def lcd_boot_def failed_def)
  have log: "failures0 @ failed Net_failed net_ret @ failed Ipc_failed ipc_ret @ failed Modbus_failed mret
    = filter (\<lambda>f. failure_code f < 0)
         [if se_settings_ret se < 0 then Settings_failed (se_settings_ret se)
          else Load_failed (fst (net_cfg_load (me_pton (se_m7 se)) (se_settings se) net_cfg_boot)),
          Net_failed net_ret,
          Ipc_failed (if \<not> se_ipc_ready se then - ENODEV
            else if se_ipc_open se \<noteq> - EALREADY \<and> se_ipc_open se < 0 then se_ipc_open se else se_ipc_register se),
          Modbus_failed (first_error [se_iface1 se, se_iface2 se, se_init1 se, se_init2 se, se_fc1 se, se_fc2 se])]"
    unfolding w0(4) link(2) mret by (simp add: failed_def failure_code_def)
  show ?thesis
    by (intro exI, rule conjI[OF run]) (use eff link(1) w0(1) log in \<open>simp add: nc sys_boot_def\<close>)
qed

text \<open>C26. With the LED's port and a network interface present, the start reaches the loop whatever else
  fails: the web server, EtherNet/IP, discovery and the dashboard are started, the Modbus server exactly
  when its six library calls succeed, the inter-core endpoint exactly when its device is ready and takes
  the registration. The errors logged are exactly those that occurred, in order and with their codes: the
  settings or, when these work, the loading of the configuration; the interface; the inter-core endpoint; the
  first failing call of the Modbus server. The interface received the calls for the configuration that was
  loaded (the defaults without settings), and the Modbus registers show it.\<close>

theorem main_starts_services:
  assumes "se_led_ready se" "me_has_iface (se_m7 se)"
  shows "\<exists>failures s. main_start se sys_boot = (None, failures, s)
    \<and> eip_started (sy_eip s) \<and> web_started (sy_web s) \<and> dpws_started (sy_dpws s) \<and> lcd_started (sy_lcd s)
    \<and> (mb_server_started (m7_modbus (sy_m7 s)) \<longleftrightarrow> 0 \<le> se_iface1 se \<and> 0 \<le> se_iface2 se \<and> 0 \<le> se_init1 se
         \<and> 0 \<le> se_init2 se \<and> 0 \<le> se_fc1 se \<and> 0 \<le> se_fc2 se)
    \<and> (m7_endpoint_initialized (m7_link (sy_m7 s)) \<longleftrightarrow> se_ipc_ready se
         \<and> (0 \<le> se_ipc_open se \<or> se_ipc_open se = - EALREADY) \<and> 0 \<le> se_ipc_register se)
    \<and> failures = filter (\<lambda>f. failure_code f < 0)
         [if se_settings_ret se < 0 then Settings_failed (se_settings_ret se)
          else Load_failed (fst (net_cfg_load (me_pton (se_m7 se)) (se_settings se) net_cfg_boot)),
          Net_failed (fst (net_cfg_start (me_pton (se_m7 se)) True (se_add_ok se) (se_netmask_ok se) (started_cfg se))),
          Ipc_failed (if \<not> se_ipc_ready se then - ENODEV
            else if se_ipc_open se \<noteq> - EALREADY \<and> se_ipc_open se < 0 then se_ipc_open se else se_ipc_register se),
          Modbus_failed (first_error [se_iface1 se, se_iface2 se, se_init1 se, se_init2 se, se_fc1 se, se_fc2 se])]
    \<and> sy_iface s = snd (net_cfg_start (me_pton (se_m7 se)) True (se_add_ok se) (se_netmask_ok se) (started_cfg se))
    \<and> m7_net (sy_m7 s) = started_cfg se
    \<and> regs_show_cfg (me_pton (se_m7 se)) (net_cfg_get_saved (started_cfg se)) (sy_m7 s)"
  by (rule main_start_reaches_loop [OF assms])

definition start_example :: start_env where
  "start_example = \<lparr>se_led_ready = True, se_settings_ret = 0,
     se_settings = settings_example (net_cfg_save net_cfg_example),
     se_m7 = m7_env_example\<lparr>me_has_iface := True, me_pton := pton_example\<rparr>, se_add_ok = True, se_netmask_ok = True,
     se_ipc_ready = False, se_ipc_open = 0, se_ipc_register = 0, se_iface1 = 0, se_iface2 = 1, se_init1 = 0,
     se_init2 = 0, se_fc1 = 0, se_fc2 = 0\<rparr>"

lemma main_starts_services_witness:
  "\<exists>s. sy_led s \<and> m7_net (sy_m7 s) = net_cfg_example \<and> \<not> m7_endpoint_initialized (m7_link (sy_m7 s))
     \<and> (\<exists>failures. main_start start_example sys_boot = (None, failures, s))"
proof -
  have "started_cfg start_example = net_cfg_example"
    using net_cfg_example_load by (simp add: started_cfg_def start_example_def)
  moreover have "sy_led (snd (snd (main_start start_example sys_boot)))"
    by (simp add: main_start_def start_services_def start_example_def Let_def case_prod_beta)
  ultimately show ?thesis
    using main_starts_services[of start_example] by (auto simp: start_example_def)
qed

end
