(* ===== verification/Command_Chain.thy ===== *)
theory Command_Chain
  imports M7_Main M4_Main
begin

text \<open>
  The way of a motor command through both cores: from an HTTP request or any other client of
  \<open>app_ipc_motor_submit\<close> on the Cortex-M7, over the inter-core message, into the controller on the
  Cortex-M4.
\<close>

lemma app_motor_start_ready:
  assumes "motor_state m = APP_MOTOR_STATE_READY" "drv_ok drv"
  shows "\<exists>t. app_motor_start drv m = (0, m\<lparr>motor_io := t, motor_duty_permille := 1000,
    motor_boost_remaining_ms := 250, motor_state := APP_MOTOR_STATE_RUNNING\<rparr>)"
  using assms by (auto simp: app_motor_start_def motor_apply_direction_def motor_call_drv_eq motor_set_pwm_eq
      Let_def c_def)

text \<open>A run command without the priority bits, on a motor at rest with the latch released.\<close>

lemma remote_run_applied:
  assumes "command_is_valid message len" "command_words message ! APP_MOTOR_COMMAND_MODE \<noteq> 0"
    and control: "control = command_words message ! APP_MOTOR_COMMAND_CONTROL"
    and bits: "control AND APP_MOTOR_COMMAND_RUN \<noteq> 0" "control AND APP_MOTOR_COMMAND_ENABLE \<noteq> 0"
      "control AND APP_MOTOR_COMMAND_RESET_FAULT = 0" "control AND APP_MOTOR_COMMAND_QUICK_STOP = 0"
    and "\<not> m4_remote_stop_latched s" "motor_state m = APP_MOTOR_STATE_READY" "drv_ok drv"
  shows "\<exists>t. apply_remote_command drv now message (s, m) =
    (0, (command_ipc now message s)\<lparr>m4_last_accepted_sequence := command_words message ! APP_MOTOR_COMMAND_SEQUENCE\<rparr>,
     (command_motor message m)\<lparr>motor_direction := command_direction control, motor_io := t,
       motor_duty_permille := 1000, motor_boost_remaining_ms := 250, motor_state := APP_MOTOR_STATE_RUNNING\<rparr>)"
proof -
  let ?m = "(command_motor message m)\<lparr>motor_direction := command_direction control\<rparr>"
  have dir: "apply_remote_control drv control (command_ipc now message s, command_motor message m)
      = (0, command_ipc now message s, ?m)"
    using bits assms(8,9)
    by (cases "command_direction control"; cases "motor_direction m")
       (simp_all add: apply_remote_control_def app_motor_set_direction_def command_ipc_def Let_def
         command_motor_def)
  have "motor_state ?m = APP_MOTOR_STATE_READY" using assms(9) by simp
  from app_motor_start_ready[OF this assms(10)] show ?thesis
    by (auto simp: apply_remote_command_valid[OF assms(1,2) control] dir bits)
qed

text \<open>The result of a message's arrival and the M4's next pass, from its state and the motor at rest.\<close>

definition arrives :: "motor_drv \<Rightarrow> u32 \<Rightarrow> u8 list \<Rightarrow> m4_ipc \<times> motor \<Rightarrow> m4_ipc \<times> motor" where
  "arrives drv now bytes sm =
     (case sm of (s, m) \<Rightarrow> process_pending_command drv now (endpoint_received_m4 bytes s, m))"

definition valid_remote :: "app_ipc_motor_command \<Rightarrow> bool" where
  "valid_remote c \<longleftrightarrow> mc_source c \<in> {1, 2} \<and> unat (mc_duty_permille c) \<in> {800..1000}
     \<and> unat (mc_accel_ramp c) \<in> {1..10000} \<and> unat (mc_decel_ramp c) \<in> {1..10000}
     \<and> unat (mc_timeout_ms c) \<in> {100..10000} \<and> mc_remote c \<and> mc_control c AND NOT 0x1F = 0"

definition valid_run :: "app_ipc_motor_command \<Rightarrow> bool" where
  "valid_run c \<longleftrightarrow> valid_remote c \<and> mc_control c \<in> {3, 7}"

lemma submitted_message:
  assumes "valid_remote c" "m7_endpoint_initialized l" "m7_endpoint_is_bound l"
  shows "fst (snd (app_ipc_motor_submit send (Some c) l)) = Some (command_bytes (remote_message True (submitted c l)))"
    and "m7_command_ok (submitted c l)"
proof -
  obtain ret sent l' where r: "send_remote_command_locked send (mc_remote c) (submitted c l) = (ret, sent, l')"
    by (metis prod.exhaust)
  show "m7_command_ok (submitted c l)"
    using assms(1) by (auto simp: valid_remote_def m7_command_ok_def submitted_def c_def to_nat_simps)
  have "mc_remote c" and ok: "mc_source c \<in> {1, 2} \<and> unat (mc_duty_permille c) \<in> {800..1000}
     \<and> unat (mc_accel_ramp c) \<in> {1..10000} \<and> unat (mc_decel_ramp c) \<in> {1..10000}
     \<and> unat (mc_timeout_ms c) \<in> {100..10000}"
    using assms(1) by (simp_all add: valid_remote_def)
  moreover have "sent = Some (command_bytes (remote_message (mc_remote c) (submitted c l)))"
    using send_remote_command_bytes[of "submitted c l" send "mc_remote c"] assms(2,3) r by (simp add: submitted_def)
  ultimately show "fst (snd (app_ipc_motor_submit send (Some c) l)) = Some (command_bytes (remote_message True (submitted c l)))"
    using r by (simp add: app_ipc_motor_submit_valid case_prod_beta Let_def)
qed

lemma remote_message_run:
  "command_words (remote_message True s) ! APP_MOTOR_COMMAND_CONTROL = rc_control (m7_remote_command s)"
  "command_words (remote_message True s) ! APP_MOTOR_COMMAND_DUTY_PERMILLE = rc_duty_permille (m7_remote_command s)"
  "command_words (remote_message True s) ! APP_MOTOR_COMMAND_ACCEL_RAMP = rc_accel_ramp (m7_remote_command s)"
  "command_words (remote_message True s) ! APP_MOTOR_COMMAND_DECEL_RAMP = rc_decel_ramp (m7_remote_command s)"
  "command_words (remote_message True s) ! APP_MOTOR_COMMAND_TIMEOUT_MS = rc_timeout_ms (m7_remote_command s)"
  "command_words (remote_message True s) ! APP_MOTOR_COMMAND_SEQUENCE = ucast (m7_next_command_sequence s + 1)"
  "m7_command_ok s \<Longrightarrow> command_words (remote_message True s) ! APP_MOTOR_COMMAND_MODE \<noteq> 0"
  by (auto simp: remote_message_def Let_def m7_command_ok_def c_def APP_MOTOR_COMMAND_MODE_SOURCE_def)

definition runs_as :: "app_ipc_motor_command \<Rightarrow> u16 \<Rightarrow> m4_ipc \<times> motor \<Rightarrow> bool" where
  "runs_as c sequence sm \<longleftrightarrow> (case sm of (s, m) \<Rightarrow>
     motor_state m = APP_MOTOR_STATE_RUNNING \<and> motor_duty_permille m = 1000
     \<and> motor_target_duty_permille m = mc_duty_permille c
     \<and> motor_run_ramp_permille_per_second m = mc_accel_ramp c
     \<and> motor_stop_ramp_permille_per_second m = mc_decel_ramp c
     \<and> motor_direction m = command_direction (mc_control c)
     \<and> m4_remote_mode s \<and> \<not> m4_remote_timed_out s \<and> m4_remote_timeout_ms s = mc_timeout_ms c
     \<and> m4_last_accepted_sequence s = sequence)"

lemma submitted_arrives:
  assumes c: "valid_remote c" and l: "m7_endpoint_initialized l" "m7_endpoint_is_bound l"
    and sent: "fst (snd (app_ipc_motor_submit send (Some c) l)) = Some bytes"
  shows "command_is_valid (remote_message True (submitted c l)) 36"
    and "arrives drv now bytes (s, m) = snd (apply_remote_command drv now (remote_message True (submitted c l))
      (s\<lparr>m4_pending_command := remote_message True (submitted c l), m4_command_pending := False\<rparr>, m))"
proof -
  note ok = submitted_message(2)[OF c l]
  have bits: "rc_control (m7_remote_command (submitted c l)) AND NOT 0x1F = 0"
    using c by (simp add: valid_remote_def submitted_def)
  show "command_is_valid (remote_message True (submitted c l)) 36" using remote_message_valid[OF ok] bits by simp
  have "bytes = command_bytes (remote_message True (submitted c l))" using submitted_message(1)[OF c l] sent by simp
  then show "arrives drv now bytes (s, m) = snd (apply_remote_command drv now (remote_message True (submitted c l))
      (s\<lparr>m4_pending_command := remote_message True (submitted c l), m4_command_pending := False\<rparr>, m))"
    using remote_message_outcome[OF ok, of True s] bits by (simp add: arrives_def process_pending_command_def)
qed

lemma submitted_run_arrives:
  assumes c: "valid_run c" and l: "m7_endpoint_initialized l" "m7_endpoint_is_bound l"
    and m4: "\<not> m4_remote_stop_latched s" "motor_state m = APP_MOTOR_STATE_READY" "drv_ok drv"
    and sent: "fst (snd (app_ipc_motor_submit send (Some c) l)) = Some bytes"
  shows "runs_as c (ucast (m7_next_command_sequence l + 1)) (arrives drv now bytes (s, m))"
proof -
  let ?l = "submitted c l" and ?msg = "remote_message True (submitted c l)"
  have cr: "valid_remote c" using c by (simp add: valid_run_def)
  note ok = submitted_message(2)[OF cr l] and valid = submitted_arrives(1)[OF cr l sent]
  have control: "rc_control (m7_remote_command ?l) = mc_control c" by (simp add: submitted_def)
  have bits: "mc_control c AND APP_MOTOR_COMMAND_RUN \<noteq> 0" "mc_control c AND APP_MOTOR_COMMAND_ENABLE \<noteq> 0"
      "mc_control c AND APP_MOTOR_COMMAND_RESET_FAULT = 0" "mc_control c AND APP_MOTOR_COMMAND_QUICK_STOP = 0"
    using c by (auto simp: valid_run_def c_def)
  let ?s = "s\<lparr>m4_pending_command := ?msg, m4_command_pending := False\<rparr>"
  have "\<not> m4_remote_stop_latched ?s" using m4(1) by simp
  then obtain t where "apply_remote_command drv now ?msg (?s, m) =
    (0, (command_ipc now ?msg ?s)\<lparr>m4_last_accepted_sequence := command_words ?msg ! APP_MOTOR_COMMAND_SEQUENCE\<rparr>,
     (command_motor ?msg m)\<lparr>motor_direction := command_direction (mc_control c), motor_io := t,
       motor_duty_permille := 1000, motor_boost_remaining_ms := 250, motor_state := APP_MOTOR_STATE_RUNNING\<rparr>)"
    using remote_run_applied[OF valid remote_message_run(7)[OF ok] _ bits _ m4(2,3), of ?s now]
    by (auto simp: remote_message_run(1) control)
  then show ?thesis
    by (simp add: runs_as_def submitted_arrives(2)[OF cr l sent] command_ipc_def command_motor_def
        remote_message_run remote_message_run(2)[unfolded One_nat_def] submitted_def)
qed

text \<open>From the client to the shaft: a valid run command that any service submits on the Cortex-M7 while
  the endpoint is bound makes a message that, once it arrives, puts a controller at rest into
  \<open>RUNNING\<close> at the start boost with exactly the submitted target, ramps, direction and timeout, in
  remote mode, and acknowledges the message's sequence number. This needs the STOP latch released.\<close>

theorem run_command_starts_motor:
  assumes "valid_run c" "m7_endpoint_initialized l" "m7_endpoint_is_bound l"
    and "\<not> m4_remote_stop_latched s" "motor_state m = APP_MOTOR_STATE_READY" "drv_ok drv"
  shows "\<exists>bytes. fst (snd (app_ipc_motor_submit send (Some c) l)) = Some bytes
    \<and> runs_as c (ucast (m7_next_command_sequence l + 1)) (arrives drv now bytes (s, m))"
  using submitted_message(1)[OF _ assms(2,3)] submitted_run_arrives[OF assms] assms(1) by (auto simp: valid_run_def)

lemma run_command_starts_motor_witness:
  "\<exists>bytes. fst (snd (app_ipc_motor_submit (\<lambda>_. 36) (Some \<lparr>mc_control = 7, mc_duty_permille = 900,
       mc_accel_ramp = 1000, mc_decel_ramp = 4000, mc_timeout_ms = 1000, mc_source = 2, mc_remote = True\<rparr>)
       (m7_link m7_scan_bound0))) = Some bytes
     \<and> motor_state (snd (arrives drv_zero 5 bytes (m4_ipc_boot, motor_ready0))) = APP_MOTOR_STATE_RUNNING
     \<and> motor_direction (snd (arrives drv_zero 5 bytes (m4_ipc_boot, motor_ready0))) = APP_MOTOR_DIRECTION_REVERSE"
  using run_command_starts_motor [where c = "\<lparr>mc_control = 7, mc_duty_permille = 900,
       mc_accel_ramp = 1000, mc_decel_ramp = 4000, mc_timeout_ms = 1000, mc_source = 2, mc_remote = True\<rparr>"
      and l = "m7_link m7_scan_bound0" and s = m4_ipc_boot and m = motor_ready0 and drv = drv_zero and now = 5
      and send = "\<lambda>_. 36"]
  by (auto simp: valid_run_def valid_remote_def m7_scan_bound0_def m4_ipc_boot_def drv_zero_ok runs_as_def command_direction_def c_def
      case_prod_beta)

text \<open>A command with \<open>RESET_FAULT\<close> or \<open>QUICK_STOP\<close> and without \<open>RUN\<close> switches the outputs off at once, also while
  the motor runs; when a driver call fails, the controller goes to \<open>FAULT\<close>.\<close>

definition switched_off :: "motor_drv \<Rightarrow> u16 \<Rightarrow> motor \<Rightarrow> m4_ipc \<times> motor \<Rightarrow> bool" where
  "switched_off drv sequence m sm' \<longleftrightarrow> (case sm' of (s', m') \<Rightarrow>
     if fst (motor_make_safe drv m) < 0 then motor_state m' = APP_MOTOR_STATE_FAULT
     else motor_state m' = APP_MOTOR_STATE_READY \<and> outputs_off (motor_io m') \<and> m4_last_accepted_sequence s' = sequence)"

lemma remote_abrupt_stop:
  assumes "command_is_valid message len" and "command_words message ! APP_MOTOR_COMMAND_MODE \<noteq> 0"
    and "command_words message ! APP_MOTOR_COMMAND_CONTROL AND APP_MOTOR_COMMAND_RUN = 0"
    and "command_words message ! APP_MOTOR_COMMAND_CONTROL AND
      (APP_MOTOR_COMMAND_RESET_FAULT OR APP_MOTOR_COMMAND_QUICK_STOP) \<noteq> 0"
    and "motor_state m \<in> {APP_MOTOR_STATE_RUNNING, APP_MOTOR_STATE_STOPPING}"
  shows "switched_off drv (command_words message ! APP_MOTOR_COMMAND_SEQUENCE) m
     (snd (apply_remote_command drv now message (s, m)))"
proof -
  let ?m = "command_motor message m"
  have same: "fst (motor_make_safe drv ?m) = fst (motor_make_safe drv m)" "motor_io ?m = motor_io m" "motor_state ?m = motor_state m"
    by (simp_all add: command_motor_def motor_make_safe_def motor_call_drv_eq Let_def)
  have off: "outputs_off (safe_trace drv (motor_io m))" if "\<not> fst (motor_make_safe drv m) < 0"
    using motor_make_safe_off [OF that] .
  have zero: "fst (motor_make_safe drv m) = 0" if "\<not> fst (motor_make_safe drv m) < 0"
    using that motor_make_safe_le_0 [of drv m] by simp
  have bit: "command_words message ! APP_MOTOR_COMMAND_CONTROL AND APP_MOTOR_COMMAND_RESET_FAULT \<noteq> 0
      \<or> command_words message ! APP_MOTOR_COMMAND_CONTROL AND APP_MOTOR_COMMAND_QUICK_STOP \<noteq> 0"
    using assms(4) by (auto simp: bit.conj_disj_distrib or_eq_0_iff)
  have st: "motor_state m \<noteq> APP_MOTOR_STATE_FAULT" using assms(5) by auto
  show ?thesis
    unfolding apply_remote_command_valid [OF assms(1,2) refl] using bit assms(3) off zero
    by (auto simp: switched_off_def apply_remote_control_def app_motor_reset_def app_motor_quick_stop_def Let_def same st
        motor_record_fault_def motor_make_safe_state case_prod_beta)
qed

text \<open>C11. And back to rest: a valid remote command without \<open>RUN\<close> that any service submits takes a motor that
  runs out of \<open>RUNNING\<close> when its message arrives, whatever the other core's latch, mode and pending work.
  Without \<open>RESET_FAULT\<close> and \<open>QUICK_STOP\<close> it goes to \<open>STOPPING\<close>, in its present direction and with the submitted
  ramp; with one of them its outputs are off and it is \<open>READY\<close> at once, or in \<open>FAULT\<close> when a driver call fails.\<close>

theorem stop_command_stops_motor:
  assumes "valid_remote c" "m7_endpoint_initialized l" "m7_endpoint_is_bound l"
    and "mc_control c AND APP_MOTOR_COMMAND_RUN = 0"
    and "motor_state m \<in> {APP_MOTOR_STATE_RUNNING, APP_MOTOR_STATE_STOPPING}"
  shows "\<exists>bytes s' m'. fst (snd (app_ipc_motor_submit send (Some c) l)) = Some bytes
    \<and> arrives drv now bytes (s, m) = (s', m')
    \<and> (if mc_control c AND (APP_MOTOR_COMMAND_RESET_FAULT OR APP_MOTOR_COMMAND_QUICK_STOP) = 0
        then motor_state m' = APP_MOTOR_STATE_STOPPING \<and> motor_direction m' = motor_direction m
          \<and> motor_stop_ramp_permille_per_second m' = mc_decel_ramp c
          \<and> m4_last_accepted_sequence s' = ucast (m7_next_command_sequence l + 1)
        else switched_off drv (ucast (m7_next_command_sequence l + 1)) m (s', m'))"
proof -
  let ?msg = "remote_message True (submitted c l)"
  let ?s = "s\<lparr>m4_pending_command := ?msg, m4_command_pending := False\<rparr>"
  note sent = submitted_message(1)[OF assms(1-3), of send] and ok = submitted_message(2)[OF assms(1-3)]
  note valid = submitted_arrives(1)[OF assms(1-3) sent] remote_message_run(7)[OF ok]
  have control: "command_words ?msg ! APP_MOTOR_COMMAND_CONTROL = mc_control c"
    unfolding remote_message_run(1) by (simp add: submitted_def)
  have sequence: "m7_next_command_sequence (submitted c l) = m7_next_command_sequence l" by (simp add: submitted_def)
  have arrived: "arrives drv now (command_bytes ?msg) (s, m) = snd (apply_remote_command drv now ?msg (?s, m))"
    by (rule submitted_arrives(2)[OF assms(1-3) sent])
  obtain ret s' m' where r: "apply_remote_command drv now ?msg (?s, m) = (ret, s', m')" by (metis prod.exhaust)
  have "if mc_control c AND (APP_MOTOR_COMMAND_RESET_FAULT OR APP_MOTOR_COMMAND_QUICK_STOP) = 0
        then motor_state m' = APP_MOTOR_STATE_STOPPING \<and> motor_direction m' = motor_direction m
          \<and> motor_stop_ramp_permille_per_second m' = mc_decel_ramp c
          \<and> m4_last_accepted_sequence s' = ucast (m7_next_command_sequence l + 1)
        else switched_off drv (ucast (m7_next_command_sequence l + 1)) m (s', m')"
  proof (cases "mc_control c AND (APP_MOTOR_COMMAND_RESET_FAULT OR APP_MOTOR_COMMAND_QUICK_STOP) = 0")
    case True
    then have "command_words ?msg ! APP_MOTOR_COMMAND_CONTROL AND
        (APP_MOTOR_COMMAND_RUN OR APP_MOTOR_COMMAND_RESET_FAULT OR APP_MOTOR_COMMAND_QUICK_STOP) = 0"
      using assms(4) unfolding control by (simp add: bit.conj_disj_distrib or_eq_0_iff)
    from remote_stop_applied[OF valid this assms(5), of drv now ?s] show ?thesis
      unfolding remote_message_run r using True by (auto simp: submitted_def)
  next
    case False
    from remote_abrupt_stop[OF valid _ _ assms(5), of drv now ?s] show ?thesis
      using False assms(4) sequence unfolding remote_message_run(6) by (simp add: control r)
  qed
  with sent arrived r show ?thesis by auto
qed

lemma stop_command_stops_motor_witness:
  "\<exists>bytes. fst (snd (app_ipc_motor_submit (\<lambda>_. 36) (Some \<lparr>mc_control = 5, mc_duty_permille = 900,
       mc_accel_ramp = 1000, mc_decel_ramp = 4000, mc_timeout_ms = 1000, mc_source = 1, mc_remote = True\<rparr>)
       (m7_link m7_scan_bound0))) = Some bytes
     \<and> motor_state (snd (arrives drv_zero 5 bytes (m4_ipc_latched, motor_running0))) = APP_MOTOR_STATE_STOPPING"
proof -
  let ?c = "\<lparr>mc_control = 5, mc_duty_permille = 900, mc_accel_ramp = 1000, mc_decel_ramp = 4000,
    mc_timeout_ms = 1000, mc_source = 1, mc_remote = True\<rparr>"
  have "valid_remote ?c" by (simp add: valid_remote_def)
  from stop_command_stops_motor[OF this, of "m7_link m7_scan_bound0" motor_running0 "\<lambda>_. 36" drv_zero 5 m4_ipc_latched]
  show ?thesis
    by (auto simp: m7_scan_bound0_def c_def)
qed

section \<open>From an HTTP request\<close>

text \<open>C10. The documented request \<open>POST /api/motor/command\<close> with any values in the contract's ranges, sent while
  the endpoint is bound, is answered with 202, and the message it makes starts the motor on the other
  core as the JSON says. The values in the text, the registers, the message and the controller agree.\<close>

theorem http_run_starts_motor:
  assumes "modbus_inv (ww_m7 ww)" "m7_endpoint_initialized (m7_link (ww_m7 ww))" "m7_endpoint_is_bound (m7_link (ww_m7 ww))"
    and "headers_ok headers (motor_json c d a b t)" "0 \<le> me_send (we_m7 we) 0"
    and cmd: "cmd = \<lparr>mc_control = c, mc_duty_permille = d, mc_accel_ramp = a, mc_decel_ramp = b, mc_timeout_ms = t,
           mc_source = APP_MOTOR_COMMAND_SOURCE_MODBUS, mc_remote = True\<rparr>" "valid_run cmd"
    and "\<not> m4_remote_stop_latched s" "motor_state m = APP_MOTOR_STATE_READY" "drv_ok drv"
    and h: "(ret, r, ww') = handle_http_request client we
           (http_request ''POST'' ''/api/motor/command'' headers (motor_json c d a b t)) ww"
  shows "hr_code r = 202 \<and> reg_get APP_MB_HREG_MOTOR_MODE (ww_m7 ww') = APP_MB_MOTOR_MODE_REMOTE
    \<and> (\<exists>bytes. app_ipc_motor_submit (me_send (we_m7 we)) (Some cmd) (m7_link (ww_m7 ww))
              = (me_send (we_m7 we) 0, Some bytes, m7_link (ww_m7 ww'))
          \<and> runs_as cmd (ucast (m7_next_command_sequence (m7_link (ww_m7 ww)) + 1)) (arrives drv now bytes (s, m)))"
proof -
  let ?l = "m7_link (ww_m7 ww)" and ?body = "Some (motor_json c d a b t)"
  obtain rc sent link where sub: "app_ipc_motor_submit (me_send (we_m7 we)) (Some cmd) ?l = (rc, sent, link)"
    by (metis prod.exhaust)
  have rc: "rc = me_send (we_m7 we) 0"
    using sub cmd assms(2,3,5) by (auto simp: app_ipc_motor_submit_valid valid_run_def valid_remote_def case_prod_beta Let_def
        send_remote_command_locked_def submitted_def ipc_send_loop_success)
  have "command_of_body ?body c (ww_m7 ww) = cmd"
    by (simp add: cmd(1) command_of_body_def field_or_def motor_json_fields)
  with sub have submit: "(rc, sent, link) = app_ipc_motor_submit (me_send (we_m7 we))
      (Some (command_of_body ?body c (ww_m7 ww))) ?l" by simp
  have readable: "field_readable ?body ''duty''" "field_readable ?body ''accel''" "field_readable ?body ''decel''"
    "field_readable ?body ''timeout''"
    by (simp_all add: field_readable_def motor_json_fields)
  note http = web_post_motor_command_effect[OF assms(1,4) motor_json_fields(1) readable submit h]
  show ?thesis
    using http rc sub assms(5) submitted_message(1)[OF cmd(2)[unfolded valid_run_def, THEN conjunct1] assms(2,3), of "me_send (we_m7 we)"]
      submitted_run_arrives[OF cmd(2) assms(2,3,8-10), of "me_send (we_m7 we)" _ now]
    by auto
qed

lemma http_run_starts_motor_witness:
  "hr_code (fst (snd (handle_http_request (\<lambda>_. 0) web_env_example
     (http_request ''POST'' ''/api/motor/command'' [] (motor_json 3 900 1000 4000 1000)) (web_world_of m7_scan_bound0)))) = 202"
proof -
  obtain ret r ww' where h: "(ret, r, ww') = handle_http_request (\<lambda>_. 0) web_env_example
      (http_request ''POST'' ''/api/motor/command'' [] (motor_json 3 900 1000 4000 1000)) (web_world_of m7_scan_bound0)"
    by (metis prod.exhaust)
  have "hr_code r = 202"
    using http_run_starts_motor[OF _ _ _ headers_ok_Nil _ refl _ _ _ drv_zero_ok h, of m4_ipc_boot motor_ready0]
    by (simp add: m7_scan_bound0_inv web_world_of_def m7_scan_bound0_def[THEN arg_cong[where f = m7_link]]
        m4_ipc_boot_def valid_run_def valid_remote_def web_env_example_def m7_env_example_def c_def)
  then show ?thesis using h[symmetric] by simp
qed

end
