(* ===== verification/M4_Timeout.thy ===== *)
theory M4_Timeout
  imports M4_Main
begin

unbundle bit_operations_syntax

text \<open>
  The remote timeout over whole runs of the Cortex-M4 program: turns of the control loop of
  \<open>app_m4/src/main.c\<close> with the endpoint callbacks of \<open>app_m4/src/app_ipc.c\<close> between them. A motor
  never runs in remote mode on a command older than its timeout, and a lost link brings it to rest.
\<close>

section \<open>Runs\<close>

text \<open>The steps of \<open>m4_step\<close> as a type.\<close>

datatype m4_event =
    M4_turn bool m4_input
  | M4_received "u8 list"
  | M4_bound
  | M4_unbound

definition m4_exec :: "motor_drv \<Rightarrow> m4_event \<Rightarrow> m4 \<Rightarrow> m4" where
  "m4_exec drv ev w =
     (case ev of
        M4_turn leds i \<Rightarrow> fst (m4_main_iteration drv leds i w)
      | M4_received data \<Rightarrow> w\<lparr>m4_link := endpoint_received_m4 data (m4_link w)\<rparr>
      | M4_bound \<Rightarrow> w\<lparr>m4_link := endpoint_bound_callback_m4 (m4_link w)\<rparr>
      | M4_unbound \<Rightarrow> w\<lparr>m4_link := endpoint_unbound_callback_m4 (m4_link w)\<rparr>)"

definition m4_run :: "motor_drv \<Rightarrow> m4_event list \<Rightarrow> m4 \<Rightarrow> m4" where
  "m4_run drv evs w = fold (m4_exec drv) evs w"

definition is_turn :: "m4_event \<Rightarrow> bool" where
  "is_turn ev \<longleftrightarrow> (case ev of M4_turn leds i \<Rightarrow> True | _ \<Rightarrow> False)"

lemma m4_exec_step: "m4_step drv w (m4_exec drv ev w)"
  by (cases ev) (auto simp: m4_exec_def intro: m4_step.intros)

lemma m4_run_Cons [simp]: "m4_run drv (ev # evs) w = m4_run drv evs (m4_exec drv ev w)"
  and m4_run_Nil [simp]: "m4_run drv [] w = w"
  and m4_run_append [simp]: "m4_run drv (evs @ evs') w = m4_run drv evs' (m4_run drv evs w)"
  by (simp_all add: m4_run_def)

lemma m4_run_reachable: "m4_reachable drv w \<Longrightarrow> m4_reachable drv (m4_run drv evs w)"
  by (induction evs arbitrary: w) (auto intro: m4_reachable.step m4_exec_step)

lemma m4_exec_inv: "m4_inv w \<Longrightarrow> m4_inv (m4_exec drv ev w)"
  using m4_step_inv m4_exec_step by blast

section \<open>The age of the command\<close>

text \<open>After a timeout the motor does not run, and the timeout in force is one a valid command carries.\<close>

definition deadman_inv :: "m4_ipc \<times> motor \<Rightarrow> bool" where
  "deadman_inv sm \<longleftrightarrow> (m4_remote_mode (fst sm) \<longrightarrow>
     (m4_remote_timed_out (fst sm) \<longrightarrow> motor_state (snd sm) \<noteq> APP_MOTOR_STATE_RUNNING)
     \<and> unat (m4_remote_timeout_ms (fst sm)) \<in> {100..10000})"

text \<open>The command in force is no older than its timeout at time \<open>now\<close>.\<close>

definition command_fresh :: "u32 \<Rightarrow> m4_ipc \<Rightarrow> bool" where
  "command_fresh now s \<longleftrightarrow> now - m4_remote_command_timestamp_ms s \<le> ucast (m4_remote_timeout_ms s)"

lemma command_is_valid_timeout:
  "command_is_valid message len \<Longrightarrow> unat (command_words message ! APP_MOTOR_COMMAND_TIMEOUT_MS) \<in> {100..10000}"
  by (auto simp: command_is_valid_def Let_def c_def to_nat_simps split: if_splits)

lemma app_motor_stop_fault: "fst (app_motor_stop m) < 0 \<longleftrightarrow> motor_state m = APP_MOTOR_STATE_FAULT"
  by (simp add: app_motor_stop_def)

lemma reset_failed: "fst (app_motor_reset drv m) < 0 \<Longrightarrow> motor_state (snd (app_motor_reset drv m)) = APP_MOTOR_STATE_FAULT"
  by (auto simp: app_motor_reset_def motor_record_fault_def Let_def case_prod_beta split: if_splits)

lemma apply_remote_command_deadman:
  assumes "deadman_inv (s, m)" and "command_is_valid message len"
  shows "deadman_inv (snd (apply_remote_command drv now message (s, m)))"
proof (cases "command_words message ! APP_MOTOR_COMMAND_MODE = 0")
  case True
  then show ?thesis
    using assms(1) app_motor_stop_fault reset_failed [of drv m] app_motor_stop_not_running
    by (auto simp: apply_remote_command_def Let_def case_prod_beta deadman_inv_def app_motor_stop_def
        split: if_splits)
next
  case False
  from apply_remote_command_remote [OF False, where drv = drv and now = now and s = s and m = m]
    command_is_valid_timeout [OF assms(2)]
  show ?thesis by (simp add: deadman_inv_def)
qed

lemma process_pending_deadman:
  assumes "deadman_inv (s, m)" and "m4_ipc_inv s"
  shows "deadman_inv (process_pending_command drv now (s, m))"
proof -
  have "deadman_inv (s\<lparr>m4_command_pending := False\<rparr>, m)" using assms(1) by (simp add: deadman_inv_def)
  from apply_remote_command_deadman [OF this] assms show ?thesis
    by (auto simp: process_pending_command_def m4_ipc_inv_def)
qed

lemma process_timeout_deadman:
  assumes "deadman_inv (s, m)"
  shows "deadman_inv (process_remote_timeout now (s, m))"
    and "m4_remote_mode (fst (process_remote_timeout now (s, m))) \<Longrightarrow>
         m4_remote_timed_out (fst (process_remote_timeout now (s, m)))
         \<or> command_fresh now (fst (process_remote_timeout now (s, m)))"
  using assms by (auto simp: process_remote_timeout_def deadman_inv_def command_fresh_def app_motor_stop_not_running)

text \<open>What the rest of a turn changes of the two states: a motor that does not run is not started in
  remote mode, and mode, timeout and clock stay.\<close>

definition same_deadman :: "m4_ipc \<Rightarrow> m4_ipc \<Rightarrow> bool" where
  "same_deadman s s' \<longleftrightarrow> m4_remote_mode s' = m4_remote_mode s \<and> m4_remote_timed_out s' = m4_remote_timed_out s
     \<and> m4_remote_timeout_ms s' = m4_remote_timeout_ms s
     \<and> m4_remote_command_timestamp_ms s' = m4_remote_command_timestamp_ms s"

lemma app_ipc_process_deadman:
  assumes "deadman_inv (s, m)" and "m4_ipc_inv s"
  shows "deadman_inv (fst (app_ipc_process_m4 drv a b r (s, m)))"
    and "m4_remote_mode (fst (fst (app_ipc_process_m4 drv a b r (s, m)))) \<Longrightarrow>
         m4_remote_timed_out (fst (fst (app_ipc_process_m4 drv a b r (s, m))))
         \<or> command_fresh b (fst (fst (app_ipc_process_m4 drv a b r (s, m))))"
proof -
  obtain s1 m1 where p: "process_pending_command drv a (s, m) = (s1, m1)" by fastforce
  obtain s2 m2 where t: "process_remote_timeout b (s1, m1) = (s2, m2)" by fastforce
  have d: "deadman_inv (s1, m1)" using process_pending_deadman [OF assms, of drv a] p by simp
  note q = process_timeout_deadman [OF d, of b, unfolded t]
  show "deadman_inv (fst (app_ipc_process_m4 drv a b r (s, m)))"
    using q by (simp add: app_ipc_process_m4_def p t Let_def deadman_inv_def)
  show "m4_remote_mode (fst (fst (app_ipc_process_m4 drv a b r (s, m)))) \<Longrightarrow>
         m4_remote_timed_out (fst (fst (app_ipc_process_m4 drv a b r (s, m))))
         \<or> command_fresh b (fst (fst (app_ipc_process_m4 drv a b r (s, m))))"
    using q by (cases "r < 0") (auto simp: app_ipc_process_m4_def p t Let_def command_fresh_def split: if_splits)
qed

lemma m4_handle_duty_deadman:
  "same_deadman (fst sm) (fst (m4_handle_duty drv ret d sm))"
  "motor_state (snd (m4_handle_duty drv ret d sm)) = APP_MOTOR_STATE_RUNNING \<Longrightarrow>
     motor_state (snd sm) = APP_MOTOR_STATE_RUNNING"
  by (auto simp: m4_handle_duty_def same_deadman_def app_motor_fail_def motor_setters_state
      split: prod.splits if_splits option.splits)

lemma app_motor_reset_not_running: "motor_state (snd (app_motor_reset drv m)) \<noteq> APP_MOTOR_STATE_RUNNING"
  by (simp add: app_motor_reset_def motor_record_fault_def Let_def case_prod_beta)

lemma m4_handle_events_deadman:
  "same_deadman s (fst (m4_handle_events drv ev (s, m)))"
  "m4_remote_mode s \<Longrightarrow> motor_state (snd (m4_handle_events drv ev (s, m))) = APP_MOTOR_STATE_RUNNING \<Longrightarrow>
     motor_state m = APP_MOTOR_STATE_RUNNING"
proof -
  show "same_deadman s (fst (m4_handle_events drv ev (s, m)))"
    by (simp add: m4_handle_events_def same_deadman_def app_ipc_latch_remote_stop_def app_ipc_clear_remote_stop_def Let_def)
  show "m4_remote_mode s \<Longrightarrow> motor_state (snd (m4_handle_events drv ev (s, m))) = APP_MOTOR_STATE_RUNNING \<Longrightarrow>
     motor_state m = APP_MOTOR_STATE_RUNNING"
    using app_motor_stop_not_running [of m] app_motor_reset_not_running [of drv m]
    unfolding m4_handle_events_def app_ipc_is_remote_mode_def prod.case by (auto split: if_splits)
qed

lemma publish_deadman: "same_deadman s (fst (app_ipc_publish_motor_state now b p l s m))"
  by (simp add: app_ipc_publish_motor_state_def same_deadman_def Let_def)

text \<open>One turn: its link state agrees with the one after \<open>app_ipc_process\<close>, and a motor that runs in
  remote mode after it ran after \<open>app_ipc_process\<close>.\<close>

lemma m4_turn_deadman:
  fixes drv leds i w
  defines "p \<equiv> fst (app_ipc_process_m4 drv (in_now_command i) (in_now_timeout i) (in_send_ret i) (m4_link w, m4_motor w))"
    and "w' \<equiv> fst (m4_main_iteration drv leds i w)"
  shows "same_deadman (fst p) (m4_link w')"
    and "m4_remote_mode (m4_link w') \<Longrightarrow> motor_state (m4_motor w') = APP_MOTOR_STATE_RUNNING \<Longrightarrow>
         motor_state (snd p) = APP_MOTOR_STATE_RUNNING"
proof -
  let ?t = "turn_sm drv i w"
  have t: "same_deadman (fst p) (fst ?t)"
    "motor_state (snd ?t) = APP_MOTOR_STATE_RUNNING \<Longrightarrow> motor_state (snd p) = APP_MOTOR_STATE_RUNNING"
    unfolding turn_sm_def p_def by (rule m4_handle_duty_deadman(1), erule m4_handle_duty_deadman(2))
  let ?e = "m4_handle_events drv (turn_events i w) ?t"
  obtain now b q l m where link: "m4_link w' = fst (app_ipc_publish_motor_state now b q l (fst ?e) m)"
    using m4_turn_link [of drv leds i w] unfolding w'_def by blast
  show s: "same_deadman (fst p) (m4_link w')"
    using t(1) m4_handle_events_deadman(1) [of "fst ?t" drv "turn_events i w" "snd ?t"] publish_deadman [of "fst ?e" now b q l m]
    by (simp add: link same_deadman_def)
  assume r: "m4_remote_mode (m4_link w')" and run: "motor_state (m4_motor w') = APP_MOTOR_STATE_RUNNING"
  have "motor_state (snd ?e) = APP_MOTOR_STATE_RUNNING"
    using run app_motor_process_not_running [of "snd ?e" drv 10] unfolding w'_def m4_turn_motor by blast
  moreover have "m4_remote_mode (fst ?t)" using r s t(1) by (simp add: same_deadman_def)
  ultimately show "motor_state (snd p) = APP_MOTOR_STATE_RUNNING"
    using t(2) m4_handle_events_deadman(2) [of "fst ?t" drv "turn_events i w" "snd ?t"] by simp
qed

lemma m4_turn_deadman_inv:
  assumes "deadman_inv (m4_link w, m4_motor w)" and "m4_inv w"
  shows "deadman_inv (m4_link (fst (m4_main_iteration drv leds i w)), m4_motor (fst (m4_main_iteration drv leds i w)))"
proof -
  have "m4_ipc_inv (m4_link w)" using assms(2) by (simp add: m4_inv_def)
  from app_ipc_process_deadman(1) [OF assms(1) this] m4_turn_deadman [where drv = drv and i = i and w = w and leds = leds] show ?thesis
    unfolding deadman_inv_def same_deadman_def by (metis fst_conv snd_conv)
qed

lemma m4_step_deadman:
  assumes "m4_step drv w w'" and "deadman_inv (m4_link w, m4_motor w)" and "m4_inv w"
  shows "deadman_inv (m4_link w', m4_motor w')"
  using assms(1)
proof (cases rule: m4_step.cases)
  case (turn leds i)
  then show ?thesis using m4_turn_deadman_inv assms by simp
qed (use assms(2) in \<open>simp_all add: deadman_inv_def endpoint_bound_callback_m4_def
    endpoint_unbound_callback_m4_def endpoint_received_m4_def Let_def\<close>)

lemma m4_reachable_deadman: "m4_reachable drv w \<Longrightarrow> deadman_inv (m4_link w, m4_motor w)"
proof (induction rule: m4_reachable.induct)
  case (start a b c d e f g h w)
  then have "m4_remote_mode (m4_link w) = False"
    by (cases a) (auto simp: m4_main_init_def m4_boot_def m4_ipc_boot_def app_ipc_init_m4_def Let_def
        case_prod_beta split: if_splits)
  then show ?case by (simp add: deadman_inv_def)
next
  case (step w w')
  then show ?case using m4_step_deadman m4_reachable_inv by blast
qed

section \<open>Properties\<close>

text \<open>C6. The dead-man switch: in every reachable state, whatever the inputs of a turn, a motor that is
  \<open>RUNNING\<close> in remote mode after the turn runs on a command that was no older than its own timeout when
  the turn tested it, and that timeout is at most 10 s.\<close>

theorem remote_run_needs_fresh_command:
  assumes "m4_reachable drv w" and "w' = fst (m4_main_iteration drv leds i w)"
    and "m4_remote_mode (m4_link w')" and "motor_state (m4_motor w') = APP_MOTOR_STATE_RUNNING"
  shows "in_now_timeout i - m4_remote_command_timestamp_ms (m4_link w') \<le> ucast (m4_remote_timeout_ms (m4_link w'))
    \<and> m4_remote_timeout_ms (m4_link w') \<le> APP_MOTOR_COMMAND_TIMEOUT_MAX_MS"
proof -
  let ?p = "fst (app_ipc_process_m4 drv (in_now_command i) (in_now_timeout i) (in_send_ret i) (m4_link w, m4_motor w))"
  note d = m4_reachable_deadman [OF assms(1)]
  have inv: "m4_ipc_inv (m4_link w)" using m4_reachable_inv [OF assms(1)] by (simp add: m4_inv_def)
  note t = m4_turn_deadman [where drv = drv and i = i and w = w and leds = leds, folded assms(2)]
  have run: "motor_state (snd ?p) = APP_MOTOR_STATE_RUNNING" using t(2) assms(3,4) by blast
  have r: "m4_remote_mode (fst ?p)" using t(1) assms(3) by (simp add: same_deadman_def)
  note q = app_ipc_process_deadman [OF d inv, of drv "in_now_command i" "in_now_timeout i" "in_send_ret i"]
  have "command_fresh (in_now_timeout i) (fst ?p)" "unat (m4_remote_timeout_ms (fst ?p)) \<le> 10000"
    using q r run by (auto simp: deadman_inv_def)
  then show ?thesis using t(1) by (simp add: same_deadman_def command_fresh_def c_def to_nat_simps)
qed

section \<open>A lost link\<close>

text \<open>One period of the stop ramp: the duty falls, and reaching 0 ends the stop.\<close>

lemma process_stopping_falls:
  assumes "motor_state m = APP_MOTOR_STATE_STOPPING" and "motor_duty_permille m \<le> APP_MOTOR_DUTY_MAX_PERMILLE"
    and "motor_state (snd (app_motor_process drv 10 m)) = APP_MOTOR_STATE_STOPPING"
  shows "0 < unat (motor_duty_permille (snd (app_motor_process drv 10 m)))"
    and "unat (motor_duty_permille (snd (app_motor_process drv 10 m))) < unat (motor_duty_permille m)"
proof -
  let ?step = "motor_ramp_step (ucast (motor_stop_ramp_permille_per_second m)) 10"
  define nx where "nx = motor_ramp_next (motor_duty_permille m) 0 ?step"
  have n: "unat nx = unat (motor_duty_permille m) - max 1 (unat (motor_stop_ramp_permille_per_second m) div 100)"
    by (simp add: nx_def motor_ramp_next_unat motor_ramp_step_loop)
  then have "nx \<le> APP_MOTOR_DUTY_MAX_PERMILLE" using assms(2) by (simp add: to_nat_simps)
  note pwm = motor_set_pwm_eq [OF this, of drv m]
  have st: "motor_duty_permille (snd (app_motor_process drv 10 m)) = nx \<and> nx \<noteq> 0"
    using assms(1,3)
    by (auto simp: app_motor_process_def motor_ramp_towards_def nx_def [symmetric] pwm motor_record_fault_def
        motor_make_safe_state Let_def case_prod_beta split: if_splits)
  then show "0 < unat (motor_duty_permille (snd (app_motor_process drv 10 m)))"
    by (simp add: unat_gt_0)
  moreover have "1 \<le> max 1 (unat (motor_stop_ramp_permille_per_second m) div 100)" by simp
  moreover have "unat (motor_duty_permille (snd (app_motor_process drv 10 m))) = unat nx" using st by simp
  ultimately show "unat (motor_duty_permille (snd (app_motor_process drv 10 m))) < unat (motor_duty_permille m)"
    using n by linarith
qed

text \<open>The motor does not run, and a stop in progress has at most \<open>1000 - n\<close> permille to go.\<close>

definition at_rest_within :: "nat \<Rightarrow> m4 \<Rightarrow> bool" where
  "at_rest_within n w \<longleftrightarrow> m4_inv w \<and> m4_remote_mode (m4_link w) \<and> m4_remote_timed_out (m4_link w)
     \<and> \<not> m4_command_pending (m4_link w) \<and> motor_state (m4_motor w) \<noteq> APP_MOTOR_STATE_RUNNING
     \<and> (motor_state (m4_motor w) = APP_MOTOR_STATE_STOPPING \<longrightarrow>
          0 < unat (motor_duty_permille (m4_motor w)) \<and> unat (motor_duty_permille (m4_motor w)) + n \<le> 1000)"

definition no_command :: "m4_event \<Rightarrow> bool" where
  "no_command ev \<longleftrightarrow> (case ev of M4_received data \<Rightarrow> \<not> command_is_valid (command_of data) (length data) | _ \<Rightarrow> True)"

lemma endpoint_received_no_command:
  assumes "\<not> command_is_valid (command_of data) (length data)"
  shows "m4_remote_mode (endpoint_received_m4 data s) = m4_remote_mode s"
    "m4_remote_timed_out (endpoint_received_m4 data s) = m4_remote_timed_out s"
    "m4_command_pending (endpoint_received_m4 data s) = m4_command_pending s"
  using assms by (simp_all add: endpoint_received_m4_def Let_def)

lemma at_rest_callbacks:
  assumes "at_rest_within n w" and "no_command ev" and "\<not> is_turn ev"
  shows "at_rest_within n (m4_exec drv ev w)"
proof -
  have "m4_inv (m4_exec drv ev w)" using assms(1) by (intro m4_exec_inv) (simp add: at_rest_within_def)
  with assms show ?thesis
    by (cases ev) (simp_all add: at_rest_within_def m4_exec_def no_command_def is_turn_def
        endpoint_received_no_command endpoint_bound_callback_m4_def endpoint_unbound_callback_m4_def)
qed

lemma process_expired:
  assumes "m4_remote_mode s" and "\<not> m4_command_pending s" and "m4_remote_timed_out s \<or> \<not> command_fresh b s"
    and "m4_remote_timed_out s \<Longrightarrow> motor_state m \<noteq> APP_MOTOR_STATE_RUNNING"
  obtains s' m' where "fst (app_ipc_process_m4 drv a b r (s, m)) = (s', m')"
    and "m4_remote_mode s'" and "m4_remote_timed_out s'" and "\<not> m4_command_pending s'"
    and "motor_state m' \<noteq> APP_MOTOR_STATE_RUNNING" and "motor_duty_permille m' = motor_duty_permille m"
    and "motor_state m' = APP_MOTOR_STATE_STOPPING \<Longrightarrow>
      motor_state m \<in> {APP_MOTOR_STATE_RUNNING, APP_MOTOR_STATE_STOPPING}"
proof -
  obtain s' m' where p: "fst (app_ipc_process_m4 drv a b r (s, m)) = (s', m')" by fastforce
  show thesis
  proof (rule that [OF p])
    show "m4_remote_mode s'" "m4_remote_timed_out s'" "\<not> m4_command_pending s'"
      "motor_state m' \<noteq> APP_MOTOR_STATE_RUNNING" "motor_duty_permille m' = motor_duty_permille m"
      "motor_state m' = APP_MOTOR_STATE_STOPPING \<Longrightarrow>
         motor_state m \<in> {APP_MOTOR_STATE_RUNNING, APP_MOTOR_STATE_STOPPING}"
      using p assms by (cases "motor_state m"; auto simp: app_ipc_process_m4_def process_pending_command_def process_remote_timeout_def
          command_fresh_def app_motor_stop_def Let_def split: if_splits)+
  qed
qed

lemma m4_handle_duty_slows:
  assumes "m4_remote_mode s" and "motor_state m \<noteq> APP_MOTOR_STATE_RUNNING"
  obtains m' where "m4_handle_duty drv ret d (s, m) = (s, m')" "motor_state m' \<noteq> APP_MOTOR_STATE_RUNNING"
    "motor_state m' = APP_MOTOR_STATE_STOPPING \<Longrightarrow> m' = m"
proof (cases "ret < 0")
  case True
  then have "m4_handle_duty drv ret d (s, m) = (s, app_motor_fail drv ret m)" by (simp add: m4_handle_duty_def)
  then show thesis by (rule that) (simp_all add: app_motor_fail_def motor_record_fault_def)
next
  case False
  then have "m4_handle_duty drv ret d (s, m) = (s, m)"
    using assms(1) by (simp add: m4_handle_duty_def app_ipc_is_remote_mode_def)
  then show thesis by (rule that) (use assms(2) in simp_all)
qed

lemma m4_handle_events_slows:
  assumes "m4_remote_mode s" and "motor_state m \<noteq> APP_MOTOR_STATE_RUNNING"
  obtains s' m' where "m4_handle_events drv ev (s, m) = (s', m')" "motor_state m' \<noteq> APP_MOTOR_STATE_RUNNING"
    "motor_state m' = APP_MOTOR_STATE_STOPPING \<Longrightarrow>
       motor_state m = APP_MOTOR_STATE_STOPPING \<and> motor_duty_permille m' = motor_duty_permille m"
    "same_deadman s s'" "m4_command_pending s' = m4_command_pending s"
proof -
  obtain s' m' where e: "m4_handle_events drv ev (s, m) = (s', m')" by fastforce
  consider "ev AND APP_BUTTON_EVENT_STOP \<noteq> 0"
    | "ev AND APP_BUTTON_EVENT_STOP = 0" "ev AND APP_BUTTON_EVENT_RESET \<noteq> 0"
    | "ev AND APP_BUTTON_EVENT_STOP = 0" "ev AND APP_BUTTON_EVENT_RESET = 0" by blast
  then show thesis
  proof cases
    case 1
    then have "s' = app_ipc_latch_remote_stop s" "m' = snd (app_motor_stop m)" using e by (simp_all add: m4_handle_events_def)
    then show thesis using assms
      by (intro that [OF e]; cases "motor_state m")
        (auto simp: app_motor_stop_def app_ipc_latch_remote_stop_def same_deadman_def)
  next
    case 2
    then have "s' = app_ipc_clear_remote_stop s" "m' = snd (app_motor_reset drv m)" using e by (simp_all add: m4_handle_events_def)
    then show thesis
      by (intro that [OF e]) (auto simp: app_motor_reset_def motor_record_fault_def app_ipc_clear_remote_stop_def
          same_deadman_def Let_def case_prod_beta split: if_splits)
  next
    case 3
    then have "s' = s" "m' = m" using e assms(1) by (simp_all add: m4_handle_events_def app_ipc_is_remote_mode_def)
    then show thesis using assms by (intro that [OF e]) (simp_all add: same_deadman_def)
  qed
qed

text \<open>A turn on an expired command.\<close>

lemma expired_turn:
  assumes "m4_inv w" and "m4_remote_mode (m4_link w)" and "\<not> m4_command_pending (m4_link w)"
    and "m4_remote_timed_out (m4_link w) \<or> \<not> command_fresh (in_now_timeout i) (m4_link w)"
    and "m4_remote_timed_out (m4_link w) \<Longrightarrow> motor_state (m4_motor w) \<noteq> APP_MOTOR_STATE_RUNNING"
    and "motor_state (m4_motor w) \<in> {APP_MOTOR_STATE_RUNNING, APP_MOTOR_STATE_STOPPING} \<Longrightarrow>
      unat (motor_duty_permille (m4_motor w)) + n \<le> 1000"
  shows "at_rest_within (Suc n) (fst (m4_main_iteration drv leds i w))"
proof -
  let ?w' = "fst (m4_main_iteration drv leds i w)"
  obtain s1 m1 where p: "fst (app_ipc_process_m4 drv (in_now_command i) (in_now_timeout i) (in_send_ret i)
        (m4_link w, m4_motor w)) = (s1, m1)"
    and s1: "m4_remote_mode s1" "m4_remote_timed_out s1" "\<not> m4_command_pending s1"
    and m1: "motor_state m1 \<noteq> APP_MOTOR_STATE_RUNNING" "motor_duty_permille m1 = motor_duty_permille (m4_motor w)"
      "motor_state m1 = APP_MOTOR_STATE_STOPPING \<Longrightarrow>
         motor_state (m4_motor w) \<in> {APP_MOTOR_STATE_RUNNING, APP_MOTOR_STATE_STOPPING}"
    using process_expired [OF assms(2-5)] by blast
  obtain m2 where d: "turn_sm drv i w = (s1, m2)"
    and m2: "motor_state m2 \<noteq> APP_MOTOR_STATE_RUNNING" "motor_state m2 = APP_MOTOR_STATE_STOPPING \<Longrightarrow> m2 = m1"
    using m4_handle_duty_slows [OF s1(1) m1(1)] unfolding turn_sm_def p by metis
  obtain s3 m3 where e: "m4_handle_events drv (turn_events i w) (s1, m2) = (s3, m3)"
    and m3: "motor_state m3 \<noteq> APP_MOTOR_STATE_RUNNING"
      "motor_state m3 = APP_MOTOR_STATE_STOPPING \<Longrightarrow>
         motor_state m2 = APP_MOTOR_STATE_STOPPING \<and> motor_duty_permille m3 = motor_duty_permille m2"
    and s3: "same_deadman s1 s3" "m4_command_pending s3 = m4_command_pending s1"
    using m4_handle_events_slows [OF s1(1) m2(1)] by metis
  have inv: "m4_inv ?w'" using m4_turn_inv [OF assms(1)] .
  have motor: "m4_motor ?w' = snd (app_motor_process drv 10 m3)" by (simp add: m4_turn_motor d e)
  obtain now b q l m where "m4_link ?w' = fst (app_ipc_publish_motor_state now b q l s3 m)"
    using m4_turn_link [of drv leds i w] by (auto simp: d [unfolded turn_events_def] e [unfolded turn_events_def] turn_events_def [symmetric] d e)
  then have link: "m4_remote_mode (m4_link ?w')" "m4_remote_timed_out (m4_link ?w')" "\<not> m4_command_pending (m4_link ?w')"
    using s1 s3 by (simp_all add: publish_keeps same_deadman_def)
  have run: "motor_state (m4_motor ?w') \<noteq> APP_MOTOR_STATE_RUNNING"
    using m3(1) by (simp add: motor app_motor_process_not_running)
  have "0 < unat (motor_duty_permille (m4_motor ?w')) \<and> unat (motor_duty_permille (m4_motor ?w')) + Suc n \<le> 1000"
    if st: "motor_state (m4_motor ?w') = APP_MOTOR_STATE_STOPPING"
  proof -
    have m3s: "motor_state m3 = APP_MOTOR_STATE_STOPPING"
      using st m3(1) by (cases "motor_state m3") (auto simp: motor app_motor_process_def)
    then have duty: "motor_duty_permille m3 = motor_duty_permille (m4_motor w)"
      "unat (motor_duty_permille (m4_motor w)) + n \<le> 1000"
      using m3(2) m2(2) m1(2,3) assms(6) by auto
    then have "motor_duty_permille m3 \<le> APP_MOTOR_DUTY_MAX_PERMILLE" by (simp add: c_def to_nat_simps)
    from process_stopping_falls [OF m3s this st [unfolded motor]] duty(2) show ?thesis
      unfolding motor duty(1) by simp
  qed
  with inv link run show ?thesis by (simp add: at_rest_within_def)
qed

lemma at_rest_run:
  assumes "at_rest_within n w" and "list_all no_command evs"
  shows "at_rest_within (n + length (filter is_turn evs)) (m4_run drv evs w)"
  using assms
proof (induction evs arbitrary: n w)
  case (Cons ev evs)
  show ?case
  proof (cases "is_turn ev")
    case True
    then obtain leds i where ev: "ev = M4_turn leds i" by (cases ev) (auto simp: is_turn_def)
    have "at_rest_within (Suc n) (m4_exec drv ev w)"
      unfolding m4_exec_def ev m4_event.case
      by (rule expired_turn) (use Cons.prems(1) in \<open>auto simp: at_rest_within_def\<close>)
    from Cons.IH [OF this] Cons.prems(2) True show ?thesis by simp
  next
    case False
    with Cons.IH [OF at_rest_callbacks] Cons.prems show ?thesis by simp
  qed
qed simp

text \<open>C5. A lost link brings the motor to rest: from every reachable state in remote mode, once a turn finds
  the command older than its timeout, at most 1000 turns (10 s) without a further valid command are
  enough, whatever the buttons, the sensor and the drivers do and whatever else is received meanwhile,
  to have the duty at 0 and, unless a driver or sensor failure has put the controller into \<open>FAULT\<close>, PWM
  and bridge inputs off.\<close>

theorem link_loss_stops_motor:
  assumes "m4_reachable drv w" and "m4_remote_mode (m4_link w)" and "\<not> m4_command_pending (m4_link w)"
    and "ucast (m4_remote_timeout_ms (m4_link w)) < in_now_timeout i - m4_remote_command_timestamp_ms (m4_link w)"
    and "list_all no_command evs" and "1000 \<le> length (filter is_turn evs)"
    and "w' = m4_run drv (M4_turn leds i # evs) w"
  shows "motor_state (m4_motor w') \<notin> {APP_MOTOR_STATE_RUNNING, APP_MOTOR_STATE_STOPPING}
    \<and> motor_duty_permille (m4_motor w') = 0
    \<and> (motor_state (m4_motor w') \<noteq> APP_MOTOR_STATE_FAULT \<longrightarrow> outputs_off (motor_io (m4_motor w')))"
proof -
  have inv: "m4_inv w" using m4_reachable_inv [OF assms(1)] .
  have dead: "deadman_inv (m4_link w, m4_motor w)" using m4_reachable_deadman [OF assms(1)] .
  have duty: "unat (motor_duty_permille (m4_motor w)) \<le> 1000"
    using inv by (simp add: m4_inv_def motor_inv_def motor_values_ok_def c_def to_nat_simps)
  have "at_rest_within (Suc 0) (m4_exec drv (M4_turn leds i) w)"
    unfolding m4_exec_def m4_event.case
    by (rule expired_turn)
      (use assms(2-4) inv dead duty in \<open>auto simp: deadman_inv_def command_fresh_def not_le\<close>)
  from at_rest_run [OF this assms(5), of drv] assms(6,7)
  have rest: "at_rest_within (Suc (length (filter is_turn evs))) w'" by simp
  with assms(6) have st: "motor_state (m4_motor w') \<notin> {APP_MOTOR_STATE_RUNNING, APP_MOTOR_STATE_STOPPING}"
    by (auto simp: at_rest_within_def)
  have "motor_inv (m4_motor w')" using rest by (simp add: at_rest_within_def m4_inv_def)
  with st show ?thesis
    by (cases "motor_state (m4_motor w')") (auto simp: motor_inv_def motor_values_ok_def motor_outputs_ok_def)
qed

section \<open>Concrete runs\<close>

definition idle_input :: "u32 \<Rightarrow> m4_input" where
  "idle_input now = \<lparr>in_pins = (\<lambda>j. 0), in_adc_sequence_ret = 0, in_adc_read_ret = 0, in_adc_sample = 0,
     in_now_command = now, in_now_timeout = now, in_now_publish = now, in_send_ret = 0, in_uptime_ms = 0\<rparr>"

text \<open>A run command has arrived and been executed at time 5.\<close>

definition m4_remote_running :: m4 where
  "m4_remote_running = m4_run drv_zero
     [M4_received (command_bytes (command_example 3 0x101)), M4_turn False (idle_input 5)] m4_started"

lemma m4_remote_running_reachable: "m4_reachable drv_zero m4_remote_running"
  unfolding m4_remote_running_def by (rule m4_run_reachable [OF m4_started_reachable])

lemma m4_remote_running_fields:
  "m4_remote_mode (m4_link m4_remote_running) \<and> m4_remote_timeout_ms (m4_link m4_remote_running) = 1000
   \<and> m4_remote_command_timestamp_ms (m4_link m4_remote_running) = 5
   \<and> \<not> m4_command_pending (m4_link m4_remote_running)
   \<and> motor_state (m4_motor m4_remote_running) = APP_MOTOR_STATE_RUNNING"
  unfolding m4_remote_running_def by code_simp

lemma m4_remote_running_continues:
  "m4_remote_mode (m4_link (fst (m4_main_iteration drv_zero False (idle_input 900) m4_remote_running)))
   \<and> motor_state (m4_motor (fst (m4_main_iteration drv_zero False (idle_input 900) m4_remote_running)))
       = APP_MOTOR_STATE_RUNNING"
  unfolding m4_remote_running_def by code_simp

theorem remote_run_needs_fresh_command_witness:
  "900 - m4_remote_command_timestamp_ms
       (m4_link (fst (m4_main_iteration drv_zero False (idle_input 900) m4_remote_running)))
     \<le> ucast (m4_remote_timeout_ms
         (m4_link (fst (m4_main_iteration drv_zero False (idle_input 900) m4_remote_running))))"
  using remote_run_needs_fresh_command [OF m4_remote_running_reachable refl, of False "idle_input 900"]
    m4_remote_running_continues by (simp add: idle_input_def)

theorem link_loss_stops_motor_witness:
  "motor_duty_permille (m4_motor (m4_run drv_zero
     (M4_turn False (idle_input 1006) # M4_unbound # replicate 1000 (M4_turn False (idle_input 1020)))
     m4_remote_running)) = 0"
proof -
  have len: "1000 \<le> length (filter is_turn (M4_unbound # replicate 1000 (M4_turn False (idle_input 1020))))"
    by (simp add: is_turn_def)
  show ?thesis
    using link_loss_stops_motor [OF m4_remote_running_reachable, of "idle_input 1006"
        "M4_unbound # replicate 1000 (M4_turn False (idle_input 1020))", OF _ _ _ _ len refl]
      m4_remote_running_fields
    by (simp add: idle_input_def no_command_def list_all_iff del: m4_run_Cons)
qed

end
