(* ===== verification/Link_Interface.thy ===== *)
theory Link_Interface
  imports M7_Main
begin

unbundle bit_operations_syntax

text \<open>
  How the services of the Cortex-M7 use the inter-core link of \<open>app_m7/src/ipc/app_ipc.c\<close>: the Modbus
  server, the scanner window, EtherNet/IP and the web server reach it through \<open>app_ipc_motor_submit\<close> only,
  the shell and the refresh work through the functions of the file itself. The locale \<open>link_client\<close> states
  what a predicate on the Cortex-M7 must promise to survive all of them; the lemma \<open>sys_step_keeps\<close> is the
  result. It is interpreted for the trace of messages the inter-core driver has taken.
\<close>

section \<open>The link in the register accesses\<close>

lemma reg_set_link [simp]: "m7_link (reg_set a v w) = m7_link w"
  by (simp add: reg_set_def)

lemma modbus_set_link [simp]: "m7_link (modbus_set f w) = m7_link w"
  by (simp add: modbus_set_def)

lemma set_last_status_link [simp]: "m7_link (set_last_status i w) = m7_link w"
  by (simp add: set_last_status_def)

lemma motor_command_apply_link:
  "m7_link (snd (motor_command_apply send w)) =
     snd (snd (app_ipc_motor_submit send (Some (motor_command_of_regs w)) (m7_link w)))"
  by (simp add: motor_command_apply_def Let_def case_prod_beta)

lemma complete_pending_link [simp]: "m7_link (complete_pending_command e ret w) = m7_link w"
  by (simp add: complete_pending_command_def modbus_sync_from_saved_cfg_def Let_def)

lemma m7_set_saved_link [simp]: "m7_link (snd (m7_set_saved e d w)) = m7_link w"
  by (simp add: m7_set_saved_def net_cfg_notify_changed_def modbus_net_cfg_changed_def
      modbus_sync_from_saved_cfg_def Let_def case_prod_beta)

lemma work_handler_link [simp]: "m7_link (modbus_command_work_handler e w) = m7_link w"
  by (simp add: modbus_command_work_handler_def save_holding_regs_config_def Let_def case_prod_beta)

lemma holding_command_wr_link [simp]: "m7_link (snd (holding_command_wr e reg w)) = m7_link w"
  by (simp add: holding_command_wr_def Let_def)

text \<open>Only a write of 1 to \<open>APPLY\<close> touches the link.\<close>

lemma holding_reg_wr_link:
  obtains "m7_link (snd (holding_reg_wr e addr reg w)) = m7_link w"
  | w1 where "m7_link w1 = m7_link w"
      "m7_link (snd (holding_reg_wr e addr reg w)) =
         snd (snd (app_ipc_motor_submit (me_send e) (Some (motor_command_of_regs w1)) (m7_link w)))"
proof (cases "addr = APP_MB_HREG_MOTOR_APPLY \<and> reg = APP_MB_MOTOR_APPLY_COMMAND")
  case True
  let ?w1 = "reg_set APP_MB_HREG_MOTOR_COMMAND_STATUS APP_MB_MOTOR_STATUS_PENDING w"
  have "m7_link (snd (holding_reg_wr e addr reg w)) = m7_link (snd (motor_command_apply (me_send e) ?w1))"
    using True by (simp add: holding_reg_wr_def Let_def case_prod_beta c_def is_motor_state_addr_def
        is_input_scanner_mapping_addr_def is_output_scanner_mapping_addr_def is_motor_command_addr_def)
  then show thesis by (intro that(2) [of ?w1]) (simp_all add: motor_command_apply_link)
next
  case False
  then have "m7_link (snd (holding_reg_wr e addr reg w)) = m7_link w"
    by (simp add: holding_reg_wr_def Let_def case_prod_beta if_distrib [of snd] if_distrib [of m7_link])
  then show thesis by (rule that(1))
qed

section \<open>Clients of the link\<close>

locale link_client =
  fixes P :: "m7 \<Rightarrow> bool"
  assumes P_inv: "P w \<Longrightarrow> modbus_inv w"
    and P_same: "P w \<Longrightarrow> modbus_inv w' \<Longrightarrow> m7_link w' = m7_link w \<Longrightarrow> P w'"
    and P_submit: "P w \<Longrightarrow> modbus_inv w' \<Longrightarrow>
      m7_link w' = snd (snd (app_ipc_motor_submit send c (m7_link w))) \<Longrightarrow> P w'"
    and P_shell: "P w \<Longrightarrow> P (snd (snd (snd (run_shell e cmd w))))"
    and P_refresh: "P w \<Longrightarrow> P (snd (remote_refresh_work_handler e w))"
    and P_bound: "P w \<Longrightarrow> P (w\<lparr>m7_link := endpoint_bound_callback_m7 (m7_link w)\<rparr>)"
    and P_unbound: "P w \<Longrightarrow> P (w\<lparr>m7_link := endpoint_unbound_m7 (m7_link w)\<rparr>)"
    and P_error: "P w \<Longrightarrow> P (w\<lparr>m7_link := endpoint_error_m7 (m7_link w)\<rparr>)"
begin

lemma holding_reg_wr_keeps: "P w \<Longrightarrow> P (snd (holding_reg_wr e addr reg w))"
proof -
  assume w: "P w"
  note inv = holding_reg_wr_inv [OF P_inv [OF w], of e addr reg]
  show ?thesis
    by (cases rule: holding_reg_wr_link [of e addr reg w]) (use P_same [OF w inv] P_submit [OF w inv] in auto)
qed

lemma reads_keep: "reads_only w w' \<Longrightarrow> P w \<Longrightarrow> P w'"
  using P_same P_inv reads_only_inv by (metis reads_only_same(2))

end

sublocale link_client < tracked: register_bank "holding_reg_rd e" "holding_reg_wr e" P for e
proof unfold_locales
  fix w :: m7 and a v :: u16
  assume w: "P w"
  show "P (snd (holding_reg_wr e a v w))" by (rule holding_reg_wr_keeps [OF w])
  assume a: "a < 5"
  show "\<exists>v. holding_reg_rd e w (APP_MB_HREG_SCANNER_INPUT_MAP_BASE + a) = Inr v \<and> is_valid_scanner_mapping v"
    by (rule bank.input_map [OF P_inv [OF w] a])
  show "\<exists>v. holding_reg_rd e w (APP_MB_HREG_SCANNER_OUTPUT_MAP_BASE + a) = Inr v
      \<and> is_valid_scanner_mapping v \<and> is_writable_output_scanner_mapping v"
    by (rule bank.output_map [OF P_inv [OF w] a])
qed

context link_client begin

lemma scanner_output_wr_keeps: "P w \<Longrightarrow> P (snd (scanner_output_wr e addr reg w))"
proof -
  assume w: "P w"
  have "P (snd (snd (app_modbus_scanner_output_reg_wr (Some (holding_reg_rd e)) (Some (holding_reg_wr e))
      (me_now e) addr reg (m7_scanner w, w))))"
    by (rule tracked.scanner_output_wr_keeps [OF w])
  then show ?thesis
    using P_same scanner_output_wr_inv [OF P_inv [OF w], of e addr reg]
    by (simp add: scanner_output_wr_def case_prod_beta)
qed

lemma scanner_input_rd_keep: "P w \<Longrightarrow> P (snd (scanner_input_rd e addr w))"
  using P_same P_inv scanner_input_rd_inv scanner_input_rd_keeps(2) by blast

lemma routed_rd_keeps: "P w \<Longrightarrow> P (snd (routed_holding_reg_rd e addr w))"
  by (simp add: routed_holding_reg_rd_def scanner_input_rd_keep)

lemma routed_wr_keeps: "P w \<Longrightarrow> P (snd (routed_holding_reg_wr e addr reg w))"
  by (simp add: routed_holding_reg_wr_def scanner_output_wr_keeps holding_reg_wr_keeps)

lemma fc23_write_loop_keeps: "P w \<Longrightarrow> P (snd (fc23_write_loop es a i regs w))"
  by (induction regs arbitrary: i w) (auto simp: Let_def case_prod_beta routed_wr_keeps)

lemma fc23_read_loop_keeps: "P w \<Longrightarrow> P (snd (fc23_read_loop es a i n w))"
proof (induction n arbitrary: i w)
  case (Suc n)
  then show ?case
    using routed_rd_keeps [OF Suc.prems]
    by (simp add: fc23_read_loop_Suc Let_def case_prod_beta del: fc23_read_loop.simps split: sum.split)
qed simp

lemma fc23_keeps:
  assumes "P w"
  shows "P (snd (fc23_read_write_holding_regs wes res data w))"
proof -
  obtain ok w1 where l: "fc23_write_loop wes (get_be16 data 4) 0
      (List.map (\<lambda>i. get_be16 data (9 + i * 2)) [0..<unat (get_be16 data 6)]) w = (ok, w1)"
    by (rule prod.exhaust)
  then have w1: "P w1" using fc23_write_loop_keeps [OF assms] by (metis snd_conv)
  obtain r w2 where l2: "fc23_read_loop res (get_be16 data 0) 0 (unat (get_be16 data 2)) w1 = (r, w2)"
    by (rule prod.exhaust)
  then have "P w2" using fc23_read_loop_keeps [OF w1] by (metis snd_conv)
  with assms w1 show ?thesis
    by (simp add: fc23_read_write_holding_regs_def Let_def l l2 split: option.split)
qed

lemma server_start_keeps: "P w \<Longrightarrow> P (snd (app_modbus_tcp_start e i1 i2 n1 n2 f1 f2 w))"
proof -
  assume w: "P w"
  have "m7_link (snd (app_modbus_tcp_start e i1 i2 n1 n2 f1 f2 w)) = m7_link w"
    by (simp add: app_modbus_tcp_start_def init_modbus_server_def Let_def case_prod_beta)
  then show ?thesis using P_same [OF w] app_modbus_tcp_start_inv [OF P_inv [OF w]] by blast
qed

lemma modbus_step_keeps:
  assumes "P w" and "\<And>now data. p \<noteq> LinkReceived now data"
  shows "P (modbus_step p w)"
proof -
  note inv = modbus_step_inv [OF P_inv [OF assms(1)], of p]
  show ?thesis
  proof (cases p)
    case (LinkReceived now data)
    with assms(2) [of now data] show ?thesis by simp
  next
    case (CommandWork e)
    then show ?thesis using P_same [OF assms(1) inv] by (simp add: modbus_step_def)
  next
    case (SetSaved e d)
    then show ?thesis using P_same [OF assms(1) inv] by (simp add: modbus_step_def)
  next
    case Heartbeat
    then show ?thesis using P_same [OF assms(1) inv] by (simp add: modbus_step_def app_modbus_tcp_heartbeat_tick_def)
  next
    case Accepted
    then show ?thesis using P_same [OF assms(1) inv] by (simp add: modbus_step_def modbus_connection_accepted_def)
  next
    case (RequestUnit u)
    then show ?thesis using P_same [OF assms(1) inv] by (simp add: modbus_step_def)
  qed (use assms(1) in \<open>simp_all add: modbus_step_def holding_reg_wr_keeps scanner_output_wr_keeps
      scanner_input_rd_keep fc23_keeps server_start_keeps\<close>)
qed

text \<open>EtherNet/IP and the web server.\<close>

lemma output_assembly_keeps: "P w \<Longrightarrow> P (snd (output_assembly_loop es out i n w))"
  by (induction n arbitrary: i w) (simp_all add: Let_def case_prod_beta scanner_output_wr_keeps)

lemma input_assembly_keeps: "P w \<Longrightarrow> P (snd (input_assembly_loop es i n buf w))"
  by (induction n arbitrary: i buf w) (simp_all add: Let_def case_prod_beta scanner_input_rd_keep)

lemma eip_keeps:
  "P w \<Longrightarrow> P (snd (AfterAssemblyDataReceived es k s w))"
  "P w \<Longrightarrow> P (snd (snd (BeforeAssemblyDataSend es k s w)))"
  by (simp_all add: AfterAssemblyDataReceived_def BeforeAssemblyDataSend_def output_assembly_keeps
      input_assembly_keeps case_prod_beta)

lemma holding_write_keeps: "P w \<Longrightarrow> P (snd (app_modbus_tcp_holding_write e a v w))"
  "P w \<Longrightarrow> P (snd (app_modbus_tcp_motor_set_mode e b w))"
  by (simp_all add: app_modbus_tcp_holding_write_def app_modbus_tcp_motor_set_mode_def holding_reg_wr_keeps)

lemma optional_fields_keeps: "P w \<Longrightarrow> P (snd (optional_fields_loop e body fs w))"
proof (induction fs arbitrary: w)
  case (Cons f fs)
  obtain name reg where "f = (name, reg)" by (rule prod.exhaust)
  with Cons holding_write_keeps(1) [OF Cons.prems] show ?case
    by (simp add: Let_def case_prod_beta split: sum.split)
qed simp

lemma motor_requests_keep:
  "P w \<Longrightarrow> P (snd (apply_motor_command e body w))"
  "P w \<Longrightarrow> P (snd (apply_motor_local e w))"
  by (auto simp: apply_motor_command_def apply_motor_local_def Let_def case_prod_beta holding_write_keeps
      optional_fields_keeps split: sum.split)

lemma api_put_write_keeps:
  "P w \<Longrightarrow> api_put_write e path v w = Some (Some (ret, w')) \<Longrightarrow> P w'"
  using holding_write_keeps(1) [of w e] scanner_output_wr_keeps [of w e]
  unfolding api_put_write_def
  by (auto split: option.splits if_splits) (metis snd_conv)+

lemma web_handlers_keep:
  "P (ww_m7 ww) \<Longrightarrow> P (ww_m7 (snd (snd (handle_api_post client we path body ww))))"
  "P (ww_m7 ww) \<Longrightarrow> P (ww_m7 (snd (snd (handle_api_put client we path body ww))))"
  "P (ww_m7 ww) \<Longrightarrow> P (ww_m7 (snd (snd (handle_api_get client we path ww))))"
proof -
  show "P (ww_m7 ww) \<Longrightarrow> P (ww_m7 (snd (snd (handle_api_post client we path body ww))))"
    by (simp add: handle_api_post_def send_to_def Let_def case_prod_beta holding_write_keeps motor_requests_keep)
  show "P (ww_m7 ww) \<Longrightarrow> P (ww_m7 (snd (snd (handle_api_put client we path body ww))))"
    by (auto simp: handle_api_put_def send_to_def Let_def dest: api_put_write_keeps
        split: sum.split option.split prod.split)
  show "P (ww_m7 ww) \<Longrightarrow> P (ww_m7 (snd (snd (handle_api_get client we path ww))))"
    unfolding handle_api_get_def
    by (auto simp: send_to_def Let_def split: sum.split option.split prod.split
        dest!: api_document_reads intro: reads_keep)
qed

lemma web_request_keeps: "P (ww_m7 ww) \<Longrightarrow> P (ww_m7 (snd (snd (handle_http_request client we req ww))))"
  unfolding handle_http_request_def
  by (auto simp: send_to_def Let_def web_handlers_keep split: option.split sum.split prod.split)

lemma web_turn_keeps: "P (ww_m7 ww) \<Longrightarrow> P (ww_m7 (app_web_turn ret ready ww))"
proof -
  have "P (ww_m7 ww) \<Longrightarrow> P (ww_m7 (fold (\<lambda>c ww. case c of None \<Rightarrow> ww
      | Some (we, c) \<Rightarrow> snd (app_web_serve_client we c ww)) ready ww))"
  proof (induction ready arbitrary: ww)
    case (Cons c ready)
    then show ?case
      using web_request_keeps by (auto simp: app_web_serve_client_def Let_def case_prod_beta split: option.split)
  qed simp
  then show "P (ww_m7 ww) \<Longrightarrow> ?thesis" by (simp add: app_web_turn_def)
qed

end

text \<open>The operations of the system that receive from the other core.\<close>

definition receives :: "sys_op \<Rightarrow> bool" where
  "receives p = (case p of Modbus q \<Rightarrow> (case q of LinkReceived now data \<Rightarrow> True | _ \<Rightarrow> False)
     | Ping send start_ms end_ms received \<Rightarrow> True | _ \<Rightarrow> False)"

context link_client begin

lemma sys_step_keeps:
  assumes "P (sy_m7 s)" and "\<not> receives p"
  shows "P (sy_m7 (sys_step p s))"
proof (cases p)
  case (Modbus q)
  with assms modbus_step_keeps [of "sy_m7 s" q] show ?thesis
    by (auto simp: sys_step_def sys_m7_def receives_def split: modbus_op.splits)
next
  case Main_turn
  have "modbus_inv (app_modbus_tcp_heartbeat_tick (sy_m7 s))"
    using P_inv [OF assms(1)] by (simp add: app_modbus_tcp_heartbeat_tick_def modbus_inv_modbus_set)
  with P_same [OF assms(1)] show ?thesis
    by (simp add: Main_turn sys_step_def main_turn_def sys_m7_def app_modbus_tcp_heartbeat_tick_def)
next
  case (Eip_send es k)
  with assms eip_keeps(2) show ?thesis by (simp add: sys_step_def case_prod_beta)
next
  case (Web ret ready)
  with assms web_turn_keeps show ?thesis by (simp add: sys_step_def sys_web_def Let_def)
qed (use assms in \<open>simp_all add: sys_step_def sys_m7_def Let_def receives_def eip_keeps P_shell P_refresh
    P_bound P_unbound P_error\<close>)

end

section \<open>The trace of messages\<close>

text \<open>A command message of the Cortex-M7: one that \<open>send_remote_command_locked\<close> builds from a stored
  command in the contract's ranges.\<close>

definition m7_message :: "u8 list \<Rightarrow> bool" where
  "m7_message bytes \<longleftrightarrow> (\<exists>remote s. m7_command_ok s \<and> bytes = command_bytes (remote_message remote s))"

text \<open>\<open>l'\<close> continues \<open>l\<close>: it has sent more command messages, and received nothing.\<close>

definition link_sends :: "m7_ipc \<Rightarrow> m7_ipc \<Rightarrow> bool" where
  "link_sends l l' \<longleftrightarrow>
     (\<exists>new. m7_outbox l' = m7_outbox l @ new \<and> list_all m7_message new)
     \<and> m7_motor_state_cache l' = m7_motor_state_cache l \<and> m7_pong_sem l' = m7_pong_sem l
     \<and> m7_received_sequence l' = m7_received_sequence l \<and> m7_next_sequence l' = m7_next_sequence l"

lemma link_sends_refl: "link_sends l l"
  by (simp add: link_sends_def)

lemma link_sends_trans: "link_sends l l1 \<Longrightarrow> link_sends l1 l2 \<Longrightarrow> link_sends l l2"
  by (auto simp: link_sends_def)

lemma link_sends_quiet:
  "m7_outbox l' = m7_outbox l \<Longrightarrow> m7_motor_state_cache l' = m7_motor_state_cache l \<Longrightarrow>
   m7_pong_sem l' = m7_pong_sem l \<Longrightarrow> m7_received_sequence l' = m7_received_sequence l \<Longrightarrow>
   m7_next_sequence l' = m7_next_sequence l \<Longrightarrow> link_sends l l'"
  by (simp add: link_sends_def)

lemma remote_set_quiet: "link_sends l (remote_set f l)"
  by (rule link_sends_quiet) (simp_all add: remote_set_def)

lemma schedule_quiet: "link_sends l (l\<lparr>m7_refresh_scheduled := b\<rparr>)"
  by (rule link_sends_quiet) simp_all

lemma send_remote_command_sends:
  assumes "m7_command_ok l"
  shows "link_sends l (snd (snd (send_remote_command_locked send remote l)))"
proof (cases "m7_endpoint_initialized l \<and> m7_endpoint_is_bound l")
  case True
  have "fst (snd (send_remote_command_locked send remote l)) = Some (command_bytes (remote_message remote l))"
    using True by (simp add: send_remote_command_bytes)
  then have "m7_outbox (snd (snd (send_remote_command_locked send remote l))) =
      (if fst (ipc_send_loop send 0) < 0 then m7_outbox l
       else m7_outbox l @ [command_bytes (remote_message remote l)])"
    using True by (simp add: send_remote_command_locked_def Let_def case_prod_beta)
  moreover have "m7_message (command_bytes (remote_message remote l))" using assms by (auto simp: m7_message_def)
  ultimately show ?thesis
    using True by (simp add: link_sends_def) (simp add: send_remote_command_locked_def Let_def case_prod_beta)
next
  case False
  then show ?thesis by (simp add: send_remote_command_locked_def link_sends_refl)
qed

lemma motor_submit_sends: "link_sends l (snd (snd (app_ipc_motor_submit send c l)))"
proof (cases c)
  case (Some x)
  show ?thesis
  proof (cases "mc_source x \<in> {1, 2} \<and> unat (mc_duty_permille x) \<in> {800..1000}
         \<and> unat (mc_accel_ramp x) \<in> {1..10000} \<and> unat (mc_decel_ramp x) \<in> {1..10000}
         \<and> unat (mc_timeout_ms x) \<in> {100..10000}")
    case True
    then have "m7_command_ok (submitted x l)"
      by (auto simp: m7_command_ok_def submitted_def c_def to_nat_simps)
    note send = send_remote_command_sends [OF this, of send "mc_remote x"]
    have sub: "link_sends l (submitted x l)" by (rule link_sends_quiet) (simp_all add: submitted_def)
    show ?thesis
      using link_sends_trans [OF sub send] link_sends_trans [OF link_sends_trans [OF sub send] schedule_quiet]
      by (simp add: Some app_ipc_motor_submit_valid [OF True] Let_def case_prod_beta)
  next
    case False
    then have "app_ipc_motor_submit send c l = (- EINVAL, None, l)"
      by (auto simp: Some app_ipc_motor_submit_def c_def to_nat_simps)
    then show ?thesis by (simp add: link_sends_refl)
  qed
qed (simp add: app_ipc_motor_submit_def link_sends_refl)

lemma set_mode_link [simp]: "m7_link (snd (app_modbus_tcp_motor_set_mode e b w)) = m7_link w"
  by (simp add: motor_set_mode_effect)

lemma remote_update_sends:
  assumes "m7_command_ok (m7_link w)"
    and "APP_MOTOR_COMMAND_DUTY_MIN_PERMILLE \<le> duty" "duty \<le> APP_MOTOR_COMMAND_DUTY_MAX_PERMILLE"
  shows "link_sends (m7_link w) (m7_link (snd (snd (remote_command_update e a control duty w))))"
proof -
  note s = link_sends_trans [OF remote_set_quiet send_remote_command_sends [OF remote_set_ok(1) [OF assms]]]
  note d = link_sends_trans [OF s schedule_quiet]
  show ?thesis using s d by (simp add: remote_command_update_def Let_def case_prod_beta link_sends_refl)
qed

lemma remote_disable_sends:
  assumes "m7_command_ok (m7_link w)"
  shows "link_sends (m7_link w) (m7_link (snd (snd (remote_command_disable e w))))"
proof -
  note ok = remote_set_ok(2) [OF assms order_refl duty_range(3)]
  note s = link_sends_trans [OF remote_set_quiet send_remote_command_sends [OF ok], of "me_send e" False]
  note d = link_sends_trans [OF link_sends_trans [OF s remote_set_quiet] schedule_quiet]
  show ?thesis using s d by (simp add: remote_command_disable_def Let_def case_prod_beta)
qed

lemma remote_reset_sends:
  assumes "m7_command_ok (m7_link w)"
  shows "link_sends (m7_link w) (m7_link (snd (snd (remote_command_reset e w))))"
proof -
  note ok = remote_set_ok(3) [OF assms order_refl duty_range(3)]
  note s = link_sends_trans [OF remote_set_quiet send_remote_command_sends [OF ok]]
  note d = link_sends_trans [OF s schedule_quiet]
  show ?thesis using s d by (simp add: remote_command_reset_def Let_def case_prod_beta)
qed

lemma refresh_work_sends:
  assumes "m7_command_ok (m7_link w)"
  shows "link_sends (m7_link w) (m7_link (snd (remote_refresh_work_handler e w)))"
proof -
  have "m7_command_ok ((m7_link w)\<lparr>m7_refresh_scheduled := False\<rparr>)" using assms by simp
  note s = link_sends_trans [OF schedule_quiet send_remote_command_sends [OF this], of "me_send e" True]
  note d = link_sends_trans [OF s schedule_quiet]
  show ?thesis
    using s d schedule_quiet by (simp add: remote_refresh_work_handler_def Let_def case_prod_beta)
qed

lemma run_shell_sends:
  assumes "m7_command_ok (m7_link w)"
  shows "link_sends (m7_link w) (m7_link (snd (snd (snd (run_shell e c w)))))"
proof -
  note ops = remote_update_sends [OF assms duty_range(1) [OF assms] duty_range(2) [OF assms]]
    remote_update_sends [OF assms order_refl duty_range(3)]
    remote_disable_sends [OF assms] remote_reset_sends [OF assms] link_sends_refl
  show ?thesis
  proof (cases c)
    case (M4_duty argv)
    obtain duty rest where dr: "strtoul10 (argv ! 1) = (duty, rest)" by (rule prod.exhaust)
    have "\<not> duty < unat APP_MOTOR_COMMAND_DUTY_MIN_PERMILLE \<Longrightarrow>
        \<not> unat APP_MOTOR_COMMAND_DUTY_MAX_PERMILLE < duty \<Longrightarrow> 800 \<le> duty \<and> duty \<le> 1000"
      by (simp add: c_def)
    then show ?thesis
      using duty_word_ok [of duty] assms
      by (auto simp: M4_duty run_shell_def cmd_m4_duty_def dr [unfolded One_nat_def] remote_update_sends
          link_sends_refl)
  next
    case M4_pause
    then show ?thesis
      using link_sends_trans [OF remote_set_quiet schedule_quiet] by (simp add: run_shell_def cmd_m4_pause_refresh_def)
  qed (simp_all add: run_shell_def cmd_m4_remote_def cmd_m4_local_def cmd_m4_start_def cmd_m4_stop_def
      cmd_m4_quick_stop_def cmd_m4_reset_def cmd_m4_forward_def cmd_m4_reverse_def ops case_prod_beta)
qed

definition sends_from :: "m7_ipc \<Rightarrow> m7 \<Rightarrow> bool" where
  "sends_from l w \<longleftrightarrow> modbus_inv w \<and> link_sends l (m7_link w)"

interpretation traffic: link_client "sends_from l" for l
proof unfold_locales
  fix w w' send c e cmd
  assume w: "sends_from l w"
  then have ok: "m7_command_ok (m7_link w)" and inv: "modbus_inv w" and l: "link_sends l (m7_link w)"
    by (simp_all add: sends_from_def modbus_inv_def)
  note next_link = link_sends_trans [OF l]
  show "modbus_inv w" by (rule inv)
  show "modbus_inv w' \<Longrightarrow> m7_link w' = m7_link w \<Longrightarrow> sends_from l w'" using l by (simp add: sends_from_def)
  show "modbus_inv w' \<Longrightarrow> m7_link w' = snd (snd (app_ipc_motor_submit send c (m7_link w))) \<Longrightarrow> sends_from l w'"
    using next_link [OF motor_submit_sends] by (simp add: sends_from_def)
  show "sends_from l (snd (snd (snd (run_shell e cmd w))))"
    using next_link [OF run_shell_sends [OF ok]] run_shell_inv [OF inv] by (simp add: sends_from_def)
  show "sends_from l (snd (remote_refresh_work_handler e w))"
    using next_link [OF refresh_work_sends [OF ok]] remote_refresh_inv [OF inv] by (simp add: sends_from_def)
  show "sends_from l (w\<lparr>m7_link := endpoint_bound_callback_m7 (m7_link w)\<rparr>)"
    using next_link [OF link_sends_quiet] link_events_inv(1) [OF inv]
    by (simp add: sends_from_def endpoint_bound_callback_m7_def)
  show "sends_from l (w\<lparr>m7_link := endpoint_unbound_m7 (m7_link w)\<rparr>)"
    using next_link [OF link_sends_quiet] link_events_inv(2) [OF inv]
    by (simp add: sends_from_def endpoint_unbound_m7_def)
  show "sends_from l (w\<lparr>m7_link := endpoint_error_m7 (m7_link w)\<rparr>)"
    using next_link [OF link_sends_quiet] link_events_inv(3) [OF inv]
    by (simp add: sends_from_def endpoint_error_m7_def)
qed

lemma sys_step_sends:
  assumes "modbus_inv (sy_m7 s)" and "\<not> receives p"
  shows "link_sends (m7_link (sy_m7 s)) (m7_link (sy_m7 (sys_step p s)))"
proof -
  have "sends_from (m7_link (sy_m7 s)) (sy_m7 s)" using assms(1) by (simp add: sends_from_def link_sends_refl)
  from traffic.sys_step_keeps [OF this assms(2)] show ?thesis by (simp add: sends_from_def)
qed

end
