(* ===== verification/Two_Cores.thy ===== *)
theory Two_Cores
  imports Link_Interface Command_Chain M4_Timeout "HOL-Library.Sublist"
begin

unbundle bit_operations_syntax

text \<open>
  The whole device: all services of the Cortex-M7 (\<open>M7_Main\<close>), the control program of the Cortex-M4
  (\<open>M4_Main\<close>), and the messages in flight between them. The inter-core driver of the two \<open>app_ipc.c\<close> keeps
  the order of the messages in each direction; it may lose some. A step is one operation of a service, a
  turn of the control loop, or the delivery of one message to the callback of the other core.

  Besides the two programs' states the record \<open>cores\<close> holds the two channels and the history the properties
  speak about: what reached each callback, which commands the Cortex-M4 took up, and the turns whose state
  message was sent. The messages of the Cortex-M7 are the trace \<open>m7_outbox\<close>.
\<close>

section \<open>The ping in two steps\<close>

text \<open>\<open>app_ipc_ping\<close> up to the wait for the semaphore, and from the wait on. \<open>ping_lock\<close> keeps other pings
  out between them, so the sequence number of the ping is still \<open>next_sequence\<close>.\<close>

definition ping_begin :: "(nat \<Rightarrow> int) \<Rightarrow> m7_ipc \<Rightarrow> int option \<times> u8 list option \<times> m7_ipc" where
  "ping_begin send s =
     (if \<not> m7_endpoint_initialized s then (Some (- EAGAIN), None, s)
      else if \<not> m7_endpoint_is_bound s then (Some (- ENOTCONN), None, s)
      else
        let s = s\<lparr>m7_pong_sem := 0\<rparr>;
            sequence = m7_next_sequence s + 1;
            s = s\<lparr>m7_next_sequence := sequence, m7_received_sequence := 0\<rparr>;
            frame = frame_bytes (frame_init_m7 APP_IPC_FRAME_PING sequence 0);
            (ret, sends) = ipc_send_loop send 0
        in if ret < 0 then (Some ret, Some frame, s\<lparr>m7_last_error := ret\<rparr>)
           else (None, Some frame, s\<lparr>m7_outbox := m7_outbox s @ [frame]\<rparr>))"

definition ping_end :: "u32 \<Rightarrow> u32 \<Rightarrow> m7_ipc \<Rightarrow> int \<times> u32 option \<times> m7_ipc" where
  "ping_end start_ms end_ms s =
     (if m7_pong_sem s = 0 then (- ETIMEDOUT, None, s\<lparr>m7_last_error := - ETIMEDOUT\<rparr>)
      else
        let s = s\<lparr>m7_pong_sem := 0\<rparr>
        in if m7_received_sequence s \<noteq> m7_next_sequence s
           then (- EBADMSG, None, s\<lparr>m7_last_error := - EBADMSG\<rparr>)
           else (0, Some (end_ms - start_ms), s\<lparr>m7_last_error := 0\<rparr>))"

lemma received_keeps_sequence:
  "m7_next_sequence (fold (\<lambda>(now, data). endpoint_received_m7 now data) received s) = m7_next_sequence s"
  by (induction received arbitrary: s) (auto simp: endpoint_received_m7_def Let_def)

text \<open>The two steps with the receptions between them are the ping.\<close>

lemma app_ipc_ping_steps:
  "app_ipc_ping send start_ms end_ms received s =
     (case ping_begin send s of
        (Some ret, frame, s) \<Rightarrow> (ret, None, frame, s)
      | (None, frame, s) \<Rightarrow>
        let (ret, round_trip, s) = ping_end start_ms end_ms (fold (\<lambda>(now, data). endpoint_received_m7 now data) received s)
        in (ret, round_trip, frame, s))"
  by (simp add: app_ipc_ping_def ping_begin_def ping_end_def Let_def case_prod_beta received_keeps_sequence)

section \<open>State and steps\<close>

record cores =
  co_m7 :: m7_sys
  co_m4 :: m4
  co_pinging :: bool
  co_down :: "u8 list list"
  co_up :: "u8 list list"
  co_lost :: bool
  co_received :: "u8 list list"
  co_seen :: "u8 list list"
  co_executed :: "app_motor_command_message list"
  co_turns :: "(m4 \<times> u8 list) list"

definition co_link :: "cores \<Rightarrow> m7_ipc" where
  "co_link c = m7_link (sy_m7 (co_m7 c))"

definition co_outbox :: "cores \<Rightarrow> u8 list list" where
  "co_outbox c = m7_outbox (co_link c)"

definition set_link :: "m7_ipc \<Rightarrow> m7_sys \<Rightarrow> m7_sys" where
  "set_link l s = s\<lparr>sy_m7 := (sy_m7 s)\<lparr>m7_link := l\<rparr>\<rparr>"

datatype core_op =
    Service sys_op
  | Ping_send "nat \<Rightarrow> int"
  | Ping_finish u32 u32
  | Control_turn bool m4_input bool
  | M4_link_bound
  | M4_link_unbound
  | Deliver_down
  | Deliver_up u32
  | Lose_down nat
  | Lose_up nat

definition without :: "nat \<Rightarrow> 'a list \<Rightarrow> 'a list" where
  "without k xs = take k xs @ drop (Suc k) xs"

text \<open>The messages the Cortex-M7 handed over in going from one state to the next.\<close>

definition new_messages :: "m7_sys \<Rightarrow> m7_sys \<Rightarrow> u8 list list" where
  "new_messages s s' = drop (length (m7_outbox (m7_link (sy_m7 s)))) (m7_outbox (m7_link (sy_m7 s')))"

definition run_m7 :: "m7_sys \<Rightarrow> cores \<Rightarrow> cores" where
  "run_m7 s c = c\<lparr>co_m7 := s, co_down := co_down c @ new_messages (co_m7 c) s\<rparr>"

text \<open>A turn of the control loop. The driver takes the PONG unless it answers with an error, and the state
  message when \<open>taken\<close>; the program does not look at that answer.\<close>

definition control_turn :: "motor_drv \<Rightarrow> bool \<Rightarrow> m4_input \<Rightarrow> bool \<Rightarrow> cores \<Rightarrow> cores" where
  "control_turn drv leds i taken c =
     (let w = co_m4 c;
          (w', pong, state, levels) = m4_main_iteration drv leds i w;
          pongs = (case pong of Some b \<Rightarrow> if in_send_ret i < 0 then [] else [b] | None \<Rightarrow> []);
          states = (case state of Some b \<Rightarrow> if taken then [b] else [] | None \<Rightarrow> [])
      in c\<lparr>co_m4 := w', co_up := co_up c @ pongs @ states,
           co_executed := co_executed c @ (if m4_command_pending (m4_link w) then [m4_pending_command (m4_link w)] else []),
           co_turns := co_turns c @ List.map (Pair w') states\<rparr>)"

definition core_step :: "motor_drv \<Rightarrow> core_op \<Rightarrow> cores \<Rightarrow> cores" where
  "core_step drv op c =
     (case op of
        Service p \<Rightarrow> if receives p then c else run_m7 (sys_step p (co_m7 c)) c
      | Ping_send send \<Rightarrow>
          if co_pinging c then c
          else (case ping_begin send (co_link c) of (ret, frame, l) \<Rightarrow>
                  (run_m7 (set_link l (co_m7 c)) c)\<lparr>co_pinging := (ret = None)\<rparr>)
      | Ping_finish start_ms end_ms \<Rightarrow>
          if \<not> co_pinging c then c
          else c\<lparr>co_m7 := set_link (snd (snd (ping_end start_ms end_ms (co_link c)))) (co_m7 c), co_pinging := False\<rparr>
      | Control_turn leds i taken \<Rightarrow> control_turn drv leds i taken c
      | M4_link_bound \<Rightarrow> c\<lparr>co_m4 := (co_m4 c)\<lparr>m4_link := endpoint_bound_callback_m4 (m4_link (co_m4 c))\<rparr>\<rparr>
      | M4_link_unbound \<Rightarrow> c\<lparr>co_m4 := (co_m4 c)\<lparr>m4_link := endpoint_unbound_callback_m4 (m4_link (co_m4 c))\<rparr>\<rparr>
      | Deliver_down \<Rightarrow>
          (case co_down c of [] \<Rightarrow> c
           | b # bs \<Rightarrow> c\<lparr>co_m4 := (co_m4 c)\<lparr>m4_link := endpoint_received_m4 b (m4_link (co_m4 c))\<rparr>,
                         co_down := bs, co_received := co_received c @ [b]\<rparr>)
      | Deliver_up now \<Rightarrow>
          (case co_up c of [] \<Rightarrow> c
           | b # bs \<Rightarrow> c\<lparr>co_m7 := set_link (endpoint_received_m7 now b (co_link c)) (co_m7 c),
                         co_up := bs, co_seen := co_seen c @ [b]\<rparr>)
      | Lose_down k \<Rightarrow> c\<lparr>co_down := without k (co_down c), co_lost := True\<rparr>
      | Lose_up k \<Rightarrow> c\<lparr>co_up := without k (co_up c)\<rparr>)"

definition core_run :: "motor_drv \<Rightarrow> core_op list \<Rightarrow> cores \<Rightarrow> cores" where
  "core_run drv ops c = fold (core_step drv) ops c"

text \<open>Both cores after their start, with empty channels; the Cortex-M4 has entered its loop.\<close>

definition cores_start :: "m7_sys \<Rightarrow> m4 \<Rightarrow> cores" where
  "cores_start s w = \<lparr>co_m7 = s, co_m4 = w, co_pinging = False, co_down = [], co_up = [], co_lost = False,
     co_received = [], co_seen = [], co_executed = [], co_turns = []\<rparr>"

inductive cores_reachable :: "motor_drv \<Rightarrow> cores \<Rightarrow> bool" for drv where
  cores_boot: "m4_main_init drv a b c d e f g h m4_boot = (True, w) \<Longrightarrow>
     cores_reachable drv (cores_start (snd (snd (main_start se sys_boot))) w)"
| cores_step: "cores_reachable drv c \<Longrightarrow> cores_reachable drv (core_step drv op c)"

lemma cores_run_reachable: "cores_reachable drv c \<Longrightarrow> cores_reachable drv (core_run drv ops c)"
  unfolding core_run_def by (induction ops arbitrary: c) (auto intro: cores_step)

section \<open>Both programs as seen by their own steps\<close>

lemma control_turn_m4 [simp]: "co_m4 (control_turn drv leds i taken c) = fst (m4_main_iteration drv leds i (co_m4 c))"
  by (simp add: control_turn_def Let_def case_prod_beta)

lemma core_step_m4:
  "co_m4 (core_step drv op c) = co_m4 c \<or> m4_step drv (co_m4 c) (co_m4 (core_step drv op c))"
  by (cases op) (auto simp: core_step_def run_m7_def case_prod_beta intro: m4_step.intros split: list.split)

lemma cores_m4_boot: "cores_reachable drv c \<Longrightarrow> m4_reachable drv (co_m4 c)"
proof (induction rule: cores_reachable.induct)
  case (cores_boot a b c d e f g h w se)
  then show ?case by (simp add: cores_start_def m4_reachable.start)
next
  case (cores_step c op)
  then show ?case using core_step_m4 [of drv op c] by (auto intro: m4_reachable.step)
qed

lemma set_link_m7 [simp]: "m7_link (sy_m7 (set_link l s)) = l"
  by (simp add: set_link_def)

lemma set_link_inv:
  "sys_inv s \<Longrightarrow> m7_remote_command l = m7_remote_command (m7_link (sy_m7 s)) \<Longrightarrow> sys_inv (set_link l s)"
  using m7_command_ok_cong [of l "m7_link (sy_m7 s)"]
  by (simp add: sys_inv_def set_link_def modbus_inv_def)

lemma ping_command [simp]:
  "m7_remote_command (snd (snd (ping_begin send l))) = m7_remote_command l"
  "m7_remote_command (snd (snd (ping_end a b l))) = m7_remote_command l"
  by (simp_all add: ping_begin_def ping_end_def Let_def case_prod_beta)

lemma core_step_m7_inv: "sys_inv (co_m7 c) \<Longrightarrow> sys_inv (co_m7 (core_step drv op c))"
  by (cases op)
    (simp_all add: core_step_def run_m7_def control_turn_def Let_def case_prod_beta sys_step_inv set_link_inv
      co_link_def endpoint_received_m7_command split: list.split)

lemma cores_m7_inv: "cores_reachable drv c \<Longrightarrow> sys_inv (co_m7 c)"
  by (induction rule: cores_reachable.induct)
    (auto simp: cores_start_def core_step_m7_inv intro: main_start_inv sys_boot_inv)

section \<open>Commands on their way\<close>

text \<open>The commands among received buffers, in order.\<close>

definition command_buffer :: "u8 list \<Rightarrow> bool" where
  "command_buffer b \<longleftrightarrow> command_is_valid (command_of b) (length b)"

definition valid_commands :: "u8 list list \<Rightarrow> app_motor_command_message list" where
  "valid_commands bs = List.map command_of (filter command_buffer bs)"

lemma valid_commands_append [simp]: "valid_commands (bs @ cs) = valid_commands bs @ valid_commands cs"
  by (simp add: valid_commands_def)

lemma endpoint_received_m4_mailbox:
  "m4_command_pending (endpoint_received_m4 b s) = (command_buffer b \<or> m4_command_pending s)"
  "m4_pending_command (endpoint_received_m4 b s) = (if command_buffer b then command_of b else m4_pending_command s)"
proof -
  have "sizeof_frame \<le> length b \<and> frame_magic (frame_of b) = APP_IPC_FRAME_MAGIC
      \<and> frame_version (frame_of b) = APP_IPC_FRAME_VERSION \<and> frame_type (frame_of b) = APP_IPC_FRAME_MOTOR_COMMAND"
    if "command_buffer b"
    using that by (auto simp: command_buffer_def command_is_valid_def frame_is_valid_m4_def command_of_def Let_def
        split: if_splits)
  then show "m4_command_pending (endpoint_received_m4 b s) = (command_buffer b \<or> m4_command_pending s)"
    "m4_pending_command (endpoint_received_m4 b s) = (if command_buffer b then command_of b else m4_pending_command s)"
    by (auto simp: endpoint_received_m4_def command_buffer_def Let_def c_def)
qed

text \<open>The mailbox of the Cortex-M4.\<close>

definition mailbox :: "m4_ipc \<Rightarrow> app_motor_command_message list" where
  "mailbox s = (if m4_command_pending s then [m4_pending_command s] else [])"

lemma process_m4_mailbox: "\<not> m4_command_pending (fst (fst (app_ipc_process_m4 drv a b r (s, m))))"
proof -
  obtain s1 m1 where p: "process_pending_command drv a (s, m) = (s1, m1)" by fastforce
  then have "\<not> m4_command_pending s1"
    using apply_remote_command_pending(1) [of drv a "m4_pending_command s" "s\<lparr>m4_command_pending := False\<rparr>" m]
    by (auto simp: process_pending_command_def split: if_splits)
  then show ?thesis by (simp add: app_ipc_process_m4_def p process_remote_timeout_def Let_def)
qed

lemma turn_mailbox: "mailbox (m4_link (fst (m4_main_iteration drv leds i w))) = []"
proof -
  have duty: "m4_command_pending (fst (m4_handle_duty drv ret d sm)) = m4_command_pending (fst sm)" for ret d sm
    by (auto simp: m4_handle_duty_def split: prod.splits option.splits)
  have events: "m4_command_pending (fst (m4_handle_events drv ev sm)) = m4_command_pending (fst sm)" for ev sm
    by (simp add: m4_handle_events_def app_ipc_latch_remote_stop_def app_ipc_clear_remote_stop_def Let_def split: prod.split)
  obtain now b q l m where "m4_link (fst (m4_main_iteration drv leds i w)) =
      fst (app_ipc_publish_motor_state now b q l (fst (m4_handle_events drv (turn_events i w) (turn_sm drv i w))) m)"
    using m4_turn_link [of drv leds i w] by blast
  then show ?thesis by (simp add: mailbox_def publish_keeps events turn_sm_def duty process_m4_mailbox)
qed

definition down_inv :: "cores \<Rightarrow> bool" where
  "down_inv c \<longleftrightarrow>
     subseq (co_received c @ co_down c) (co_outbox c)
     \<and> (\<not> co_lost c \<longrightarrow> co_received c @ co_down c = co_outbox c)
     \<and> subseq (co_executed c @ mailbox (m4_link (co_m4 c))) (valid_commands (co_received c))
     \<and> (valid_commands (co_received c) \<noteq> [] \<longrightarrow>
          co_executed c @ mailbox (m4_link (co_m4 c)) \<noteq> []
          \<and> last (co_executed c @ mailbox (m4_link (co_m4 c))) = last (valid_commands (co_received c)))"

lemma main_start_link:
  "m7_outbox (m7_link (sy_m7 (snd (snd (main_start se sys_boot))))) = []"
  "\<not> ms_valid (m7_motor_state_cache (m7_link (sy_m7 (snd (snd (main_start se sys_boot))))))"
proof -
  have start: "m7_link (snd (app_modbus_tcp_start e i1 i2 n1 n2 f1 f2 w)) = m7_link w" for e i1 i2 n1 n2 f1 f2 w
    by (simp add: app_modbus_tcp_start_def init_modbus_server_def Let_def case_prod_beta)
  have boot: "m7_outbox (snd (app_ipc_init_m7 r o1 r1 l)) = m7_outbox l"
    "m7_motor_state_cache (snd (app_ipc_init_m7 r o1 r1 l)) = m7_motor_state_cache l" for r o1 r1 l
    by (simp_all add: app_ipc_init_m7_def)
  have net: "m7_link (snd (start_settings se w)) = m7_link w" for w
    by (simp add: start_settings_def case_prod_beta)
  show "m7_outbox (m7_link (sy_m7 (snd (snd (main_start se sys_boot))))) = []"
    "\<not> ms_valid (m7_motor_state_cache (m7_link (sy_m7 (snd (snd (main_start se sys_boot))))))"
    by (simp_all add: main_start_def start_services_def Let_def case_prod_beta start boot net)
      (simp_all add: sys_boot_def m7_boot_def m7_ipc_boot_def)
qed

text \<open>The Cortex-M7 extends its trace.\<close>

lemma run_m7_outbox:
  assumes "m7_outbox (m7_link (sy_m7 s)) = co_outbox c @ new"
  shows "co_outbox (run_m7 s c) = co_outbox c @ new" "co_down (run_m7 s c) = co_down c @ new"
  using assms by (simp_all add: run_m7_def co_outbox_def co_link_def new_messages_def)

lemma down_inv_extend:
  assumes "down_inv c" and "co_outbox c' = co_outbox c @ new" and "co_down c' = co_down c @ new"
    and "co_received c' = co_received c" "co_lost c' = co_lost c" "co_executed c' = co_executed c" "co_m4 c' = co_m4 c"
  shows "down_inv c'"
  using assms list_emb_append_mono [of "(=)" "co_received c @ co_down c" "co_outbox c" new new]
  by (auto simp: down_inv_def)

lemma run_m7_fields [simp]:
  "co_received (run_m7 s c) = co_received c" "co_lost (run_m7 s c) = co_lost c" "co_executed (run_m7 s c) = co_executed c"
  "co_m4 (run_m7 s c) = co_m4 c" "co_up (run_m7 s c) = co_up c" "co_seen (run_m7 s c) = co_seen c"
  "co_turns (run_m7 s c) = co_turns c" "co_m7 (run_m7 s c) = s" "co_pinging (run_m7 s c) = co_pinging c"
  by (simp_all add: run_m7_def)

lemma service_outbox:
  assumes "sys_inv (co_m7 c)" and "\<not> receives p"
  obtains new where "m7_outbox (m7_link (sy_m7 (sys_step p (co_m7 c)))) = co_outbox c @ new" "list_all m7_message new"
  using sys_step_sends [of "co_m7 c" p] assms by (auto simp: sys_inv_def link_sends_def co_outbox_def co_link_def)

definition ping_message :: "u8 list \<Rightarrow> bool" where
  "ping_message b \<longleftrightarrow> (\<exists>sequence. b = frame_bytes (frame_init_m7 APP_IPC_FRAME_PING sequence 0))"

lemma ping_begin_outbox:
  obtains new where "m7_outbox (snd (snd (ping_begin send l))) = m7_outbox l @ new" "list_all ping_message new"
proof (cases "m7_outbox (snd (snd (ping_begin send l))) = m7_outbox l")
  case True
  then show thesis by (intro that [of "[]"]) simp_all
next
  case False
  then show thesis
    by (intro that [of "[frame_bytes (frame_init_m7 APP_IPC_FRAME_PING (m7_next_sequence l + 1) 0)]"])
      (auto simp: ping_begin_def ping_message_def Let_def case_prod_beta split: if_splits)
qed

lemma subseq_without: "subseq (without k xs) xs"
proof (induction xs arbitrary: k)
  case (Cons x xs)
  have "subseq xs (x # xs)" by (rule list_emb_Cons) simp
  with Cons show ?case by (cases k) (simp_all add: without_def)
qed (simp add: without_def)

section \<open>Both channels\<close>

lemma down_inv_start:
  "m4_command_pending (m4_link w) = False \<Longrightarrow> down_inv (cores_start (snd (snd (main_start se sys_boot))) w)"
  by (simp add: down_inv_def cores_start_def co_outbox_def co_link_def main_start_link mailbox_def valid_commands_def)

lemma main_init_mailbox: "m4_main_init drv a b c d e f g h m4_boot = (True, w) \<Longrightarrow> \<not> m4_command_pending (m4_link w)"
  by (auto simp: m4_main_init_def app_ipc_init_m4_def m4_boot_def m4_ipc_boot_def Let_def case_prod_beta
      split: if_splits)

lemma command_down_inv:
  assumes "down_inv c"
  shows "down_inv (control_turn drv leds i taken c)"
proof -
  have "mailbox (m4_link (co_m4 (control_turn drv leds i taken c))) = []" by (simp add: turn_mailbox)
  moreover have "co_executed (control_turn drv leds i taken c) = co_executed c @ mailbox (m4_link (co_m4 c))"
    by (simp add: control_turn_def Let_def case_prod_beta mailbox_def)
  moreover have "co_received (control_turn drv leds i taken c) = co_received c"
    "co_down (control_turn drv leds i taken c) = co_down c" "co_lost (control_turn drv leds i taken c) = co_lost c"
    "co_outbox (control_turn drv leds i taken c) = co_outbox c"
    by (simp_all add: control_turn_def Let_def case_prod_beta co_outbox_def co_link_def)
  ultimately show ?thesis using assms by (simp add: down_inv_def)
qed

lemma deliver_down_inv:
  assumes "down_inv c" and "co_down c = b # bs"
  shows "down_inv (core_step drv Deliver_down c)"
proof -
  let ?c = "core_step drv Deliver_down c"
  have f: "co_received ?c = co_received c @ [b]" "co_down ?c = bs" "co_lost ?c = co_lost c"
    "co_outbox ?c = co_outbox c" "co_executed ?c = co_executed c"
    "m4_link (co_m4 ?c) = endpoint_received_m4 b (m4_link (co_m4 c))"
    using assms(2) by (simp_all add: core_step_def co_outbox_def co_link_def)
  show ?thesis
  proof (cases "command_buffer b")
    case True
    then have m: "mailbox (m4_link (co_m4 ?c)) = [command_of b]"
      by (simp add: f mailbox_def endpoint_received_m4_mailbox)
    have "subseq (co_executed c) (co_executed c @ mailbox (m4_link (co_m4 c)))"
      by (rule list_emb_prefix) simp
    then have "subseq (co_executed c) (valid_commands (co_received c))"
      using assms(1) subseq_order.trans unfolding down_inv_def by blast
    moreover have "valid_commands [b] = [command_of b]" using True by (simp add: valid_commands_def)
    ultimately show ?thesis using assms m by (simp add: down_inv_def f(1-5))
  next
    case False
    then have "mailbox (m4_link (co_m4 ?c)) = mailbox (m4_link (co_m4 c))"
      by (simp add: f mailbox_def endpoint_received_m4_mailbox)
    moreover have "valid_commands [b] = []" using False by (simp add: valid_commands_def)
    ultimately show ?thesis using assms by (simp add: down_inv_def f(1-5))
  qed
qed

lemma lose_down_inv:
  assumes "down_inv c"
  shows "down_inv (core_step drv (Lose_down k) c)"
proof -
  have "subseq (co_received c @ without k (co_down c)) (co_received c @ co_down c)"
    by (rule list_emb_append_mono) (simp_all add: subseq_without)
  then have "subseq (co_received c @ without k (co_down c)) (co_outbox c)"
    using assms subseq_order.trans unfolding down_inv_def by blast
  then show ?thesis using assms by (simp add: down_inv_def core_step_def co_outbox_def co_link_def)
qed

text \<open>The history of the commands, for every step.\<close>

lemma core_step_down_inv:
  assumes "down_inv c" and "sys_inv (co_m7 c)"
  shows "down_inv (core_step drv op c)"
proof (cases op)
  case (Service p)
  show ?thesis
  proof (cases "receives p")
    case False
    then obtain new where "m7_outbox (m7_link (sy_m7 (sys_step p (co_m7 c)))) = co_outbox c @ new"
      using service_outbox assms(2) by blast
    from down_inv_extend [OF assms(1) run_m7_outbox [OF this]] False show ?thesis
      by (simp add: core_step_def Service)
  qed (use assms in \<open>simp add: core_step_def Service\<close>)
next
  case (Ping_send send)
  show ?thesis
  proof (cases "co_pinging c")
    case False
    obtain new where n: "m7_outbox (snd (snd (ping_begin send (co_link c)))) = co_outbox c @ new"
      using ping_begin_outbox [of send "co_link c"] by (metis co_outbox_def)
    then have o: "m7_outbox (m7_link (sy_m7 (set_link (snd (snd (ping_begin send (co_link c)))) (co_m7 c)))) = co_outbox c @ new"
      by simp
    have "down_inv (run_m7 (set_link (snd (snd (ping_begin send (co_link c)))) (co_m7 c)) c)"
      by (rule down_inv_extend [OF assms(1) run_m7_outbox [OF o]]) simp_all
    then show ?thesis
      using False by (simp add: core_step_def Ping_send case_prod_beta down_inv_def co_outbox_def co_link_def)
  qed (use assms in \<open>simp add: core_step_def Ping_send\<close>)
next
  case (Ping_finish a b)
  have "m7_outbox (snd (snd (ping_end a b l))) = m7_outbox l" for l
    by (simp add: ping_end_def Let_def)
  then show ?thesis using assms(1) by (simp add: core_step_def Ping_finish down_inv_def co_outbox_def co_link_def)
next
  case Deliver_down
  then show ?thesis using assms(1) deliver_down_inv by (cases "co_down c") (auto simp: core_step_def)
next
  case (Deliver_up now)
  have "m7_outbox (endpoint_received_m7 now b l) = m7_outbox l" for b l
    by (simp add: endpoint_received_m7_def Let_def)
  then show ?thesis
    using assms(1) by (auto simp: core_step_def Deliver_up down_inv_def co_outbox_def co_link_def split: list.split)
next
  case (Control_turn leds i taken)
  then show ?thesis using command_down_inv [OF assms(1)] by (simp add: core_step_def)
next
  case M4_link_bound
  have "mailbox (endpoint_bound_callback_m4 s) = mailbox s" for s by (simp add: mailbox_def endpoint_bound_callback_m4_def)
  with assms(1) show ?thesis by (simp add: core_step_def M4_link_bound down_inv_def co_outbox_def co_link_def)
next
  case M4_link_unbound
  have "mailbox (endpoint_unbound_callback_m4 s) = mailbox s" for s by (simp add: mailbox_def endpoint_unbound_callback_m4_def)
  with assms(1) show ?thesis by (simp add: core_step_def M4_link_unbound down_inv_def co_outbox_def co_link_def)
next
  case (Lose_down k)
  then show ?thesis using lose_down_inv [OF assms(1)] by simp
next
  case (Lose_up k)
  then show ?thesis using assms(1) by (simp add: core_step_def down_inv_def co_outbox_def co_link_def)
qed

lemma cores_down_inv: "cores_reachable drv c \<Longrightarrow> down_inv c"
proof (induction rule: cores_reachable.induct)
  case (cores_boot a b c d e f g h w se)
  then show ?case using down_inv_start main_init_mailbox by blast
next
  case (cores_step c op)
  then show ?case using core_step_down_inv cores_m7_inv by blast
qed

section \<open>What the motor runs on\<close>

text \<open>The state that a remote run takes from its command.\<close>

definition runs_by :: "app_motor_command_message \<Rightarrow> m4_ipc \<times> motor \<Rightarrow> bool" where
  "runs_by e sm \<longleftrightarrow>
     command_words e ! APP_MOTOR_COMMAND_MODE \<noteq> 0
     \<and> command_words e ! APP_MOTOR_COMMAND_CONTROL AND APP_MOTOR_COMMAND_RUN \<noteq> 0
     \<and> m4_remote_timeout_ms (fst sm) = command_words e ! APP_MOTOR_COMMAND_TIMEOUT_MS
     \<and> motor_target_duty_permille (snd sm) = command_words e ! APP_MOTOR_COMMAND_DUTY_PERMILLE
     \<and> motor_run_ramp_permille_per_second (snd sm) = command_words e ! APP_MOTOR_COMMAND_ACCEL_RAMP
     \<and> motor_stop_ramp_permille_per_second (snd sm) = command_words e ! APP_MOTOR_COMMAND_DECEL_RAMP"

definition remote_running :: "m4_ipc \<times> motor \<Rightarrow> bool" where
  "remote_running sm \<longleftrightarrow> m4_remote_mode (fst sm) \<and> motor_state (snd sm) = APP_MOTOR_STATE_RUNNING"

definition motor_settings :: "motor \<Rightarrow> u16 \<times> u16 \<times> u16" where
  "motor_settings m =
     (motor_target_duty_permille m, motor_run_ramp_permille_per_second m, motor_stop_ramp_permille_per_second m)"

lemma motor_settings_safe [simp]:
  "motor_settings (snd (motor_make_safe drv m)) = motor_settings m"
  by (simp add: motor_settings_def motor_make_safe_def motor_call_drv_def Let_def case_prod_beta)

lemma motor_settings_steps [simp]:
  "motor_settings (snd (app_motor_stop m)) = motor_settings m"
  "motor_settings (snd (app_motor_quick_stop drv m)) = motor_settings m"
  "motor_settings (snd (app_motor_reset drv m)) = motor_settings m"
  "motor_settings (snd (app_motor_set_direction d m)) = motor_settings m"
  "motor_settings (motor_record_fault drv ret m) = motor_settings m"
  using motor_settings_safe [of drv m, unfolded motor_settings_def] motor_settings_safe [of drv "snd (motor_make_safe drv m)", unfolded motor_settings_def]
  by (auto simp: app_motor_stop_def app_motor_quick_stop_def app_motor_reset_def app_motor_set_direction_def
      motor_record_fault_def motor_settings_def Let_def case_prod_beta)

lemma motor_settings_pwm [simp]:
  "motor_settings (snd (motor_set_pwm drv d m)) = motor_settings m"
  "motor_settings (snd (motor_apply_direction drv m)) = motor_settings m"
  by (auto simp: motor_set_pwm_def motor_apply_direction_def motor_call_drv_def Let_def case_prod_beta)
    (auto simp: motor_settings_def)

lemma motor_settings_start [simp]: "motor_settings (snd (app_motor_start drv m)) = motor_settings m"
  using motor_settings_pwm(1) [of drv MOTOR_START_BOOST_PERMILLE "snd (motor_apply_direction drv m)"] motor_settings_pwm(2) [of drv m]
  by (auto simp: app_motor_start_def Let_def case_prod_beta motor_settings_def)

lemma motor_settings_process [simp]: "motor_settings (snd (app_motor_process drv e m)) = motor_settings m"
proof -
  have r: "motor_settings (snd (motor_ramp_towards drv t step m)) = motor_settings m" for t step m
    by (simp add: motor_ramp_towards_def)
  have s: "motor_settings (m\<lparr>motor_state := st\<rparr>) = motor_settings m" "motor_settings (m\<lparr>motor_boost_remaining_ms := n\<rparr>) = motor_settings m" for m st n
    by (simp_all add: motor_settings_def)
  show ?thesis by (simp add: app_motor_process_def Let_def case_prod_beta r s)
qed

text \<open>A command that leaves the motor running in remote mode is a remote one with \<open>RUN\<close>, and its words
  are in force.\<close>

lemma apply_remote_control_settings:
  "motor_settings (snd (snd (apply_remote_control drv control (s, m)))) = motor_settings m"
  by (simp add: apply_remote_control_def Let_def case_prod_beta)

lemma quick_stop_not_running: "motor_state (snd (app_motor_quick_stop drv m)) \<noteq> APP_MOTOR_STATE_RUNNING"
  by (auto simp: app_motor_quick_stop_def motor_record_fault_def Let_def case_prod_beta)

lemma set_direction_state: "motor_state (snd (app_motor_set_direction d m)) = motor_state m"
  by (simp add: app_motor_set_direction_def)

lemma apply_remote_control_not_running:
  assumes "control AND APP_MOTOR_COMMAND_RUN = 0"
  shows "motor_state (snd (snd (apply_remote_control drv control (s, m)))) \<noteq> APP_MOTOR_STATE_RUNNING"
  using assms app_motor_stop_not_running [of m] quick_stop_not_running [of drv m] app_motor_reset_not_running [of drv m]
  by (simp add: apply_remote_control_def Let_def case_prod_beta set_direction_state)

lemma command_settings:
  "motor_settings (command_motor e m) =
     (command_words e ! APP_MOTOR_COMMAND_DUTY_PERMILLE, command_words e ! APP_MOTOR_COMMAND_ACCEL_RAMP,
      command_words e ! APP_MOTOR_COMMAND_DECEL_RAMP)"
  by (simp add: motor_settings_def command_motor_def)

lemma apply_remote_command_runs:
  assumes valid: "command_is_valid e len" and run: "remote_running (snd (apply_remote_command drv now e (s, m)))"
  shows "runs_by e (snd (apply_remote_command drv now e (s, m)))"
proof (cases "command_words e ! APP_MOTOR_COMMAND_MODE = 0")
  case True
  then show ?thesis
    using run app_motor_stop_fault reset_failed [of drv m] app_motor_stop_not_running
    by (auto simp: apply_remote_command_def Let_def case_prod_beta remote_running_def app_motor_stop_def
        split: if_splits)
next
  case False
  define control where "control = command_words e ! APP_MOTOR_COMMAND_CONTROL"
  note eq = apply_remote_command_valid [OF valid False control_def, of drv now s m]
  have "control AND APP_MOTOR_COMMAND_RUN \<noteq> 0"
    using run apply_remote_control_not_running [of control drv "command_ipc now e s" "command_motor e m"]
    by (auto simp: eq remote_running_def Let_def case_prod_beta split: if_splits)
  moreover have "motor_settings (snd (snd (apply_remote_command drv now e (s, m)))) = motor_settings (command_motor e m)"
    by (simp add: eq Let_def case_prod_beta apply_remote_control_settings)
  moreover note apply_remote_command_remote(4) [OF False, of drv now s m]
  ultimately show ?thesis using False by (simp add: runs_by_def control_def command_settings) (simp add: motor_settings_def)
qed

text \<open>The rest of a turn keeps what a running remote motor has.\<close>

definition run_words :: "m4_ipc \<times> motor \<Rightarrow> u16 \<times> u16 \<times> u16 \<times> u16" where
  "run_words sm = (m4_remote_timeout_ms (fst sm), motor_settings (snd sm))"

lemma runs_by_cong: "run_words sm' = run_words sm \<Longrightarrow> runs_by e sm \<Longrightarrow> runs_by e sm'"
  by (simp add: runs_by_def run_words_def motor_settings_def)

lemma process_timeout_run_words:
  assumes "remote_running (process_remote_timeout now sm)"
  shows "remote_running sm" "run_words (process_remote_timeout now sm) = run_words sm"
  using assms app_motor_stop_not_running [of "snd sm"]
  by (auto simp: process_remote_timeout_def remote_running_def run_words_def split: prod.splits if_splits)

lemma handle_duty_run_words:
  assumes "remote_running (m4_handle_duty drv ret d sm)"
  shows "m4_handle_duty drv ret d sm = sm"
  using assms
  by (auto simp: m4_handle_duty_def remote_running_def app_motor_fail_def motor_record_fault_def
      app_ipc_is_remote_mode_def split: prod.splits if_splits option.splits)

lemma handle_events_run_words:
  assumes "remote_running (m4_handle_events drv ev sm)"
  shows "m4_handle_events drv ev sm = sm"
  using assms app_motor_stop_not_running [of "snd sm"] app_motor_reset_not_running [of drv "snd sm"]
  by (auto simp: m4_handle_events_def remote_running_def app_ipc_is_remote_mode_def Let_def split: prod.splits if_splits)

lemma turn_run_words:
  fixes drv leds i w
  defines "p \<equiv> fst (app_ipc_process_m4 drv (in_now_command i) (in_now_timeout i) (in_send_ret i) (m4_link w, m4_motor w))"
    and "w' \<equiv> fst (m4_main_iteration drv leds i w)"
  assumes run: "remote_running (m4_link w', m4_motor w')"
  shows "remote_running p" "run_words (m4_link w', m4_motor w') = run_words p"
proof -
  let ?t = "turn_sm drv i w"
  let ?e = "m4_handle_events drv (turn_events i w) ?t"
  obtain now b q l m where link: "m4_link w' = fst (app_ipc_publish_motor_state now b q l (fst ?e) m)"
    using m4_turn_link [of drv leds i w] unfolding w'_def by blast
  then have timeout: "m4_remote_timeout_ms (m4_link w') = m4_remote_timeout_ms (fst ?e)"
    "m4_remote_mode (m4_link w') = m4_remote_mode (fst ?e)"
    using publish_deadman [of "fst ?e" now b q l m] by (simp_all add: same_deadman_def)
  have motor: "m4_motor w' = snd (app_motor_process drv 10 (snd ?e))" by (simp add: w'_def m4_turn_motor)
  have "remote_running ?e"
    using run timeout app_motor_process_not_running [of "snd ?e" drv 10] by (auto simp: remote_running_def motor)
  note e = handle_events_run_words [OF this]
  have "remote_running ?t" using \<open>remote_running ?e\<close> e by simp
  then have t: "?t = p" unfolding turn_sm_def p_def by (rule handle_duty_run_words)
  show "remote_running p" using \<open>remote_running ?t\<close> t by simp
  show "run_words (m4_link w', m4_motor w') = run_words p"
    using e t timeout by (simp add: run_words_def motor)
qed

section \<open>The commands the Cortex-M7 sends\<close>

definition outbox_inv :: "cores \<Rightarrow> bool" where
  "outbox_inv c \<longleftrightarrow> list_all (\<lambda>b. m7_message b \<or> ping_message b) (co_outbox c)"

lemma outbox_inv_extend:
  "outbox_inv c \<Longrightarrow> co_outbox c' = co_outbox c @ new \<Longrightarrow> list_all (\<lambda>b. m7_message b \<or> ping_message b) new \<Longrightarrow>
   outbox_inv c'"
  by (simp add: outbox_inv_def)

lemma outbox_inv_same: "outbox_inv c \<Longrightarrow> co_outbox c' = co_outbox c \<Longrightarrow> outbox_inv c'"
  by (simp add: outbox_inv_def)

lemma other_outbox:
  "co_outbox (core_step drv (Ping_finish a b) c) = co_outbox c"
  "co_outbox (core_step drv (Control_turn leds i taken) c) = co_outbox c"
  "co_outbox (core_step drv M4_link_bound c) = co_outbox c"
  "co_outbox (core_step drv M4_link_unbound c) = co_outbox c"
  "co_outbox (core_step drv Deliver_down c) = co_outbox c"
  "co_outbox (core_step drv (Deliver_up now) c) = co_outbox c"
  "co_outbox (core_step drv (Lose_down k) c) = co_outbox c"
  "co_outbox (core_step drv (Lose_up k) c) = co_outbox c"
  by (simp_all add: core_step_def co_outbox_def co_link_def control_turn_def ping_end_def endpoint_received_m7_def
      Let_def case_prod_beta split: list.split)

lemma core_step_outbox_inv:
  assumes "outbox_inv c" and "sys_inv (co_m7 c)"
  shows "outbox_inv (core_step drv op c)"
proof (cases op)
  case (Service p)
  show ?thesis
  proof (cases "receives p")
    case False
    then obtain new where n: "m7_outbox (m7_link (sy_m7 (sys_step p (co_m7 c)))) = co_outbox c @ new" "list_all m7_message new"
      using service_outbox assms(2) by blast
    then have "list_all (\<lambda>b. m7_message b \<or> ping_message b) new" by (auto simp: list_all_iff)
    from outbox_inv_extend [OF assms(1) run_m7_outbox(1) [OF n(1)] this] False show ?thesis
      by (simp add: core_step_def Service)
  qed (use assms in \<open>simp add: core_step_def Service\<close>)
next
  case (Ping_send send)
  show ?thesis
  proof (cases "co_pinging c")
    case False
    obtain new where n: "m7_outbox (snd (snd (ping_begin send (co_link c)))) = co_outbox c @ new" "list_all ping_message new"
      using ping_begin_outbox [of send "co_link c"] by (metis co_outbox_def)
    then have "list_all (\<lambda>b. m7_message b \<or> ping_message b) new"
      and "co_outbox (core_step drv op c) = co_outbox c @ new"
      using False by (auto simp: list_all_iff core_step_def Ping_send case_prod_beta co_outbox_def co_link_def)
    then show ?thesis using outbox_inv_extend [OF assms(1)] by blast
  qed (use assms in \<open>simp add: core_step_def Ping_send\<close>)
qed (use outbox_inv_same [OF assms(1)] other_outbox in \<open>simp_all\<close>)

lemma cores_outbox_inv: "cores_reachable drv c \<Longrightarrow> outbox_inv c"
proof (induction rule: cores_reachable.induct)
  case (cores_boot a b c d e f g h w se)
  then show ?case by (simp add: outbox_inv_def cores_start_def co_outbox_def co_link_def main_start_link)
next
  case (cores_step c op)
  then show ?case using core_step_outbox_inv cores_m7_inv by blast
qed

lemma ping_no_command: "ping_message b \<Longrightarrow> \<not> command_buffer b"
  by (auto simp: ping_message_def command_buffer_def command_is_valid_def Let_def sizeof_defs split: if_splits)

text \<open>A command the Cortex-M4 accepts is one the Cortex-M7 built from a submitted one.\<close>

lemma valid_commands_submitted:
  assumes "outbox_inv c" and "e \<in> set (valid_commands (co_outbox c))"
  obtains remote s where "m7_command_ok s" "e = remote_message remote s"
proof -
  obtain b where "b \<in> set (co_outbox c)" "command_buffer b" "e = command_of b"
    using assms(2) by (auto simp: valid_commands_def)
  then show thesis
    using assms(1) ping_no_command that by (auto simp: outbox_inv_def list_all_iff m7_message_def)
qed

section \<open>The motor and the last command\<close>

definition command_runs :: "cores \<Rightarrow> bool" where
  "command_runs c \<longleftrightarrow> (remote_running (m4_link (co_m4 c), m4_motor (co_m4 c)) \<longrightarrow>
     co_executed c \<noteq> [] \<and> runs_by (last (co_executed c)) (m4_link (co_m4 c), m4_motor (co_m4 c)))"

lemma process_m4_run_words:
  fixes drv a b r s m
  defines "p \<equiv> fst (app_ipc_process_m4 drv a b r (s, m))"
  assumes "remote_running p"
  shows "remote_running (process_pending_command drv a (s, m))"
    and "run_words p = run_words (process_pending_command drv a (s, m))"
proof -
  have q: "run_words p = run_words (process_remote_timeout b (process_pending_command drv a (s, m)))"
    "remote_running p = remote_running (process_remote_timeout b (process_pending_command drv a (s, m)))"
    by (simp_all add: p_def app_ipc_process_m4_def Let_def case_prod_beta run_words_def remote_running_def)
  then show "remote_running (process_pending_command drv a (s, m))"
    "run_words p = run_words (process_pending_command drv a (s, m))"
    using process_timeout_run_words assms(2) by simp_all
qed

lemma command_runs_turn:
  assumes "command_runs c" and "m4_inv (co_m4 c)"
  shows "command_runs (control_turn drv leds i taken c)"
proof -
  let ?w = "co_m4 c" and ?w' = "fst (m4_main_iteration drv leds i (co_m4 c))"
  let ?q = "process_pending_command drv (in_now_command i) (m4_link ?w, m4_motor ?w)"
  have x: "co_executed (control_turn drv leds i taken c) = co_executed c @ mailbox (m4_link ?w)"
    by (simp add: control_turn_def Let_def case_prod_beta mailbox_def)
  have "co_executed c @ mailbox (m4_link ?w) \<noteq> []
      \<and> runs_by (last (co_executed c @ mailbox (m4_link ?w))) (m4_link ?w', m4_motor ?w')"
    if run: "remote_running (m4_link ?w', m4_motor ?w')"
  proof -
    note t = turn_run_words [OF run]
    note p = process_m4_run_words [OF t(1)]
    have words: "run_words (m4_link ?w', m4_motor ?w') = run_words ?q" using t(2) p(2) by simp
    show ?thesis
    proof (cases "m4_command_pending (m4_link ?w)")
      case True
      then have valid: "command_is_valid (m4_pending_command (m4_link ?w)) sizeof_command"
        using assms(2) by (simp add: m4_inv_def m4_ipc_inv_def)
      have "?q = snd (apply_remote_command drv (in_now_command i) (m4_pending_command (m4_link ?w))
          ((m4_link ?w)\<lparr>m4_command_pending := False\<rparr>, m4_motor ?w))"
        using True by (simp add: process_pending_command_def)
      then have "runs_by (m4_pending_command (m4_link ?w)) ?q"
        using apply_remote_command_runs [OF valid] p(1) by simp
      then show ?thesis using runs_by_cong [OF words] True by (simp add: mailbox_def)
    next
      case False
      then have "?q = (m4_link ?w, m4_motor ?w)" by (simp add: process_pending_command_def)
      then show ?thesis using assms(1) p(1) runs_by_cong [OF words] False by (simp add: command_runs_def mailbox_def)
    qed
  qed
  then show ?thesis by (simp add: command_runs_def x)
qed

lemma core_step_command_runs:
  assumes "command_runs c" and "m4_inv (co_m4 c)"
  shows "command_runs (core_step drv op c)"
proof (cases op)
  case (Control_turn leds i taken)
  then show ?thesis using command_runs_turn [OF assms] by (simp add: core_step_def)
next
  case Deliver_down
  have "m4_remote_mode (endpoint_received_m4 b s) = m4_remote_mode s"
    "m4_remote_timeout_ms (endpoint_received_m4 b s) = m4_remote_timeout_ms s" for b s
    by (simp_all add: endpoint_received_m4_def Let_def)
  with assms(1) show ?thesis
    by (auto simp: Deliver_down core_step_def command_runs_def remote_running_def runs_by_def split: list.split)
qed (use assms(1) in \<open>simp_all add: core_step_def command_runs_def case_prod_beta remote_running_def runs_by_def
    endpoint_bound_callback_m4_def endpoint_unbound_callback_m4_def split: list.split\<close>)

lemma cores_command_runs: "cores_reachable drv c \<Longrightarrow> command_runs c"
proof (induction rule: cores_reachable.induct)
  case (cores_boot a b c d e f g h w se)
  then have "m4_remote_mode (m4_link w) = False"
    by (cases a) (auto simp: m4_main_init_def m4_boot_def m4_ipc_boot_def app_ipc_init_m4_def Let_def
        case_prod_beta split: if_splits)
  then show ?case by (simp add: command_runs_def cores_start_def remote_running_def)
next
  case (cores_step c op)
  then show ?case using core_step_command_runs m4_reachable_inv [OF cores_m4_boot] by blast
qed

section \<open>States on their way back\<close>

text \<open>The buffers the callback of the Cortex-M7 takes for a state message, and what the words of one tell
  of the Cortex-M4.\<close>

definition state_buffer :: "u8 list \<Rightarrow> bool" where
  "state_buffer b \<longleftrightarrow> length b = sizeof_state
     \<and> frame_magic (frame_of b) = APP_IPC_FRAME_MAGIC \<and> frame_version (frame_of b) = APP_IPC_FRAME_VERSION
     \<and> frame_type (frame_of b) = APP_IPC_FRAME_MOTOR_STATE
     \<and> frame_payload_length (frame_of b) = of_nat (APP_MOTOR_STATE_WORD_COUNT * 2)"

definition describes :: "u16 list \<Rightarrow> m4 \<Rightarrow> bool" where
  "describes words w \<longleftrightarrow>
     words ! APP_MOTOR_STATE_FLAGS = motor_state_flags (m4_link w) (m4_motor w)
     \<and> words ! APP_MOTOR_STATE_APPLIED_DUTY_PERMILLE = motor_duty_permille (m4_motor w)
     \<and> words ! APP_MOTOR_STATE_TARGET_DUTY_PERMILLE = motor_target_duty_permille (m4_motor w)
     \<and> words ! APP_MOTOR_STATE_DIRECTION = of_nat (direction_code (motor_direction (m4_motor w)))
     \<and> words ! APP_MOTOR_STATE_LAST_ACCEPTED_SEQUENCE = m4_last_accepted_sequence (m4_link w)"

lemma publish_describes:
  assumes "app_ipc_publish_motor_state now buttons pot loop_ms s m = (s', Some b)"
  shows "state_buffer b" "m4_link w = s' \<Longrightarrow> m4_motor w = m \<Longrightarrow> describes (state_words (state_of b)) w"
proof -
  have b: "b = state_bytes \<lparr>state_header = frame_init_m4 APP_IPC_FRAME_MOTOR_STATE (m4_state_sequence s + 1) 24,
      state_words = [motor_state_flags s m, motor_duty_permille m, motor_target_duty_permille m,
        of_nat (direction_code (motor_direction m)), u16_of_int (motor_last_error m), buttons, pot,
        (if m4_remote_mode s then ucast (now - m4_remote_command_timestamp_ms s) else 0), loop_ms,
        m4_state_heartbeat s + 1, m4_last_accepted_sequence s, 0]\<rparr>"
    and s': "motor_state_flags s' m = motor_state_flags s m" "m4_last_accepted_sequence s' = m4_last_accepted_sequence s"
    using assms by (auto simp: app_ipc_publish_motor_state_def motor_state_flags_def Let_def sizeof_defs
        motor_state_flag_def split: if_splits)
  show "state_buffer b"
    by (simp add: b state_buffer_def sizeof_defs state_bytes_def frame_init_m4_def)
  show "m4_link w = s' \<Longrightarrow> m4_motor w = m \<Longrightarrow> describes (state_words (state_of b)) w"
    by (simp add: b describes_def s' c_def)
qed

text \<open>What a turn sends: a PONG, which is no state message, and the state of its end.\<close>

definition pong_message :: "u8 list \<Rightarrow> bool" where
  "pong_message b \<longleftrightarrow> (\<exists>sequence. b = frame_bytes (frame_init_m4 APP_IPC_FRAME_PONG sequence 0))"

lemma pong_no_state: "pong_message b \<Longrightarrow> \<not> state_buffer b"
  by (auto simp: pong_message_def state_buffer_def sizeof_defs)

lemma turn_sends:
  assumes "m4_main_iteration drv leds i w = (w', pong, state, levels)"
  shows "pong = Some b \<Longrightarrow> pong_message b"
    and "state = Some b \<Longrightarrow> state_buffer b \<and> describes (state_words (state_of b)) w'"
proof -
  show "pong = Some b \<Longrightarrow> pong_message b"
    using assms by (auto simp: m4_main_iteration_def app_ipc_process_m4_def pong_message_def Let_def case_prod_beta
        split: if_splits)
  assume s: "state = Some b"
  define p where "p = app_ipc_publish_motor_state (in_now_publish i)
      (app_motor_buttons_get_state (snd (app_motor_buttons_poll (in_pins i) (m4_buttons w))))
      (app_motor_potentiometer_get_raw (snd (snd (app_motor_potentiometer_poll (in_adc_sequence_ret i) (in_adc_read_ret i)
         (in_adc_sample i) (m4_pot w))))) (of_nat MOTOR_LOOP_PERIOD_MS)
      (fst (m4_handle_events drv (turn_events i w) (turn_sm drv i w)))"
  have w': "m4_link w' = fst (p (m4_motor w'))" "state = snd (p (m4_motor w'))"
    using assms by (auto simp: m4_main_iteration_def turn_sm_def turn_events_def p_def Let_def case_prod_beta)
  then have "p (m4_motor w') = (m4_link w', Some b)" using s by (simp add: prod_eq_iff)
  from publish_describes(1) [OF this [unfolded p_def]] publish_describes(2) [OF this [unfolded p_def], of w']
  show "state_buffer b \<and> describes (state_words (state_of b)) w'" by simp
qed

definition state_messages :: "u8 list list \<Rightarrow> u8 list list" where
  "state_messages bs = filter state_buffer bs"

lemma state_messages_append [simp]: "state_messages (bs @ cs) = state_messages bs @ state_messages cs"
  by (simp add: state_messages_def)

definition up_inv :: "cores \<Rightarrow> bool" where
  "up_inv c \<longleftrightarrow> subseq (state_messages (co_seen c @ co_up c)) (List.map snd (co_turns c))
     \<and> (\<forall>(w, b) \<in> set (co_turns c). describes (state_words (state_of b)) w)"

definition cache_inv :: "cores \<Rightarrow> bool" where
  "cache_inv c \<longleftrightarrow>
     (let cache = m7_motor_state_cache (co_link c); seen = state_messages (co_seen c)
      in ms_valid cache = (seen \<noteq> [])
         \<and> (ms_valid cache \<longrightarrow> ms_words cache = state_words (state_of (last seen))
              \<and> ms_sequence cache = frame_sequence (frame_of (last seen))))"

lemma up_inv_turn:
  assumes "up_inv c"
  shows "up_inv (control_turn drv leds i taken c)"
proof -
  obtain w' pong state levels where t: "m4_main_iteration drv leds i (co_m4 c) = (w', pong, state, levels)"
    by (metis prod.exhaust)
  define pongs where "pongs = (case pong of Some b \<Rightarrow> if in_send_ret i < 0 then [] else [b] | None \<Rightarrow> [])"
  define states where "states = (case state of Some b \<Rightarrow> if taken then [b] else [] | None \<Rightarrow> [])"
  have "state_messages pongs = []"
    using turn_sends(1) [OF t] pong_no_state by (auto simp: pongs_def state_messages_def split: option.split)
  moreover have "state_messages states = states" and "\<forall>b \<in> set states. describes (state_words (state_of b)) w'"
    using turn_sends(2) [OF t] by (auto simp: states_def state_messages_def split: option.split)
  moreover have "co_seen (control_turn drv leds i taken c) = co_seen c"
    "co_up (control_turn drv leds i taken c) = co_up c @ pongs @ states"
    "co_turns (control_turn drv leds i taken c) = co_turns c @ List.map (Pair w') states"
    by (simp_all add: control_turn_def t pongs_def states_def Let_def)
  moreover have "subseq (state_messages (co_seen c @ co_up c) @ states) (List.map snd (co_turns c) @ states)"
    using assms by (intro list_emb_append_mono) (simp_all add: up_inv_def)
  ultimately show ?thesis using assms by (auto simp: up_inv_def comp_def)
qed

lemma core_step_up_inv:
  assumes "up_inv c"
  shows "up_inv (core_step drv op c)"
proof (cases op)
  case (Control_turn leds i taken)
  then show ?thesis using up_inv_turn [OF assms] by (simp add: core_step_def)
next
  case (Lose_up k)
  have "subseq (co_seen c @ without k (co_up c)) (co_seen c @ co_up c)"
    by (rule list_emb_append_mono) (simp_all add: subseq_without)
  then have "subseq (state_messages (co_seen c @ without k (co_up c))) (state_messages (co_seen c @ co_up c))"
    unfolding state_messages_def by (rule subseq_filter)
  then have "subseq (state_messages (co_seen c @ without k (co_up c))) (List.map snd (co_turns c))"
    using assms subseq_order.trans unfolding up_inv_def by blast
  then show ?thesis using assms by (simp add: Lose_up core_step_def up_inv_def)
next
  case (Deliver_up now)
  have "co_seen (core_step drv op c) @ co_up (core_step drv op c) = co_seen c @ co_up c"
    and "co_turns (core_step drv op c) = co_turns c"
    by (simp_all add: Deliver_up core_step_def split: list.split)
  with assms show ?thesis unfolding up_inv_def by simp
qed (use assms in \<open>simp_all add: core_step_def up_inv_def case_prod_beta split: list.split\<close>)

lemma received_state:
  "m7_motor_state_cache (endpoint_received_m7 now b l) =
     (if state_buffer b
      then (m7_motor_state_cache l)\<lparr>ms_words := state_words (state_of b), ms_sequence := frame_sequence (frame_of b),
             ms_age_ms := now, ms_valid := True\<rparr>
      else m7_motor_state_cache l)"
  by (auto simp: endpoint_received_m7_def state_buffer_def Let_def c_def sizeof_defs)

lemma cache_inv_cong:
  "cache_inv c \<Longrightarrow> m7_motor_state_cache (co_link c') = m7_motor_state_cache (co_link c) \<Longrightarrow>
   co_seen c' = co_seen c \<Longrightarrow> cache_inv c'"
  by (simp add: cache_inv_def)

lemma core_step_cache_inv:
  assumes "cache_inv c" and "sys_inv (co_m7 c)"
  shows "cache_inv (core_step drv op c)"
proof (cases op)
  case (Service p)
  have "\<not> receives p \<Longrightarrow> m7_motor_state_cache (m7_link (sy_m7 (sys_step p (co_m7 c)))) = m7_motor_state_cache (co_link c)"
    using sys_step_sends [of "co_m7 c" p] assms(2) by (simp add: sys_inv_def link_sends_def co_link_def)
  then show ?thesis
    using cache_inv_cong [OF assms(1)] assms(1) by (simp add: core_step_def Service co_link_def)
next
  case (Ping_send send)
  have "m7_motor_state_cache (snd (snd (ping_begin send l))) = m7_motor_state_cache l" for l
    by (simp add: ping_begin_def Let_def case_prod_beta)
  then show ?thesis
    using cache_inv_cong [OF assms(1)] assms(1) by (simp add: core_step_def Ping_send co_link_def case_prod_beta)
next
  case (Ping_finish a b)
  have "m7_motor_state_cache (snd (snd (ping_end a b l))) = m7_motor_state_cache l" for l
    by (simp add: ping_end_def Let_def)
  then show ?thesis
    using cache_inv_cong [OF assms(1)] assms(1) by (simp add: core_step_def Ping_finish co_link_def)
next
  case (Deliver_up now)
  then show ?thesis
    using assms(1) by (auto simp: core_step_def cache_inv_def co_link_def received_state state_messages_def Let_def
        split: list.split)
qed (use cache_inv_cong [OF assms(1)] assms(1) in
    \<open>simp_all add: core_step_def control_turn_def Let_def case_prod_beta co_link_def split: list.split\<close>)

lemma cores_up_inv: "cores_reachable drv c \<Longrightarrow> up_inv c"
  by (induction rule: cores_reachable.induct)
    (simp_all add: core_step_up_inv, simp add: up_inv_def cores_start_def state_messages_def)

lemma cores_cache_inv: "cores_reachable drv c \<Longrightarrow> cache_inv c"
proof (induction rule: cores_reachable.induct)
  case (cores_boot a b c d e f g h w se)
  then show ?case by (simp add: cache_inv_def cores_start_def co_link_def main_start_link state_messages_def)
next
  case (cores_step c op)
  then show ?case using core_step_cache_inv cores_m7_inv by blast
qed

section \<open>Acknowledged commands\<close>

text \<open>The acknowledged sequence number is 0 or that of a command the Cortex-M4 took up.\<close>

definition acked :: "app_motor_command_message list \<Rightarrow> m4 \<Rightarrow> bool" where
  "acked es w \<longleftrightarrow> m4_last_accepted_sequence (m4_link w)
     \<in> insert 0 ((\<lambda>e. command_words e ! APP_MOTOR_COMMAND_SEQUENCE) ` set es)"

definition ack_inv :: "cores \<Rightarrow> bool" where
  "ack_inv c \<longleftrightarrow> acked (co_executed c) (co_m4 c) \<and> (\<forall>w \<in> set (List.map fst (co_turns c)). acked (co_executed c) w)"

lemma acked_append: "acked es w \<Longrightarrow> acked (es @ es') w"
  by (auto simp: acked_def)

lemma process_pending_ack:
  "m4_last_accepted_sequence (fst (process_pending_command drv now (s, m))) = m4_last_accepted_sequence s
   \<or> m4_command_pending s \<and> m4_last_accepted_sequence (fst (process_pending_command drv now (s, m)))
       = command_words (m4_pending_command s) ! APP_MOTOR_COMMAND_SEQUENCE"
proof -
  have ctl: "m4_last_accepted_sequence (fst (snd (apply_remote_control drv control (s, m)))) = m4_last_accepted_sequence s"
    for control s m
    by (simp add: apply_remote_control_def Let_def case_prod_beta)
  show ?thesis
    by (auto simp: process_pending_command_def apply_remote_command_def Let_def case_prod_beta ctl)
qed

lemma turn_ack:
  assumes "acked es w"
  shows "acked (es @ mailbox (m4_link w)) (fst (m4_main_iteration drv leds i w))"
proof -
  have duty: "m4_last_accepted_sequence (fst (m4_handle_duty drv ret d sm)) = m4_last_accepted_sequence (fst sm)" for ret d sm
    by (auto simp: m4_handle_duty_def split: prod.splits option.splits)
  have events: "m4_last_accepted_sequence (fst (m4_handle_events drv ev sm)) = m4_last_accepted_sequence (fst sm)" for ev sm
    by (simp add: m4_handle_events_def app_ipc_latch_remote_stop_def app_ipc_clear_remote_stop_def Let_def split: prod.split)
  have timeout: "m4_last_accepted_sequence (fst (process_remote_timeout now sm)) = m4_last_accepted_sequence (fst sm)" for now sm
    by (simp add: process_remote_timeout_def Let_def split: prod.split)
  have process: "m4_last_accepted_sequence (fst (fst (app_ipc_process_m4 drv a b r sm)))
      = m4_last_accepted_sequence (fst (process_pending_command drv a sm))" for a b r sm
    by (simp add: app_ipc_process_m4_def timeout Let_def case_prod_beta)
  have publish: "m4_last_accepted_sequence (fst (app_ipc_publish_motor_state now b q l s m)) = m4_last_accepted_sequence s"
    for now b q l s m
    by (simp add: app_ipc_publish_motor_state_def Let_def)
  obtain now b q l m where "m4_link (fst (m4_main_iteration drv leds i w)) =
      fst (app_ipc_publish_motor_state now b q l (fst (m4_handle_events drv (turn_events i w) (turn_sm drv i w))) m)"
    using m4_turn_link [of drv leds i w] by blast
  then have "m4_last_accepted_sequence (m4_link (fst (m4_main_iteration drv leds i w)))
      = m4_last_accepted_sequence (fst (process_pending_command drv (in_now_command i) (m4_link w, m4_motor w)))"
    by (simp add: publish events turn_sm_def duty process)
  with process_pending_ack [of drv "in_now_command i" "m4_link w" "m4_motor w"] assms show ?thesis
    by (auto simp: acked_def mailbox_def)
qed

lemma core_step_ack_inv:
  assumes "ack_inv c"
  shows "ack_inv (core_step drv op c)"
proof (cases op)
  case (Control_turn leds i taken)
  let ?c = "control_turn drv leds i taken c"
  have x: "co_executed ?c = co_executed c @ mailbox (m4_link (co_m4 c))"
    by (simp add: control_turn_def Let_def case_prod_beta mailbox_def)
  have t: "set (List.map fst (co_turns ?c)) \<subseteq> insert (co_m4 ?c) (set (List.map fst (co_turns c)))"
    by (auto simp: control_turn_def Let_def case_prod_beta split: option.splits if_splits)
  have "acked (co_executed ?c) (co_m4 ?c)" using assms turn_ack by (simp add: ack_inv_def x)
  moreover have "acked (co_executed ?c) w" if "w \<in> set (List.map fst (co_turns c))" for w
    using assms that by (auto simp: ack_inv_def x intro!: acked_append)
  ultimately have "ack_inv ?c" using t unfolding ack_inv_def by blast
  then show ?thesis by (simp add: Control_turn core_step_def)
next
  case Deliver_down
  have "m4_last_accepted_sequence (endpoint_received_m4 b s) = m4_last_accepted_sequence s" for b s
    by (simp add: endpoint_received_m4_def Let_def)
  with assms show ?thesis by (auto simp: Deliver_down core_step_def ack_inv_def acked_def split: list.split)
qed (use assms in \<open>simp_all add: core_step_def ack_inv_def acked_def case_prod_beta
    endpoint_bound_callback_m4_def endpoint_unbound_callback_m4_def split: list.split\<close>)

lemma cores_ack_inv: "cores_reachable drv c \<Longrightarrow> ack_inv c"
proof (induction rule: cores_reachable.induct)
  case (cores_boot a b c d e f g h w se)
  then have "m4_last_accepted_sequence (m4_link w) = 0"
    by (cases a) (auto simp: m4_main_init_def m4_boot_def m4_ipc_boot_def app_ipc_init_m4_def Let_def
        case_prod_beta split: if_splits)
  then show ?case by (simp add: ack_inv_def acked_def cores_start_def)
qed (rule core_step_ack_inv)

section \<open>A concrete run\<close>

text \<open>The shell turns remote mode on and starts the motor; both messages arrive before the turn at time 5,
  whose state message arrives at time 6.\<close>

definition cores_example :: cores where
  "cores_example = cores_start (snd (snd (main_start (start_example\<lparr>se_ipc_ready := True\<rparr>) sys_boot))) m4_started"

definition ops_example :: "core_op list" where
  "ops_example = [Service Link_bound, M4_link_bound, Service (Shell m7_env_example M4_remote),
     Service (Shell m7_env_example M4_start), Deliver_down, Deliver_down, Control_turn False (idle_input 5) True, Deliver_up 6]"

lemma m4_started_init: "m4_main_init drv_zero (True, True, True) (\<lambda>_. True) (\<lambda>_. 0) True 0 True 0 0 m4_boot = (True, m4_started)"
proof -
  have "fst (m4_main_init drv_zero (True, True, True) (\<lambda>_. True) (\<lambda>_. 0) True 0 True 0 0 m4_boot)" by code_simp
  then show ?thesis by (simp add: m4_started_def prod_eq_iff)
qed

lemma cores_example_reachable: "cores_reachable drv_zero (core_run drv_zero ops cores_example)"
  unfolding cores_example_def by (rule cores_run_reachable [OF cores_boot [OF m4_started_init]])

text \<open>The link as the shell commands see and leave it.\<close>

definition link_started :: m7_ipc where
  "link_started = m7_ipc_boot\<lparr>m7_endpoint_initialized := True\<rparr>"

definition shell_link :: "u16 \<Rightarrow> m7_ipc \<Rightarrow> m7_ipc" where
  "shell_link control l =
     (let l = remote_set (\<lambda>rc. rc\<lparr>rc_enabled := True, rc_remote := True, rc_control := control,
                rc_duty_permille := APP_MOTOR_COMMAND_DUTY_MIN_PERMILLE, rc_timeout_ms := APP_IPC_REMOTE_TIMEOUT_MS,
                rc_source := APP_MOTOR_COMMAND_SOURCE_SHELL\<rparr>) l
      in (snd (snd (send_remote_command_locked (\<lambda>_. 36) True l)))\<lparr>m7_refresh_scheduled := True\<rparr>)"

definition link_example :: m7_ipc where
  "link_example = shell_link 3 (shell_link 1 (endpoint_bound_callback_m7 link_started))"

lemma start_link: "co_link cores_example = link_started"
proof -
  have start: "m7_link (snd (app_modbus_tcp_start e i1 i2 n1 n2 f1 f2 w)) = m7_link w" for e i1 i2 n1 n2 f1 f2 w
    by (simp add: app_modbus_tcp_start_def init_modbus_server_def Let_def case_prod_beta)
  have net: "m7_link (snd (start_settings se w)) = m7_link w" for se w
    by (simp add: start_settings_def case_prod_beta)
  show ?thesis
    by (simp add: cores_example_def cores_start_def co_link_def main_start_def start_services_def Let_def case_prod_beta
        start net app_ipc_init_m7_def start_example_def link_started_def sys_boot_def m7_boot_def m7_ipc_boot_def)
qed

definition ready_for :: "shell_command \<Rightarrow> u16 \<Rightarrow> m7_ipc \<Rightarrow> bool" where
  "ready_for q control l \<longleftrightarrow> m7_endpoint_initialized l \<and> m7_endpoint_is_bound l
     \<and> rc_duty_permille (m7_remote_command l) = APP_MOTOR_COMMAND_DUTY_MIN_PERMILLE
     \<and> rc_control (m7_remote_command l) AND APP_MOTOR_COMMAND_DIRECTION_REVERSE = 0
     \<and> (q = M4_remote \<and> control = 1 \<or> q = M4_start \<and> control = 3 \<and> rc_enabled (m7_remote_command l))"

lemma shell_example:
  assumes "ready_for q control (co_link c)"
  shows "co_link (core_step drv (Service (Shell m7_env_example q)) c) = shell_link control (co_link c)"
proof -
  have "m7_link (snd (snd (snd (run_shell m7_env_example q w)))) = shell_link control (m7_link w)"
    if "ready_for q control (m7_link w)" for w
    using that ipc_send_loop_success [of "\<lambda>_. 36" 0]
    by (auto simp: ready_for_def run_shell_def cmd_m4_remote_def cmd_m4_start_def report_remote_result_def
        remote_command_update_def shell_link_def send_remote_command_locked_def m7_env_example_def Let_def case_prod_beta
        remote_direction_bit_def remote_duty_def c_def)
  with assms show ?thesis by (simp add: core_step_def receives_def co_link_def sys_step_def sys_m7_def)
qed

lemma ready_examples:
  "ready_for M4_remote 1 (endpoint_bound_callback_m7 link_started)"
  "ready_for M4_start 3 (shell_link 1 (endpoint_bound_callback_m7 link_started))"
  unfolding link_started_def ready_for_def by code_simp+

lemma link_example_outbox: "map length (m7_outbox link_example) = [36, 36]"
  unfolding link_example_def link_started_def by code_simp

definition m4_received_example :: m4 where
  "m4_received_example = m4_started\<lparr>m4_link := fold endpoint_received_m4 (m7_outbox link_example)
     (endpoint_bound_callback_m4 (m4_link m4_started))\<rparr>"

lemma turn_example:
  "remote_running (m4_link (fst (m4_main_iteration drv_zero False (idle_input 5) m4_received_example)),
     m4_motor (fst (m4_main_iteration drv_zero False (idle_input 5) m4_received_example)))"
  unfolding m4_received_example_def link_example_def link_started_def by code_simp

lemma turn_example_sends:
  "fst (snd (m4_main_iteration drv_zero False (idle_input 5) m4_received_example)) = None"
  "case fst (snd (snd (m4_main_iteration drv_zero False (idle_input 5) m4_received_example))) of
     Some b \<Rightarrow> ms_valid (m7_motor_state_cache (endpoint_received_m7 6 b link_example)) | None \<Rightarrow> False"
  unfolding m4_received_example_def link_example_def link_started_def by code_simp+

text \<open>The run, step by step on the parts that change.\<close>

lemma service_example:
  "co_link (core_step drv (Service Link_bound) c) = endpoint_bound_callback_m7 (co_link c)"
  "receives p = False \<Longrightarrow> co_m4 (core_step drv (Service p) c) = co_m4 c"
  "receives p = False \<Longrightarrow> co_received (core_step drv (Service p) c) = co_received c"
  "receives p = False \<Longrightarrow> co_up (core_step drv (Service p) c) = co_up c"
  "receives p = False \<Longrightarrow> co_lost (core_step drv (Service p) c) = co_lost c"
  by (simp_all add: core_step_def receives_def co_link_def sys_step_def sys_m7_def run_m7_def)

lemma run_example_sent:
  defines "c \<equiv> core_run drv_zero (take 4 ops_example) cores_example"
  shows "co_link c = link_example" "co_down c = m7_outbox link_example" "\<not> co_lost c" "co_up c = []"
    "co_m4 c = m4_started\<lparr>m4_link := endpoint_bound_callback_m4 (m4_link m4_started)\<rparr>"
proof -
  have r: "receives Link_bound = False" "receives (Shell e p) = False" for e p by (simp_all add: receives_def)
  have m4: "co_link (core_step drv_zero M4_link_bound c) = co_link c" "co_received (core_step drv_zero M4_link_bound c) = co_received c"
    "co_up (core_step drv_zero M4_link_bound c) = co_up c" "co_lost (core_step drv_zero M4_link_bound c) = co_lost c"
    "co_m4 (core_step drv_zero M4_link_bound c) = (co_m4 c)\<lparr>m4_link := endpoint_bound_callback_m4 (m4_link (co_m4 c))\<rparr>" for c
    by (simp_all add: core_step_def co_link_def)
  have ops: "take 4 ops_example = [Service Link_bound, M4_link_bound, Service (Shell m7_env_example M4_remote),
      Service (Shell m7_env_example M4_start)]"
    by (simp add: ops_example_def)
  have l: "co_link (core_step drv_zero M4_link_bound (core_step drv_zero (Service Link_bound) cores_example))
      = endpoint_bound_callback_m7 link_started" (is "co_link ?c2 = _")
    by (simp add: m4 service_example(1) start_link)
  have 3: "co_link (core_step drv_zero (Service (Shell m7_env_example M4_remote)) ?c2)
      = shell_link 1 (endpoint_bound_callback_m7 link_started)" (is "co_link ?c3 = _")
    using shell_example [OF ready_examples(1) [folded l]] by (simp only: l)
  have 4: "co_link (core_step drv_zero (Service (Shell m7_env_example M4_start)) ?c3) = link_example"
    using shell_example [OF ready_examples(2) [folded 3]] by (simp only: 3 link_example_def)
  show "co_link c = link_example" using 4 by (simp add: c_def core_run_def ops)
  show lost: "\<not> co_lost c" and "co_up c = []"
    "co_m4 c = m4_started\<lparr>m4_link := endpoint_bound_callback_m4 (m4_link m4_started)\<rparr>"
    by (simp_all add: c_def core_run_def ops service_example(2-) r m4) (simp_all add: cores_example_def cores_start_def)
  have "co_received c = []"
    by (simp add: c_def core_run_def ops service_example(3) r m4) (simp add: cores_example_def cores_start_def)
  moreover have "down_inv c" unfolding c_def by (rule cores_down_inv [OF cores_example_reachable])
  ultimately show "co_down c = m7_outbox link_example"
    using lost \<open>co_link c = link_example\<close> by (simp add: down_inv_def co_outbox_def)
qed

lemma core_run_append: "core_run drv (ops @ ops') c = core_run drv ops' (core_run drv ops c)"
  by (simp add: core_run_def)

lemma core_step_turn: "core_step drv (Control_turn leds i taken) c = control_turn drv leds i taken c"
  by (simp add: core_step_def)

lemma run_example:
  defines "c \<equiv> core_run drv_zero ops_example cores_example"
  shows "co_m4 c = fst (m4_main_iteration drv_zero False (idle_input 5) m4_received_example)"
    and "ms_valid (m7_motor_state_cache (co_link c))"
    and "co_down c = []" "\<not> co_lost c"
    and "\<exists>b. co_link c = endpoint_received_m7 6 b link_example"
proof -
  define c4 where "c4 = core_run drv_zero (take 4 ops_example) cores_example"
  note 4 = run_example_sent [folded c4_def]
  obtain b1 b2 where b: "m7_outbox link_example = [b1, b2]"
    using link_example_outbox by (auto simp: map_eq_Cons_conv)
  define c6 where "c6 = core_step drv_zero Deliver_down (core_step drv_zero Deliver_down c4)"
  have 6: "co_m4 c6 = m4_received_example" "co_link c6 = link_example" "co_down c6 = []" "\<not> co_lost c6" "co_up c6 = []"
    using 4 by (simp_all add: c6_def core_step_def b m4_received_example_def co_link_def)
  have "drop 4 ops_example = [Deliver_down, Deliver_down, Control_turn False (idle_input 5) True, Deliver_up 6]"
    by (simp add: ops_example_def)
  moreover have "c = core_run drv_zero (drop 4 ops_example) c4"
    using core_run_append [of drv_zero "take 4 ops_example" "drop 4 ops_example" cores_example]
    unfolding append_take_drop_id c4_def c_def .
  ultimately have c: "c = core_step drv_zero (Deliver_up 6) (control_turn drv_zero False (idle_input 5) True c6)"
    by (simp add: c6_def core_run_def core_step_turn)
  obtain s where s: "fst (snd (snd (m4_main_iteration drv_zero False (idle_input 5) m4_received_example))) = Some s"
    "ms_valid (m7_motor_state_cache (endpoint_received_m7 6 s link_example))"
    using turn_example_sends(2) by (auto split: option.splits)
  let ?t = "control_turn drv_zero False (idle_input 5) True c6"
  have t: "co_up ?t = [s]" "co_link ?t = link_example" "co_down ?t = []" "\<not> co_lost ?t"
    using 6 turn_example_sends(1) s(1) by (simp_all add: control_turn_def Let_def case_prod_beta co_link_def)
  show "co_m4 c = fst (m4_main_iteration drv_zero False (idle_input 5) m4_received_example)"
    by (simp add: c core_step_def t(1) 6(1))
  show "ms_valid (m7_motor_state_cache (co_link c))" "co_down c = []" "\<not> co_lost c"
    "\<exists>b. co_link c = endpoint_received_m7 6 b link_example"
    using t s(2) by (auto simp: c core_step_def co_link_def)
qed

lemma subseq_set_subset: "subseq xs ys \<Longrightarrow> set xs \<subseteq> set ys"
  by (auto elim: list_emb_set)

lemma subseq_last: "subseq xs ys \<Longrightarrow> xs \<noteq> [] \<Longrightarrow> last xs \<in> set ys"
  using subseq_set_subset [of xs ys] last_in_set [of xs] by blast

lemma down_inv_executed:
  assumes "down_inv c"
  shows "subseq (co_executed c) (valid_commands (co_outbox c))"
proof -
  have "subseq (co_executed c) (co_executed c @ mailbox (m4_link (co_m4 c)))" by (rule list_emb_prefix) simp
  moreover have "subseq (co_received c) (co_received c @ co_down c)" by (rule list_emb_prefix) simp
  then have "subseq (co_received c) (co_outbox c)" using assms subseq_order.trans unfolding down_inv_def by blast
  then have "subseq (valid_commands (co_received c)) (valid_commands (co_outbox c))"
    unfolding valid_commands_def by (intro subseq_map subseq_filter)
  ultimately show ?thesis using assms subseq_order.trans unfolding down_inv_def by blast
qed

section \<open>Properties\<close>

text \<open>C1. The motor runs remotely only on command: in every reachable state of the two cores, whatever was
  lost, delayed or interleaved, a motor that is \<open>RUNNING\<close> in remote mode runs on the last command the Cortex-M4
  took up. That is a message the Cortex-M7 sent, built from a command that passed its range checks, with the
  \<open>RUN\<close> bit set, and its duty, ramps and timeout are the ones in force.\<close>

theorem motor_runs_on_command:
  assumes "cores_reachable drv c" and "m4_remote_mode (m4_link (co_m4 c))"
    and "motor_state (m4_motor (co_m4 c)) = APP_MOTOR_STATE_RUNNING"
  shows "\<exists>s. last (co_executed c) = remote_message True s \<and> co_executed c \<noteq> []
    \<and> remote_message True s \<in> set (valid_commands (co_outbox c)) \<and> m7_command_ok s
    \<and> rc_control (m7_remote_command s) AND APP_MOTOR_COMMAND_RUN \<noteq> 0
    \<and> motor_target_duty_permille (m4_motor (co_m4 c)) = rc_duty_permille (m7_remote_command s)
    \<and> motor_run_ramp_permille_per_second (m4_motor (co_m4 c)) = rc_accel_ramp (m7_remote_command s)
    \<and> motor_stop_ramp_permille_per_second (m4_motor (co_m4 c)) = rc_decel_ramp (m7_remote_command s)
    \<and> m4_remote_timeout_ms (m4_link (co_m4 c)) = rc_timeout_ms (m7_remote_command s)"
proof -
  have run: "co_executed c \<noteq> []" "runs_by (last (co_executed c)) (m4_link (co_m4 c), m4_motor (co_m4 c))"
    using cores_command_runs [OF assms(1)] assms(2,3) by (simp_all add: command_runs_def remote_running_def)
  note order = down_inv_executed [OF cores_down_inv [OF assms(1)]]
  have sent: "last (co_executed c) \<in> set (valid_commands (co_outbox c))"
    using subseq_last [OF order run(1)] .
  obtain remote s where s: "m7_command_ok s" "last (co_executed c) = remote_message remote s"
    using valid_commands_submitted [OF cores_outbox_inv [OF assms(1)] sent] by blast
  have "command_words (remote_message remote s) ! APP_MOTOR_COMMAND_MODE \<noteq> 0"
    using run(2) s(2) by (simp add: runs_by_def)
  then have "remote" by (cases remote) (auto simp: remote_message_def Let_def)
  then show ?thesis using run s sent by (intro exI [of _ s]) (simp add: runs_by_def remote_message_run del: One_nat_def)
qed

theorem motor_runs_on_command_witness:
  "co_executed (core_run drv_zero ops_example cores_example) \<noteq> []"
  using motor_runs_on_command [OF cores_example_reachable, of ops_example] turn_example
  by (auto simp: run_example(1) remote_running_def)

text \<open>C7. Commands are executed in order and at most once: the commands the Cortex-M4 took up are a
  subsequence of the valid ones the Cortex-M7 sent, word for word, whatever was lost. When nothing was lost and
  nothing is in flight, the newest one is in force after the next turn: an older one never overtakes it.\<close>

theorem commands_in_order:
  assumes "cores_reachable drv c"
  shows "subseq (co_executed c) (valid_commands (co_outbox c))
    \<and> (\<not> co_lost c \<longrightarrow> co_down c = [] \<longrightarrow> valid_commands (co_outbox c) \<noteq> [] \<longrightarrow>
         last (co_executed (core_step drv (Control_turn leds i taken) c)) = last (valid_commands (co_outbox c)))"
proof -
  note inv = cores_down_inv [OF assms]
  have "co_executed (core_step drv (Control_turn leds i taken) c) = co_executed c @ mailbox (m4_link (co_m4 c))"
    by (simp add: core_step_turn control_turn_def Let_def case_prod_beta mailbox_def)
  moreover have "\<not> co_lost c \<longrightarrow> co_down c = [] \<longrightarrow> co_received c = co_outbox c" using inv by (auto simp: down_inv_def)
  ultimately show ?thesis using down_inv_executed [OF inv] inv by (auto simp: down_inv_def)
qed

theorem commands_in_order_witness:
  "subseq (co_executed (core_run drv_zero ops_example cores_example))
     (valid_commands (co_outbox (core_run drv_zero ops_example cores_example)))"
  using commands_in_order [OF cores_example_reachable] by blast

text \<open>C8. What the Cortex-M7 shows is what the Cortex-M4 was: a valid cached motor state is that of a turn
  of the control loop. Its flags tell the motor's state, the mode, the timeout and the STOP latch at the end of
  that turn, and its words the applied and the target duty; the states arrive in the order of the turns; and
  the command it acknowledges is one the Cortex-M7 sent and the Cortex-M4 took up (0 before the first).\<close>

theorem state_view_truthful:
  assumes "cores_reachable drv c" and "ms_valid (m7_motor_state_cache (co_link c))"
    and "words = ms_words (m7_motor_state_cache (co_link c))"
  shows "\<exists>w b. (w, b) \<in> set (co_turns c) \<and> b = last (state_messages (co_seen c))
    \<and> subseq (state_messages (co_seen c)) (List.map snd (co_turns c))
    \<and> (words ! APP_MOTOR_STATE_FLAGS AND APP_MOTOR_STATE_FLAG_RUNNING \<noteq> 0 \<longleftrightarrow>
         motor_state (m4_motor w) = APP_MOTOR_STATE_RUNNING)
    \<and> (words ! APP_MOTOR_STATE_FLAGS AND APP_MOTOR_STATE_FLAG_FAULT \<noteq> 0 \<longleftrightarrow>
         motor_state (m4_motor w) = APP_MOTOR_STATE_FAULT)
    \<and> (words ! APP_MOTOR_STATE_FLAGS AND APP_MOTOR_STATE_FLAG_REMOTE \<noteq> 0 \<longleftrightarrow> m4_remote_mode (m4_link w))
    \<and> (words ! APP_MOTOR_STATE_FLAGS AND APP_MOTOR_STATE_FLAG_REMOTE_TIMEOUT \<noteq> 0 \<longleftrightarrow> m4_remote_timed_out (m4_link w))
    \<and> (words ! APP_MOTOR_STATE_FLAGS AND APP_MOTOR_STATE_FLAG_REMOTE_STOP_LATCH \<noteq> 0 \<longleftrightarrow>
         m4_remote_stop_latched (m4_link w))
    \<and> words ! APP_MOTOR_STATE_APPLIED_DUTY_PERMILLE = motor_duty_permille (m4_motor w)
    \<and> words ! APP_MOTOR_STATE_TARGET_DUTY_PERMILLE = motor_target_duty_permille (m4_motor w)
    \<and> words ! APP_MOTOR_STATE_LAST_ACCEPTED_SEQUENCE \<in>
        insert 0 ((\<lambda>e. command_words e ! APP_MOTOR_COMMAND_SEQUENCE) ` set (valid_commands (co_outbox c)))"
proof -
  let ?seen = "state_messages (co_seen c)"
  note up = cores_up_inv [OF assms(1)]
  have cache: "?seen \<noteq> []" "words = state_words (state_of (last ?seen))"
    using cores_cache_inv [OF assms(1)] assms(2,3) by (simp_all add: cache_inv_def Let_def)
  have "subseq ?seen (state_messages (co_seen c @ co_up c))" by simp (rule list_emb_prefix, simp)
  then have order: "subseq ?seen (List.map snd (co_turns c))" using up subseq_order.trans unfolding up_inv_def by blast
  then have "last ?seen \<in> set (List.map snd (co_turns c))" using cache(1) by (rule subseq_last)
  then obtain w where w: "(w, last ?seen) \<in> set (co_turns c)" by auto
  have desc: "describes words w" using up w cache(2) by (auto simp: up_inv_def)
  have "acked (co_executed c) w" using cores_ack_inv [OF assms(1)] w by (force simp: ack_inv_def)
  moreover have "set (co_executed c) \<subseteq> set (valid_commands (co_outbox c))"
    using down_inv_executed [OF cores_down_inv [OF assms(1)]] subseq_set_subset by blast
  ultimately have ack: "words ! APP_MOTOR_STATE_LAST_ACCEPTED_SEQUENCE \<in>
        insert 0 ((\<lambda>e. command_words e ! APP_MOTOR_COMMAND_SEQUENCE) ` set (valid_commands (co_outbox c)))"
    using desc unfolding acked_def describes_def by auto
  show ?thesis
    by (intro exI [of _ w] exI [of _ "last ?seen"] conjI w refl order ack)
      (use desc in \<open>simp_all add: describes_def motor_state_flags_bits\<close>)
qed

theorem state_view_truthful_witness:
  "co_turns (core_run drv_zero ops_example cores_example) \<noteq> []"
  using state_view_truthful [OF cores_example_reachable run_example(2) refl] by auto

end
