(* ===== verification/Modbus_Work.thy ===== *)
theory Modbus_Work
  imports Modbus_Service
begin

unbundle bit_operations_syntax

text \<open>
  The SAVE command of \<open>app_modbus_tcp.c\<close> with the interleavings left open: the tasks that write the command
  register (the Modbus server and the web server), the work queue \<open>modbus_cmd_workq\<close> and its thread. Every
  critical section under \<open>holding_regs_lock\<close> is one step, and so is every access outside it to what the tasks
  share. \<open>holding_command_wr\<close> of \<open>Modbus_Tcp\<close> is the same code run without interruption;
  \<open>save_command_answer\<close> states its answers and effects, and that some run of the steps has the same.

  Of Zephyr the steps use: \<open>k_work_submit_to_queue\<close> queues an item that is not queued, also while its handler
  runs; \<open>k_sem_give\<close> wakes a waiting task, or sets the count (limit 1) when none waits; \<open>k_sem_reset\<close> clears
  the count and makes the takes that wait fail.
\<close>

section \<open>Critical sections\<close>

text \<open>The write of the command register up to the wait: a value that is returned at once, or \<open>None\<close> when the
  task goes on to wait.\<close>

definition command_request :: "m7_env \<Rightarrow> u16 \<Rightarrow> m7 \<Rightarrow> int option \<times> m7" where
  "command_request e reg w =
     (let w = reg_set APP_MB_HREG_COMMAND reg w
      in if reg \<noteq> APP_MB_CMD_SAVE
         then (Some (- EINVAL), reg_set APP_MB_HREG_COMMAND APP_MB_CMD_NONE
                        (set_last_status (- EINVAL) (reg_set APP_MB_HREG_STATUS (u16_of_int (- EINVAL)) w)))
         else if mb_command_pending (m7_modbus w)
         then (Some (- EBUSY), reg_set APP_MB_HREG_COMMAND APP_MB_CMD_NONE
                       (set_last_status (- EBUSY) (reg_set APP_MB_HREG_STATUS (u16_of_int (- EBUSY)) w)))
         else
           let w = modbus_set (\<lambda>mb. mb\<lparr>mb_pending_command := reg, mb_command_pending := True\<rparr>) w;
               w = reg_set APP_MB_HREG_STATUS APP_MODBUS_STATUS_PENDING w;
               w = set_last_status (s16_of_u16 APP_MODBUS_STATUS_PENDING) w;
               w = modbus_set (\<lambda>mb. mb\<lparr>mb_command_done := False\<rparr>) w;
               submit_ret = me_submit_ret e
           in if submit_ret < 0
              then (Some submit_ret, modbus_set (\<lambda>mb. mb\<lparr>mb_command_pending := False\<rparr>)
                      (reg_set APP_MB_HREG_COMMAND APP_MB_CMD_NONE
                        (set_last_status submit_ret (reg_set APP_MB_HREG_STATUS (u16_of_int submit_ret) w))))
              else (None, w))"

text \<open>The expiry of the wait.\<close>

definition command_timeout :: "m7 \<Rightarrow> m7" where
  "command_timeout w = set_last_status (- ETIMEDOUT) (reg_set APP_MB_HREG_STATUS (u16_of_int (- ETIMEDOUT)) w)"

text \<open>What \<open>save_holding_regs_config\<close> reads under the lock.\<close>

definition save_snapshot :: "m7_env \<Rightarrow> m7 \<Rightarrow> int + net_cfg_data" where
  "save_snapshot e w =
     (if of_nat NET_CFG_STATIC < reg_get APP_MB_HREG_MODE w then Inl (- EINVAL)
      else Inr \<lparr>nd_mode = unat (reg_get APP_MB_HREG_MODE w),
        nd_ip = ipv4_words_to_string (me_ntop e) (reg_get APP_MB_HREG_IP_MSW w) (reg_get APP_MB_HREG_IP_LSW w),
        nd_mask = ipv4_words_to_string (me_ntop e) (reg_get APP_MB_HREG_MASK_MSW w) (reg_get APP_MB_HREG_MASK_LSW w),
        nd_gw = ipv4_words_to_string (me_ntop e) (reg_get APP_MB_HREG_GW_MSW w) (reg_get APP_MB_HREG_GW_LSW w)\<rparr>)"

lemma save_holding_regs_snapshot:
  "save_holding_regs_config e command w =
     (if command = APP_MB_CMD_NONE then (0, w)
      else case save_snapshot e w of Inl ret \<Rightarrow> (ret, w) | Inr saved \<Rightarrow> m7_set_saved e saved w)"
  by (simp add: save_holding_regs_config_def save_snapshot_def Let_def)

text \<open>The critical section of \<open>complete_pending_command\<close>, and what follows it.\<close>

definition command_clear :: "int \<Rightarrow> m7 \<Rightarrow> m7" where
  "command_clear ret w = modbus_set (\<lambda>mb. mb\<lparr>mb_command_pending := False\<rparr>)
     (reg_set APP_MB_HREG_COMMAND APP_MB_CMD_NONE (reg_set APP_MB_HREG_STATUS (u16_of_int ret) (set_last_status ret w)))"

definition command_sync :: "m7_env \<Rightarrow> int \<Rightarrow> m7 \<Rightarrow> m7" where
  "command_sync e ret w = (if ret = 0 then modbus_sync_from_saved_cfg e w else w)"

section \<open>Tasks\<close>

datatype client_pc = C_idle | C_submitted | C_blocked | C_taken | C_expired | C_returned int

datatype worker_pc = W_idle | W_started | W_read u16 | W_snap net_cfg_data | W_saved int | W_cleared int
  | W_synced int | W_stored

record mb_work =
  wk_m7 :: m7
  wk_queued :: bool
  wk_worker :: worker_pc
  wk_clients :: "client_pc list"
  wk_accepted :: nat
  wk_saves :: nat

datatype work_op =
    Request nat m7_env u16
  | Take nat
  | Expire nat
  | Give_up nat
  | Answer nat
  | Next nat
  | Worker nat m7_env
  | Other_write m7_env u16 u16
  | Other_saved m7_env net_cfg_data

definition client_set :: "nat \<Rightarrow> client_pc \<Rightarrow> mb_work \<Rightarrow> mb_work" where
  "client_set i pc s = s\<lparr>wk_clients := (wk_clients s)[i := pc]\<rparr>"

definition client_at :: "nat \<Rightarrow> client_pc \<Rightarrow> mb_work \<Rightarrow> bool" where
  "client_at i pc s \<longleftrightarrow> i < length (wk_clients s) \<and> wk_clients s ! i = pc"

text \<open>\<open>k_sem_reset\<close>: the takes that wait fail.\<close>

definition sem_abort :: "client_pc list \<Rightarrow> client_pc list" where
  "sem_abort cs = List.map (\<lambda>pc. if pc = C_blocked then C_expired else pc) cs"

text \<open>\<open>k_sem_give\<close>: task \<open>i\<close> is woken if it waits, another one that waits otherwise.\<close>

definition sem_give :: "nat \<Rightarrow> mb_work \<Rightarrow> mb_work" where
  "sem_give i s =
     (if client_at i C_blocked s then client_set i C_taken s
      else case filter (\<lambda>j. client_at j C_blocked s) [0..<length (wk_clients s)] of
             j # js \<Rightarrow> client_set j C_taken s
           | [] \<Rightarrow> s\<lparr>wk_m7 := modbus_set (\<lambda>mb. mb\<lparr>mb_command_done := True\<rparr>) (wk_m7 s)\<rparr>)"

definition client_request :: "nat \<Rightarrow> m7_env \<Rightarrow> u16 \<Rightarrow> mb_work \<Rightarrow> mb_work" where
  "client_request i e reg s =
     (let (ret, w) = command_request e reg (wk_m7 s);
          reset = reg = APP_MB_CMD_SAVE \<and> \<not> mb_command_pending (m7_modbus (wk_m7 s));
          s = s\<lparr>wk_m7 := w, wk_clients := (if reset then sem_abort (wk_clients s) else wk_clients s)\<rparr>
      in case ret of Some r \<Rightarrow> client_set i (C_returned r) s
         | None \<Rightarrow> (client_set i C_submitted s)\<lparr>wk_queued := True, wk_accepted := wk_accepted s + 1\<rparr>)"

text \<open>The thread of the work queue, a step of \<open>modbus_command_work_handler\<close> at a time.\<close>

definition worker_step :: "nat \<Rightarrow> m7_env \<Rightarrow> mb_work \<Rightarrow> mb_work" where
  "worker_step i e s =
     (case wk_worker s of
        W_idle \<Rightarrow> if wk_queued s then s\<lparr>wk_queued := False, wk_worker := W_started\<rparr> else s
      | W_started \<Rightarrow> s\<lparr>wk_worker := W_read (mb_pending_command (m7_modbus (wk_m7 s)))\<rparr>
      | W_read command \<Rightarrow>
          if command = APP_MB_CMD_NONE then s\<lparr>wk_worker := W_saved 0\<rparr>
          else (case save_snapshot e (wk_m7 s) of Inl ret \<Rightarrow> s\<lparr>wk_worker := W_saved ret\<rparr>
                | Inr saved \<Rightarrow> s\<lparr>wk_worker := W_snap saved\<rparr>)
      | W_snap saved \<Rightarrow> (case m7_set_saved e saved (wk_m7 s) of (ret, w) \<Rightarrow> s\<lparr>wk_m7 := w, wk_worker := W_saved ret\<rparr>)
      | W_saved ret \<Rightarrow> s\<lparr>wk_m7 := command_clear ret (wk_m7 s), wk_worker := W_cleared ret, wk_saves := wk_saves s + 1\<rparr>
      | W_cleared ret \<Rightarrow> s\<lparr>wk_m7 := command_sync e ret (wk_m7 s), wk_worker := W_synced ret\<rparr>
      | W_synced ret \<Rightarrow> s\<lparr>wk_m7 := modbus_set (\<lambda>mb. mb\<lparr>mb_command_result := ret\<rparr>) (wk_m7 s), wk_worker := W_stored\<rparr>
      | W_stored \<Rightarrow> (sem_give i s)\<lparr>wk_worker := W_idle\<rparr>)"

text \<open>A step; one that is not possible changes nothing. The other tasks write other registers and change the
  configuration.\<close>

definition work_step :: "work_op \<Rightarrow> mb_work \<Rightarrow> mb_work" where
  "work_step op s =
     (case op of
        Request i e reg \<Rightarrow> if client_at i C_idle s then client_request i e reg s else s
      | Take i \<Rightarrow>
          if \<not> client_at i C_submitted s then s
          else if mb_command_done (m7_modbus (wk_m7 s))
          then (client_set i C_taken s)\<lparr>wk_m7 := modbus_set (\<lambda>mb. mb\<lparr>mb_command_done := False\<rparr>) (wk_m7 s)\<rparr>
          else client_set i C_blocked s
      | Expire i \<Rightarrow> if client_at i C_blocked s then client_set i C_expired s else s
      | Give_up i \<Rightarrow>
          if client_at i C_expired s
          then (client_set i (C_returned (- ETIMEDOUT)) s)\<lparr>wk_m7 := command_timeout (wk_m7 s)\<rparr> else s
      | Answer i \<Rightarrow>
          if client_at i C_taken s then client_set i (C_returned (mb_command_result (m7_modbus (wk_m7 s)))) s else s
      | Next i \<Rightarrow>
          if i < length (wk_clients s) \<and> (case wk_clients s ! i of C_returned r \<Rightarrow> True | _ \<Rightarrow> False)
          then client_set i C_idle s else s
      | Worker i e \<Rightarrow> worker_step i e s
      | Other_write e addr reg \<Rightarrow>
          if addr = APP_MB_HREG_COMMAND then s else s\<lparr>wk_m7 := snd (holding_reg_wr e addr reg (wk_m7 s))\<rparr>
      | Other_saved e d \<Rightarrow> s\<lparr>wk_m7 := snd (m7_set_saved e d (wk_m7 s))\<rparr>)"

definition work_run :: "work_op list \<Rightarrow> mb_work \<Rightarrow> mb_work" where
  "work_run ops s = fold work_step ops s"

definition work_start :: "nat \<Rightarrow> m7 \<Rightarrow> mb_work" where
  "work_start n w = \<lparr>wk_m7 = w, wk_queued = False, wk_worker = W_idle, wk_clients = replicate n C_idle,
     wk_accepted = 0, wk_saves = 0\<rparr>"

section \<open>What the parts keep\<close>

definition command_fields :: "m7 \<Rightarrow> bool \<times> u16 \<times> int \<times> bool" where
  "command_fields w = (mb_command_pending (m7_modbus w), mb_pending_command (m7_modbus w),
     mb_command_result (m7_modbus w), mb_command_done (m7_modbus w))"

lemma command_fields_reg_set [simp]: "command_fields (reg_set a v w) = command_fields w"
  "command_fields (set_last_status r w) = command_fields w"
  by (simp_all add: command_fields_def set_last_status_def modbus_set_def)

lemma command_fields_net [simp]: "command_fields (w\<lparr>m7_net := cfg\<rparr>) = command_fields w"
  "command_fields (w\<lparr>m7_link := l\<rparr>) = command_fields w"
  by (simp_all add: command_fields_def)

lemma command_fields_keep [simp]: "command_fields (settings_keep r b w) = command_fields w"
  by (simp add: command_fields_def)

lemma command_fields_sync [simp]: "command_fields (modbus_sync_from_saved_cfg e w) = command_fields w"
  by (simp add: modbus_sync_from_saved_cfg_def sync_holding_regs_from_saved_cfg_def Let_def)

lemma command_fields_saved [simp]: "command_fields (snd (m7_set_saved e d w)) = command_fields w"
  by (simp add: m7_set_saved_def Let_def case_prod_beta net_cfg_notify_changed_def modbus_net_cfg_changed_def)

lemma command_fields_apply [simp]: "command_fields (snd (motor_command_apply send w)) = command_fields w"
  by (simp add: motor_command_apply_def Let_def case_prod_beta)

lemma command_fields_write [simp]:
  "addr \<noteq> APP_MB_HREG_COMMAND \<Longrightarrow> command_fields (snd (holding_reg_wr e addr reg w)) = command_fields w"
  by (simp add: holding_reg_wr_def Let_def case_prod_beta)

lemma command_pending_fields: "mb_command_pending (m7_modbus w) = fst (command_fields w)"
  by (simp add: command_fields_def)

section \<open>Exactly one save for every accepted command\<close>

definition worker_busy :: "worker_pc \<Rightarrow> bool" where
  "worker_busy pc \<longleftrightarrow> (case pc of W_started \<Rightarrow> True | W_read c \<Rightarrow> True | W_snap d \<Rightarrow> True | W_saved r \<Rightarrow> True | _ \<Rightarrow> False)"

definition work_inv :: "mb_work \<Rightarrow> bool" where
  "work_inv s \<longleftrightarrow>
     (let pending = mb_command_pending (m7_modbus (wk_m7 s))
      in (pending \<longleftrightarrow> wk_queued s \<or> worker_busy (wk_worker s)) \<and> \<not> (wk_queued s \<and> worker_busy (wk_worker s))
         \<and> wk_accepted s = wk_saves s + (if pending then 1 else 0)
         \<and> (pending \<longrightarrow> mb_pending_command (m7_modbus (wk_m7 s)) = APP_MB_CMD_SAVE)
         \<and> (\<forall>c. wk_worker s = W_read c \<longrightarrow> c = APP_MB_CMD_SAVE))"

lemma client_set_fields [simp]:
  "wk_m7 (client_set i pc s) = wk_m7 s" "wk_queued (client_set i pc s) = wk_queued s"
  "wk_worker (client_set i pc s) = wk_worker s" "wk_accepted (client_set i pc s) = wk_accepted s"
  "wk_saves (client_set i pc s) = wk_saves s" "length (wk_clients (client_set i pc s)) = length (wk_clients s)"
  by (simp_all add: client_set_def)

lemma modbus_set_done [simp]:
  "mb_command_pending (m7_modbus (modbus_set (\<lambda>mb. mb\<lparr>mb_command_done := b\<rparr>) w)) = mb_command_pending (m7_modbus w)"
  "mb_pending_command (m7_modbus (modbus_set (\<lambda>mb. mb\<lparr>mb_command_done := b\<rparr>) w)) = mb_pending_command (m7_modbus w)"
  by (simp_all add: modbus_set_def)

text \<open>The invariant looks at the command's fields only.\<close>

lemma work_inv_cong:
  assumes "work_inv s" and "fst (command_fields (wk_m7 s')) = fst (command_fields (wk_m7 s))"
    and "fst (snd (command_fields (wk_m7 s'))) = fst (snd (command_fields (wk_m7 s)))"
    and "wk_queued s' = wk_queued s" "wk_worker s' = wk_worker s" "wk_accepted s' = wk_accepted s" "wk_saves s' = wk_saves s"
  shows "work_inv s'"
  using assms by (simp add: work_inv_def command_fields_def)

lemma command_request_fields:
  assumes "command_request e reg w = (ret, w')"
  shows "ret = None \<Longrightarrow> reg = APP_MB_CMD_SAVE \<and> \<not> mb_command_pending (m7_modbus w)
      \<and> command_fields w' = (True, APP_MB_CMD_SAVE, mb_command_result (m7_modbus w), False)"
    and "ret = Some r \<Longrightarrow> mb_command_pending (m7_modbus w') = mb_command_pending (m7_modbus w)
      \<and> (mb_command_pending (m7_modbus w) \<longrightarrow> mb_pending_command (m7_modbus w') = mb_pending_command (m7_modbus w))"
  using assms
  by (auto simp: command_request_def Let_def command_fields_def set_last_status_def modbus_set_def split: if_splits)

lemma client_request_inv:
  assumes "work_inv s"
  shows "work_inv (client_request i e reg s)"
proof -
  obtain ret w where r: "command_request e reg (wk_m7 s) = (ret, w)" by fastforce
  show ?thesis
  proof (cases ret)
    case None
    note f = command_request_fields(1) [OF r None]
    have "wk_m7 (client_request i e reg s) = w" "wk_queued (client_request i e reg s)"
      "wk_worker (client_request i e reg s) = wk_worker s" "wk_accepted (client_request i e reg s) = wk_accepted s + 1"
      "wk_saves (client_request i e reg s) = wk_saves s"
      by (simp_all add: client_request_def r None)
    with f assms show ?thesis by (auto simp: work_inv_def command_fields_def Let_def)
  next
    case (Some x)
    note f = command_request_fields(2) [OF r Some]
    have "wk_m7 (client_request i e reg s) = w" "wk_queued (client_request i e reg s) = wk_queued s"
      "wk_worker (client_request i e reg s) = wk_worker s" "wk_accepted (client_request i e reg s) = wk_accepted s"
      "wk_saves (client_request i e reg s) = wk_saves s"
      by (simp_all add: client_request_def r Some)
    with f assms show ?thesis by (auto simp: work_inv_def Let_def)
  qed
qed

lemma sem_give_fields [simp]:
  "wk_queued (sem_give i s) = wk_queued s" "wk_worker (sem_give i s) = wk_worker s"
  "wk_accepted (sem_give i s) = wk_accepted s" "wk_saves (sem_give i s) = wk_saves s"
  "mb_command_pending (m7_modbus (wk_m7 (sem_give i s))) = mb_command_pending (m7_modbus (wk_m7 s))"
  "mb_pending_command (m7_modbus (wk_m7 (sem_give i s))) = mb_pending_command (m7_modbus (wk_m7 s))"
  by (simp_all add: sem_give_def split: list.split)

lemma command_clear_pending [simp]: "\<not> mb_command_pending (m7_modbus (command_clear ret w))"
  by (simp add: command_clear_def modbus_set_def)

lemma command_sync_fields [simp]: "command_fields (command_sync e ret w) = command_fields w"
  by (simp add: command_sync_def)

lemma worker_step_inv:
  assumes "work_inv s"
  shows "work_inv (worker_step i e s)"
proof (cases "wk_worker s")
  case (W_snap saved)
  have "command_fields (snd (m7_set_saved e saved (wk_m7 s))) = command_fields (wk_m7 s)" by simp
  then show ?thesis
    using assms by (auto simp: W_snap worker_step_def work_inv_def worker_busy_def case_prod_beta command_fields_def)
next
  case (W_cleared ret)
  have "command_fields (command_sync e ret (wk_m7 s)) = command_fields (wk_m7 s)" by simp
  then show ?thesis using assms by (simp add: W_cleared worker_step_def work_inv_def worker_busy_def command_fields_def)
next
  case (W_synced ret)
  then show ?thesis using assms by (simp add: worker_step_def work_inv_def worker_busy_def modbus_set_def)
qed (use assms in \<open>auto simp: worker_step_def work_inv_def worker_busy_def c_def Let_def split: if_splits sum.splits\<close>)

lemma work_step_inv: "work_inv s \<Longrightarrow> work_inv (work_step op s)"
proof (cases op)
  case (Request i e reg)
  then show "work_inv s \<Longrightarrow> ?thesis" using client_request_inv by (simp add: work_step_def)
next
  case (Worker i e)
  then show "work_inv s \<Longrightarrow> ?thesis" using worker_step_inv by (simp add: work_step_def)
next
  case (Give_up i)
  have "command_fields (command_timeout w) = command_fields w" for w by (simp add: command_timeout_def)
  then show "work_inv s \<Longrightarrow> ?thesis" by (auto simp: Give_up work_step_def intro: work_inv_cong)
next
  case (Other_write e addr reg)
  then show "work_inv s \<Longrightarrow> ?thesis" by (auto simp: work_step_def intro: work_inv_cong)
next
  case (Other_saved e d)
  then show "work_inv s \<Longrightarrow> ?thesis" by (auto simp: work_step_def intro: work_inv_cong)
qed (auto simp: work_step_def work_inv_def)

lemma work_run_inv: "work_inv s \<Longrightarrow> work_inv (work_run ops s)"
  unfolding work_run_def by (induction ops arbitrary: s) (auto simp: work_step_inv)

lemma work_start_inv: "\<not> mb_command_pending (m7_modbus w) \<Longrightarrow> work_inv (work_start n w)"
  by (simp add: work_inv_def work_start_def worker_busy_def)

section \<open>The worker finishes\<close>

text \<open>The steps of the worker up to the end of the pending save.\<close>

definition steps_left :: "mb_work \<Rightarrow> nat" where
  "steps_left s =
     (case wk_worker s of
        W_idle \<Rightarrow> if wk_queued s then 5 else 0
      | W_started \<Rightarrow> 4 | W_read c \<Rightarrow> 3 | W_snap d \<Rightarrow> 2 | W_saved r \<Rightarrow> 1
      | W_cleared r \<Rightarrow> if wk_queued s then 8 else 0
      | W_synced r \<Rightarrow> if wk_queued s then 7 else 0
      | W_stored \<Rightarrow> if wk_queued s then 6 else 0)"

lemma steps_left_pending: "work_inv s \<Longrightarrow> mb_command_pending (m7_modbus (wk_m7 s)) \<longleftrightarrow> 0 < steps_left s"
  by (auto simp: work_inv_def steps_left_def worker_busy_def Let_def split: worker_pc.split)

lemma steps_left_worker: "work_inv s \<Longrightarrow> steps_left (worker_step i e s) \<le> steps_left s - 1"
  by (cases "wk_worker s") (auto simp: worker_step_def steps_left_def work_inv_def worker_busy_def Let_def case_prod_beta
      split: sum.split)

lemma steps_left_run:
  "work_inv s \<Longrightarrow> steps_left (work_run (List.map (\<lambda>(i, e). Worker i e) ies) s) \<le> steps_left s - length ies"
proof (induction ies arbitrary: s)
  case (Cons ie ies)
  obtain i e where ie: "ie = (i, e)" by fastforce
  have "steps_left (work_run (List.map (\<lambda>(i, e). Worker i e) (ie # ies)) s)
      = steps_left (work_run (List.map (\<lambda>(i, e). Worker i e) ies) (worker_step i e s))"
    by (simp add: work_run_def ie work_step_def)
  with Cons.IH [of "worker_step i e s"] worker_step_inv [OF Cons.prems] steps_left_worker [OF Cons.prems, of i e] show ?case by simp
qed (simp add: work_run_def)

section \<open>The uninterrupted command\<close>

lemma command_write_request:
  "holding_reg_wr e APP_MB_HREG_COMMAND reg w = holding_command_wr e reg (reg_set APP_MB_HREG_COMMAND reg w)"
  by (simp add: holding_reg_wr_def is_motor_state_addr_def is_motor_command_addr_def is_input_scanner_mapping_addr_def
      is_output_scanner_mapping_addr_def Let_def c_def)

text \<open>The whole write as its critical sections.\<close>

lemma command_write_parts:
  "holding_reg_wr e APP_MB_HREG_COMMAND reg w =
     (case command_request e reg w of
        (Some r, w) \<Rightarrow> (r, w)
      | (None, w) \<Rightarrow>
          if me_timely e
          then (let w = modbus_command_work_handler e w
                in (mb_command_result (m7_modbus w), modbus_set (\<lambda>mb. mb\<lparr>mb_command_done := False\<rparr>) w))
          else (- ETIMEDOUT, command_timeout w))"
proof -
  have done1: "mb_command_done (m7_modbus (modbus_command_work_handler e w))" for w
    by (simp add: modbus_command_work_handler_def complete_pending_command_def Let_def case_prod_beta modbus_set_def)
  have done2: "\<not> mb_command_done (m7_modbus (modbus_set (\<lambda>mb. mb\<lparr>mb_command_done := False\<rparr>) w))" for w
    by (simp add: modbus_set_def)
  show ?thesis
    unfolding command_write_request
    by (simp add: holding_command_wr_def command_request_def command_timeout_def Let_def done1 done2)
qed

lemma complete_parts:
  "complete_pending_command e ret w =
     modbus_set (\<lambda>mb. mb\<lparr>mb_command_done := True\<rparr>)
       (modbus_set (\<lambda>mb. mb\<lparr>mb_command_result := ret\<rparr>) (command_sync e ret (command_clear ret w)))"
  by (simp add: complete_pending_command_def command_sync_def command_clear_def Let_def modbus_set_def)

definition no_waiter :: "mb_work \<Rightarrow> bool" where
  "no_waiter s \<longleftrightarrow> (\<forall>pc \<in> set (wk_clients s). pc \<noteq> C_blocked)"

lemma no_waiter_give:
  assumes "no_waiter s"
  shows "sem_give i s = s\<lparr>wk_m7 := modbus_set (\<lambda>mb. mb\<lparr>mb_command_done := True\<rparr>) (wk_m7 s)\<rparr>"
proof -
  have "\<not> client_at j C_blocked s" for j using assms by (auto simp: client_at_def no_waiter_def)
  then show ?thesis by (simp add: sem_give_def)
qed

text \<open>The handler of the work item, run through.\<close>

lemma worker_run:
  assumes "wk_worker s = W_idle" and "wk_queued s" and "no_waiter s"
    and "mb_pending_command (m7_modbus (wk_m7 s)) = APP_MB_CMD_SAVE"
  shows "work_run (replicate 8 (Worker i e)) s =
    s\<lparr>wk_m7 := modbus_command_work_handler e (wk_m7 s), wk_queued := False, wk_saves := wk_saves s + 1\<rparr>"
proof -
  have give: "wk_clients t = wk_clients s \<Longrightarrow>
      sem_give i t = t\<lparr>wk_m7 := modbus_set (\<lambda>mb. mb\<lparr>mb_command_done := True\<rparr>) (wk_m7 t)\<rparr>" for t
    using assms(3) by (intro no_waiter_give) (simp add: no_waiter_def)
  have cmd: "APP_MB_CMD_SAVE \<noteq> APP_MB_CMD_NONE" by (simp add: c_def)
  show ?thesis
  proof (cases "save_snapshot e (wk_m7 s)")
    case (Inl ret)
    then show ?thesis
      using assms(1,2,4) give cmd
      by (simp add: work_run_def numeral_eq_Suc work_step_def worker_step_def modbus_command_work_handler_def
          save_holding_regs_snapshot complete_parts)
  next
    case (Inr saved)
    obtain ret w where "m7_set_saved e saved (wk_m7 s) = (ret, w)" by fastforce
    with Inr show ?thesis
      using assms(1,2,4) give cmd
      by (simp add: work_run_def numeral_eq_Suc work_step_def worker_step_def modbus_command_work_handler_def
          save_holding_regs_snapshot complete_parts)
  qed
qed

lemma worker_run_idle:
  "wk_worker s = W_idle \<Longrightarrow> \<not> wk_queued s \<Longrightarrow> work_run (replicate 8 (Worker i e)) s = s"
  by (simp add: work_run_def numeral_eq_Suc work_step_def worker_step_def)

lemma work_run_append: "work_run (ops @ ops') s = work_run ops' (work_run ops s)"
  by (simp add: work_run_def)

lemma sem_abort_no_waiter: "pc \<in> set (sem_abort cs) \<Longrightarrow> pc \<noteq> C_blocked"
  by (auto simp: sem_abort_def split: if_splits)

section \<open>Properties\<close>

text \<open>C17. No accepted SAVE is lost and none is done twice, whatever the tasks interleave: the number of completed
  saves is the number of accepted commands, less the one that is pending; a command is pending exactly while its
  work item is queued or its handler has not yet completed; and eight steps of the work queue's thread complete
  it, whatever they find.\<close>

theorem save_exactly_once:
  assumes "\<not> mb_command_pending (m7_modbus w)" and "s = work_run ops (work_start n w)" and "8 \<le> length ies"
  shows "wk_accepted s = wk_saves s + (if mb_command_pending (m7_modbus (wk_m7 s)) then 1 else 0)
    \<and> (mb_command_pending (m7_modbus (wk_m7 s)) \<longleftrightarrow> wk_queued s \<or> worker_busy (wk_worker s))
    \<and> (let s' = work_run (List.map (\<lambda>(i, e). Worker i e) ies) s
       in \<not> mb_command_pending (m7_modbus (wk_m7 s')) \<and> wk_saves s' = wk_accepted s')"
proof -
  have inv: "work_inv s" unfolding assms(2) by (rule work_run_inv [OF work_start_inv [OF assms(1)]])
  let ?s' = "work_run (List.map (\<lambda>(i, e). Worker i e) ies) s"
  have inv': "work_inv ?s'" by (rule work_run_inv [OF inv])
  have "steps_left s \<le> 8" by (simp add: steps_left_def split: worker_pc.split)
  then have "steps_left ?s' = 0" using steps_left_run [OF inv, of ies] assms(3) by linarith
  then have "\<not> mb_command_pending (m7_modbus (wk_m7 ?s'))" using steps_left_pending [OF inv'] by simp
  with inv inv' show ?thesis by (simp add: work_inv_def Let_def)
qed

definition save_example :: "work_op list" where
  "save_example = [Other_write m7_env_example APP_MB_HREG_MODE 7, Request 0 m7_env_example APP_MB_CMD_SAVE]"

theorem save_exactly_once_witness:
  "wk_saves (work_run (List.map (\<lambda>(i, e). Worker i e) (replicate 8 (0, m7_env_example)))
     (work_run save_example (work_start 1 m7_boot))) = 1"
proof -
  have "wk_accepted (work_run (List.map (\<lambda>(i, e). Worker i e) (replicate 8 (0, m7_env_example)))
     (work_run save_example (work_start 1 m7_boot))) = 1"
    by code_simp
  then show ?thesis
    using save_exactly_once [of m7_boot "work_run save_example (work_start 1 m7_boot)" save_example 1 "replicate 8 (0, m7_env_example)"]
    by (simp add: m7_boot_def modbus_boot_def Let_def)
qed

lemma take_run:
  assumes "client_at i C_submitted t" and "mb_command_done (m7_modbus (wk_m7 t))"
  shows "client_at i (C_returned (mb_command_result (m7_modbus (wk_m7 t)))) (work_run [Take i, Answer i] t)"
    and "wk_m7 (work_run [Take i, Answer i] t) = modbus_set (\<lambda>mb. mb\<lparr>mb_command_done := False\<rparr>) (wk_m7 t)"
  using assms by (simp_all add: work_run_def work_step_def client_at_def client_set_def modbus_set_def)

lemma expire_run:
  assumes "client_at i C_submitted t" and "\<not> mb_command_done (m7_modbus (wk_m7 t))"
  shows "client_at i (C_returned (- ETIMEDOUT)) (work_run [Take i, Expire i, Give_up i] t)"
    and "wk_m7 (work_run [Take i, Expire i, Give_up i] t) = command_timeout (wk_m7 t)"
  using assms by (simp_all add: work_run_def work_step_def client_at_def client_set_def)

text \<open>What the documentation of the command register promises: the answer of a SAVE that is done, and the answer
  to a write.\<close>

definition save_result :: "m7_env \<Rightarrow> m7 \<Rightarrow> int" where
  "save_result e w =
     (if 1 < reg_get APP_MB_HREG_MODE w then - EINVAL
      else
        let d = net_cfg_of_regs (me_ntop e) w
        in if me_pton e (nd_ip d) = None \<or> me_pton e (nd_mask d) = None \<or> me_pton e (nd_gw d) = None then - EINVAL
           else min (me_save_ret e) 0)"

definition command_accepted :: "m7_env \<Rightarrow> u16 \<Rightarrow> m7 \<Rightarrow> bool" where
  "command_accepted e reg w \<longleftrightarrow> reg = APP_MB_CMD_SAVE \<and> \<not> mb_command_pending (m7_modbus w) \<and> 0 \<le> me_submit_ret e"

definition command_answer :: "m7_env \<Rightarrow> u16 \<Rightarrow> m7 \<Rightarrow> int" where
  "command_answer e reg w =
     (if reg \<noteq> APP_MB_CMD_SAVE then - EINVAL
      else if mb_command_pending (m7_modbus w) then - EBUSY
      else if me_submit_ret e < 0 then me_submit_ret e
      else if me_timely e then save_result e w
      else - ETIMEDOUT)"

lemma save_config_effect:
  assumes "save_holding_regs_config e APP_MB_CMD_SAVE v = (r, v')" and "length (mb_holding_regs (m7_modbus v)) = 60"
  shows "r = save_result e v"
    and "m7_net v' = (if r = 0 then net_cfg_copy (net_cfg_of_regs (me_ntop e) v) else m7_net v)"
    and "m7_stored v' = (if r = 0 then Some (net_cfg_save (net_cfg_of_regs (me_ntop e) v)) else m7_stored v)"
    and "length (mb_holding_regs (m7_modbus v')) = 60"
proof -
  let ?d = "net_cfg_of_regs (me_ntop e) v"
  have "r = save_result e v
    \<and> m7_net v' = (if r = 0 then net_cfg_copy ?d else m7_net v)
    \<and> m7_stored v' = (if r = 0 then Some (net_cfg_save ?d) else m7_stored v)
    \<and> length (mb_holding_regs (m7_modbus v')) = 60"
  proof (cases "reg_get APP_MB_HREG_MODE v \<le> 1")
    case False
    then have "1 < reg_get APP_MB_HREG_MODE v" by simp
    then show ?thesis
      using assms by (auto simp: save_holding_regs_config_def save_result_def c_def)
  next
    case True
    then have "nd_mode ?d \<in> {0, 1}" by (auto simp: net_cfg_of_regs_def word_le_nat_alt)
    with True have mode: "\<not> 1 < reg_get APP_MB_HREG_MODE v" "nd_mode ?d \<in> {0, 1}" by (simp_all add: not_less)
    have "net_cfg_validate (me_pton e) (Some ?d) =
        (if me_pton e (nd_ip ?d) = None \<or> me_pton e (nd_mask ?d) = None \<or> me_pton e (nd_gw ?d) = None then - EINVAL else 0)"
      using mode(2) by (auto simp: net_cfg_validate_Some c_def)
    then have set: "m7_set_saved e ?d v =
        (if me_pton e (nd_ip ?d) = None \<or> me_pton e (nd_mask ?d) = None \<or> me_pton e (nd_gw ?d) = None then (- EINVAL, v)
         else if me_save_ret e < 0 then (me_save_ret e, v)
         else (0, modbus_sync_from_saved_cfg e (v\<lparr>m7_stored := Some (net_cfg_save ?d), m7_net := net_cfg_copy ?d\<rparr>)))"
      by (simp add: m7_set_saved_def net_cfg_set_saved_Some net_cfg_notify_changed_def modbus_net_cfg_changed_def
          settings_keep_def)
    have sync: "m7_net (modbus_sync_from_saved_cfg e w) = m7_net w" "m7_stored (modbus_sync_from_saved_cfg e w) = m7_stored w"
      "length (mb_holding_regs (m7_modbus (modbus_sync_from_saved_cfg e w))) = length (mb_holding_regs (m7_modbus w))" for w
      by (simp_all add: modbus_sync_from_saved_cfg_def sync_holding_regs_from_saved_cfg_def Let_def)
    show ?thesis
      using assms mode(1) unfolding save_holding_regs_valid [OF True] set save_result_def
      by (auto simp: sync Let_def min_def c_def split: if_splits)
  qed
  then show "r = save_result e v"
    "m7_net v' = (if r = 0 then net_cfg_copy ?d else m7_net v)"
    "m7_stored v' = (if r = 0 then Some (net_cfg_save ?d) else m7_stored v)"
    "length (mb_holding_regs (m7_modbus v')) = 60" by blast+
qed

lemma handler_effect:
  assumes "mb_pending_command (m7_modbus v) = APP_MB_CMD_SAVE" and "length (mb_holding_regs (m7_modbus v)) = 60"
    and "v' = modbus_command_work_handler e v"
  shows "mb_command_result (m7_modbus v') = save_result e v" "\<not> mb_command_pending (m7_modbus v')"
    and "reg_get APP_MB_HREG_STATUS v' = u16_of_int (save_result e v)" "reg_get APP_MB_HREG_COMMAND v' = APP_MB_CMD_NONE"
    and "m7_net v' = (if save_result e v = 0 then net_cfg_copy (net_cfg_of_regs (me_ntop e) v) else m7_net v)"
    and "m7_stored v' = (if save_result e v = 0 then Some (net_cfg_save (net_cfg_of_regs (me_ntop e) v)) else m7_stored v)"
proof -
  obtain r v1 where save: "save_holding_regs_config e APP_MB_CMD_SAVE v = (r, v1)" by fastforce
  note eff = save_config_effect [OF save assms(2)]
  let ?c = "command_sync e r (command_clear r v1)"
  have v': "v' = modbus_set (\<lambda>mb. mb\<lparr>mb_command_done := True\<rparr>) (modbus_set (\<lambda>mb. mb\<lparr>mb_command_result := r\<rparr>) ?c)"
    by (simp add: assms(3) modbus_command_work_handler_def assms(1) save complete_parts)
  have c: "reg_get APP_MB_HREG_STATUS ?c = u16_of_int r" "reg_get APP_MB_HREG_COMMAND ?c = APP_MB_CMD_NONE"
    "m7_net ?c = m7_net v1" "m7_stored ?c = m7_stored v1"
    using eff(4)
    by (simp_all add: command_sync_def command_clear_def modbus_sync_from_saved_cfg_def reg_get_sync reg_get_set Let_def c_def)
      (simp_all add: sync_holding_regs_from_saved_cfg_def Let_def)
  have "\<not> mb_command_pending (m7_modbus ?c)" using command_sync_fields by (simp add: command_pending_fields)
      (simp add: command_fields_def)
  then show "mb_command_result (m7_modbus v') = save_result e v" "\<not> mb_command_pending (m7_modbus v')"
    "reg_get APP_MB_HREG_STATUS v' = u16_of_int (save_result e v)" "reg_get APP_MB_HREG_COMMAND v' = APP_MB_CMD_NONE"
    "m7_net v' = (if save_result e v = 0 then net_cfg_copy (net_cfg_of_regs (me_ntop e) v) else m7_net v)"
    "m7_stored v' = (if save_result e v = 0 then Some (net_cfg_save (net_cfg_of_regs (me_ntop e) v)) else m7_stored v)"
    using eff(1-3) c by (simp_all add: v')
qed

text \<open>The request, from which the answer, the registers and the configuration follow.\<close>

lemma command_request_effect:
  assumes "length (mb_holding_regs (m7_modbus w)) = 60" and "command_request e reg w = (r, w1)"
  shows "r = (if command_accepted e reg w then None else Some (command_answer e reg w))"
    and "m7_net w1 = m7_net w" "m7_stored w1 = m7_stored w" "length (mb_holding_regs (m7_modbus w1)) = 60"
    and "a \<notin> {8, 9} \<Longrightarrow> reg_get a w1 = reg_get a w"
    and "reg_get APP_MB_HREG_COMMAND w1 = (if command_accepted e reg w then APP_MB_CMD_SAVE else APP_MB_CMD_NONE)"
    and "\<not> command_accepted e reg w \<Longrightarrow> reg_get APP_MB_HREG_STATUS w1 = u16_of_int (command_answer e reg w)"
  using assms
  by (auto simp: command_request_def command_accepted_def command_answer_def Let_def reg_get_set
      reg_get_set_neq c_def split: if_splits)

lemma save_result_cong:
  "(\<And>a. a \<notin> {8, 9} \<Longrightarrow> reg_get a w1 = reg_get a w) \<Longrightarrow>
     save_result e w1 = save_result e w \<and> net_cfg_of_regs ntop w1 = net_cfg_of_regs ntop w"
  by (simp add: save_result_def net_cfg_of_regs_def c_def)

lemma command_write_effect:
  assumes "length (mb_holding_regs (m7_modbus w)) = 60" and "holding_reg_wr e APP_MB_HREG_COMMAND reg w = (ret, w')"
  shows "ret = command_answer e reg w"
    and "reg_get APP_MB_HREG_STATUS w' = u16_of_int ret"
    and "reg_get APP_MB_HREG_COMMAND w' =
      (if command_accepted e reg w \<and> \<not> me_timely e then APP_MB_CMD_SAVE else APP_MB_CMD_NONE)"
    and "mb_command_pending (m7_modbus w') \<longleftrightarrow>
      mb_command_pending (m7_modbus w) \<or> command_accepted e reg w \<and> \<not> me_timely e"
    and "m7_net w' = (if ret = 0 then net_cfg_copy (net_cfg_of_regs (me_ntop e) w) else m7_net w)"
    and "m7_stored w' = (if ret = 0 then Some (net_cfg_save (net_cfg_of_regs (me_ntop e) w)) else m7_stored w)"
proof -
  obtain r w1 where q: "command_request e reg w = (r, w1)" by fastforce
  note eff = command_request_effect [OF assms(1) q]
  have same: "save_result e w1 = save_result e w" "net_cfg_of_regs ntop w1 = net_cfg_of_regs ntop w" for ntop
    using save_result_cong [of w1 w] eff(5) by blast+
  have "ret = command_answer e reg w \<and> reg_get APP_MB_HREG_STATUS w' = u16_of_int ret
    \<and> reg_get APP_MB_HREG_COMMAND w' =
      (if command_accepted e reg w \<and> \<not> me_timely e then APP_MB_CMD_SAVE else APP_MB_CMD_NONE)
    \<and> (mb_command_pending (m7_modbus w') \<longleftrightarrow>
      mb_command_pending (m7_modbus w) \<or> command_accepted e reg w \<and> \<not> me_timely e)
    \<and> m7_net w' = (if ret = 0 then net_cfg_copy (net_cfg_of_regs (me_ntop e) w) else m7_net w)
    \<and> m7_stored w' = (if ret = 0 then Some (net_cfg_save (net_cfg_of_regs (me_ntop e) w)) else m7_stored w)"
  proof (cases "command_accepted e reg w")
    case False
    then have w': "ret = command_answer e reg w" "w' = w1" "r = Some (command_answer e reg w)"
      using assms(2) eff(1) by (simp_all add: command_write_parts q)
    moreover have "ret \<noteq> 0"
      using False by (auto simp: w'(1) command_answer_def command_accepted_def c_def)
    ultimately show ?thesis
      using False eff(2,3,6,7) command_request_fields(2) [OF q w'(3)] by simp
  next
    case True
    then have none: "r = None" using eff(1) by simp
    note f = command_request_fields(1) [OF q none]
    have pend: "mb_pending_command (m7_modbus w1) = APP_MB_CMD_SAVE" "mb_command_pending (m7_modbus w1)"
      "\<not> mb_command_pending (m7_modbus w)"
      using f by (simp_all add: command_fields_def)
    have ans: "command_answer e reg w = (if me_timely e then save_result e w else - ETIMEDOUT)"
      using True by (simp add: command_answer_def command_accepted_def)
    show ?thesis
    proof (cases "me_timely e")
      case True
      note h = handler_effect [OF pend(1) eff(4) refl, of e, unfolded same]
      have "ret = save_result e w" "w' = modbus_set (\<lambda>mb. mb\<lparr>mb_command_done := False\<rparr>) (modbus_command_work_handler e w1)"
        using assms(2) True h(1) by (simp_all add: command_write_parts q none Let_def)
      then show ?thesis using h(2-6) True ans pend(3) eff(2,3) by simp
    next
      case False
      then have "ret = - ETIMEDOUT" "w' = command_timeout w1"
        using assms(2) by (simp_all add: command_write_parts q none)
      then show ?thesis
        using False ans pend eff(2-4,6) \<open>command_accepted e reg w\<close>
        by (simp add: command_timeout_def reg_get_set c_def)
    qed
  qed
  then show "ret = command_answer e reg w" "reg_get APP_MB_HREG_STATUS w' = u16_of_int ret"
    "reg_get APP_MB_HREG_COMMAND w' =
      (if command_accepted e reg w \<and> \<not> me_timely e then APP_MB_CMD_SAVE else APP_MB_CMD_NONE)"
    "mb_command_pending (m7_modbus w') \<longleftrightarrow>
      mb_command_pending (m7_modbus w) \<or> command_accepted e reg w \<and> \<not> me_timely e"
    "m7_net w' = (if ret = 0 then net_cfg_copy (net_cfg_of_regs (me_ntop e) w) else m7_net w)"
    "m7_stored w' = (if ret = 0 then Some (net_cfg_save (net_cfg_of_regs (me_ntop e) w)) else m7_stored w)"
    by blast+
qed

lemma work_run_accepted:
  "\<forall>op \<in> set ops. \<forall>i e reg. op \<noteq> Request i e reg \<Longrightarrow> wk_accepted (work_run ops s) = wk_accepted s"
proof (induction ops arbitrary: s)
  case (Cons op ops)
  have "wk_accepted (work_step op s) = wk_accepted s"
    using Cons.prems
    by (cases op) (auto simp: work_step_def worker_step_def split: worker_pc.split sum.split prod.split)
  with Cons show ?case by (simp add: work_run_def)
qed (simp add: work_run_def)

text \<open>\<open>holding_reg_wr\<close> as \<open>Modbus_Tcp\<close> has it, in one go, is a run of the steps. A value returned at once needs
  no work thread.\<close>

lemma command_write_run:
  assumes "command_accepted e reg (wk_m7 s) \<Longrightarrow> wk_worker s = W_idle" and "client_at i C_idle s"
    and "length (mb_holding_regs (m7_modbus (wk_m7 s))) = 60"
    and "holding_reg_wr e APP_MB_HREG_COMMAND reg (wk_m7 s) = (ret, w)"
  shows "\<exists>ops. set ops \<subseteq> {Request i e reg, Worker i e, Take i, Answer i, Expire i, Give_up i}
    \<and> client_at i (C_returned ret) (work_run ops s) \<and> wk_m7 (work_run ops s) = w
    \<and> wk_accepted (work_run ops s) = wk_accepted s + (if command_accepted e reg (wk_m7 s) then 1 else 0)"
proof -
  obtain r w1 where q: "command_request e reg (wk_m7 s) = (r, w1)" by fastforce
  note acc = command_request_effect(1) [OF assms(3) q]
  show ?thesis
  proof (cases r)
    case (Some x)
    then have "ret = x" "w = w1" using assms(4) by (simp_all add: command_write_parts q)
    then have "client_at i (C_returned ret) (work_run [Request i e reg] s) \<and> wk_m7 (work_run [Request i e reg] s) = w
        \<and> wk_accepted (work_run [Request i e reg] s) = wk_accepted s"
      using assms(2) by (auto simp: work_run_def work_step_def client_request_def q Some client_at_def client_set_def
          sem_abort_def Let_def)
    then show ?thesis using acc Some by (intro exI [of _ "[Request i e reg]"]) (simp split: if_splits)
  next
    case None
    then have accepted: "command_accepted e reg (wk_m7 s)" "wk_worker s = W_idle"
      using acc assms(1) by (auto split: if_splits)
    let ?s1 = "work_run [Request i e reg] s"
    have s1: "?s1 = (client_set i C_submitted (s\<lparr>wk_m7 := w1, wk_clients := sem_abort (wk_clients s)\<rparr>))
        \<lparr>wk_queued := True, wk_accepted := wk_accepted s + 1\<rparr>"
      using command_request_fields(1) [OF q None] assms(2) q None
      by (simp add: work_run_def work_step_def client_request_def)
    have f: "command_fields w1 = (True, APP_MB_CMD_SAVE, mb_command_result (m7_modbus (wk_m7 s)), False)"
      using command_request_fields(1) [OF q None] by blast
    have i: "i < length (wk_clients s)" using assms(2) by (simp add: client_at_def)
    show ?thesis
    proof (cases "me_timely e")
      case True
      let ?ops = "[Request i e reg] @ replicate 8 (Worker i e) @ [Take i, Answer i]"
      have "work_run (replicate 8 (Worker i e)) ?s1 =
          ?s1\<lparr>wk_m7 := modbus_command_work_handler e w1, wk_queued := False, wk_saves := wk_saves s + 1\<rparr>"
        using worker_run [of ?s1 i e] accepted(2) f sem_abort_no_waiter i
        by (auto simp: s1 no_waiter_def client_set_def command_fields_def dest!: set_update_subset_insert [THEN subsetD])
      moreover have "mb_command_done (m7_modbus (modbus_command_work_handler e w1))"
        by (simp add: modbus_command_work_handler_def complete_parts case_prod_beta modbus_set_def Let_def)
      moreover have "work_run ?ops s = work_run [Take i, Answer i] (work_run (replicate 8 (Worker i e)) ?s1)"
        by (simp only: work_run_append)
      moreover have "client_at i C_submitted (?s1\<lparr>wk_m7 := m, wk_queued := q, wk_saves := k\<rparr>)" for m q k
        using i by (simp add: s1 client_at_def client_set_def sem_abort_def)
      ultimately have "client_at i (C_returned ret) (work_run ?ops s) \<and> wk_m7 (work_run ?ops s) = w"
        using assms(4) True take_run [of i "?s1\<lparr>wk_m7 := modbus_command_work_handler e w1, wk_queued := False,
            wk_saves := wk_saves s + 1\<rparr>"]
        by (simp add: command_write_parts q None Let_def)
      moreover have "wk_accepted (work_run ?ops s) = wk_accepted s + 1"
        unfolding work_run_append [of "[Request i e reg]"] by (subst work_run_accepted) (auto simp: s1)
      ultimately show ?thesis using accepted(1) by (intro exI [of _ ?ops] conjI) simp_all
    next
      case False
      let ?ops = "[Request i e reg] @ [Take i, Expire i, Give_up i]"
      have "work_run ?ops s = work_run [Take i, Expire i, Give_up i] ?s1" by (simp only: work_run_append)
      moreover have "client_at i C_submitted ?s1" "wk_m7 ?s1 = w1"
        using i by (simp_all add: s1 client_at_def client_set_def sem_abort_def)
      moreover have "\<not> mb_command_done (m7_modbus w1)" using f by (simp add: command_fields_def)
      ultimately have "client_at i (C_returned ret) (work_run ?ops s) \<and> wk_m7 (work_run ?ops s) = w"
        using assms(4) False expire_run [of i ?s1] by (simp only: command_write_parts q None) simp
      moreover have "wk_accepted (work_run ?ops s) = wk_accepted s + 1"
        unfolding work_run_append [of "[Request i e reg]"] by (subst work_run_accepted) (auto simp: s1)
      ultimately show ?thesis using accepted(1) by (intro exI [of _ ?ops] conjI) simp_all
    qed
  qed
qed

text \<open>C18. What a write of the command register answers and does, for every value, state and answer of the kernel
  and the settings. Anything but SAVE is \<open>-EINVAL\<close>, a SAVE while one is pending is \<open>-EBUSY\<close>, a refused work item
  is its error, an expired wait is \<open>-ETIMEDOUT\<close>, and otherwise it is the result of the save: \<open>-EINVAL\<close> for a mode
  above 1 or words that are no address, the error of the settings, or 0. The status register shows the answer; the
  command register is cleared unless the save is still under way, which is also when the command stays pending.
  Only with answer 0 the configuration and the stored blob change, to those of the registers. The steps of the
  tasks give the same: some run of this task and the work thread ends with this answer and this state, having
  accepted a command only for an accepted SAVE.\<close>

theorem save_command_answer:
  assumes "modbus_inv (wk_m7 s)" and "client_at i C_idle s"
    and "command_accepted e reg (wk_m7 s) \<Longrightarrow> wk_worker s = W_idle"
    and "holding_reg_wr e APP_MB_HREG_COMMAND reg (wk_m7 s) = (ret, w)"
  shows "ret = command_answer e reg (wk_m7 s)
    \<and> reg_get APP_MB_HREG_STATUS w = u16_of_int ret
    \<and> reg_get APP_MB_HREG_COMMAND w =
        (if command_accepted e reg (wk_m7 s) \<and> \<not> me_timely e then APP_MB_CMD_SAVE else APP_MB_CMD_NONE)
    \<and> (mb_command_pending (m7_modbus w) \<longleftrightarrow>
        mb_command_pending (m7_modbus (wk_m7 s)) \<or> command_accepted e reg (wk_m7 s) \<and> \<not> me_timely e)
    \<and> m7_net w = (if ret = 0 then net_cfg_copy (net_cfg_of_regs (me_ntop e) (wk_m7 s)) else m7_net (wk_m7 s))
    \<and> m7_stored w = (if ret = 0 then Some (net_cfg_save (net_cfg_of_regs (me_ntop e) (wk_m7 s))) else m7_stored (wk_m7 s))
    \<and> (\<exists>ops. set ops \<subseteq> {Request i e reg, Worker i e, Take i, Answer i, Expire i, Give_up i}
        \<and> client_at i (C_returned ret) (work_run ops s) \<and> wk_m7 (work_run ops s) = w
        \<and> wk_accepted (work_run ops s) = wk_accepted s + (if command_accepted e reg (wk_m7 s) then 1 else 0))"
proof -
  have len: "length (mb_holding_regs (m7_modbus (wk_m7 s))) = 60" using modbus_inv_length [OF assms(1)] .
  show ?thesis
    by (intro conjI command_write_effect [OF len assms(4)] command_write_run [OF assms(3,2) len assms(4)]) assumption
qed

theorem save_command_answer_witness:
  "\<exists>ops. client_at 0 (C_returned 0) (work_run ops (work_start 1 m7_boot))
     \<and> m7_stored (wk_m7 (work_run ops (work_start 1 m7_boot))) \<noteq> None
     \<and> wk_accepted (work_run ops (work_start 1 m7_boot)) = 1"
proof -
  let ?s = "work_start 1 m7_boot"
  obtain ret w where w: "holding_reg_wr m7_env_example APP_MB_HREG_COMMAND APP_MB_CMD_SAVE (wk_m7 ?s) = (ret, w)"
    by fastforce
  have s: "wk_m7 ?s = m7_boot" "wk_worker ?s = W_idle" "client_at 0 C_idle ?s" "wk_accepted ?s = 0"
    by (simp_all add: work_start_def client_at_def)
  have acc: "command_accepted m7_env_example APP_MB_CMD_SAVE m7_boot"
    by (simp add: command_accepted_def m7_env_example_def m7_boot_def modbus_boot_def)
  have "me_pton m7_env_example (ipv4_words_to_string (me_ntop m7_env_example) m l) \<noteq> None" for m l
    by (simp add: m7_env_example_def ipv4_words_to_string_def pton_ntop_example)
  moreover have "reg_get APP_MB_HREG_MODE m7_boot = 1"
    by (simp add: m7_boot_def modbus_boot_def reg_get_def c_def)
  ultimately have "command_answer m7_env_example APP_MB_CMD_SAVE m7_boot = 0"
    using acc by (simp add: command_answer_def command_accepted_def save_result_def net_cfg_of_regs_def)
      (simp add: m7_env_example_def)
  with save_command_answer [OF _ s(3,2) w] have "ret = 0" "m7_stored w \<noteq> None"
    "\<exists>ops. client_at 0 (C_returned ret) (work_run ops ?s) \<and> wk_m7 (work_run ops ?s) = w \<and> wk_accepted (work_run ops ?s) = 1"
    using modbus_boot_inv acc unfolding s(1,4) by auto
  then show ?thesis by blast
qed

text \<open>C19. The answer can be that of another command. \<open>complete_pending_command\<close> ends the pending state before it
  stores the result and gives the semaphore; a second task whose SAVE is accepted in between is answered
  \<open>-EINVAL\<close>, the result of the first task's save, while its own has not begun; and the first task, whose save
  was completed, is told \<open>-ETIMEDOUT\<close>, because the second one's \<open>k_sem_reset\<close> makes its wait fail.\<close>

definition save_race :: "work_op list" where
  "save_race =
     [Other_write m7_env_example APP_MB_HREG_MODE 7, Request 0 m7_env_example APP_MB_CMD_SAVE, Take 0]
     @ replicate 4 (Worker 0 m7_env_example)
     @ [Other_write m7_env_example APP_MB_HREG_MODE 1, Request 1 m7_env_example APP_MB_CMD_SAVE, Take 1]
     @ replicate 3 (Worker 0 m7_env_example) @ [Answer 1, Give_up 0]"

theorem save_answer_of_another:
  "\<exists>ops. let s = work_run ops (work_start 2 m7_boot)
    in client_at 0 (C_returned (- ETIMEDOUT)) s \<and> client_at 1 (C_returned (- EINVAL)) s
       \<and> wk_accepted s = 2 \<and> wk_saves s = 1 \<and> wk_queued s \<and> \<not> worker_busy (wk_worker s)"
proof -
  have "let s = work_run save_race (work_start 2 m7_boot)
    in client_at 0 (C_returned (- ETIMEDOUT)) s \<and> client_at 1 (C_returned (- EINVAL)) s
       \<and> wk_accepted s = 2 \<and> wk_saves s = 1 \<and> wk_queued s \<and> \<not> worker_busy (wk_worker s)"
    by code_simp
  then show ?thesis by blast
qed

end
