(* ===== verification/Lock_Order.thy ===== *)
theory Lock_Order
  imports IE_Prelude
begin

text \<open>
  The mutexes of the Cortex-M7 program and the order in which its tasks take them: \<open>holding_regs_lock\<close>
  (\<open>app_modbus_tcp.c\<close>), \<open>remote_command_lock\<close> and \<open>ping_lock\<close> (\<open>app_ipc.c\<close>), \<open>cfg_lock\<close> (\<open>net_cfg.c\<close>) and
  \<open>scanner_local_regs_lock\<close> (\<open>app_modbus_scanner.c\<close>). A task is the sequence of the lock and unlock calls of
  the operations it performs, on the path that takes the most locks and on the shorter ones; a task that locks a
  mutex another one holds waits.

  The locale \<open>lock_discipline\<close> is the general argument: tasks that take locks in the order of a rank never
  wait for each other in a circle. It has two interpretations on the program's operations: without the write of
  \<open>APPLY\<close>, and without the two operations that set the motor mode register under \<open>remote_command_lock\<close>.
\<close>

section \<open>The operations\<close>

datatype mutex = Holding_regs_lock | Remote_command_lock | Ping_lock | Cfg_lock | Scanner_local_regs_lock

datatype lock_call = Lock mutex | Unlock mutex

type_synonym lock_trace = "lock_call list"

definition locked :: "mutex \<Rightarrow> lock_trace \<Rightarrow> lock_trace" where
  "locked l body = Lock l # body @ [Unlock l]"

text \<open>Configuration.\<close>

definition net_cfg_get_saved_locks :: lock_trace where
  "net_cfg_get_saved_locks = locked Cfg_lock []"

definition modbus_sync_locks :: lock_trace where
  "modbus_sync_locks = locked Holding_regs_lock net_cfg_get_saved_locks"

definition net_cfg_set_saved_locks :: lock_trace where
  "net_cfg_set_saved_locks = locked Cfg_lock [] @ modbus_sync_locks"

text \<open>Registers.\<close>

definition holding_reg_rd_locks :: lock_trace where
  "holding_reg_rd_locks = locked Holding_regs_lock []"

definition holding_reg_wr_locks :: lock_trace where
  "holding_reg_wr_locks = locked Holding_regs_lock []"

definition motor_submit_locks :: lock_trace where
  "motor_submit_locks = locked Remote_command_lock []"

definition apply_write_locks :: lock_trace where
  "apply_write_locks = locked Holding_regs_lock motor_submit_locks"

definition command_worker_locks :: lock_trace where
  "command_worker_locks =
     locked Holding_regs_lock [] @ locked Holding_regs_lock [] @ net_cfg_set_saved_locks
     @ locked Holding_regs_lock [] @ modbus_sync_locks"

definition scanner_local_locks :: lock_trace where
  "scanner_local_locks = locked Scanner_local_regs_lock []"

text \<open>The link. The mode register is a plain one for \<open>holding_reg_wr\<close>.\<close>

definition motor_set_mode_locks :: lock_trace where
  "motor_set_mode_locks = holding_reg_wr_locks"

definition refresh_locks :: lock_trace where
  "refresh_locks = locked Remote_command_lock motor_set_mode_locks"

definition remote_disable_locks :: lock_trace where
  "remote_disable_locks = locked Remote_command_lock motor_set_mode_locks"

definition remote_update_locks :: lock_trace where
  "remote_update_locks = locked Remote_command_lock []"

definition remote_reset_locks :: lock_trace where
  "remote_reset_locks = locked Remote_command_lock []"

definition ping_locks :: lock_trace where
  "ping_locks = locked Ping_lock []"

text \<open>What a task can do. \<open>Refresh_idle\<close> and \<open>Local_unsent\<close> are the refresh work and \<open>m4 local\<close> when they do
  not get as far as the mode register, \<open>Apply_refused\<close> a write of \<open>APPLY\<close> that submits nothing.\<close>

datatype locked_op =
    Get_saved | Set_saved | Sync | Reg_read | Reg_write | Apply | Apply_refused | Command_worker | Scanner_local
  | Refresh | Refresh_idle | Local_mode | Local_unsent | Remote_update | Remote_reset | Ping

definition op_locks :: "locked_op \<Rightarrow> lock_trace" where
  "op_locks op =
     (case op of
        Get_saved \<Rightarrow> net_cfg_get_saved_locks
      | Set_saved \<Rightarrow> net_cfg_set_saved_locks
      | Sync \<Rightarrow> modbus_sync_locks
      | Reg_read \<Rightarrow> holding_reg_rd_locks
      | Reg_write \<Rightarrow> holding_reg_wr_locks
      | Apply \<Rightarrow> apply_write_locks
      | Apply_refused \<Rightarrow> locked Holding_regs_lock []
      | Command_worker \<Rightarrow> command_worker_locks
      | Scanner_local \<Rightarrow> scanner_local_locks
      | Refresh \<Rightarrow> refresh_locks
      | Refresh_idle \<Rightarrow> locked Remote_command_lock []
      | Local_mode \<Rightarrow> remote_disable_locks
      | Local_unsent \<Rightarrow> locked Remote_command_lock []
      | Remote_update \<Rightarrow> remote_update_locks
      | Remote_reset \<Rightarrow> remote_reset_locks
      | Ping \<Rightarrow> ping_locks)"

section \<open>Tasks\<close>

text \<open>A task: the mutexes it holds and the calls it has still to make.\<close>

type_synonym task = "mutex list \<times> lock_trace"

definition task_start :: "locked_op list \<Rightarrow> task" where
  "task_start ops = ([], concat (List.map op_locks ops))"

definition other_holds :: "nat \<Rightarrow> mutex \<Rightarrow> task list \<Rightarrow> bool" where
  "other_holds i l ts \<longleftrightarrow> list_ex (\<lambda>j. j \<noteq> i \<and> l \<in> set (fst (ts ! j))) [0..<length ts]"

definition can_step :: "nat \<Rightarrow> task list \<Rightarrow> bool" where
  "can_step i ts \<longleftrightarrow> i < length ts \<and>
     (case snd (ts ! i) of [] \<Rightarrow> False | Lock l # as \<Rightarrow> \<not> other_holds i l ts | Unlock l # as \<Rightarrow> True)"

definition task_step :: "task \<Rightarrow> task" where
  "task_step t = (case t of (held, as) \<Rightarrow>
     (case as of [] \<Rightarrow> (held, []) | Lock l # as \<Rightarrow> (l # held, as) | Unlock l # as \<Rightarrow> (removeAll l held, as)))"

definition lock_step :: "nat \<Rightarrow> task list \<Rightarrow> task list" where
  "lock_step i ts = (if can_step i ts then ts[i := task_step (ts ! i)] else ts)"

definition lock_run :: "nat list \<Rightarrow> task list \<Rightarrow> task list" where
  "lock_run is ts = fold lock_step is ts"

definition finished :: "task list \<Rightarrow> bool" where
  "finished ts \<longleftrightarrow> (\<forall>t \<in> set ts. snd t = [])"

definition calls_left :: "task list \<Rightarrow> nat" where
  "calls_left ts = sum_list (List.map (\<lambda>t. length (snd t)) ts)"

lemma lock_step_length [simp]: "length (lock_step i ts) = length ts"
  by (simp add: lock_step_def)

lemma calls_left_step: "can_step i ts \<Longrightarrow> calls_left (lock_step i ts) < calls_left ts"
proof -
  assume c: "can_step i ts"
  then have i: "i < length ts" and n: "length (snd (task_step (ts ! i))) < length (snd (ts ! i))"
    by (auto simp: can_step_def task_step_def case_prod_beta split: list.splits lock_call.splits)
  have "calls_left (ts[i := t]) + length (snd (ts ! i)) = calls_left ts + length (snd t)" for t
    using i by (induction ts arbitrary: i) (auto simp: calls_left_def nth_Cons split: nat.splits)
  from this [of "task_step (ts ! i)"] n c show ?thesis by (simp add: lock_step_def)
qed

section \<open>The discipline\<close>

text \<open>Every mutex a task locks ranks above those it holds, and it ends holding none.\<close>

fun ordered :: "(mutex \<Rightarrow> nat) \<Rightarrow> mutex list \<Rightarrow> lock_trace \<Rightarrow> bool" where
  "ordered rank held [] = (held = [])"
| "ordered rank held (Lock l # as) = ((\<forall>h \<in> set held. rank h < rank l) \<and> ordered rank (l # held) as)"
| "ordered rank held (Unlock l # as) = (l \<in> set held \<and> ordered rank (removeAll l held) as)"

lemma ordered_append: "ordered rank held as \<Longrightarrow> ordered rank [] bs \<Longrightarrow> ordered rank held (as @ bs)"
  by (induction rank held as rule: ordered.induct) auto

lemma ordered_concat: "(\<And>as. as \<in> set ass \<Longrightarrow> ordered rank [] as) \<Longrightarrow> ordered rank [] (concat ass)"
  by (induction ass) (auto intro: ordered_append)

lemma ordered_step: "ordered rank (fst t) (snd t) \<Longrightarrow> ordered rank (fst (task_step t)) (snd (task_step t))"
  by (cases t; cases "snd t") (auto simp: task_step_def split: lock_call.split)

locale lock_discipline =
  fixes rank :: "mutex \<Rightarrow> nat" and allowed :: "locked_op \<Rightarrow> bool"
  assumes op_ordered: "allowed op \<Longrightarrow> ordered rank [] (op_locks op)"
begin

definition disciplined :: "task list \<Rightarrow> bool" where
  "disciplined ts \<longleftrightarrow> (\<forall>t \<in> set ts. ordered rank (fst t) (snd t))"

lemma start_disciplined: "(\<And>ops op. ops \<in> set progs \<Longrightarrow> op \<in> set ops \<Longrightarrow> allowed op) \<Longrightarrow> disciplined (List.map task_start progs)"
  unfolding disciplined_def task_start_def by (auto intro!: ordered_concat op_ordered)

lemma step_disciplined: "disciplined ts \<Longrightarrow> disciplined (lock_step i ts)"
  using ordered_step set_update_subset_insert [of ts i "task_step (ts ! i)"] nth_mem [of i ts]
  by (fastforce simp: disciplined_def lock_step_def can_step_def)

lemma run_disciplined: "disciplined ts \<Longrightarrow> disciplined (lock_run is ts)"
  unfolding lock_run_def by (induction "is" arbitrary: ts) (auto simp: step_disciplined)

text \<open>Of the tasks that wait, the one that waits for the mutex of the highest rank waits for a task that does not.\<close>

lemma progress:
  assumes "disciplined ts" and "\<not> finished ts"
  obtains i where "can_step i ts"
proof -
  define wants where "wants = {l. \<exists>i < length ts. \<exists>as. snd (ts ! i) = Lock l # as}"
  have "\<exists>i. can_step i ts"
  proof (rule ccontr)
    assume stuck: "\<nexists>i. can_step i ts"
    have waits: "\<exists>l as. snd (ts ! i) = Lock l # as \<and> other_holds i l ts" if "i < length ts" "snd (ts ! i) \<noteq> []" for i
      using stuck that by (auto simp: can_step_def neq_Nil_conv split: lock_call.splits)
    obtain i where i: "i < length ts" "snd (ts ! i) \<noteq> []"
      using assms(2) by (auto simp: finished_def in_set_conv_nth)
    then obtain l0 where "l0 \<in> wants" using waits [OF i] by (auto simp: wants_def)
    moreover have "finite (rank ` wants)"
    proof (rule finite_imageI, rule finite_subset)
      show "wants \<subseteq> UNIV" by simp
      have "(UNIV :: mutex set) = {Holding_regs_lock, Remote_command_lock, Ping_lock, Cfg_lock, Scanner_local_regs_lock}"
        using mutex.exhaust by auto
      then show "finite (UNIV :: mutex set)" by (metis finite.emptyI finite.insertI)
    qed
    ultimately obtain l where l: "l \<in> wants" "\<And>l'. l' \<in> wants \<Longrightarrow> rank l' \<le> rank l"
      using Max_in [of "rank ` wants"] Max_ge [of "rank ` wants"] by (metis empty_iff imageE imageI)
    then obtain i as where w: "i < length ts" "snd (ts ! i) = Lock l # as" by (auto simp: wants_def)
    then obtain j where j: "j < length ts" "l \<in> set (fst (ts ! j))"
      using waits [of i] by (auto simp: other_holds_def list_ex_iff)
    have ord: "ordered rank (fst (ts ! j)) (snd (ts ! j))" using assms(1) j(1) by (simp add: disciplined_def)
    then have "snd (ts ! j) \<noteq> []" using j(2) by auto
    then obtain l' bs where l': "snd (ts ! j) = Lock l' # bs" using waits [OF j(1)] by blast
    then have "rank l < rank l'" using ord j(2) by simp
    moreover have "l' \<in> wants" using l' j(1) by (auto simp: wants_def)
    ultimately show False using l(2) [of l'] by simp
  qed
  then show thesis using that by blast
qed

lemma completes: "disciplined ts \<Longrightarrow> \<exists>sched. finished (lock_run sched ts)"
proof (induction "calls_left ts" arbitrary: ts rule: less_induct)
  case less
  show ?case
  proof (cases "finished ts")
    case True
    then show ?thesis by (intro exI [of _ "[]"]) (simp add: lock_run_def)
  next
    case False
    then obtain i where i: "can_step i ts" using progress less(2) by blast
    then obtain sched where "finished (lock_run sched (lock_step i ts))"
      using less(1) [OF calls_left_step [OF i] step_disciplined [OF less(2)]] by blast
    then show ?thesis by (intro exI [of _ "i # sched"]) (simp add: lock_run_def)
  qed
qed

lemma no_deadlock:
  assumes "\<And>ops op. ops \<in> set progs \<Longrightarrow> op \<in> set ops \<Longrightarrow> allowed op"
  shows "\<exists>sched'. finished (lock_run sched' (lock_run sched (List.map task_start progs)))"
  by (rule completes [OF run_disciplined [OF start_disciplined [OF assms]]])

end

text \<open>The two orders: the registers before the link, or the link before the registers.\<close>

definition rank_regs_first :: "mutex \<Rightarrow> nat" where
  "rank_regs_first l = (case l of Holding_regs_lock \<Rightarrow> 0 | _ \<Rightarrow> 1)"

definition rank_link_first :: "mutex \<Rightarrow> nat" where
  "rank_link_first l = (case l of Remote_command_lock \<Rightarrow> 0 | Holding_regs_lock \<Rightarrow> 1 | _ \<Rightarrow> 2)"

definition sets_mode_locked :: "locked_op \<Rightarrow> bool" where
  "sets_mode_locked op \<longleftrightarrow> op = Refresh \<or> op = Local_mode"

lemmas lock_trace_defs = op_locks_def locked_def net_cfg_get_saved_locks_def modbus_sync_locks_def
  net_cfg_set_saved_locks_def holding_reg_rd_locks_def holding_reg_wr_locks_def motor_submit_locks_def
  apply_write_locks_def command_worker_locks_def scanner_local_locks_def motor_set_mode_locks_def refresh_locks_def
  remote_disable_locks_def remote_update_locks_def remote_reset_locks_def ping_locks_def

interpretation regs_first: lock_discipline rank_regs_first "\<lambda>op. \<not> sets_mode_locked op"
  by unfold_locales (simp add: lock_trace_defs rank_regs_first_def sets_mode_locked_def split: locked_op.splits)

interpretation link_first: lock_discipline rank_link_first "\<lambda>op. op \<noteq> Apply"
  by unfold_locales (simp add: lock_trace_defs rank_link_first_def split: locked_op.splits)

section \<open>Properties\<close>

text \<open>C20. The mutexes alone do not block the program as long as the motor is commanded through one interface: any
  number of tasks performing any operations without a write of \<open>APPLY\<close>, or any without the refresh and the
  \<open>m4 local\<close> that set the mode register under \<open>remote_command_lock\<close>, can all finish from wherever they are.\<close>

theorem locks_no_deadlock:
  assumes "(\<forall>ops \<in> set progs. Apply \<notin> set ops) \<or> (\<forall>ops \<in> set progs. Refresh \<notin> set ops \<and> Local_mode \<notin> set ops)"
  shows "\<exists>sched'. finished (lock_run sched' (lock_run sched (List.map task_start progs)))"
  using assms
proof
  assume "\<forall>ops \<in> set progs. Apply \<notin> set ops"
  then show ?thesis by (intro link_first.no_deadlock) auto
next
  assume "\<forall>ops \<in> set progs. Refresh \<notin> set ops \<and> Local_mode \<notin> set ops"
  then show ?thesis by (intro regs_first.no_deadlock) (auto simp: sets_mode_locked_def)
qed

theorem locks_no_deadlock_witness:
  "\<exists>sched'. finished (lock_run sched' (lock_run [0, 1, 0] (List.map task_start [[Apply, Command_worker], [Remote_reset, Ping]])))"
  by (rule locks_no_deadlock) simp

lemma fst_task_start [simp]: "fst (task_start ops) = []"
  by (simp add: task_start_def)

lemma first_two_free:
  "\<not> other_holds 0 l (t # List.map task_start progs)"
  "l \<notin> set (fst t) \<Longrightarrow> \<not> other_holds 1 l (t # List.map task_start progs)"
  by (auto simp: other_holds_def list_ex_iff nth_Cons split: nat.splits)

text \<open>Two tasks that wait for each other.\<close>

definition crossed :: "task list \<Rightarrow> bool" where
  "crossed ts \<longleftrightarrow> 1 < length ts
     \<and> Holding_regs_lock \<in> set (fst (ts ! 0)) \<and> (\<exists>as. snd (ts ! 0) = Lock Remote_command_lock # as)
     \<and> Remote_command_lock \<in> set (fst (ts ! 1)) \<and> (\<exists>as. snd (ts ! 1) = Lock Holding_regs_lock # as)"

lemma crossed_waits: "crossed ts \<Longrightarrow> \<not> can_step 0 ts \<and> \<not> can_step 1 ts \<and> \<not> finished ts"
proof -
  assume c: "crossed ts"
  then have "0 < length ts" by (cases ts) (simp_all add: crossed_def)
  then have "ts ! 0 \<in> set ts" by (rule nth_mem)
  moreover have "snd (ts ! 0) \<noteq> []" using c by (auto simp: crossed_def)
  ultimately have "\<not> finished ts" by (auto simp: finished_def)
  moreover have "other_holds 0 Remote_command_lock ts" "other_holds 1 Holding_regs_lock ts"
    using c \<open>0 < length ts\<close> by (auto simp: crossed_def other_holds_def list_ex_iff intro: bexI [of _ 1] bexI [of _ 0])
  ultimately show ?thesis using c by (auto simp: crossed_def can_step_def)
qed

lemma crossed_step: "crossed ts \<Longrightarrow> crossed (lock_step i ts)"
proof (cases "can_step i ts")
  assume c: "crossed ts"
  case True
  then have "i \<noteq> 0" "i \<noteq> 1" using crossed_waits [OF c] by metis+
  then have "lock_step i ts ! 0 = ts ! 0" "lock_step i ts ! 1 = ts ! 1" by (simp_all add: lock_step_def)
  then show ?thesis using c by (simp add: crossed_def)
qed (simp add: lock_step_def)

lemma crossed_run: "crossed ts \<Longrightarrow> crossed (lock_run is ts)"
  unfolding lock_run_def by (induction "is" arbitrary: ts) (auto simp: crossed_step)

text \<open>C21. With both they deadlock: a write of \<open>APPLY\<close> that holds \<open>holding_regs_lock\<close> and a refresh that holds
  \<open>remote_command_lock\<close> wait for each other, and no schedule, whatever other tasks do, ever lets either go on.\<close>

theorem apply_refresh_deadlock:
  "\<exists>sched. \<forall>sched'. let ts = lock_run sched' (lock_run sched (List.map task_start ((Apply # as) # (Refresh # bs) # progs)))
     in \<not> can_step 0 ts \<and> \<not> can_step 1 ts \<and> \<not> finished ts"
proof (intro exI allI)
  fix sched'
  let ?rest = "List.map task_start ((Refresh # bs) # progs)"
  let ?ts = "List.map task_start ((Apply # as) # (Refresh # bs) # progs)"
  let ?ts1 = "([Holding_regs_lock], tl (snd (task_start (Apply # as)))) # ?rest"
  have step0: "lock_step 0 ?ts = ?ts1"
    using first_two_free(1) [of Holding_regs_lock "task_start (Apply # as)" "(Refresh # bs) # progs"]
    by (simp add: lock_step_def can_step_def task_start_def lock_trace_defs task_step_def)
  have "\<not> other_holds 1 Remote_command_lock ?ts1" by (rule first_two_free(2)) simp
  then have "crossed (lock_step 1 ?ts1)"
    by (simp add: lock_step_def can_step_def task_start_def lock_trace_defs task_step_def crossed_def)
  then have "crossed (lock_step 1 (lock_step 0 ?ts))" by (simp only: step0)
  then have "crossed (lock_run [0, 1] ?ts)" by (simp add: lock_run_def)
  then show "let ts = lock_run sched' (lock_run [0, 1] ?ts) in \<not> can_step 0 ts \<and> \<not> can_step 1 ts \<and> \<not> finished ts"
    using crossed_waits [OF crossed_run] by (simp add: Let_def)
qed

end
