(* ===== verification/Web_Json.thy ===== *)
theory Web_Json
  imports Web_Requests
begin

text \<open>
  The JSON the web server prints, read back. The page's script reads every document with \<open>r.json ()\<close>; the
  reader here is that function on the part of JSON the server uses: objects, arrays, integers, \<open>true\<close>,
  \<open>false\<close> and strings of printable ASCII without escapes, without blanks between them. It gives \<open>None\<close> for
  any other text. The second half shows that every document is such a text and what it reads as.
\<close>

section \<open>Values and their text\<close>

datatype json =
    J_bool bool
  | J_num int
  | J_str string
  | J_arr "json list"
  | J_obj "(string \<times> json) list"

fun json_text :: "json \<Rightarrow> string" and elements_text :: "json list \<Rightarrow> string"
  and members_text :: "(string \<times> json) list \<Rightarrow> string" where
  "json_text (J_bool b) = json_bool b"
| "json_text (J_num i) = dec_of_int i"
| "json_text (J_str s) = QUOTE # s @ [QUOTE]"
| "json_text (J_arr vs) = CHR ''['' # elements_text vs @ '']''"
| "json_text (J_obj ms) = CHR ''{'' # members_text ms @ ''}''"
| "elements_text [] = []"
| "elements_text (v # vs) = json_text v @ (if vs = [] then [] else CHR '','' # elements_text vs)"
| "members_text [] = []"
| "members_text ((k, v) # ms) =
     json_key k @ json_text v @ (if ms = [] then [] else CHR '','' # members_text ms)"

section \<open>The reader\<close>

definition plain_char :: "char \<Rightarrow> bool" where
  "plain_char c \<longleftrightarrow> c \<noteq> QUOTE \<and> c \<noteq> CHR 0x5C \<and> 32 \<le> (of_char c :: nat) \<and> (of_char c :: nat) < 127"

definition plain_text :: "string \<Rightarrow> bool" where
  "plain_text s \<longleftrightarrow> list_all plain_char s"

text \<open>The rest of a string behind its opening quote.\<close>

definition read_string :: "string \<Rightarrow> (string \<times> string) option" where
  "read_string s =
     (case dropWhile plain_char s of [] \<Rightarrow> None
      | c # rest \<Rightarrow> if c = QUOTE then Some (takeWhile plain_char s, rest) else None)"

text \<open>Digits without a leading zero.\<close>

definition read_digits :: "string \<Rightarrow> (nat \<times> string) option" where
  "read_digits s =
     (let ds = takeWhile is_digit_char s
      in if ds = [] \<or> hd ds = CHR ''0'' \<and> tl ds \<noteq> [] then None
         else Some (digits_value ds, dropWhile is_digit_char s))"

definition read_number :: "string \<Rightarrow> (json \<times> string) option" where
  "read_number s =
     (case s of [] \<Rightarrow> None
      | c # cs \<Rightarrow>
        if c = CHR ''-'' then map_option (\<lambda>(n, r). (J_num (- int n), r)) (read_digits cs)
        else map_option (\<lambda>(n, r). (J_num (int n), r)) (read_digits s))"

fun j_value :: "nat \<Rightarrow> string \<Rightarrow> (json \<times> string) option"
  and j_elements :: "nat \<Rightarrow> string \<Rightarrow> (json list \<times> string) option"
  and j_members :: "nat \<Rightarrow> string \<Rightarrow> ((string \<times> json) list \<times> string) option" where
  "j_value 0 s = None"
| "j_value (Suc n) s =
     (case s of [] \<Rightarrow> None
      | c # cs \<Rightarrow>
        if c = CHR ''{'' then
          if starts_with ''}'' cs then Some (J_obj [], tl cs)
          else map_option (\<lambda>(ms, r). (J_obj ms, r)) (j_members n cs)
        else if c = CHR ''['' then
          if starts_with '']'' cs then Some (J_arr [], tl cs)
          else map_option (\<lambda>(vs, r). (J_arr vs, r)) (j_elements n cs)
        else if c = QUOTE then map_option (\<lambda>(t, r). (J_str t, r)) (read_string cs)
        else if starts_with ''true'' s then Some (J_bool True, drop 4 s)
        else if starts_with ''false'' s then Some (J_bool False, drop 5 s)
        else read_number s)"
| "j_elements 0 s = None"
| "j_elements (Suc n) s =
     (case j_value n s of None \<Rightarrow> None
      | Some (v, r) \<Rightarrow>
        (case r of [] \<Rightarrow> None
         | c # cs \<Rightarrow>
           if c = CHR '']'' then Some ([v], cs)
           else if c = CHR '','' then map_option (\<lambda>(vs, r). (v # vs, r)) (j_elements n cs)
           else None))"
| "j_members 0 s = None"
| "j_members (Suc n) s =
     (if \<not> starts_with [QUOTE] s then None
      else
        (case read_string (tl s) of None \<Rightarrow> None
         | Some (k, r) \<Rightarrow>
           if \<not> starts_with '':'' r then None
           else
             (case j_value n (tl r) of None \<Rightarrow> None
              | Some (v, r) \<Rightarrow>
                (case r of [] \<Rightarrow> None
                 | c # cs \<Rightarrow>
                   if c = CHR ''}'' then Some ([(k, v)], cs)
                   else if c = CHR '','' then map_option (\<lambda>(ms, r). ((k, v) # ms, r)) (j_members n cs)
                   else None))))"

declare j_value.simps [simp del] j_elements.simps [simp del] j_members.simps [simp del]

text \<open>Every call reads at least one character, so the length of the text is enough fuel.\<close>

definition json_parse :: "string \<Rightarrow> json option" where
  "json_parse s =
     (case j_value (length s) s of None \<Rightarrow> None
      | Some (v, r) \<Rightarrow> if r = [] then Some v else None)"

section \<open>Reading what was printed\<close>

fun json_ok :: "json \<Rightarrow> bool" and elements_ok :: "json list \<Rightarrow> bool"
  and members_ok :: "(string \<times> json) list \<Rightarrow> bool" where
  "json_ok (J_bool b) = True"
| "json_ok (J_num i) = True"
| "json_ok (J_str s) = plain_text s"
| "json_ok (J_arr vs) = elements_ok vs"
| "json_ok (J_obj ms) = members_ok ms"
| "elements_ok [] = True"
| "elements_ok (v # vs) = (json_ok v \<and> elements_ok vs)"
| "members_ok [] = True"
| "members_ok ((k, v) # ms) = (plain_text k \<and> json_ok v \<and> members_ok ms)"

lemma not_plain_quote [simp]: "\<not> plain_char QUOTE"
  by (simp add: plain_char_def)

lemma digit_plain: "is_digit_char c \<Longrightarrow> plain_char c"
  by (auto simp: plain_char_def is_digit_char_def)

lemma read_string_printed: "plain_text s \<Longrightarrow> read_string (s @ QUOTE # rest) = Some (s, rest)"
  by (simp add: plain_text_def read_string_def list_all_iff dropWhile_append takeWhile_append)

lemma dec_no_leading_zero: "0 < n \<Longrightarrow> hd (dec_of_nat n) \<noteq> CHR ''0''"
proof (induction n rule: less_induct)
  case (less n)
  show ?case
  proof (cases "n < 10")
    case True
    then have "of_char (digit_char n) \<noteq> (of_char (CHR ''0'') :: nat)"
      using less.prems by (simp add: of_char_digit_char)
    then have "digit_char n \<noteq> CHR ''0''" by metis
    then show ?thesis using True by (simp add: dec_of_nat_def digits_of_10)
  next
    case False
    then have "n div 10 < n" "0 < n div 10" by (simp_all add: div_greater_zero_iff)
    with less.IH False digits_of_dec [of "n div 10"] show ?thesis
      by (simp add: dec_of_nat_def digits_of_10)
  qed
qed

lemma read_digits_printed:
  assumes "rest = [] \<or> \<not> is_digit_char (hd rest)"
  shows "read_digits (dec_of_nat n @ rest) = Some (n, rest)"
proof -
  have d: "list_all is_digit_char (dec_of_nat n)" "digits_value (dec_of_nat n) = n"
    using digits_of_dec [of n] by (simp_all add: dec_of_nat_def)
  have t: "takeWhile is_digit_char (dec_of_nat n @ rest) = dec_of_nat n"
    "dropWhile is_digit_char (dec_of_nat n @ rest) = rest"
    using d(1) assms by (auto simp: list_all_iff takeWhile_eq_Nil_iff dropWhile_eq_self_iff)
  have "hd (dec_of_nat n) = CHR ''0'' \<Longrightarrow> tl (dec_of_nat n) = []"
    using dec_no_leading_zero [of n] by (cases "n = 0") (auto simp: dec_of_nat_def digits_of_10)
  then show ?thesis using d(2) by (auto simp: read_digits_def t Let_def)
qed

lemma json_text_hd: "\<exists>c cs. json_text v = c # cs \<and> c \<noteq> CHR '']''"
proof (cases v)
  case (J_num i)
  obtain c cs where "dec_of_nat (nat i) = c # cs" "is_digit_char c" by (rule dec_of_nat_Cons)
  then show ?thesis using J_num by (auto simp: dec_of_int_def is_digit_char_def)
qed (auto simp: json_bool_def)

lemma read_number_printed:
  assumes "rest = [] \<or> \<not> is_digit_char (hd rest)"
  shows "j_value (Suc n) (dec_of_int i @ rest) = Some (J_num i, rest)"
proof (cases "i < 0")
  case True
  then show ?thesis
    using read_digits_printed [OF assms, of "nat (- i)"]
    by (simp add: dec_of_int_def j_value.simps read_number_def)
next
  case False
  obtain c cs where c: "dec_of_nat (nat i) = c # cs" "is_digit_char c" by (rule dec_of_nat_Cons)
  then have "c \<noteq> CHR ''{''" "c \<noteq> CHR ''[''" "c \<noteq> QUOTE" "c \<noteq> CHR ''t''" "c \<noteq> CHR ''f''" "c \<noteq> CHR ''-''"
    by (auto simp: is_digit_char_def)
  with c False show ?thesis
    using read_digits_printed [OF assms, of "nat i"]
    by (simp add: dec_of_int_def j_value.simps read_number_def)
qed

lemma json_parts_printed:
  "\<lbrakk>json_ok v; length (json_text v) \<le> n; rest = [] \<or> \<not> is_digit_char (hd rest)\<rbrakk>
     \<Longrightarrow> j_value n (json_text v @ rest) = Some (v, rest)"
  "\<lbrakk>elements_ok vs; vs \<noteq> []; length (elements_text vs) < n\<rbrakk>
     \<Longrightarrow> j_elements n (elements_text vs @ CHR '']'' # rest) = Some (vs, rest)"
  "\<lbrakk>members_ok ms; ms \<noteq> []; length (members_text ms) < n\<rbrakk>
     \<Longrightarrow> j_members n (members_text ms @ CHR ''}'' # rest) = Some (ms, rest)"
proof (induction v and vs and ms arbitrary: n rest and n rest and n rest
    rule: json_text_elements_text_members_text.induct)
  case (1 b)
  then show ?case by (cases n) (auto simp: j_value.simps json_bool_def split: if_splits)
next
  case (2 i)
  moreover have "\<exists>c cs. dec_of_int i = c # cs" using json_text_hd [of "J_num i"] by auto
  ultimately show ?case by (cases n) (auto intro: read_number_printed)
next
  case (3 s)
  then show ?case by (cases n) (auto simp: j_value.simps read_string_printed)
next
  case (4 vs)
  then obtain m where n: "n = Suc m" "length (elements_text vs) < m" by (cases n) auto
  show ?case
  proof (cases "vs = []")
    case False
    then obtain v ws where "vs = v # ws" by (cases vs) auto
    moreover obtain c cs where "json_text v = c # cs" "c \<noteq> CHR '']''" using json_text_hd [of v] by blast
    ultimately have "\<not> starts_with '']'' (elements_text vs @ CHR '']'' # rest)" by auto
    with 4 n False show ?thesis by (simp add: j_value.simps)
  qed (simp add: n j_value.simps)
next
  case (5 ms)
  then obtain m where n: "n = Suc m" "length (members_text ms) < m" by (cases n) auto
  show ?case
  proof (cases "ms = []")
    case False
    then have "\<not> starts_with ''}'' (members_text ms @ CHR ''}'' # rest)"
      by (cases ms) (auto simp: json_key_def)
    with 5 n False show ?thesis by (simp add: j_value.simps)
  qed (simp add: n j_value.simps)
next
  case (7 v vs)
  then obtain m where n: "n = Suc m" by (cases n) auto
  show ?case
  proof (cases "vs = []")
    case True
    then show ?thesis using 7 n by (simp add: j_elements.simps is_digit_char_def)
  next
    case False
    then show ?thesis using 7 n by (simp add: j_elements.simps)
  qed
next
  case (9 k v ms)
  then obtain m where n: "n = Suc m" by (cases n) auto
  show ?case
  proof (cases "ms = []")
    case True
    then show ?thesis using 9 n by (simp add: j_members.simps json_key_def read_string_printed)
  next
    case False
    then show ?thesis using 9 n by (simp add: j_members.simps json_key_def read_string_printed)
  qed
qed simp_all

lemma json_parse_text: "json_ok v \<Longrightarrow> json_parse (json_text v) = Some v"
  using json_parts_printed(1) [of v "length (json_text v)" "[]"] by (simp add: json_parse_def)

section \<open>The documents\<close>

text \<open>A loop prints the values it reads, separated by commas.\<close>

fun loop_values :: "(nat \<Rightarrow> 'w \<Rightarrow> u16 \<times> 'w) \<Rightarrow> nat \<Rightarrow> nat \<Rightarrow> 'w \<Rightarrow> u16 list \<times> 'w" where
  "loop_values rd i 0 w = ([], w)"
| "loop_values rd i (Suc n) w =
     (let (v, w) = rd i w; (vs, w) = loop_values rd (i + 1) n w in (v # vs, w))"

definition j_words :: "u16 list \<Rightarrow> json" where
  "j_words vs = J_arr (List.map (\<lambda>v. J_num (int (unat v))) vs)"

definition words_text :: "u16 list \<Rightarrow> string" where
  "words_text vs = elements_text (List.map (\<lambda>v. J_num (int (unat v))) vs)"

lemma words_text_simps [simp]:
  "words_text [] = []"
  "words_text (v # vs) = dec_of_nat (unat v) @ (if vs = [] then [] else CHR '','' # words_text vs)"
  by (simp_all add: words_text_def dec_of_int_def)

lemma elements_ok_words [simp]: "elements_ok (List.map (\<lambda>v. J_num (f v)) vs)"
  by (induction vs) simp_all

lemma j_words_ok [simp]: "json_ok (j_words vs)"
  by (simp add: j_words_def)

lemma j_words_text: "json_text (j_words vs) = CHR ''['' # words_text vs @ '']''"
  by (simp add: j_words_def words_text_def)

lemma json_loop_values:
  assumes "length buf + 6 * k < n" and "loop_values rd i k w = (vs, w')"
  shows "json_loop rd n i k buf w
     = (Inr (buf @ (if i = 0 \<or> vs = [] then words_text vs else CHR '','' # words_text vs)), w')"
  using assms
proof (induction k arbitrary: i buf w vs w')
  case (Suc k)
  obtain v w1 where v: "rd i w = (v, w1)" by (rule prod.exhaust)
  obtain us w2 where us: "loop_values rd (i + 1) k w1 = (us, w2)" by (rule prod.exhaust)
  let ?t = "(if i = 0 then [] else '','') @ dec_of_nat (unat v)"
  have l: "length ?t \<le> 6" using length_dec_u16 [of v] by simp
  have "length buf + length ?t < n" using Suc.prems(1) l unfolding mult_Suc_right by linarith
  then have s: "snprintk_at n ?t buf = Inr (buf @ ?t)" by (rule snprintk_at_fits)
  have "length (buf @ ?t) + 6 * k < n" using Suc.prems(1) l by (simp del: append_assoc)
  note ih = Suc.IH [OF this us]
  have "vs = v # us" "w' = w2" using Suc.prems(2) us v by (simp_all add: Let_def)
  then show ?case
    unfolding json_loop.simps Let_def v prod.case s sum.case using ih by auto
qed simp

lemma loop_values_pure: "loop_values (\<lambda>i w. (f i w, w)) i k w = (List.map (\<lambda>j. f j w) [i..<i + k], w)"
  by (induction k arbitrary: i) (simp_all add: upt_conv_Cons del: upt_Suc)

lemma json_num_text: "json_num name n = json_key name @ json_text (J_num (int n))"
  by (simp add: json_num_def dec_of_int_def)

text \<open>The register image.\<close>

definition holding_image :: "m7_env \<Rightarrow> m7 \<Rightarrow> u16 list" where
  "holding_image e w = List.map (\<lambda>i. read_holding_or_zero e (of_nat i) w) [0..<60]"

definition registers_json :: "m7_env \<Rightarrow> m7 \<Rightarrow> json" where
  "registers_json e w = J_obj [(''count'', J_num 60), (''holding'', j_words (holding_image e w))]"

lemma plain_names [simp]:
  "plain_text ''count''" "plain_text ''holding''" "plain_text ''id''"
  "plain_text ''value''" "plain_text ''mapping''" "plain_text ''values''"
  "plain_text ''input''" "plain_text ''output''" "plain_text ''mode''"
  "plain_text ''ip''" "plain_text ''mask''" "plain_text ''gw''"
  "plain_text ''link''" "plain_text ''modbus_connections''"
  "plain_text ''heartbeat''" "plain_text ''last_status''"
  "plain_text ''available''" "plain_text ''stale''" "plain_text ''flags''"
  "plain_text ''applied''" "plain_text ''target''" "plain_text ''direction''"
  "plain_text ''fault''" "plain_text ''buttons''" "plain_text ''potentiometer''"
  "plain_text ''command_age_ms''" "plain_text ''sequence''"
  by (simp_all add: plain_text_def plain_char_def)

lemma registers_document:
  "\<exists>t. json_registers e 2048 w = Inr t \<and> json_parse t = Some (registers_json e w)"
proof -
  let ?h = "concat [''{'', json_num ''count'' 60, '','', json_key ''holding'', ''['']"
  let ?rd = "\<lambda>i w. (read_holding_or_zero e (of_nat i) w, w)" and ?t = "words_text (holding_image e w)"
  have u: "unat APP_MODBUS_HOLDING_REG_COUNT = 60" by (simp add: c_def)
  have h: "length ?h \<le> 30" using dec_small [of 60] by simp
  have v: "loop_values ?rd 0 60 w = (holding_image e w, w)"
    by (simp only: loop_values_pure holding_image_def add_0)
  have l: "json_loop ?rd 2048 0 60 ?h w = (Inr (?h @ ?t), w)"
    using json_loop_values [of ?h 60 2048 ?rd 0 w, OF _ v] h by simp
  have b: "length (?h @ ?t) \<le> length ?h + 6 * 60"
    using json_loop_fits [of ?h 60 2048 ?rd 0 w] h unfolding l fst_conv sum.inject by auto
  have p0: "snprintk_at 2048 ?h [] = Inr ?h" using snprintk_at_fits [of "[]" ?h 2048] h by simp
  have p1: "snprintk_at 2048 '']}'' (?h @ ?t) = Inr ((?h @ ?t) @ '']}'')"
    using h b by (intro snprintk_at_fits) (simp del: concat.simps)
  have "json_registers e 2048 w = Inr ((?h @ ?t) @ '']}'')"
    unfolding json_registers_def u p0 sum.case l fst_conv p1 by simp
  moreover have "(?h @ ?t) @ '']}'' = json_text (registers_json e w)"
    by (simp add: registers_json_def j_words_text json_num_text)
  moreover have "json_ok (registers_json e w)" by (simp add: registers_json_def)
  ultimately show ?thesis using json_parse_text by metis
qed

text \<open>One register.\<close>

lemma register_document:
  assumes "json_register e reg_id w = Inr t"
  shows "\<exists>v. app_modbus_tcp_holding_read e reg_id w = Inr v
     \<and> json_parse t = Some (J_obj [(''id'', J_num (int (unat reg_id))), (''value'', J_num (int (unat v)))])"
proof -
  obtain v where v: "app_modbus_tcp_holding_read e reg_id w = Inr v"
    using assms by (cases "app_modbus_tcp_holding_read e reg_id w") (auto simp: json_register_def)
  let ?j = "J_obj [(''id'', J_num (int (unat reg_id))), (''value'', J_num (int (unat v)))]"
  have t: "t = json_text ?j" using assms v by (simp add: json_register_def json_num_text)
  have "json_parse t = Some ?j" unfolding t by (rule json_parse_text) simp
  then show ?thesis using v by blast
qed

text \<open>The scanner's images. Reading a word moves the access counters only, so all words are those of the
  state before.\<close>

definition diag_only :: "m7 \<Rightarrow> m7 \<Rightarrow> bool" where
  "diag_only w w' \<longleftrightarrow> m7_modbus w' = m7_modbus w \<and> m7_link w' = m7_link w
     \<and> sc_input_local_regs (m7_scanner w') = sc_input_local_regs (m7_scanner w)
     \<and> sc_output_local_regs (m7_scanner w') = sc_output_local_regs (m7_scanner w)"

lemma diag_only_refl [simp]: "diag_only w w"
  by (simp add: diag_only_def)

lemma diag_only_trans: "diag_only w w1 \<Longrightarrow> diag_only w1 w2 \<Longrightarrow> diag_only w w2"
  by (simp add: diag_only_def)

lemma read_holding_diag: "diag_only w w' \<Longrightarrow> read_holding_or_zero e a w' = read_holding_or_zero e a w"
  using holding_reg_rd_cong [of w' w e]
  by (simp add: diag_only_def read_holding_or_zero_def app_modbus_tcp_holding_read_def)

lemma scanner_rd_diag:
  "diag_only w (snd (scanner_input_rd e a w))" "diag_only w (snd (scanner_output_rd e a w))"
  by (simp_all add: diag_only_def scanner_input_rd_def scanner_output_rd_def case_prod_beta Let_def
      app_modbus_scanner_input_reg_rd_def app_modbus_scanner_output_reg_rd_def split: sum.split)

lemma scanner_rd_same:
  assumes "diag_only w w'"
  shows "fst (scanner_input_rd e a w') = fst (scanner_input_rd e a w)"
    and "fst (scanner_output_rd e a w') = fst (scanner_output_rd e a w)"
proof -
  have h: "holding_reg_rd e w' = holding_reg_rd e w"
    using assms by (intro holding_reg_rd_cong) (simp_all add: diag_only_def)
  have map_same: "scanner_map_rd (Some (holding_reg_rd e)) b a w' = scanner_map_rd (Some (holding_reg_rd e)) b a w" for b
    by (simp add: scanner_map_rd_def h)
  show "fst (scanner_input_rd e a w') = fst (scanner_input_rd e a w)"
    using assms by (intro scanner_input_rd_cong) (simp_all add: diag_only_def)
  show "fst (scanner_output_rd e a w') = fst (scanner_output_rd e a w)"
    using assms unfolding scanner_output_rd_def app_modbus_scanner_output_reg_rd_def prod.case map_same option.case h
    by (simp add: diag_only_def Let_def split: sum.split)
qed

lemma scanner_value_diag:
  assumes "diag_only w w'"
  shows "fst (scanner_value e input i w') = fst (scanner_value e input i w)"
    and "diag_only w (snd (scanner_value e input i w'))"
  using scanner_rd_same [OF assms] diag_only_trans [OF assms scanner_rd_diag(1)]
    diag_only_trans [OF assms scanner_rd_diag(2)]
  by (simp_all add: scanner_value_def case_prod_beta)

lemma loop_values_scanner:
  assumes "diag_only w w'"
  shows "\<exists>w2. loop_values (scanner_value e input) i k w'
       = (List.map (\<lambda>j. fst (scanner_value e input j w)) [i..<i + k], w2) \<and> diag_only w w2"
  using assms
proof (induction k arbitrary: i w')
  case (Suc k)
  obtain v w1 where v: "scanner_value e input i w' = (v, w1)" by (rule prod.exhaust)
  with scanner_value_diag [OF Suc.prems, of e input i] Suc.IH [of w1 "i + 1"] show ?case
    by (auto simp: Let_def upt_conv_Cons simp del: upt_Suc)
qed simp

definition scanner_json :: "m7_env \<Rightarrow> bool \<Rightarrow> m7 \<Rightarrow> json" where
  "scanner_json e input w =
     (let map_base = (if input then APP_MB_HREG_SCANNER_INPUT_MAP_BASE else APP_MB_HREG_SCANNER_OUTPUT_MAP_BASE)
      in J_obj [(''count'', J_num 5),
           (''mapping'', j_words (List.map (\<lambda>i. read_holding_or_zero e (map_base + of_nat i) w) [0..<5])),
           (''values'', j_words (List.map (\<lambda>i. fst (scanner_value e input i w)) [0..<5]))])"

lemma scanner_json_ok [simp]: "json_ok (scanner_json e input w)"
  by (simp add: scanner_json_def Let_def)

lemma scanner_json_diag: "diag_only w w' \<Longrightarrow> scanner_json e input w' = scanner_json e input w"
  by (simp add: scanner_json_def Let_def read_holding_diag scanner_value_diag(1))

lemma scanner_image_text:
  assumes "200 < n"
  shows "\<exists>w'. json_scanner_image e n input w = (Inr (json_text (scanner_json e input w)), w') \<and> diag_only w w'"
proof -
  let ?h = "concat [''{'', json_num ''count'' 5, '','', json_key ''mapping'', ''['']"
  let ?m = "concat [''],'', json_key ''values'', ''['']"
  let ?b = "if input then APP_MB_HREG_SCANNER_INPUT_MAP_BASE else APP_MB_HREG_SCANNER_OUTPUT_MAP_BASE"
  let ?rd = "\<lambda>i w. (read_holding_or_zero e (?b + of_nat i) w, w)"
  let ?maps = "List.map (\<lambda>i. read_holding_or_zero e (?b + of_nat i) w) [0..<5]"
  let ?vals = "List.map (\<lambda>i. fst (scanner_value e input i w)) [0..<5]"
  have len: "length (words_text vs) \<le> 6 * length vs" for vs
  proof (induction vs)
    case (Cons v vs)
    then show ?case using length_dec_u16 [of v] by auto
  qed simp
  have h: "length ?h \<le> 30" "length ?m = 12" "length (words_text ?maps) \<le> 30" "length (words_text ?vals) \<le> 30"
    using dec_small [of 5] len [of ?maps] len [of ?vals] by (simp_all del: upt_Suc words_text_simps)
  have v1: "loop_values ?rd 0 5 w = (?maps, w)" by (simp only: loop_values_pure add_0)
  have l1: "json_loop ?rd n 0 5 ?h w = (Inr (?h @ words_text ?maps), w)"
    using json_loop_values [of ?h 5 n ?rd 0 w, OF _ v1] h(1) assms by simp
  let ?t = "?h @ words_text ?maps"
  obtain w2 where v2: "loop_values (scanner_value e input) 0 5 w = (?vals, w2)" and w2: "diag_only w w2"
    using loop_values_scanner [OF diag_only_refl, of e input 0 5 w] by auto
  have l2: "json_loop (scanner_value e input) n 0 5 (?t @ ?m) w = (Inr ((?t @ ?m) @ words_text ?vals), w2)"
    using json_loop_values [of "?t @ ?m" 5 n "scanner_value e input" 0 w, OF _ v2] h assms
    by (simp del: concat.simps words_text_simps upt_Suc)
  have s0: "snprintk_at n ?h [] = Inr ?h" using snprintk_at_fits [of "[]" ?h n] h assms by simp
  have s1: "snprintk_at n ?m ?t = Inr (?t @ ?m)"
    using h assms by (intro snprintk_at_fits) (simp del: concat.simps words_text_simps upt_Suc)
  have s2: "snprintk_at n '']}'' ((?t @ ?m) @ words_text ?vals) = Inr (((?t @ ?m) @ words_text ?vals) @ '']}'')"
    using h assms by (intro snprintk_at_fits) (simp del: concat.simps words_text_simps upt_Suc)
  have c: "(if input then unat APP_MODBUS_SCANNER_INPUT_REG_COUNT else unat APP_MODBUS_SCANNER_OUTPUT_REG_COUNT) = 5"
    by (simp add: c_def)
  have "json_scanner_image e n input w = (Inr (((?t @ ?m) @ words_text ?vals) @ '']}''), w2)"
    unfolding json_scanner_image_def Let_def c s0 sum.case l1 prod.case s1 l2 s2 by simp
  moreover have "((?t @ ?m) @ words_text ?vals) @ '']}'' = json_text (scanner_json e input w)"
    by (simp add: scanner_json_def Let_def j_words_text json_num_text del: upt_Suc words_text_simps)
  ultimately show ?thesis using w2 by auto
qed

lemma scanner_document:
  "\<exists>t w'. json_scanner e 2048 w = (Inr t, w') \<and> diag_only w w'
     \<and> json_parse t = Some (J_obj [(''input'', scanner_json e True w), (''output'', scanner_json e False w)])"
proof -
  let ?h = "''{'' @ json_key ''input''" and ?m = "'','' @ json_key ''output''"
  let ?t = "json_text (scanner_json e True w)" and ?u = "json_text (scanner_json e False w)"
  obtain w1 where i1: "json_scanner_image e (2048 - length ?h) True w = (Inr ?t, w1)" and w1: "diag_only w w1"
    using scanner_image_text [of "2048 - length ?h" e True w] by auto
  have "200 < 2048 - length ?h" by simp
  then have t: "length ?t \<le> 110"
    using json_scanner_image_fits [of "2048 - length ?h" e True w] unfolding i1 fst_conv sum.inject by blast
  let ?b = "(?h @ ?t) @ ?m"
  have h: "length ?h = 9" "length ?m = 10" by simp_all
  have s0: "snprintk_at 2048 ?h [] = Inr ?h" using snprintk_at_fits [of "[]" ?h 2048] h by simp
  have s1: "snprintk_at 2048 ?t ?h = Inr (?h @ ?t)" using t h by (intro snprintk_at_fits) linarith
  have s2: "snprintk_at 2048 ?m (?h @ ?t) = Inr ?b" using t h
    by (intro snprintk_at_fits) (simp del: json_key_length append.simps append_assoc)
  have b: "length ?b \<le> 129" using t h by (simp del: json_key_length append.simps append_assoc)
  then have n: "200 < 2048 - length ?b" by linarith
  obtain w2 where i2: "json_scanner_image e (2048 - length ?b) False w1 = (Inr ?u, w2)" and w2: "diag_only w w2"
    using scanner_image_text [OF n, of e False w1] diag_only_trans [OF w1] unfolding scanner_json_diag [OF w1] by blast
  have u: "length ?u \<le> 110" using json_scanner_image_fits [OF n, of e False w1] unfolding i2 fst_conv sum.inject by blast
  have s3: "snprintk_at 2048 ?u ?b = Inr (?b @ ?u)" using u b by (intro snprintk_at_fits) linarith
  have s4: "snprintk_at 2048 ''}'' (?b @ ?u) = Inr ((?b @ ?u) @ ''}'')"
    using u b by (intro snprintk_at_fits) (simp del: json_key_length append_assoc)
  have "json_scanner e 2048 w = (Inr ((?b @ ?u) @ ''}''), w2)"
    unfolding json_scanner_def s0 sum.case i1 prod.case s1 s2 i2 s3 s4 by simp
  moreover have "(?b @ ?u) @ ''}'' = json_text (J_obj [(''input'', scanner_json e True w), (''output'', scanner_json e False w)])"
    by simp
  moreover have "json_ok (J_obj [(''input'', scanner_json e True w), (''output'', scanner_json e False w)])" by simp
  ultimately show ?thesis using w2 json_parse_text by metis
qed

text \<open>The device's status. Its three texts come from \<open>net_addr_ntop\<close> or from the stored configuration.\<close>

definition status_json :: "m7_env \<Rightarrow> m7 \<Rightarrow> json" where
  "status_json e w =
     (let active = snd (m7_active e w)
      in J_obj [(''mode'', J_num (int (nd_mode active))), (''ip'', J_str (nd_ip active)),
           (''mask'', J_str (nd_mask active)), (''gw'', J_str (nd_gw active)),
           (''link'', J_bool (net_cfg_link_is_up (me_has_iface e) (me_if_up e) (me_carrier e))),
           (''modbus_connections'', J_num (int (unat (app_modbus_tcp_connection_count w)))),
           (''heartbeat'', J_num (int (unat (app_modbus_tcp_heartbeat_count w)))),
           (''last_status'', J_num (s16_of_u16 (read_holding_or_zero e APP_MB_HREG_STATUS w)))])"

definition plain_config :: "net_cfg_data \<Rightarrow> bool" where
  "plain_config d \<longleftrightarrow> plain_text (nd_ip d) \<and> plain_text (nd_mask d) \<and> plain_text (nd_gw d)"

lemma plain_take: "plain_text s \<Longrightarrow> plain_text (snprintk16 s)"
  by (auto simp: plain_text_def snprintk16_def list_all_iff dest: in_set_takeD)

lemma active_plain:
  assumes "\<And>a. plain_text (me_ntop e a)" and "plain_config (m7_net w)"
  shows "plain_config (snd (m7_active e w))"
proof -
  have "plain_text ''0.0.0.0''" by (simp add: plain_text_def plain_char_def)
  then show ?thesis
    using assms plain_take
    by (auto simp: m7_active_def net_cfg_get_active_def net_cfg_get_saved_def net_cfg_copy_def plain_config_def
        Let_def split: option.split prod.split)
qed

lemma status_document:
  assumes "\<And>a. plain_text (me_ntop e a)" and "plain_config (m7_net w)"
  shows "\<exists>t. json_status e w = Inr t \<and> json_parse t = Some (status_json e w)"
proof -
  have "json_status e w = Inr (json_text (status_json e w))"
    by (simp add: json_status_def status_json_def Let_def json_num_text)
  moreover have "json_ok (status_json e w)"
    using active_plain [OF assms] by (simp add: status_json_def Let_def plain_config_def)
  ultimately show ?thesis using json_parse_text by blast
qed

text \<open>The motor state.\<close>

definition motor_state_json :: "app_ipc_motor_state \<Rightarrow> json" where
  "motor_state_json state =
     (let word = (\<lambda>i. J_num (int (unat (ms_words state ! i))))
      in if \<not> ms_valid state then J_obj [(''available'', J_bool False)]
         else J_obj [(''available'', J_bool True), (''stale'', J_bool (ms_stale state)),
           (''flags'', word APP_MOTOR_STATE_FLAGS), (''applied'', word APP_MOTOR_STATE_APPLIED_DUTY_PERMILLE),
           (''target'', word APP_MOTOR_STATE_TARGET_DUTY_PERMILLE), (''direction'', word APP_MOTOR_STATE_DIRECTION),
           (''fault'', word APP_MOTOR_STATE_FAULT_CODE), (''buttons'', word APP_MOTOR_STATE_BUTTONS),
           (''potentiometer'', word APP_MOTOR_STATE_POTENTIOMETER_RAW),
           (''command_age_ms'', word APP_MOTOR_STATE_COMMAND_AGE_MS), (''heartbeat'', word APP_MOTOR_STATE_HEARTBEAT),
           (''sequence'', word APP_MOTOR_STATE_LAST_ACCEPTED_SEQUENCE)])"

lemma motor_state_document:
  "\<exists>t. json_motor_state e w = Inr t
     \<and> json_parse t = Some (motor_state_json (app_ipc_get_motor_state (me_now e) (m7_link w)))"
proof -
  let ?j = "motor_state_json (app_ipc_get_motor_state (me_now e) (m7_link w))"
  have "json_motor_state e w = Inr (json_text ?j)"
    by (simp add: json_motor_state_def motor_state_json_def Let_def json_num_text json_bool_def)
  moreover have "json_ok ?j" by (simp add: motor_state_json_def Let_def)
  ultimately show ?thesis using json_parse_text by blast
qed

section \<open>The answers to the page's requests\<close>

definition document_json :: "m7_env \<Rightarrow> m7 \<Rightarrow> string \<Rightarrow> json option" where
  "document_json e w path =
     (if path = ''/api/status'' then Some (status_json e w)
      else if path = ''/api/registers'' then Some (registers_json e w)
      else if path = ''/api/scanner''
      then Some (J_obj [(''input'', scanner_json e True w), (''output'', scanner_json e False w)])
      else if path = ''/api/motor/state''
      then Some (motor_state_json (app_ipc_get_motor_state (me_now e) (m7_link w)))
      else None)"

lemma page_paths: "document_json e w path \<noteq> None \<Longrightarrow>
  path \<in> {''/api/status'', ''/api/registers'', ''/api/scanner'', ''/api/motor/state''}"
  by (auto simp: document_json_def split: if_splits)

lemma handle_get_request:
  assumes "path \<in> {''/api/status'', ''/api/registers'', ''/api/scanner'', ''/api/motor/state''}"
  shows "handle_http_request client we (http_request ''GET'' path headers []) ww = handle_api_get client we path ww"
proof -
  have path: "CHR '' '' \<notin> set path" "0 < length path" "length path < 96" "starts_with ''/api/'' path"
    "path \<noteq> ''/''" "path \<noteq> ''/index.html''" "path \<noteq> ''/app.css''" "path \<noteq> ''/app.js''" "path \<noteq> ''/logo.jpg''"
    using assms by (elim insertE emptyE; simp)+
  have "parse_request_line (http_request ''GET'' path headers []) 8 96 = Some (''GET'', path)"
    using path(1-3) by (intro parse_request_line_http) simp_all
  then show ?thesis by (simp add: handle_http_request_def path(4-9))
qed

lemma api_document_read_back:
  assumes "\<And>a. plain_text (me_ntop e a)" and "\<And>a. length (me_ntop e a) \<le> 15"
    and "plain_config (m7_net w)" and "nd_mode (m7_net w) < 2 ^ 32"
    and "document_json e w path = Some doc"
  shows "\<exists>t w'. api_document e path w = (Some (Inr t), w') \<and> length t < 2048 \<and> json_parse t = Some doc"
proof -
  have "path \<in> {''/api/status'', ''/api/registers'', ''/api/scanner'', ''/api/motor/state''}"
    using assms(5) page_paths by blast
  then consider "path = ''/api/status''" | "path = ''/api/registers''" | "path = ''/api/scanner''"
    | "path = ''/api/motor/state''" by blast
  then show ?thesis
  proof cases
    case 1
    obtain t where t: "json_status e w = Inr t" "json_parse t = Some (status_json e w)"
      using status_document [OF assms(1,3)] by blast
    have "doc = status_json e w" using assms(5) by (simp add: document_json_def 1)
    then show ?thesis using t json_status_fits [OF assms(2,4) t(1)] by (simp add: api_document_def 1)
  next
    case 2
    obtain t where t: "json_registers e 2048 w = Inr t" "json_parse t = Some (registers_json e w)"
      using registers_document [of e w] by blast
    have "doc = registers_json e w" using assms(5) by (simp add: document_json_def 2)
    then show ?thesis
      using t json_registers_fits [of e w] by (simp add: api_document_def APP_WEB_JSON_BUF_SIZE_def 2)
  next
    case 3
    let ?d = "J_obj [(''input'', scanner_json e True w), (''output'', scanner_json e False w)]"
    obtain t w' where t: "json_scanner e 2048 w = (Inr t, w')" "json_parse t = Some ?d"
      using scanner_document [of e w] by blast
    have "doc = ?d" using assms(5) by (simp add: document_json_def 3)
    then show ?thesis
      using t json_scanner_fits [of e w]
      by (simp add: api_document_def APP_WEB_JSON_BUF_SIZE_def parse_id_after_prefix_def 3)
  next
    case 4
    let ?d = "motor_state_json (app_ipc_get_motor_state (me_now e) (m7_link w))"
    obtain t where t: "json_motor_state e w = Inr t" "json_parse t = Some ?d"
      using motor_state_document [of e w] by blast
    have "doc = ?d" using assms(5) by (simp add: document_json_def 4)
    then show ?thesis
      using t json_motor_state_fits [OF t(1)] by (simp add: api_document_def parse_id_after_prefix_def 4)
  qed
qed

lemma document_answer:
  assumes "\<And>a. plain_text (me_ntop (we_m7 we) a)" and "\<And>a. length (me_ntop (we_m7 we) a) \<le> 15"
    and "plain_config (m7_net (ww_m7 ww))" and "nd_mode (m7_net (ww_m7 ww)) < 2 ^ 32"
    and "document_json (we_m7 we) (ww_m7 ww) path = Some doc"
    and "(ret, r, ww') = handle_http_request client we (http_request ''GET'' path headers []) ww"
  shows "hr_code r = 200 \<and> json_parse (hr_body r) = Some doc"
proof -
  obtain t w' where t: "api_document (we_m7 we) path (ww_m7 ww) = (Some (Inr t), w')" "length t < 2048"
    "json_parse t = Some doc"
    using api_document_read_back [OF assms(1-5)] by blast
  then show ?thesis
    using assms(6) handle_get_request [OF page_paths, of "we_m7 we" "ww_m7 ww" path client we headers ww] assms(5)
    by (simp add: handle_api_get_def APP_WEB_JSON_BUF_SIZE_def send_to_def ok_json_def response_def)
qed

text \<open>C31. Every document the page fetches is JSON and says what the device holds: the answer to a GET of
  \<open>/api/status\<close>, \<open>/api/registers\<close>, \<open>/api/scanner\<close> or \<open>/api/motor/state\<close> is a 200 whose body reads as
  exactly the value built from the registers, the scanner's words, the active configuration or the cached
  motor state, all of one state. The hypotheses: \<open>net_addr_ntop\<close> gives printable text of at most 15
  characters, and so are the stored texts.\<close>

theorem web_documents_read_back:
  assumes "\<And>a. plain_text (me_ntop (we_m7 we) a)" and "\<And>a. length (me_ntop (we_m7 we) a) \<le> 15"
    and "plain_config (m7_net (ww_m7 ww))" and "nd_mode (m7_net (ww_m7 ww)) < 2 ^ 32"
    and "document_json (we_m7 we) (ww_m7 ww) path = Some doc"
    and "(ret, r, ww') = handle_http_request client we (http_request ''GET'' path headers []) ww"
  shows "hr_code r = 200 \<and> json_parse (hr_body r) = Some doc"
  using assms by (rule document_answer)

text \<open>What \<open>net_addr_ntop\<close> prints for an IPv4 address.\<close>

definition dotted :: "u32 \<Rightarrow> string" where
  "dotted a = dec_of_nat (unat a div 16777216) @ ''.'' @ dec_of_nat (unat a div 65536 mod 256)
     @ ''.'' @ dec_of_nat (unat a div 256 mod 256) @ ''.'' @ dec_of_nat (unat a mod 256)"

lemma dotted_plain: "plain_text (dotted a)"
proof -
  have "plain_char (CHR ''.'')" by (simp add: plain_char_def)
  then show ?thesis
    using dec_of_nat_digits digit_plain by (auto simp: dotted_def plain_text_def list_all_iff)
qed

lemma length_dec_byte: "n < 256 \<Longrightarrow> length (dec_of_nat n) \<le> 3"
  unfolding dec_of_nat_def using length_digits_of [of 10 n 3] by simp

lemma dotted_length: "length (dotted a) \<le> 15"
proof -
  have "unat a div 16777216 < 256" using unat_u32_bound [of a] by (simp add: div_less_iff_less_mult)
  then show ?thesis
    using length_dec_byte [of "unat a div 16777216"] length_dec_byte [of "unat a div 65536 mod 256"]
      length_dec_byte [of "unat a div 256 mod 256"] length_dec_byte [of "unat a mod 256"]
    by (simp add: dotted_def)
qed

definition web_env_dotted :: web_env where
  "web_env_dotted = web_env_example\<lparr>we_m7 := m7_env_example\<lparr>me_ntop := dotted\<rparr>\<rparr>"

lemma default_texts:
  "plain_text NET_CFG_DEFAULT_IP" "plain_text NET_CFG_DEFAULT_MASK" "plain_text NET_CFG_DEFAULT_GW"
  by (simp_all add: plain_text_def plain_char_def NET_CFG_DEFAULT_IP_def NET_CFG_DEFAULT_MASK_def NET_CFG_DEFAULT_GW_def)

theorem web_documents_read_back_witness:
  "json_parse (hr_body (fst (snd (handle_http_request (\<lambda>_. 0) web_env_dotted
     (http_request ''GET'' ''/api/registers'' [] []) (web_world_of m7_boot)))))
   = Some (registers_json (we_m7 web_env_dotted) m7_boot)"
proof -
  obtain ret r ww' where h: "(ret, r, ww') = handle_http_request (\<lambda>_. 0) web_env_dotted
      (http_request ''GET'' ''/api/registers'' [] []) (web_world_of m7_boot)" by (metis prod.exhaust)
  have net: "plain_config (m7_net (ww_m7 (web_world_of m7_boot)))" "nd_mode (m7_net (ww_m7 (web_world_of m7_boot))) < 2 ^ 32"
    by (simp_all add: web_world_of_def m7_boot_def net_cfg_boot_def plain_config_def default_texts c_def)
  have "document_json (we_m7 web_env_dotted) (ww_m7 (web_world_of m7_boot)) ''/api/registers''
      = Some (registers_json (we_m7 web_env_dotted) m7_boot)"
    by (simp add: document_json_def web_world_of_def)
  from web_documents_read_back [OF _ _ net this h] h [symmetric] show ?thesis
    by (simp add: web_env_dotted_def dotted_plain dotted_length)
qed

end
