(* ===== verification/Web_Page.thy ===== *)
theory Web_Page
  imports Web_Json Command_Chain
begin

unbundle bit_operations_syntax

text \<open>
  The page's script, \<open>app_web_js\<close> in \<open>app_m7/src/web/app_web_assets.h\<close>: what it shows of the documents it
  fetches, and the requests its buttons send. A JavaScript number is an \<open>int\<close> where the script only
  meets integers; \<open>null\<close> in the script's state is the empty object, as which the script treats it.

  Of ECMAScript, \<open>Number (s)\<close> is modelled on blank text and decimal integers; \<open>other\<close> is its value on any
  other text. The user's text is an argument of the actions. The document and its views are
  those of \<open>Page_Session\<close>; the elements of a table are its rows.
\<close>

section \<open>Numbers and values of the script\<close>

text \<open>An integer, or another number (\<open>NaN\<close> too) as it prints.\<close>

datatype js_num = Int_num int | Other_num string

definition js_trim :: "string \<Rightarrow> string" where
  "js_trim s = rev (dropWhile is_space_char (rev (dropWhile is_space_char s)))"

definition all_digits :: "string \<Rightarrow> nat option" where
  "all_digits s = (if s \<noteq> [] \<and> list_all is_digit_char s then Some (digits_value s) else None)"

definition int_literal :: "string \<Rightarrow> int option" where
  "int_literal s =
     (case s of [] \<Rightarrow> None
      | c # cs \<Rightarrow>
        if c = CHR ''-'' then map_option (\<lambda>n. - int n) (all_digits cs)
        else if c = CHR ''+'' then map_option int (all_digits cs)
        else map_option int (all_digits s))"

definition js_Number :: "(string \<Rightarrow> js_num) \<Rightarrow> string \<Rightarrow> js_num" where
  "js_Number other s =
     (let t = js_trim s
      in if t = [] then Int_num 0
         else
           (case int_literal t of None \<Rightarrow> other t
            | Some i \<Rightarrow> if \<bar>i\<bar> < 2 ^ 53 then Int_num i else other t))"

definition js_print :: "js_num \<Rightarrow> string" where
  "js_print v = (case v of Int_num i \<Rightarrow> dec_of_int i | Other_num s \<Rightarrow> s)"

text \<open>A property of a value, \<open>undefined\<close> being \<open>None\<close>; of equal keys the last one counts.\<close>

definition js_get :: "json \<Rightarrow> string \<Rightarrow> json option" where
  "js_get v k = (case v of J_obj ms \<Rightarrow> map_of (rev ms) k | _ \<Rightarrow> None)"

text \<open>\<open>Number (v || 0)\<close> of a number or \<open>undefined\<close>, and \<open>v || d\<close> of a text or \<open>undefined\<close>: the documents
  have nothing else in these places.\<close>

definition num_or0 :: "json option \<Rightarrow> int" where
  "num_or0 v = (case v of Some (J_num i) \<Rightarrow> i | _ \<Rightarrow> 0)"

definition str_or :: "json option \<Rightarrow> string \<Rightarrow> string" where
  "str_or v d = (case v of Some (J_str s) \<Rightarrow> if s = [] then d else s | _ \<Rightarrow> d)"

text \<open>\<open>v || []\<close> of an array of numbers.\<close>

definition nums_or_empty :: "json option \<Rightarrow> int list" where
  "nums_or_empty v = (case v of Some (J_arr vs) \<Rightarrow> List.map (\<lambda>x. num_or0 (Some x)) vs | _ \<Rightarrow> [])"

section \<open>Addresses, configuration and names\<close>

definition ipFrom :: "int \<Rightarrow> int \<Rightarrow> string" where
  "ipFrom msw lsw = concat [dec_of_int (drop_bit 8 msw AND 255), ''.'', dec_of_int (msw AND 255), ''.'',
     dec_of_int (drop_bit 8 lsw AND 255), ''.'', dec_of_int (lsw AND 255)]"

fun split_dots :: "string \<Rightarrow> string list" where
  "split_dots [] = [[]]"
| "split_dots (c # cs) =
     (if c = CHR ''.'' then [] # split_dots cs
      else (case split_dots cs of p # ps \<Rightarrow> (c # p) # ps | [] \<Rightarrow> [[c]]))"

text \<open>\<open>None\<close> is the exception.\<close>

definition js_octet :: "js_num \<Rightarrow> bool" where
  "js_octet v = (case v of Int_num i \<Rightarrow> 0 \<le> i \<and> i \<le> 255 | Other_num _ \<Rightarrow> False)"

definition js_int :: "js_num \<Rightarrow> int" where
  "js_int v = (case v of Int_num i \<Rightarrow> i | Other_num _ \<Rightarrow> 0)"

definition ipWords :: "(string \<Rightarrow> js_num) \<Rightarrow> string \<Rightarrow> (int \<times> int) option" where
  "ipWords other ip =
     (let p = List.map (js_Number other) (split_dots ip)
      in if length p \<noteq> 4 \<or> list_ex (\<lambda>v. \<not> js_octet v) p then None
         else Some (push_bit 8 (js_int (p ! 0)) OR js_int (p ! 1), push_bit 8 (js_int (p ! 2)) OR js_int (p ! 3)))"

definition modeName :: "int \<Rightarrow> string" where
  "modeName v = (if v = 1 then ''Static'' else ''DHCP'')"

definition regVal :: "int list \<Rightarrow> nat \<Rightarrow> int \<Rightarrow> int" where
  "regVal regs addr d = (if addr < length regs then regs ! addr else d)"

record page_cfg =
  pc_mode :: int
  pc_ip :: string
  pc_mask :: string
  pc_gw :: string

definition cfgFromRegs :: "int list \<Rightarrow> json \<Rightarrow> page_cfg" where
  "cfgFromRegs regs status =
     \<lparr>pc_mode = regVal regs 1 (num_or0 (js_get status ''mode'')),
      pc_ip = ipFrom (regVal regs 2 0) (regVal regs 3 0),
      pc_mask = ipFrom (regVal regs 4 0) (regVal regs 5 0),
      pc_gw = ipFrom (regVal regs 6 0) (regVal regs 7 0)\<rparr>"

definition statusCfg :: "json \<Rightarrow> page_cfg" where
  "statusCfg status =
     \<lparr>pc_mode = num_or0 (js_get status ''mode''), pc_ip = str_or (js_get status ''ip'') ''0.0.0.0'',
      pc_mask = str_or (js_get status ''mask'') ''0.0.0.0'', pc_gw = str_or (js_get status ''gw'') ''0.0.0.0''\<rparr>"

definition sameCfg :: "page_cfg \<Rightarrow> page_cfg \<Rightarrow> bool" where
  "sameCfg a b \<longleftrightarrow> pc_mode a = pc_mode b \<and> pc_ip a = pc_ip b \<and> pc_mask a = pc_mask b \<and> pc_gw a = pc_gw b"

definition regNames :: "(int \<times> string) list" where
  "regNames = [(0, ''Signature device''), (1, ''Mode IP''), (2, ''Adresse IP MSW''), (3, ''Adresse IP LSW''),
     (4, ''Masque MSW''), (5, ''Masque LSW''), (6, ''Gateway MSW''), (7, ''Gateway LSW''), (8, ''Commande''),
     (9, ''Statut commande''), (10, ''Mode moteur''), (11, ''Mot de controle moteur''), (12, ''APPLY moteur''),
     (13, ''Consigne vitesse''), (14, ''Rampe acceleration''), (15, ''Rampe arret''), (16, ''Timeout commande''),
     (17, ''Statut commande moteur''), (18, ''Sequence commande moteur'')]"

definition regName :: "int \<Rightarrow> string" where
  "regName addr =
     (case map_of regNames addr of Some name \<Rightarrow> name
      | None \<Rightarrow>
        if 40 \<le> addr \<and> addr < 45 then ''Mapping Scanner Input '' @ dec_of_int (addr - 40)
        else if 45 \<le> addr \<and> addr < 50 then ''Mapping Scanner Output '' @ dec_of_int (addr - 45)
        else if 20 \<le> addr \<and> addr < 32 then ''Etat moteur M4 '' @ dec_of_int (addr - 20)
        else ''Registre libre'')"

definition regLabel :: "nat \<Rightarrow> string" where
  "regLabel addr = ''REG'' @ dec_of_nat addr"

definition mapName :: "int option \<Rightarrow> string" where
  "mapName map_value =
     (case map_value of None \<Rightarrow> ''-''
      | Some m \<Rightarrow> if m = 65535 then ''Free'' else regName m @ '' (REG'' @ dec_of_int m @ '')'')"

definition statusText :: "int \<Rightarrow> string" where
  "statusText v = (if v = 0 then ''OK'' else if v = 32767 then ''Pending'' else dec_of_int v)"

section \<open>Rows and tables\<close>

text \<open>A row with its label (name and address) and content; the rows with a button are named after the
  function that makes them. A select shows the option its value names, none for another value.\<close>

datatype page_row =
    Section string
  | Readonly_row string string string
  | Reg_row nat string int
  | Mode_row "string option"
  | Ip_row string nat nat string
  | Command_row
  | Scanner_row bool nat string int
  | Map_row bool nat int
  | Script_row "(string \<times> int) list" int
  | Local_row string

definition regRow :: "nat \<Rightarrow> int \<Rightarrow> page_row" where
  "regRow addr v = Reg_row addr (regName (int addr)) v"

definition modeRow :: "int \<Rightarrow> page_row" where
  "modeRow v = Mode_row (if v = 0 then Some ''DHCP'' else if v = 1 then Some ''Static'' else None)"

definition ipRow :: "string \<Rightarrow> nat \<Rightarrow> nat \<Rightarrow> int list \<Rightarrow> page_row" where
  "ipRow name msw lsw regs = Ip_row name msw lsw (ipFrom (regVal regs msw 0) (regVal regs lsw 0))"

definition renderRegisterTable :: "int list \<Rightarrow> page_row list" where
  "renderRegisterTable regs =
     [Section ''Configuration decodee'',
      Readonly_row ''Signature device'' ''REG0'' (''0x'' @ hex4_of_nat (nat (regVal regs 0 0))),
      modeRow (regVal regs 1 0), ipRow ''Adresse IP'' 2 3 regs, ipRow ''Masque'' 4 5 regs,
      ipRow ''Gateway'' 6 7 regs, Command_row,
      Readonly_row ''Statut commande'' ''REG9'' (statusText (regVal regs 9 0)),
      Section ''Configuration moteur'']
     @ List.map (\<lambda>i. regRow i (regVal regs i 0)) [10..<17]
     @ [Section ''Etat moteur lecture seule'']
     @ List.map (\<lambda>i. Readonly_row (regName (int i)) (regLabel i) (dec_of_int (regVal regs i 0))) [17..<32]
     @ [Section ''Mapping scanner Input''] @ List.map (\<lambda>i. regRow i (regVal regs i 0)) [40..<45]
     @ [Section ''Mapping scanner Output''] @ List.map (\<lambda>i. regRow i (regVal regs i 0)) [45..<50]
     @ [Section ''Registres applicatifs libres''] @ List.map (\<lambda>i. regRow i (regVal regs i 0)) [50..<60]"

text \<open>\<open>output\<close> tells the kind \<open>Output\<close> from \<open>Input\<close>.\<close>

definition renderScannerImage :: "bool \<Rightarrow> json \<Rightarrow> page_row list" where
  "renderScannerImage output img =
     (let values = nums_or_empty (js_get img ''values''); maps = nums_or_empty (js_get img ''mapping'')
      in List.map (\<lambda>(i, v). Scanner_row output i
           (mapName (if i < length maps then Some (maps ! i) else None)) v) (enumerate 0 values)
         @ [Section ''Mapping runtime'']
         @ List.map (\<lambda>(i, v). Map_row output i v) (enumerate 0 maps))"

definition js_truthy :: "json option \<Rightarrow> bool" where
  "js_truthy v = (case v of None \<Rightarrow> False | Some (J_bool b) \<Rightarrow> b | Some (J_num i) \<Rightarrow> i \<noteq> 0
     | Some (J_str s) \<Rightarrow> s \<noteq> [] | Some (J_arr _) \<Rightarrow> True | Some (J_obj _) \<Rightarrow> True)"

definition motorStateName :: "json \<Rightarrow> string" where
  "motorStateName m =
     (let f = num_or0 (js_get m ''flags'')
      in if \<not> js_truthy (js_get m ''available'') then ''Indisponible''
         else if f AND 16 \<noteq> 0 then ''Fault''
         else if f AND 8 \<noteq> 0 then ''Stopping''
         else if f AND 4 \<noteq> 0 then ''Running''
         else if f AND 2 \<noteq> 0 then ''Ready''
         else ''Disabled'')"

text \<open>A natural number divided by ten, as it prints.\<close>

definition tenths :: "int \<Rightarrow> string" where
  "tenths v = dec_of_int (v div 10) @ (if v mod 10 = 0 then [] else ''.'' @ dec_of_int (v mod 10))"

definition motor_scripts :: "(string \<times> int) list" where
  "motor_scripts = [(''Start forward'', 3), (''Stop'', 1), (''Prepare reverse'', 5), (''Quick stop'', 17)]"

definition renderMotor :: "json \<Rightarrow> page_row list" where
  "renderMotor m =
     (if \<not> js_truthy (js_get m ''available'') then [Readonly_row ''Etat'' ''M4'' ''IPC indisponible'']
      else
        [Readonly_row ''Mode'' ''M4'' (if num_or0 (js_get m ''flags'') AND 64 \<noteq> 0 then ''Remote'' else ''Local''),
         Readonly_row ''Etat moteur'' ''M4''
           (motorStateName m @ (if js_truthy (js_get m ''stale'') then '' (cache obsolete)'' else [])),
         Readonly_row ''Vitesse appliquee'' ''M4'' (tenths (num_or0 (js_get m ''applied'')) @ '' %''),
         Readonly_row ''Consigne'' ''M4'' (tenths (num_or0 (js_get m ''target'')) @ '' %''),
         Readonly_row ''Direction'' ''M4'' (if num_or0 (js_get m ''direction'') \<noteq> 0 then ''reverse'' else ''forward''),
         Readonly_row ''Fault'' ''M4'' (dec_of_int (num_or0 (js_get m ''fault''))),
         Script_row motor_scripts (let t = num_or0 (js_get m ''target'') in if t = 0 then 800 else t),
         Local_row ''Stoppe le moteur et rend les boutons M4 prioritaires''])"

section \<open>Fetching and showing\<close>

record page =
  pg_status :: json
  pg_registers :: "int list"
  pg_scanner :: json
  pg_motor :: json
  pg_edit_hold_until :: int

record page_view =
  pv_config_ok :: bool
  pv_config_state :: string
  pv_mode :: string
  pv_ip :: string
  pv_connections :: string
  pv_heartbeat :: string
  pv_registers :: "page_row list"
  pv_input :: "page_row list"
  pv_output :: "page_row list"
  pv_motor :: "page_row list"

definition page_boot :: page where
  "page_boot = \<lparr>pg_status = J_obj [], pg_registers = [], pg_scanner = J_obj [], pg_motor = J_obj [],
     pg_edit_hold_until = 0\<rparr>"

text \<open>The document before the first turn.\<close>

definition page_view_boot :: page_view where
  "page_view_boot = \<lparr>pv_config_ok = False, pv_config_state = ''-'', pv_mode = ''-'', pv_ip = ''-'',
     pv_connections = ''-'', pv_heartbeat = ''-'', pv_registers = [], pv_input = [], pv_output = [], pv_motor = []\<rparr>"

definition holdEdit :: "int \<Rightarrow> int \<Rightarrow> page \<Rightarrow> page" where
  "holdEdit now ms p = p\<lparr>pg_edit_hold_until := now + ms\<rparr>"

definition releaseEdit :: "page \<Rightarrow> page" where
  "releaseEdit p = p\<lparr>pg_edit_hold_until := 0\<rparr>"

text \<open>\<open>editing\<close>: an \<open>INPUT\<close> or a \<open>SELECT\<close> has the focus.\<close>

definition editLocked :: "int \<Rightarrow> bool \<Rightarrow> page \<Rightarrow> bool" where
  "editLocked now editing p \<longleftrightarrow> now < pg_edit_hold_until p \<or> editing"

definition num_text :: "json option \<Rightarrow> string" where
  "num_text v = (case v of None \<Rightarrow> ''-'' | Some _ \<Rightarrow> dec_of_int (num_or0 v))"

definition render :: "int \<Rightarrow> bool \<Rightarrow> page \<Rightarrow> page_view \<Rightarrow> page_view" where
  "render now editing p v =
     (let s = pg_status p; r = pg_registers p; sc = pg_scanner p;
          active = statusCfg s; pending = cfgFromRegs r s; isApplied = sameCfg active pending;
          v = v\<lparr>pv_config_ok := isApplied,
                pv_config_state := (if isApplied then ''Configuration a jour'' else ''Reboot requis''),
                pv_mode := modeName (pc_mode active),
                pv_ip := (if pc_ip active = [] then ''-'' else pc_ip active),
                pv_connections := num_text (js_get s ''modbus_connections''),
                pv_heartbeat := num_text (js_get s ''heartbeat'')\<rparr>;
          img = (\<lambda>k. case js_get sc k of None \<Rightarrow> J_obj [] | Some x \<Rightarrow> x)
      in if editLocked now editing p then v
         else v\<lparr>pv_registers := renderRegisterTable r, pv_input := renderScannerImage False (img ''input''),
                pv_output := renderScannerImage True (img ''output''), pv_motor := renderMotor (pg_motor p)\<rparr>)"

text \<open>\<open>api\<close>: the answer, \<open>None\<close> when there is none; the result is \<open>None\<close> for an exception.\<close>

definition api :: "http_response option \<Rightarrow> json option" where
  "api r = (case r of None \<Rightarrow> None
     | Some r \<Rightarrow> if 200 \<le> hr_code r \<and> hr_code r < 300 then json_parse (hr_body r) else None)"

text \<open>A turn of \<open>refresh\<close> with the answers to its four requests.\<close>

definition page_refresh :: "int \<Rightarrow> bool \<Rightarrow> (string \<Rightarrow> http_response option) \<Rightarrow> page \<times> page_view \<Rightarrow> page \<times> page_view" where
  "page_refresh now editing answer pv =
     (case pv of (p, v) \<Rightarrow>
       (case (api (answer ''/api/status''), api (answer ''/api/registers''), api (answer ''/api/scanner''),
              api (answer ''/api/motor/state'')) of
          (Some status, Some regs, Some scanner, Some motor) \<Rightarrow>
            let p = p\<lparr>pg_status := status, pg_registers := nums_or_empty (js_get regs ''holding''),
                      pg_scanner := scanner, pg_motor := motor\<rparr>
            in (p, render now editing p v)
        | _ \<Rightarrow> (p, v)))"

section \<open>Requests\<close>

type_synonym page_request = "string \<times> string \<times> string"

definition putValue :: "(string \<Rightarrow> js_num) \<Rightarrow> string \<Rightarrow> string \<Rightarrow> page_request" where
  "putValue other path v =
     (''PUT'', path, concat [''{'', json_key ''value'', js_print (js_Number other v), ''}''])"

definition writeReg :: "(string \<Rightarrow> js_num) \<Rightarrow> nat \<Rightarrow> string \<Rightarrow> page_request" where
  "writeReg other addr v = putValue other (''/api/registers/'' @ dec_of_nat addr) v"

definition saveConfig :: page_request where
  "saveConfig = (''POST'', ''/api/commands/save-config'', [])"

text \<open>\<open>JSON.stringify\<close> of the command; \<open>NaN\<close> and the infinities print as \<open>null\<close>, which \<open>other\<close> is to say.\<close>

definition motorPost :: "string \<Rightarrow> (js_num \<times> js_num) option \<Rightarrow> page_request" where
  "motorPost path body =
     (''POST'', path,
      (case body of None \<Rightarrow> []
       | Some (control, duty) \<Rightarrow>
         concat [''{'', json_key ''control'', js_print control, '','', json_key ''duty'', js_print duty, ''}'']))"

text \<open>What the user can do: the buttons of the rows with the texts of their fields, and the reboot button
  with the answer to its question.\<close>

datatype page_action =
    Save_register nat string
  | Save_mode bool
  | Save_address nat nat string
  | Run_command bool
  | Save_output nat string
  | Save_mapping bool nat string
  | Apply_motor int string
  | Local_motor
  | Reboot bool

fun page_requests :: "(string \<Rightarrow> js_num) \<Rightarrow> page_action \<Rightarrow> page_request list" where
  "page_requests other (Save_register addr v) = [writeReg other addr v]"
| "page_requests other (Save_mode static) = [writeReg other 1 (if static then ''1'' else ''0'')]"
| "page_requests other (Save_address msw lsw text) =
     (case ipWords other text of None \<Rightarrow> []
      | Some (a, b) \<Rightarrow> [writeReg other msw (dec_of_int a), writeReg other lsw (dec_of_int b)])"
| "page_requests other (Run_command save) = (if save then [saveConfig] else [])"
| "page_requests other (Save_output i v) = [putValue other (''/api/scanner/output/'' @ dec_of_nat i) v]"
| "page_requests other (Save_mapping output i v) =
     [putValue other ((if output then ''/api/scanner/output-mapping/'' else ''/api/scanner/input-mapping/'')
        @ dec_of_nat i) v]"
| "page_requests other (Apply_motor control duty) =
     [motorPost ''/api/motor/command'' (Some (Int_num control, js_Number other duty))]"
| "page_requests other Local_motor = [motorPost ''/api/motor/local'' None]"
| "page_requests other (Reboot confirmed) = (if confirmed then [(''POST'', ''/api/commands/reboot'', [])] else [])"

text \<open>The requests of an action, one after the other until one fails. \<open>headers\<close> are those the browser adds.\<close>

fun page_send :: "client \<Rightarrow> web_env \<Rightarrow> (page_request \<Rightarrow> string) \<Rightarrow> page_request list \<Rightarrow> web_world \<Rightarrow> bool \<times> web_world" where
  "page_send client we headers [] ww = (True, ww)"
| "page_send client we headers ((method, path, body) # rs) ww =
     (let (ret, r, ww) = handle_http_request client we
            (http_request method path (headers (method, path, body)) body) ww
      in if api (Some r) = None then (False, ww) else page_send client we headers rs ww)"

section \<open>Texts of numbers and addresses\<close>

lemma js_Number_dec:
  assumes "0 \<le> i" and "i < 2 ^ 53"
  shows "js_Number other (dec_of_int i) = Int_num i"
proof -
  obtain c cs where c: "dec_of_nat (nat i) = c # cs" "is_digit_char c" by (rule dec_of_nat_Cons)
  have d: "list_all is_digit_char (dec_of_nat (nat i))" "digits_value (dec_of_nat (nat i)) = nat i"
    using digits_of_dec [of "nat i"] by (simp_all add: dec_of_nat_def)
  have n: "\<not> is_space_char x" if "x \<in> set (dec_of_nat (nat i))" for x
    using dec_of_nat_digits [OF that] by (auto simp: is_space_char_def is_digit_char_def)
  have "dropWhile is_space_char (dec_of_nat (nat i)) = dec_of_nat (nat i)" using c n by simp
  moreover have "dropWhile is_space_char (rev (dec_of_nat (nat i))) = rev (dec_of_nat (nat i))"
    using n hd_in_set [of "rev (dec_of_nat (nat i))"] by (simp add: dropWhile_eq_self_iff)
  ultimately have "js_trim (dec_of_nat (nat i)) = dec_of_nat (nat i)" by (simp add: js_trim_def)
  moreover have "c \<noteq> CHR ''-''" "c \<noteq> CHR ''+''" using c(2) by (auto simp: is_digit_char_def)
  ultimately show ?thesis
    using assms c d by (simp add: js_Number_def dec_of_int_def int_literal_def all_digits_def)
qed

lemma split_dots_last: "CHR ''.'' \<notin> set p \<Longrightarrow> split_dots p = [p]"
  by (induction p) auto

lemma split_dots_dot: "CHR ''.'' \<notin> set p \<Longrightarrow> split_dots (p @ CHR ''.'' # s) = p # split_dots s"
  by (induction p) auto

lemma dec_of_int_no_dot: "0 \<le> i \<Longrightarrow> CHR ''.'' \<notin> set (dec_of_int i)"
  using dec_of_nat_no [of "CHR ''.''"] by (simp add: dec_of_int_def is_digit_char_def)

lemma octets_of_word:
  assumes "0 \<le> m" and "m < (65536 :: int)"
  shows "drop_bit 8 m AND 255 = m div 256" "m AND 255 = m mod 256" "push_bit 8 (m div 256) OR m mod 256 = m"
proof -
  have mask: "(255 :: int) = Bit_Operations.mask 8" by (simp add: mask_eq_exp_minus_1)
  have t: "x AND 255 = x mod 256" for x :: int using take_bit_eq_mask [of 8 x] by (simp add: mask take_bit_eq_mod)
  show "drop_bit 8 m AND 255 = m div 256" "m AND 255 = m mod 256" using assms by (simp_all add: t drop_bit_eq_div)
  have "push_bit 8 (m div 256) OR m mod 256 = push_bit 8 (drop_bit 8 m) OR take_bit 8 m"
    by (simp add: drop_bit_eq_div take_bit_eq_mod)
  also have "\<dots> = m" by (rule bit_eqI) (auto simp: bit_simps)
  finally show "push_bit 8 (m div 256) OR m mod 256 = m" .
qed

lemma ipFrom_octets:
  assumes "0 \<le> m" "m < 65536" "0 \<le> l" "l < 65536"
  shows "ipFrom m l = dec_of_int (m div 256) @ ''.'' @ dec_of_int (m mod 256) @ ''.''
     @ dec_of_int (l div 256) @ ''.'' @ dec_of_int (l mod 256)"
  using octets_of_word [OF assms(1,2)] octets_of_word [OF assms(3,4)] by (simp add: ipFrom_def)

lemma ipWords_ipFrom:
  assumes "0 \<le> m" "m < 65536" "0 \<le> l" "l < 65536"
  shows "ipWords other (ipFrom m l) = Some (m, l)"
proof -
  have o: "0 \<le> x div 256" "x div 256 \<le> 255" "0 \<le> x mod 256" "x mod 256 \<le> 255" if "0 \<le> x" "x < 65536" for x :: int
    using that by simp_all
  have "split_dots (ipFrom m l) = [dec_of_int (m div 256), dec_of_int (m mod 256), dec_of_int (l div 256), dec_of_int (l mod 256)]"
    using assms o by (simp add: ipFrom_octets split_dots_dot split_dots_last dec_of_int_no_dot)
  then show ?thesis
    using o [OF assms(1,2)] o [OF assms(3,4)] octets_of_word(3) [OF assms(1,2)] octets_of_word(3) [OF assms(3,4)]
    by (simp add: ipWords_def js_Number_dec js_octet_def js_int_def)
qed

text \<open>The words of an accepted text are 16-bit words.\<close>

lemma ipWords_range:
  assumes "ipWords other text = Some (a, b)"
  shows "0 \<le> a \<and> a < 65536 \<and> 0 \<le> b \<and> b < 65536"
proof -
  let ?p = "List.map (js_Number other) (split_dots text)"
  have l: "length ?p = 4" "\<not> list_ex (\<lambda>v. \<not> js_octet v) ?p"
      and a: "a = push_bit 8 (js_int (?p ! 0)) OR js_int (?p ! 1)" "b = push_bit 8 (js_int (?p ! 2)) OR js_int (?p ! 3)"
    using assms by (simp_all only: ipWords_def Let_def split: if_split_asm) simp_all
  have o: "0 \<le> js_int (?p ! k) \<and> js_int (?p ! k) \<le> 255" if "k < 4" for k
  proof -
    have "js_octet (?p ! k)" using l that nth_mem [of k ?p] unfolding list_ex_iff by metis
    then show ?thesis by (simp add: js_octet_def js_int_def split: js_num.splits)
  qed
  have j: "0 \<le> push_bit 8 x OR y \<and> push_bit 8 x OR y < 65536" if "0 \<le> x" "x \<le> 255" "0 \<le> y" "y \<le> 255" for x y :: int
  proof -
    have "take_bit 16 (push_bit 8 x OR y) = push_bit 8 (take_bit 8 x) OR take_bit 16 y"
      by (simp add: take_bit_or take_bit_push_bit)
    also have "\<dots> = push_bit 8 x OR y" using that by (simp add: take_bit_int_eq_self)
    finally show ?thesis using take_bit_nonnegative [of 16 "push_bit 8 x OR y"] take_bit_int_less_exp [of 16 "push_bit 8 x OR y"] by simp
  qed
  show ?thesis unfolding a using j o [of 0] o [of 1] o [of 2] o [of 3] by simp
qed

section \<open>Writing through the page\<close>

lemma unat_u16_of_nat: "n < 65536 \<Longrightarrow> unat (of_nat n :: u16) = n"
  by (simp add: unsigned_of_nat take_bit_nat_eq_self)

text \<open>The server reads the number the page prints.\<close>

lemma put_value_parsed:
  assumes "js_Number other text = Int_num i" and "0 \<le> i" and "i < 65536"
  shows "parse_value (Some (snd (snd (putValue other path text)))) = Inr (word_of_int i)"
proof -
  have u: "unat (word_of_int i :: u16) = nat i"
    using assms(2,3) by (simp add: unat_eq_nat_uint uint_word_of_int take_bit_int_eq_self)
  let ?body = "concat [''{'', json_key ''value'', dec_of_int i, ''}'']"
  have "strstr ?body ''value'' = Some (''value'' @ [QUOTE, CHR '':''] @ dec_of_nat (unat (word_of_int i :: u16)) @ ''}'')"
    using assms(2) by (simp add: u json_key_def dec_of_int_def strstr_eval del: strstr.simps(2))
  then have "parse_value (Some ?body) = Inr (word_of_int i)" by (rule parse_value_printed) simp_all
  then show ?thesis using assms(1) by (simp add: putValue_def js_print_def)
qed

lemma api_flag: "api (Some (ok_json (json_flag ''ok''))) = Some (J_obj [(''ok'', J_bool True)])"
proof -
  have "json_flag ''ok'' = json_text (J_obj [(''ok'', J_bool True)])"
    by (simp add: json_flag_def json_key_def json_bool_def)
  moreover have "json_ok (J_obj [(''ok'', J_bool True)])" by (simp add: plain_text_def plain_char_def)
  ultimately have "json_parse (json_flag ''ok'') = Some (J_obj [(''ok'', J_bool True)])"
    using json_parse_text by metis
  then show ?thesis by (simp add: api_def ok_json_def response_def)
qed

lemma api_bad_request: "api (Some bad_request) = None"
  by (simp add: api_def bad_request_def response_def)

lemma page_send_request:
  assumes "(ret, r, ww') = handle_http_request client we
       (http_request (fst rq) (fst (snd rq)) (headers rq) (snd (snd rq))) ww"
  shows "page_send client we headers (rq # rs) ww
     = (if api (Some r) = None then (False, ww') else page_send client we headers rs ww')"
  using assms [symmetric] by (cases rq) simp

text \<open>A write of a register has the effect of the Modbus write; the rest is sent when it is accepted.\<close>

lemma page_write_register:
  assumes "js_Number other text = Int_num i" and "0 \<le> i" and "i < 65536" and "addr < 65536"
    and "headers_ok (headers (writeReg other addr text)) (snd (snd (writeReg other addr text)))"
    and "(rc, w) = holding_reg_wr (we_m7 we) (of_nat addr) (word_of_int i) (ww_m7 ww)"
  shows "page_send client we headers (writeReg other addr text # rs) ww
     = (if rc < 0 then (False, ww\<lparr>ww_m7 := w\<rparr>) else page_send client we headers rs (ww\<lparr>ww_m7 := w\<rparr>))"
proof -
  let ?rq = "writeReg other addr text"
  have rq: "fst ?rq = ''PUT''" "fst (snd ?rq) = ''/api/registers/'' @ dec_of_nat (unat (of_nat addr :: u16))"
    using assms(4) by (simp_all add: writeReg_def putValue_def unat_u16_of_nat)
  obtain ret r ww' where h: "(ret, r, ww') = handle_http_request client we
      (http_request (fst ?rq) (fst (snd ?rq)) (headers ?rq) (snd (snd ?rq))) ww" by (metis prod.exhaust)
  have p: "parse_value (Some (snd (snd ?rq))) = Inr (word_of_int i)"
    unfolding writeReg_def using assms(1-3) by (rule put_value_parsed)
  from put_register_effect [OF p assms(5) rq(2) assms(6) h [unfolded rq(1)]]
  have "ww' = ww\<lparr>ww_m7 := w\<rparr>" "r = (if rc < 0 then bad_request else ok_json (json_flag ''ok''))" by simp_all
  then show ?thesis unfolding page_send_request [where headers = headers and rq = ?rq, OF h] by (simp add: api_flag api_bad_request)
qed

lemma address_write:
  assumes "2 \<le> addr" and "addr < 8"
  shows "holding_reg_wr e (of_nat addr) v w = (0, reg_set (of_nat addr) v w)"
proof -
  have a: "unat (of_nat addr :: u16) = addr" using assms by (simp add: unat_u16_of_nat)
  show ?thesis
    using assms by (intro holding_reg_wr_plain reg_value_ok_plain)
      (auto simp: register_classes a c_def word_unat_eq_iff)
qed

lemma page_address_requests:
  assumes "ipWords other text = Some (a, b)" and "msw \<in> {2, 4, 6}" and "lsw = msw + 1"
    and "\<And>rq. headers_ok (headers rq) (snd (snd rq))"
  shows "page_send client we headers (page_requests other (Save_address msw lsw text)) ww
     = (True, ww\<lparr>ww_m7 := reg_set (of_nat lsw) (word_of_int b) (reg_set (of_nat msw) (word_of_int a) (ww_m7 ww))\<rparr>)"
proof -
  have r: "0 \<le> a" "a < 65536" "0 \<le> b" "b < 65536" using ipWords_range [OF assms(1)] by simp_all
  have m: "2 \<le> msw" "msw < 8" "2 \<le> lsw" "lsw < 8" using assms(2,3) by auto
  have n: "js_Number other (dec_of_int x) = Int_num x" if "0 \<le> x" "x < 65536" for x
    using that by (intro js_Number_dec) simp_all
  show ?thesis
    using page_write_register [where headers = headers, OF n [OF r(1,2)] r(1,2) _ assms(4) [of "writeReg other msw (dec_of_int a)"]
        address_write [OF m(1,2), symmetric]]
      page_write_register [where headers = headers, OF n [OF r(3,4)] r(3,4) _ assms(4) [of "writeReg other lsw (dec_of_int b)"]
        address_write [OF m(3,4), symmetric]] m
    by (simp add: assms(1))
qed

text \<open>The words of a register image, as the page keeps them.\<close>

lemma page_registers_image:
  "nums_or_empty (js_get (registers_json e w) ''holding'') = List.map uint (holding_image e w)"
  by (simp add: nums_or_empty_def js_get_def registers_json_def j_words_def num_or0_def)

lemma regVal_image:
  assumes "addr < 60" and "\<not> is_motor_state_addr (of_nat addr)"
  shows "regVal (List.map uint (holding_image e w)) addr d = uint (reg_get (of_nat addr) w)"
proof -
  have "unat (of_nat addr :: u16) = addr" using assms(1) by (simp add: unat_u16_of_nat)
  then have "read_holding_or_zero e (of_nat addr) w = reg_get (of_nat addr) w"
    using assms by (simp add: read_holding_or_zero_def app_modbus_tcp_holding_read_def holding_reg_rd_def
        word_le_nat_alt c_def)
  then show ?thesis using assms(1) by (simp add: regVal_def holding_image_def del: upt_Suc)
qed

text \<open>Saving an address row writes what the user typed: for every text the page accepts, both requests are
  answered with success, the two registers of the row hold the four octets and nothing else of the device
  changes, and the row made of the new registers reads the canonical text of the same address, which is
  accepted again as the same words. A text it does not accept sends nothing.\<close>

lemma address_row_written:
  assumes "msw \<in> {2, 4, 6}" and "lsw = msw + 1" and "\<And>rq. headers_ok (headers rq) (snd (snd rq))"
    and "length (mb_holding_regs (m7_modbus (ww_m7 ww))) = 60"
    and "(ok, ww') = page_send client we headers (page_requests other (Save_address msw lsw text)) ww"
  shows "case ipWords other text of
      None \<Rightarrow> ok \<and> ww' = ww
    | Some (a, b) \<Rightarrow> ok
        \<and> ww' = ww\<lparr>ww_m7 := reg_set (of_nat lsw) (word_of_int b) (reg_set (of_nat msw) (word_of_int a) (ww_m7 ww))\<rparr>
        \<and> ipRow name msw lsw (List.map uint (holding_image e (ww_m7 ww')))
          = Ip_row name msw lsw (ipFrom a b)
        \<and> ipWords other (ipFrom a b) = Some (a, b)"
proof (cases "ipWords other text")
  case None
  then show ?thesis using assms(5) by simp
next
  case (Some ab)
  obtain a b where ab: "ab = (a, b)" by (rule prod.exhaust)
  have r: "0 \<le> a" "a < 65536" "0 \<le> b" "b < 65536" using ipWords_range Some ab by simp_all
  let ?w = "reg_set (of_nat lsw) (word_of_int b) (reg_set (of_nat msw) (word_of_int a) (ww_m7 ww)) :: m7"
  have ww: "ok" "ww' = ww\<lparr>ww_m7 := ?w\<rparr>"
    using assms(5) page_address_requests [where headers = headers, OF Some [unfolded ab] assms(1-3)] by simp_all
  have m: "msw < 60" "lsw < 60" "\<not> is_motor_state_addr (of_nat msw)" "\<not> is_motor_state_addr (of_nat lsw)"
      "unat (of_nat msw :: u16) = msw" "unat (of_nat lsw :: u16) = lsw"
    using assms(1,2) by (auto simp: register_classes unat_u16_of_nat)
  have u: "uint (word_of_int x :: u16) = x" if "0 \<le> x" "x < 65536" for x
    using that by (simp add: uint_word_of_int take_bit_int_eq_self)
  have neq: "(of_nat msw :: u16) \<noteq> of_nat lsw" using m(5,6) assms(2) by (metis n_not_Suc_n Suc_eq_plus1)
  have "regVal (List.map uint (holding_image e ?w)) msw 0 = a" "regVal (List.map uint (holding_image e ?w)) lsw 0 = b"
    using u r m neq assms(4) by (simp_all add: regVal_image reg_get_set)
  then have "ipRow name msw lsw (List.map uint (holding_image e ?w)) = Ip_row name msw lsw (ipFrom a b)"
    by (simp add: ipRow_def)
  then show ?thesis using Some ab ww ipWords_ipFrom [OF r] by simp
qed

section \<open>What the page shows\<close>

text \<open>The four answers of a turn are those of one state of the device.\<close>

definition answers_from :: "m7_env \<Rightarrow> m7 \<Rightarrow> (string \<Rightarrow> http_response option) \<Rightarrow> bool" where
  "answers_from e w answer \<longleftrightarrow> list_all (\<lambda>path. api (answer path) = document_json e w path)
     [''/api/status'', ''/api/registers'', ''/api/scanner'', ''/api/motor/state'']"

lemma server_answers:
  assumes "\<And>a. plain_text (me_ntop (we_m7 we) a)" and "\<And>a. length (me_ntop (we_m7 we) a) \<le> 15"
    and "plain_config (m7_net (ww_m7 ww))" and "nd_mode (m7_net (ww_m7 ww)) < 2 ^ 32"
  shows "answers_from (we_m7 we) (ww_m7 ww)
     (\<lambda>path. Some (fst (snd (handle_http_request client we (http_request ''GET'' path headers []) ww))))"
proof -
  have a: "api (Some (fst (snd (handle_http_request client we (http_request ''GET'' path headers []) ww)))) = Some doc"
    if "document_json (we_m7 we) (ww_m7 ww) path = Some doc" for path doc
  proof -
    obtain ret r ww' where h: "(ret, r, ww') = handle_http_request client we (http_request ''GET'' path headers []) ww"
      by (metis prod.exhaust)
    from document_answer [OF assms that h] show ?thesis by (simp add: h [symmetric] api_def)
  qed
  have d: "\<exists>doc. document_json (we_m7 we) (ww_m7 ww) path = Some doc"
    if "path \<in> {''/api/status'', ''/api/registers'', ''/api/scanner'', ''/api/motor/state''}" for path
    using that by (elim insertE emptyE; simp add: document_json_def)
  have "api (Some (fst (snd (handle_http_request client we (http_request ''GET'' path headers []) ww))))
      = document_json (we_m7 we) (ww_m7 ww) path"
    if "path \<in> {''/api/status'', ''/api/registers'', ''/api/scanner'', ''/api/motor/state''}" for path
    using a d [OF that] by fastforce
  then show ?thesis unfolding answers_from_def list_all_iff by (simp only: set_simps) blast
qed

lemma page_refresh_from:
  assumes "answers_from e w answer"
  shows "page_refresh now editing answer (p, v) =
     (let p' = p\<lparr>pg_status := status_json e w,
            pg_registers := List.map uint (holding_image e w),
            pg_scanner := J_obj [(''input'', scanner_json e True w), (''output'', scanner_json e False w)],
            pg_motor := motor_state_json (app_ipc_get_motor_state (me_now e) (m7_link w))\<rparr>
      in (p', render now editing p' v))"
proof -
  have "api (answer ''/api/status'') = Some (status_json e w)"
    "api (answer ''/api/registers'') = Some (registers_json e w)"
    "api (answer ''/api/scanner'') = Some (J_obj [(''input'', scanner_json e True w), (''output'', scanner_json e False w)])"
    "api (answer ''/api/motor/state'') = Some (motor_state_json (app_ipc_get_motor_state (me_now e) (m7_link w)))"
    using assms unfolding answers_from_def list.pred_inject by (simp_all add: document_json_def)
  then show ?thesis by (simp add: page_refresh_def page_registers_image Let_def)
qed

section \<open>The configuration indicator\<close>

text \<open>\<open>net_addr_ntop\<close>'s text of an address is the page's text of its two words.\<close>

lemma dotted_ipFrom: "dotted a = ipFrom (uint a div 65536) (uint a mod 65536)"
proof -
  have "uint a < 4294967296" "0 \<le> uint a" using uint_lt2p [of a] by simp_all
  then have r: "0 \<le> uint a div 65536" "uint a div 65536 < 65536" "0 \<le> uint a mod 65536" "uint a mod 65536 < 65536"
    by (simp_all add: pos_imp_zdiv_nonneg_iff)
  have "drop_bit 8 (take_bit 16 x) = take_bit 8 (drop_bit 8 x)" for x :: int
    by (rule bit_eqI) (auto simp: bit_simps)
  then have d: "x div 65536 div 256 = x div 16777216" "x mod 65536 div 256 = x div 256 mod 256"
    "x mod 65536 mod 256 = x mod 256" for x :: int
    by (simp_all add: zdiv_zmult2_eq [symmetric] mod_mod_cancel drop_bit_eq_div take_bit_eq_mod)
  have i: "dec_of_nat n = dec_of_int (int n)" for n by (simp add: dec_of_int_def)
  show ?thesis
    unfolding ipFrom_octets [OF r] d dotted_def i of_nat_div of_nat_mod uint_nat [symmetric] by simp
qed

lemma dotted_eq_ipFrom:
  assumes "0 \<le> m" "m < 65536" "0 \<le> l" "l < 65536"
  shows "dotted a = ipFrom m l \<longleftrightarrow> uint a div 65536 = m \<and> uint a mod 65536 = l"
proof -
  have "uint a < 4294967296" "0 \<le> uint a" using uint_lt2p [of a] by simp_all
  then have "ipWords undefined (dotted a) = Some (uint a div 65536, uint a mod 65536)"
    unfolding dotted_ipFrom by (intro ipWords_ipFrom) (simp_all add: pos_imp_zdiv_nonneg_iff)
  then show ?thesis
    using ipWords_ipFrom [OF assms, of undefined] dotted_ipFrom [of a] by (metis option.inject prod.inject)
qed

lemma address_words:
  "uint (ucast (drop_bit 16 a) :: u16) = uint (a :: u32) div 65536"
  "uint (ucast (a AND 0xffff) :: u16) = uint a mod 65536"
proof -
  have "uint a div 65536 < 65536" "0 \<le> uint a div 65536" using uint_lt2p [of a] by (simp_all add: pos_imp_zdiv_nonneg_iff)
  then have "take_bit 16 (uint a div 65536) = uint a div 65536" by (simp add: take_bit_int_eq_self)
  then show "uint (ucast (drop_bit 16 a) :: u16) = uint a div 65536"
    by (simp add: unsigned_ucast_eq unsigned_drop_bit_eq drop_bit_eq_div uint_div)
  have mask16: "(0xffff :: u32) = Bit_Operations.mask 16" by (simp add: mask_eq_exp_minus_1)
  have "ucast (a AND 0xffff) = (ucast a :: u16)"
    unfolding mask16 by (rule bit_word_eqI) (auto simp: bit_simps)
  then show "uint (ucast (a AND 0xffff) :: u16) = uint a mod 65536"
    by (simp add: unsigned_ucast_eq take_bit_eq_mod)
qed

lemma dotted_not_empty [simp]: "dotted a \<noteq> []"
  by (simp add: dotted_def)

text \<open>The address the device uses and the one its registers hold.\<close>

definition reg_address :: "u16 \<Rightarrow> m7 \<Rightarrow> u32" where
  "reg_address msw w = push_bit 16 (ucast (reg_get msw w)) OR ucast (reg_get (msw + 1) w)"

lemma reg_address_words:
  "uint (reg_address msw w) div 65536 = uint (reg_get msw w)"
  "uint (reg_address msw w) mod 65536 = uint (reg_get (msw + 1) w)"
  using address_words [of "reg_address msw w"] ipv4_words_join [of "reg_get msw w" "reg_get (msw + 1) w"]
  by (simp_all add: reg_address_def)

lemma dotted_eq_regs:
  "dotted a = ipFrom (uint (reg_get msw w)) (uint (reg_get (msw + 1) w)) \<longleftrightarrow> a = reg_address msw w"
proof -
  have u: "0 \<le> uint x" "uint x < 65536" for x :: u16 using uint_lt2p [of x] by simp_all
  have "dotted a = ipFrom (uint (reg_get msw w)) (uint (reg_get (msw + 1) w))
      \<longleftrightarrow> uint a div 65536 = uint (reg_address msw w) div 65536 \<and> uint a mod 65536 = uint (reg_address msw w) mod 65536"
    unfolding reg_address_words by (rule dotted_eq_ipFrom [OF u u])
  also have "\<dots> \<longleftrightarrow> uint a = uint (reg_address msw w)" by (metis mult_div_mod_eq)
  finally show ?thesis by (simp add: word_uint_eq_iff)
qed

lemma config_of_documents:
  assumes "net_cfg_select as (nd_mode (m7_net w), None) = (mode, Some a)"
    and "me_ntop e = dotted" and "me_has_iface e" and "me_addrs e = Some as"
  shows "statusCfg (status_json e w) = \<lparr>pc_mode = int mode, pc_ip = dotted a,
       pc_mask = dotted (me_netmask_of e a), pc_gw = dotted (me_gateway e)\<rparr>"
  using assms
  by (simp add: statusCfg_def status_json_def js_get_def num_or0_def str_or_def m7_active_def net_cfg_get_active_def
      net_cfg_get_saved_def net_cfg_copy_def Let_def)

lemma config_of_registers:
  "cfgFromRegs (List.map uint (holding_image e w)) status =
     \<lparr>pc_mode = uint (reg_get 1 w), pc_ip = ipFrom (uint (reg_get 2 w)) (uint (reg_get 3 w)),
      pc_mask = ipFrom (uint (reg_get 4 w)) (uint (reg_get 5 w)),
      pc_gw = ipFrom (uint (reg_get 6 w)) (uint (reg_get 7 w))\<rparr>"
  using regVal_image [of 1 e w] regVal_image [of 2 e w] regVal_image [of 3 e w] regVal_image [of 4 e w]
    regVal_image [of 5 e w] regVal_image [of 6 e w] regVal_image [of 7 e w]
  by (simp add: cfgFromRegs_def register_classes)

lemma render_config:
  "pv_config_ok (render now editing p v) = sameCfg (statusCfg (pg_status p)) (cfgFromRegs (pg_registers p) (pg_status p))"
  "pv_config_state (render now editing p v) =
     (if pv_config_ok (render now editing p v) then ''Configuration a jour'' else ''Reboot requis'')"
  by (simp_all add: render_def Let_def)

text \<open>The indicator compares the configuration in use with the registers, word by word.\<close>

lemma page_config_indicator:
  assumes "net_cfg_select as (nd_mode (m7_net w), None) = (mode, Some a)"
    and "me_ntop e = dotted" and "me_has_iface e" and "me_addrs e = Some as"
    and "answers_from e w answer" and "page_refresh now editing answer (p, v) = (p', v')"
  shows "pv_config_state v' = ''Configuration a jour'' \<longleftrightarrow>
     int mode = uint (reg_get 1 w) \<and> a = reg_address 2 w \<and> me_netmask_of e a = reg_address 4 w
     \<and> me_gateway e = reg_address 6 w"
proof -
  have "v' = render now editing p' v" "pg_status p' = status_json e w"
    "pg_registers p' = List.map uint (holding_image e w)"
    using assms(6) by (auto simp: page_refresh_from [OF assms(5)] Let_def)
  then show ?thesis
    using dotted_eq_regs [of _ 2 w] dotted_eq_regs [of _ 4 w] dotted_eq_regs [of _ 6 w]
    by (auto simp: render_config config_of_documents [OF assms(1-4)] config_of_registers sameCfg_def)
qed

text \<open>C33. In DHCP mode the page asks for a reboot that cannot help. It compares the address in use with the
  one the registers hold, which is the stored static address; so right after the start, whenever the
  lease is any other address, it shows \<open>Reboot requis\<close>, and does so again after every reboot.\<close>

theorem page_dhcp_asks_reboot:
  assumes "w = modbus_sync_from_saved_cfg e w0" and "length (mb_holding_regs (m7_modbus w0)) = 60"
    and "me_pton e (nd_ip (net_cfg_get_saved (m7_net w0))) = Some saved"
    and "net_cfg_select as (nd_mode (m7_net w0), None) = (NET_CFG_DHCP, Some lease)" and "lease \<noteq> saved"
    and "me_ntop e = dotted" and "me_has_iface e" and "me_addrs e = Some as"
    and "answers_from e w answer" and "page_refresh now editing answer (p, v) = (p', v')"
  shows "pv_config_state v' = ''Reboot requis''"
proof -
  have net: "m7_net w = m7_net w0"
    by (simp add: assms(1) modbus_sync_from_saved_cfg_def sync_holding_regs_from_saved_cfg_def Let_def)
  have regs: "reg_get 2 w = ucast (drop_bit 16 saved)" "reg_get 3 w = ucast (saved AND 0xffff)"
    using assms(3) by (simp_all add: assms(1) modbus_sync_from_saved_cfg_def reg_get_sync [OF assms(2)]
        ipv4_word_msw_def ipv4_word_lsw_def Let_def)
  have "reg_address 2 w = saved"
    using reg_address_words [of 2 w] address_words [of saved] unfolding word_uint_eq_iff
    by (simp add: regs) (metis mult_div_mod_eq)
  with page_config_indicator [OF assms(4) [folded net] assms(6-10)] assms(5)
  have "pv_config_state v' \<noteq> ''Configuration a jour''" by simp
  moreover have "v' = render now editing p' v" using assms(10) by (auto simp: page_refresh_from [OF assms(9)] Let_def)
  ultimately show ?thesis by (simp add: render_config(2) split: if_splits)
qed

section \<open>The motor on the page\<close>

definition motor_state_word :: "app_motor_state \<Rightarrow> string" where
  "motor_state_word s = (case s of
     APP_MOTOR_STATE_DISABLED \<Rightarrow> ''Disabled'' | APP_MOTOR_STATE_READY \<Rightarrow> ''Ready''
   | APP_MOTOR_STATE_RUNNING \<Rightarrow> ''Running'' | APP_MOTOR_STATE_STOPPING \<Rightarrow> ''Stopping''
   | APP_MOTOR_STATE_FAULT \<Rightarrow> ''Fault'')"

lemma uint_and_zero:
  "uint x AND 16 = 0 \<longleftrightarrow> x AND 16 = 0" "uint x AND 8 = 0 \<longleftrightarrow> x AND 8 = 0" "uint x AND 4 = 0 \<longleftrightarrow> x AND 4 = 0"
  "uint x AND 2 = 0 \<longleftrightarrow> x AND 2 = 0" "uint x AND 64 = 0 \<longleftrightarrow> x AND 64 = 0" for x :: u16
  using uint_and [of x 16] uint_and [of x 8] uint_and [of x 4] uint_and [of x 2] uint_and [of x 64]
  by (simp_all add: word_uint_eq_iff)

text \<open>With flags the M4 published, the page names the controller's state and mode, whatever was shown
  before, unless the user is editing.\<close>

theorem page_motor_truthful:
  assumes "st = app_ipc_get_motor_state (me_now e) (m7_link w)" and "ms_valid st"
    and "ms_words st ! APP_MOTOR_STATE_FLAGS = motor_state_flags s m"
    and "answers_from e w answer" and "page_refresh now editing answer (p, v) = (p', v')"
    and "\<not> editLocked now editing p"
  shows "Readonly_row ''Etat moteur'' ''M4''
       (motor_state_word (motor_state m) @ (if ms_stale st then '' (cache obsolete)'' else [])) \<in> set (pv_motor v')
     \<and> Readonly_row ''Mode'' ''M4'' (if m4_remote_mode s then ''Remote'' else ''Local'') \<in> set (pv_motor v')"
proof -
  let ?j = "motor_state_json st" and ?f = "ms_words st ! APP_MOTOR_STATE_FLAGS"
  have v': "pv_motor v' = renderMotor ?j"
    using assms(5,6) by (auto simp: page_refresh_from [OF assms(4)] Let_def render_def editLocked_def assms(1))
  have get: "js_truthy (js_get ?j ''available'')" "num_or0 (js_get ?j ''flags'') = uint ?f"
    "js_truthy (js_get ?j ''stale'') = ms_stale st"
    using assms(2) by (simp_all add: js_get_def motor_state_json_def Let_def js_truthy_def num_or0_def)
  have bits: "?f AND 16 \<noteq> 0 \<longleftrightarrow> motor_state m = APP_MOTOR_STATE_FAULT"
    "?f AND 8 \<noteq> 0 \<longleftrightarrow> motor_state m = APP_MOTOR_STATE_STOPPING"
    "?f AND 4 \<noteq> 0 \<longleftrightarrow> motor_state m = APP_MOTOR_STATE_RUNNING"
    "?f AND 2 \<noteq> 0 \<longleftrightarrow> motor_state m = APP_MOTOR_STATE_READY" "?f AND 64 \<noteq> 0 \<longleftrightarrow> m4_remote_mode s"
    using motor_state_flags_bits [of s m] unfolding assms(3) by (simp_all add: c_def)
  have "motorStateName ?j = motor_state_word (motor_state m)"
    using bits by (cases "motor_state m") (simp_all add: motorStateName_def Let_def get uint_and_zero motor_state_word_def)
  then show ?thesis
    using bits(5) by (simp add: v' renderMotor_def get uint_and_zero)
qed

text \<open>What the server reads in the command of the page's row: control word and duty, the ramps and the
  timeout from the registers.\<close>

lemma page_motor_command:
  assumes "js_Number other duty = Int_num d" and "0 \<le> d" and "d < 65536" and "0 \<le> c" and "c < 65536"
    and "page_requests other (Apply_motor c duty) = [(method, path, body)]"
  shows "method = ''POST'' \<and> path = ''/api/motor/command''
     \<and> parse_named_value (Some body) ''control'' = Inr (word_of_int c)
     \<and> command_of_body (Some body) (word_of_int c) w = \<lparr>mc_control = word_of_int c, mc_duty_permille = word_of_int d,
          mc_accel_ramp = reg_get APP_MB_HREG_MOTOR_ACCEL_RAMP w, mc_decel_ramp = reg_get APP_MB_HREG_MOTOR_DECEL_RAMP w,
          mc_timeout_ms = reg_get APP_MB_HREG_MOTOR_TIMEOUT w,
          mc_source = APP_MOTOR_COMMAND_SOURCE_MODBUS, mc_remote = True\<rparr>"
proof -
  have u: "dec_of_int i = dec_of_nat (unat (word_of_int i :: u16))" if "0 \<le> i" "i < 65536" for i
    using that by (simp add: dec_of_int_def unat_eq_nat_uint uint_word_of_int take_bit_int_eq_self)
  let ?body = "concat [''{'', json_num ''control'' (unat (word_of_int c :: u16)), '','',
      json_num ''duty'' (unat (word_of_int d :: u16)), ''}'']"
  have b: "method = ''POST''" "path = ''/api/motor/command''" "body = ?body"
    using assms(6) by (auto simp: motorPost_def assms(1) js_print_def json_num_def u [OF assms(2,3)] u [OF assms(4,5)])
  have "parse_named_value (Some ?body) ''control'' = Inr (word_of_int c)"
    by (rule parse_named_value_printed [where rest = "'','' @ json_num ''duty'' (unat (word_of_int d :: u16)) @ ''}''"])
      (simp_all add: json_num_def json_key_def strstr_eval del: strstr.simps(2))
  moreover have "parse_named_value (Some ?body) ''duty'' = Inr (word_of_int d)"
    by (rule parse_named_value_printed [where rest = "''}''"])
      (simp_all add: json_num_def json_key_def strstr_eval del: strstr.simps(2))
  moreover have "parse_named_value (Some ?body) k = Inl (- ENOENT)" if "k \<in> {''accel'', ''decel'', ''timeout''}" for k
    using that by (elim insertE emptyE; simp add: parse_named_value_def Let_def json_num_def json_key_def strstr_eval
        del: strstr.simps(2)) 
  ultimately show ?thesis unfolding b by (simp add: command_of_body_def field_or_def)
qed

text \<open>The only run command of the page is forward: a motor it starts runs forward, also one whose direction
  \<open>Prepare reverse\<close> has just turned.\<close>

lemma page_starts_forward:
  assumes "(name, c) \<in> set motor_scripts" and "(word_of_int c :: u16) AND APP_MOTOR_COMMAND_RUN \<noteq> 0"
    and "cmd = \<lparr>mc_control = word_of_int c, mc_duty_permille = d, mc_accel_ramp = a, mc_decel_ramp = b,
       mc_timeout_ms = t, mc_source = APP_MOTOR_COMMAND_SOURCE_MODBUS, mc_remote = True\<rparr>" and "valid_remote cmd"
    and "m7_endpoint_initialized l" "m7_endpoint_is_bound l"
    and "\<not> m4_remote_stop_latched s" "motor_state m = APP_MOTOR_STATE_READY" "drv_ok drv"
    and "fst (snd (app_ipc_motor_submit send (Some cmd) l)) = Some bytes"
  shows "motor_state (snd (arrives drv now bytes (s, m))) = APP_MOTOR_STATE_RUNNING
     \<and> motor_direction (snd (arrives drv now bytes (s, m))) = APP_MOTOR_DIRECTION_FORWARD"
proof -
  have c: "c = 3" using assms(1,2) by (auto simp: motor_scripts_def c_def)
  then have "valid_run cmd" using assms(3,4) by (simp add: valid_run_def)
  from submitted_run_arrives [OF this assms(5-10), of now] show ?thesis
    by (auto simp: runs_as_def assms(3) c command_direction_def c_def split: prod.splits)
qed

text \<open>An emptied field is saved as 0.\<close>

lemma page_empty_field_saves_zero:
  "page_requests other (Save_register addr []) = page_requests other (Save_register addr ''0'')"
proof -
  have "js_Number other [] = Int_num 0" by (simp add: js_Number_def js_trim_def)
  moreover have "js_Number other ''0'' = Int_num 0"
    by (simp add: js_Number_def js_trim_def is_space_char_def int_literal_def all_digits_def is_digit_char_def
        digits_value_def)
  ultimately show ?thesis by (simp add: writeReg_def putValue_def)
qed

section \<open>Examples\<close>

lemma ipWords_example: "ipWords (\<lambda>_. Other_num ''NaN'') ''10.0.1.7'' = Some (2560, 263)"
  by code_simp

lemma ipFrom_example: "ipFrom 2560 263 = ''10.0.1.7''"
  by code_simp

text \<open>A device with a lease and the stored default address.\<close>

definition env_leased :: m7_env where
  "env_leased = m7_env_example\<lparr>me_ntop := dotted,
     me_pton := (\<lambda>s. if s = NET_CFG_DEFAULT_IP then Some 0xC0A80003 else None),
     me_has_iface := True, me_addrs := Some [(True, NET_ADDR_DHCP, 0x0A000007)]\<rparr>"

definition leased_world :: web_world where
  "leased_world = web_world_of (modbus_sync_from_saved_cfg env_leased m7_boot)"

theorem page_dhcp_asks_reboot_witness:
  "pv_config_state (snd (page_refresh 0 False (\<lambda>path. Some (fst (snd (handle_http_request (\<lambda>_. 0)
       (web_env_example\<lparr>we_m7 := env_leased\<rparr>) (http_request ''GET'' path [] []) leased_world))))
     (page_boot, page_view_boot))) = ''Reboot requis''"
proof -
  let ?we = "web_env_example\<lparr>we_m7 := env_leased\<rparr>"
  let ?answer = "\<lambda>path. Some (fst (snd (handle_http_request (\<lambda>_. 0) ?we (http_request ''GET'' path [] []) leased_world)))"
  have net: "m7_net (ww_m7 leased_world) = net_cfg_boot"
    by (simp add: leased_world_def web_world_of_def modbus_sync_from_saved_cfg_def
        sync_holding_regs_from_saved_cfg_def Let_def m7_boot_def)
  have e: "me_ntop env_leased = dotted" "me_has_iface env_leased"
    "me_addrs env_leased = Some [(True, NET_ADDR_DHCP, 0x0A000007)]"
    "me_pton env_leased (nd_ip (net_cfg_get_saved (m7_net m7_boot))) = Some 0xC0A80003"
    by (simp_all add: env_leased_def m7_boot_def net_cfg_boot_def net_cfg_get_saved_def net_cfg_copy_def snprintk16_def
        NET_CFG_DEFAULT_IP_def)
  have "answers_from (we_m7 ?we) (ww_m7 leased_world) ?answer"
    by (rule server_answers) (simp_all add: e(1) dotted_plain dotted_length net net_cfg_boot_def plain_config_def
        default_texts c_def)
  then have a: "answers_from env_leased (modbus_sync_from_saved_cfg env_leased m7_boot) ?answer"
    by (simp add: leased_world_def web_world_of_def)
  obtain p' v' where r: "page_refresh 0 False ?answer (page_boot, page_view_boot) = (p', v')" by (rule prod.exhaust)
  have "net_cfg_select [(True, NET_ADDR_DHCP, 0x0A000007)] (nd_mode (m7_net m7_boot), None)
      = (NET_CFG_DHCP, Some 0x0A000007)" by simp
  from page_dhcp_asks_reboot [OF refl modbus_inv_length [OF modbus_boot_inv] e(4) this _ e(1-3) a r]
  show ?thesis by (simp add: r)
qed

text \<open>A device that has just received the state of a controller at boot.\<close>

definition state_received_world :: web_world where
  "state_received_world = web_world_of (m7_boot\<lparr>m7_link := m7_ipc_boot\<lparr>m7_motor_state_cache :=
     (m7_motor_state_cache m7_ipc_boot)\<lparr>ms_valid := True,
        ms_words := motor_state_flags m4_ipc_boot motor_boot # replicate 11 0\<rparr>\<rparr>\<rparr>)"

theorem page_motor_truthful_witness:
  "Readonly_row ''Etat moteur'' ''M4'' ''Disabled'' \<in> set (pv_motor (snd (page_refresh 0 False
     (\<lambda>path. Some (fst (snd (handle_http_request (\<lambda>_. 0) web_env_dotted (http_request ''GET'' path [] [])
        state_received_world)))) (page_boot, page_view_boot))))"
proof -
  let ?w = "ww_m7 state_received_world"
  let ?answer = "\<lambda>path. Some (fst (snd (handle_http_request (\<lambda>_. 0) web_env_dotted (http_request ''GET'' path [] [])
     state_received_world)))"
  let ?st = "app_ipc_get_motor_state (me_now (we_m7 web_env_dotted)) (m7_link ?w)"
  have a: "answers_from (we_m7 web_env_dotted) ?w ?answer"
    by (rule server_answers) (simp_all add: web_env_dotted_def dotted_plain dotted_length state_received_world_def
        web_world_of_def m7_boot_def net_cfg_boot_def plain_config_def default_texts c_def)
  have st: "ms_valid ?st" "\<not> ms_stale ?st" "ms_words ?st ! APP_MOTOR_STATE_FLAGS = motor_state_flags m4_ipc_boot motor_boot"
    by (simp_all add: state_received_world_def web_world_of_def app_ipc_get_motor_state_def Let_def web_env_dotted_def
        m7_env_example_def m7_ipc_boot_def c_def)
  obtain p' v' where r: "page_refresh 0 False ?answer (page_boot, page_view_boot) = (p', v')" by (rule prod.exhaust)
  have "\<not> editLocked 0 False page_boot" by (simp add: editLocked_def page_boot_def)
  from page_motor_truthful [OF refl st(1,3) a r this] st(2) show ?thesis
    by (simp add: r motor_state_word_def motor_boot_def)
qed

end
