(* ===== verification/Page_Session.thy ===== *)
theory Page_Session
  imports Web_Page
begin

text \<open>
  The page as a session in the browser: the document \<open>app_web_index_html\<close> of \<open>app_web_assets.h\<close>, the switch
  between its views, the edit hold, the single refresh in flight, and the buttons' handlers with their
  awaited requests (\<open>app_web_js\<close>). The session is a run of events, which the browser may order as it likes;
  what is shown of a document is \<open>page_refresh\<close> of \<open>Web_Page\<close>. A saved address is followed from the press of
  its button over the writes on the device to the row of the refreshed table. Style sheet and charts are left out.
\<close>

section \<open>The document\<close>

definition app_web_index_html :: "string list" where
  "app_web_index_html =
    [''<!doctype html>'',
     ''<html lang=\"fr\">'',
     ''<head>'',
     ''<meta charset=\"utf-8\">'',
     ''<meta name=\"viewport\" content=\"width=device-width,initial-scale=1\">'',
     ''<title>Industrial Ethernet</title>'',
     ''<link rel=\"stylesheet\" href=\"/app.css\">'',
     ''</head>'',
     ''<body>'',
     ''<aside class=\"rail\">'',
     ''<div class=\"brand\"><span class=\"mark\"><img src=\"/logo.jpg\" alt=\"\"></span><div><strong>Industrial Ethernet</strong><small>STM32H747 / Zephyr</small></div></div>'',
     ''<nav>'',
     ''<button class=\"nav active\" data-view=\"overview\">Dashboard</button>'',
     ''<button class=\"nav\" data-view=\"registers\">Registres</button>'',
     ''<button class=\"nav\" data-view=\"scanner\">Scanner</button>'',
     ''<button class=\"nav\" data-view=\"network\">Reseau</button>'',
     ''<button class=\"nav\" data-view=\"security\">Securite</button>'',
     ''<button class=\"nav\" data-view=\"firmware\">Firmware</button>'',
     ''</nav>'',
     ''<div class=\"login-slot\"><span></span><div><b>Session locale</b><small>Login prevu phase 11</small></div></div>'',
     ''</aside>'',
     ''<main>'',
     ''<header class=\"topbar\">'',
     ''<div><h1 id=\"view-title\">Dashboard</h1><p id=\"view-subtitle\">Supervision temps reel de la carte industrielle</p></div>'',
     ''<div class=\"topbar-actions\"><div class=\"status-line\"><span id=\"config-dot\" class=\"dot\"></span><span id=\"config-state\">-</span></div><button id=\"reboot-button\" class=\"reboot-button\" type=\"button\" title=\"Redemarrer la carte\" aria-label=\"Redemarrer la carte\">&#x21bb;</button></div>'',
     ''</header>'',
     ''<section id=\"overview\" class=\"view active\">'',
     ''<div class=\"kpis\">'',
     ''<article><span>Mode IP</span><strong id=\"kpi-mode\">-</strong></article>'',
     ''<article><span>Adresse IP</span><strong id=\"kpi-ip\">-</strong></article>'',
     ''<article><span>Connexions Modbus</span><strong id=\"kpi-connections\">-</strong></article>'',
     ''<article><span>Heartbeat</span><strong id=\"kpi-heartbeat\">-</strong></article>'',
     ''</div>'',
     ''<div class=\"chart-grid\">'',
     ''<section class=\"panel chart-panel\"><div class=\"panel-head\"><h2>Dashboard 1</h2><small>Preview</small></div><svg id=\"dashboard-chart-a\" viewBox=\"0 0 420 180\" role=\"img\"></svg></section>'',
     ''<section class=\"panel chart-panel\"><div class=\"panel-head\"><h2>Dashboard 2</h2><small>Preview</small></div><svg id=\"dashboard-chart-b\" viewBox=\"0 0 420 180\" role=\"img\"></svg></section>'',
     ''</div>'',
     ''<section class=\"panel\"><div class=\"panel-head\"><h2>Variateur M4</h2><small>Commande REST via IPC</small></div><div id=\"motor-table\" class=\"reg-table\"></div></section>'',
     ''</section>'',
     ''<section id=\"registers\" class=\"view\">'',
     ''<section class=\"panel\"><div class=\"panel-head\"><h2>Holding registers</h2><small>Lecture/ecriture directe</small></div><div id=\"register-table\" class=\"reg-table\"></div></section>'',
     ''</section>'',
     ''<section id=\"scanner\" class=\"view\">'',
     ''<div class=\"grid two\"><section class=\"panel\"><div class=\"panel-head\"><h2>Scanner Input</h2><small>Lecture seule, Unit-ID 2 FC03/04</small></div><div id=\"scanner-input-table\" class=\"reg-table\"></div></section><section class=\"panel\"><div class=\"panel-head\"><h2>Scanner Output</h2><small>Ecriture, Unit-ID 2 FC06/16</small></div><div id=\"scanner-output-table\" class=\"reg-table\"></div></section></div>'',
     ''</section>'',
     ''<section id=\"network\" class=\"view\"><section class=\"panel placeholder\"><h2>Configuration reseau</h2><p>Cette page accueillera le formulaire DHCP/statique, masque, gateway et sauvegarde persistante.</p><button disabled>Appliquer</button></section></section>'',
     ''<section id=\"security\" class=\"view\"><section class=\"panel placeholder\"><h2>Securite et login</h2><p>Emplacement reserve pour la phase 8 : login, token, changement de mot de passe et HTTPS.</p><button disabled>Connexion</button></section></section>'',
     ''<section id=\"firmware\" class=\"view\"><section class=\"panel placeholder\"><h2>Firmware update</h2><p>Emplacement reserve pour la phase 9 : upload binaire signe, progression et reboot controle.</p><button disabled>Selectionner un firmware</button></section></section>'',
     ''</main>'',
     ''<script src=\"/app.js\"></script>'',
     ''</body>'',
     ''</html>'']"

text \<open>\<open>strip_prefix\<close>: what follows a prefix. \<open>attr_values\<close>: the values of an attribute, in order, each of
  them what stands between the quotes after the attribute's name.\<close>

fun strip_prefix :: "string \<Rightarrow> string \<Rightarrow> string option" where
  "strip_prefix [] s = Some s"
| "strip_prefix (p # ps) [] = None"
| "strip_prefix (p # ps) (c # s) = (if p = c then strip_prefix ps s else None)"

fun attr_values :: "string \<Rightarrow> string \<Rightarrow> string list" where
  "attr_values attr [] = []"
| "attr_values attr (c # s) =
     (case strip_prefix attr (c # s) of
        Some rest \<Rightarrow> takeWhile (\<lambda>x. x \<noteq> CHR 0x22) rest # attr_values attr s
      | None \<Rightarrow> attr_values attr s)"

definition document_values :: "string \<Rightarrow> string list" where
  "document_values attr = concat (List.map (attr_values attr) app_web_index_html)"

text \<open>The sections of class \<open>view\<close> and the buttons of class \<open>nav\<close>, as \<open>querySelectorAll\<close> finds them.\<close>

definition view_ids :: "string list" where
  "view_ids = [''overview'', ''registers'', ''scanner'', ''network'', ''security'', ''firmware'']"

definition titles :: "(string \<times> string \<times> string) list" where
  "titles =
     [(''overview'', ''Dashboard'', ''Supervision temps reel de la carte industrielle''),
      (''registers'', ''Registres'', ''Lecture et ecriture des holding registers Unit-ID 1''),
      (''scanner'', ''Scanner'', ''Images Input et Output Unit-ID 2''),
      (''network'', ''Reseau'', ''Configuration IP future''),
      (''security'', ''Securite'', ''Login et HTTPS prevus phase 8''),
      (''firmware'', ''Firmware'', ''Mise a jour prevue phase 9'')]"

lemma document_views:
  "concat (List.map (attr_values ''<section id=\"'') app_web_index_html) = view_ids"
  "document_values '' data-view=\"'' = view_ids"
  unfolding document_values_def by code_simp+

lemma document_ids:
  "document_values '' id=\"'' =
     [''view-title'', ''view-subtitle'', ''config-dot'', ''config-state'', ''reboot-button'', ''overview'',
      ''kpi-mode'', ''kpi-ip'', ''kpi-connections'', ''kpi-heartbeat'', ''dashboard-chart-a'',
      ''dashboard-chart-b'', ''motor-table'', ''registers'', ''register-table'', ''scanner'',
      ''scanner-input-table'', ''scanner-output-table'', ''network'', ''security'', ''firmware'']"
  unfolding document_values_def by code_simp

text \<open>The elements the script asks for by name without testing that they exist; the table of a scanner image
  is named after its kind.\<close>

definition queried_ids :: "string list" where
  "queried_ids = [''view-title'', ''view-subtitle'', ''reboot-button'', ''register-table'', ''motor-table'',
     ''config-dot'', ''config-state'', ''kpi-mode'', ''kpi-ip'', ''kpi-connections'', ''kpi-heartbeat'',
     ''dashboard-chart-a'', ''dashboard-chart-b'']"

definition scanner_table_id :: "bool \<Rightarrow> string" where
  "scanner_table_id output = concat [''scanner-'', if output then ''output'' else ''input'', ''-table'']"

text \<open>Every element the script fills exists, once, and every button of the menu names a section with a title.\<close>

theorem document_serves_script:
  "distinct (document_values '' id=\"'')
   \<and> set (queried_ids @ List.map scanner_table_id [False, True]) \<subseteq> set (document_values '' id=\"'')
   \<and> document_values '' data-view=\"'' = view_ids \<and> List.map fst titles = view_ids
   \<and> set view_ids \<subseteq> set (document_values '' id=\"'')"
  unfolding document_ids document_views by (simp add: queried_ids_def scanner_table_id_def view_ids_def titles_def)

section \<open>The session\<close>

record page_ui =
  ui_page :: page
  ui_shown :: page_view
  ui_views :: "(string \<times> bool) list"
  ui_navs :: "(string \<times> bool) list"
  ui_title :: string
  ui_subtitle :: string
  ui_reboot_disabled :: bool
  ui_refreshInFlight :: bool

definition only_active :: "string \<Rightarrow> (string \<times> bool) list \<Rightarrow> (string \<times> bool) list" where
  "only_active i es = List.map (\<lambda>(k, _). (k, k = i)) es"

text \<open>An id without a title ends the function with an exception, after the classes.\<close>

definition setView :: "string \<Rightarrow> page_ui \<Rightarrow> page_ui" where
  "setView i u =
     (let u = u\<lparr>ui_views := only_active i (ui_views u), ui_navs := only_active i (ui_navs u)\<rparr>
      in case map_of titles i of None \<Rightarrow> u
         | Some (title, subtitle) \<Rightarrow> u\<lparr>ui_title := title, ui_subtitle := subtitle\<rparr>)"

text \<open>\<open>refresh\<close> up to its requests, and from their answers on.\<close>

definition refresh_begin :: "page_ui \<Rightarrow> page_ui" where
  "refresh_begin u = (if ui_refreshInFlight u then u else u\<lparr>ui_refreshInFlight := True\<rparr>)"

definition refresh_end :: "int \<Rightarrow> bool \<Rightarrow> (string \<Rightarrow> http_response option) \<Rightarrow> page_ui \<Rightarrow> page_ui" where
  "refresh_end now editing answer u =
     (if \<not> ui_refreshInFlight u then u
      else (case page_refresh now editing answer (ui_page u, ui_shown u) of (p, v) \<Rightarrow>
        u\<lparr>ui_page := p, ui_shown := v, ui_refreshInFlight := False\<rparr>))"

text \<open>The document as it is loaded, with the first \<open>refresh\<close> of the script's last line begun.\<close>

definition page_ui_boot :: page_ui where
  "page_ui_boot = refresh_begin
     \<lparr>ui_page = page_boot, ui_shown = page_view_boot,
      ui_views = List.map (\<lambda>i. (i, i = ''overview'')) view_ids,
      ui_navs = List.map (\<lambda>i. (i, i = ''overview'')) view_ids,
      ui_title = ''Dashboard'', ui_subtitle = ''Supervision temps reel de la carte industrielle'',
      ui_reboot_disabled = False, ui_refreshInFlight = False\<rparr>"

text \<open>The handler of a button up to its first awaited request; an invalid address is caught, and holds the
  tables for the correction.\<close>

definition edit_hold_ms :: int where "edit_hold_ms = 30000"

definition pressed :: "(string \<Rightarrow> js_num) \<Rightarrow> int \<Rightarrow> page_action \<Rightarrow> page_ui \<Rightarrow> page_ui" where
  "pressed other now a u =
     (case a of
        Reboot confirmed \<Rightarrow> if confirmed then u\<lparr>ui_reboot_disabled := True\<rparr> else u
      | Save_address msw lsw text \<Rightarrow>
          (if ipWords other text = None then u\<lparr>ui_page := holdEdit now edit_hold_ms (ui_page u)\<rparr>
           else u\<lparr>ui_page := releaseEdit (ui_page u)\<rparr>)
      | _ \<Rightarrow> u\<lparr>ui_page := releaseEdit (ui_page u)\<rparr>)"

text \<open>And after its requests, all of them well (\<open>ok\<close>) or up to one that failed. A failure is caught by the
  address rows and by \<open>reboot\<close>; any other one ends the handler before its \<open>refresh\<close>.\<close>

definition answered :: "int \<Rightarrow> bool \<Rightarrow> page_action \<Rightarrow> page_ui \<Rightarrow> page_ui" where
  "answered now ok a u =
     (case a of
        Reboot _ \<Rightarrow> if ok then u else u\<lparr>ui_reboot_disabled := False\<rparr>
      | Save_address _ _ _ \<Rightarrow>
          (if ok then refresh_begin u else u\<lparr>ui_page := holdEdit now edit_hold_ms (ui_page u)\<rparr>)
      | _ \<Rightarrow> if ok then refresh_begin u else u)"

text \<open>The listeners of the last line: \<open>focusin\<close>, \<open>input\<close> and \<open>change\<close> on an input or select; a click in the menu;
  a button pressed, and its requests over; the timer of 2000 ms; and the four answers of \<open>refresh\<close>.\<close>

datatype page_event =
    Touched int
  | Menu string
  | Pressed int page_action
  | Answered int bool page_action
  | Timer
  | Fetched int bool "string \<Rightarrow> http_response option"

fun page_step :: "(string \<Rightarrow> js_num) \<Rightarrow> page_event \<Rightarrow> page_ui \<Rightarrow> page_ui" where
  "page_step other (Touched now) u = u\<lparr>ui_page := holdEdit now edit_hold_ms (ui_page u)\<rparr>"
| "page_step other (Menu i) u = setView i u"
| "page_step other (Pressed now a) u = pressed other now a u"
| "page_step other (Answered now ok a) u = answered now ok a u"
| "page_step other Timer u = refresh_begin u"
| "page_step other (Fetched now editing answer) u = refresh_end now editing answer u"

definition page_session :: "(string \<Rightarrow> js_num) \<Rightarrow> page_event list \<Rightarrow> page_ui \<Rightarrow> page_ui" where
  "page_session other es u = fold (page_step other) es u"

lemma page_session_simps [simp]:
  "page_session other [] u = u"
  "page_session other (e # es) u = page_session other es (page_step other e u)"
  "page_session other (es @ fs) u = page_session other fs (page_session other es u)"
  by (simp_all add: page_session_def)

section \<open>One view at a time\<close>

text \<open>The section shown, the button marked and the two titles are those of one view.\<close>

definition shows_view :: "string \<Rightarrow> page_ui \<Rightarrow> bool" where
  "shows_view i u \<longleftrightarrow> ui_views u = List.map (\<lambda>k. (k, k = i)) view_ids
     \<and> ui_navs u = List.map (\<lambda>k. (k, k = i)) view_ids
     \<and> map_of titles i = Some (ui_title u, ui_subtitle u)"

definition last_menu :: "page_event list \<Rightarrow> string" where
  "last_menu es = fold (\<lambda>e i. case e of Menu k \<Rightarrow> k | _ \<Rightarrow> i) es ''overview''"

lemma setView_shows:
  assumes "shows_view i u" and "k \<in> set view_ids"
  shows "shows_view k (setView k u)"
proof -
  have "\<exists>t. map_of titles k = Some t"
    using assms(2) by (auto simp: view_ids_def titles_def)
  then show ?thesis
    using assms(1) by (auto simp: shows_view_def setView_def only_active_def Let_def)
qed

lemma page_step_keeps_view:
  assumes "shows_view i u" and "\<And>k. e \<noteq> Menu k"
  shows "shows_view i (page_step other e u)"
  using assms
  by (cases e) (auto simp: shows_view_def pressed_def answered_def refresh_begin_def refresh_end_def
      split: page_action.splits prod.splits)

text \<open>Whatever happens in a session, the page shows one view: the one last chosen in the menu, with its
  button marked and its title and subtitle above it.\<close>

theorem page_shows_chosen_view:
  assumes "\<And>k. Menu k \<in> set es \<Longrightarrow> k \<in> set (document_values '' data-view=\"'')"
  shows "shows_view (last_menu es) (page_session other es page_ui_boot)"
  using assms
proof (induction es rule: rev_induct)
  case Nil
  show ?case by (simp add: shows_view_def last_menu_def page_ui_boot_def refresh_begin_def titles_def)
next
  case (snoc e es)
  then have IH: "shows_view (last_menu es) (page_session other es page_ui_boot)" by auto
  show ?case
  proof (cases e)
    case (Menu k)
    then have "k \<in> set view_ids" using snoc.prems by (auto simp: document_views)
    from setView_shows [OF IH this] show ?thesis by (simp add: Menu last_menu_def)
  qed (use page_step_keeps_view [OF IH] in \<open>simp_all add: last_menu_def del: page_step.simps\<close>)
qed

theorem page_shows_chosen_view_witness:
  "shows_view ''scanner'' (page_session (\<lambda>_. Int_num 0) [Menu ''registers'', Timer, Menu ''scanner'', Touched 5] page_ui_boot)"
proof -
  let ?es = "[Menu ''registers'', Timer, Menu ''scanner'', Touched 5]"
  have "shows_view (last_menu ?es) (page_session (\<lambda>_. Int_num 0) ?es page_ui_boot)"
    by (rule page_shows_chosen_view) (auto simp: document_views view_ids_def)
  then show ?thesis by (simp add: last_menu_def del: page_session_simps)
qed

section \<open>The edit hold\<close>

text \<open>The tables, which \<open>render\<close> builds anew with the fields the user types in.\<close>

definition shown_tables :: "page_view \<Rightarrow> page_row list list" where
  "shown_tables v = [pv_registers v, pv_input v, pv_output v, pv_motor v]"

definition hold_until :: "page_ui \<Rightarrow> int" where
  "hold_until u = pg_edit_hold_until (ui_page u)"

text \<open>An event of the next 30 s that is not a button's release of the hold; an address that does not parse is
  none.\<close>

fun keeps_hold :: "(string \<Rightarrow> js_num) \<Rightarrow> int \<Rightarrow> page_event \<Rightarrow> bool" where
  "keeps_hold other t (Touched now) \<longleftrightarrow> t \<le> now"
| "keeps_hold other t (Pressed now a) \<longleftrightarrow> t \<le> now
     \<and> (case a of Reboot _ \<Rightarrow> True | Save_address _ _ text \<Rightarrow> ipWords other text = None | _ \<Rightarrow> False)"
| "keeps_hold other t (Answered now ok a) \<longleftrightarrow> t \<le> now"
| "keeps_hold other t (Fetched now editing answer) \<longleftrightarrow> now < t + edit_hold_ms"
| "keeps_hold other t e \<longleftrightarrow> True"

lemma render_locked: "editLocked now editing p \<Longrightarrow> shown_tables (render now editing p v) = shown_tables v"
  by (simp add: render_def shown_tables_def Let_def)

lemma page_refresh_hold: "pg_edit_hold_until (fst (page_refresh now editing answer (p, v))) = pg_edit_hold_until p"
  by (simp add: page_refresh_def Let_def split: option.splits)

lemma page_refresh_locked:
  "editLocked now editing p \<Longrightarrow> shown_tables (snd (page_refresh now editing answer (p, v))) = shown_tables v"
  by (auto simp: page_refresh_def Let_def editLocked_def render_locked split: option.splits)

lemma page_step_keeps_hold:
  assumes "keeps_hold other t e" and "t + edit_hold_ms \<le> hold_until u"
  shows "t + edit_hold_ms \<le> hold_until (page_step other e u)
     \<and> shown_tables (ui_shown (page_step other e u)) = shown_tables (ui_shown u)"
proof (cases e)
  case (Fetched now editing answer)
  then have "editLocked now editing (ui_page u)" using assms by (simp add: editLocked_def hold_until_def)
  from page_refresh_locked [OF this, of answer] page_refresh_hold [of now editing answer] assms(2) show ?thesis
    by (simp add: Fetched refresh_end_def hold_until_def split: prod.splits) (metis fst_conv snd_conv)
qed (use assms in \<open>auto simp: hold_until_def holdEdit_def setView_def pressed_def answered_def refresh_begin_def Let_def
       split: page_action.splits option.splits if_splits\<close>)

text \<open>A field the user types in is not taken away: for 30 s after each touch of a field, no refresh
  rebuilds the tables, whatever the server answers and in whichever view, until one of the rows' buttons is
  pressed. A text that is no address does not count as pressed.\<close>

theorem page_edit_protected:
  assumes "list_all (keeps_hold other t) es"
  shows "shown_tables (ui_shown (page_session other (Touched t # es) u)) = shown_tables (ui_shown u)"
proof -
  have "t + edit_hold_ms \<le> hold_until (page_session other es u')
      \<and> shown_tables (ui_shown (page_session other es u')) = shown_tables (ui_shown u')"
    if "t + edit_hold_ms \<le> hold_until u'" for u'
    using assms that
  proof (induction es arbitrary: u')
    case (Cons e es)
    from page_step_keeps_hold [of other t e u'] Cons show ?case by auto
  qed simp
  from this [of "page_step other (Touched t) u"] show ?thesis by (simp add: hold_until_def holdEdit_def)
qed

theorem page_edit_protected_witness:
  "pv_registers (ui_shown (page_session (\<lambda>_. Other_num ''NaN'')
     [Touched 1000, Fetched 2000 False answer, Timer, Pressed 3000 (Save_address 2 3 ''192.168''), Fetched 30999 False answer]
     page_ui_boot)) = []"
proof -
  have "list_all (keeps_hold (\<lambda>_. Other_num ''NaN'') 1000)
     [Fetched 2000 False answer, Timer, Pressed 3000 (Save_address 2 3 ''192.168''), Fetched 30999 False answer]"
    by (simp add: edit_hold_ms_def) code_simp
  from page_edit_protected [OF this, of page_ui_boot] show ?thesis
    by (simp add: shown_tables_def page_ui_boot_def refresh_begin_def page_view_boot_def)
qed

section \<open>A write and the refresh after it\<close>

text \<open>\<open>dev k\<close> is the device before the \<open>k\<close>-th event. A run is possible on it when the answers that end a
  refresh are those of a state since the refresh began; \<open>b\<close> is the event at which the one in flight did.\<close>

primrec session_on :: "(string \<Rightarrow> js_num) \<Rightarrow> m7_env \<Rightarrow> (nat \<Rightarrow> m7) \<Rightarrow> nat \<Rightarrow> nat \<Rightarrow> page_event list \<Rightarrow> page_ui \<Rightarrow> bool" where
  "session_on other e dev n b [] u \<longleftrightarrow> True"
| "session_on other e dev n b (ev # es) u \<longleftrightarrow>
     (case ev of
        Fetched now editing answer \<Rightarrow>
          ui_refreshInFlight u \<longrightarrow> list_ex (\<lambda>k. answers_from e (dev k) answer) [b..<Suc n]
      | _ \<Rightarrow> True)
     \<and> session_on other e dev (Suc n) (if ui_refreshInFlight u then b else n) es (page_step other ev u)"

definition is_fetched :: "page_event \<Rightarrow> bool" where
  "is_fetched ev = (case ev of Fetched _ _ _ \<Rightarrow> True | _ \<Rightarrow> False)"

lemma step_keeps_flight:
  assumes "ui_refreshInFlight u" and "\<not> is_fetched ev"
  shows "ui_refreshInFlight (page_step other ev u)"
  using assms
  by (cases ev) (auto simp: is_fetched_def pressed_def answered_def refresh_begin_def setView_def Let_def
      split: page_action.splits option.splits)

lemma flight_answer:
  assumes "session_on other e dev n b (es @ [Fetched now editing answer]) u" and "ui_refreshInFlight u"
    and "list_all (\<lambda>ev. \<not> is_fetched ev) es"
  shows "ui_refreshInFlight (page_session other es u) \<and> (\<exists>k. b \<le> k \<and> k \<le> n + length es \<and> answers_from e (dev k) answer)"
  using assms
proof (induction es arbitrary: n u)
  case Nil
  then show ?case by (force simp: list_ex_iff)
next
  case (Cons ev es)
  then have "ui_refreshInFlight (page_step other ev u)"
    "session_on other e dev (Suc n) b (es @ [Fetched now editing answer]) (page_step other ev u)"
    by (simp_all add: step_keeps_flight)
  with Cons show ?case by fastforce
qed

lemma fetched_shows_registers:
  assumes "answers_from e w answer" and "ui_refreshInFlight u" and "\<not> editLocked now editing (ui_page u)"
  shows "pv_registers (ui_shown (page_step other (Fetched now editing answer) u))
     = renderRegisterTable (List.map uint (holding_image e w))"
  using assms(2,3)
  by (simp add: refresh_end_def page_refresh_from [OF assms(1)] Let_def render_def editLocked_def)

lemma flight_kept:
  assumes "ui_refreshInFlight u" and "list_all (\<lambda>ev. \<not> is_fetched ev) es"
  shows "ui_refreshInFlight (page_session other es u)"
  using assms by (induction es arbitrary: u) (auto simp: step_keeps_flight)

text \<open>The address rows of the table.\<close>

lemma address_rows_shown:
  assumes "(name, msw) \<in> {(''Adresse IP'', 2), (''Masque'', 4), (''Gateway'', 6)}"
  shows "ipRow name msw (msw + 1) regs \<in> set (renderRegisterTable regs)"
  using assms unfolding renderRegisterTable_def
  by (elim insertE emptyE) (simp_all del: upt_Suc upt.simps set_map)

text \<open>When a write is answered while no refresh is in flight, the table shown next, once no field is
  being edited, is that of a device state since the write: the user sees what was saved.\<close>

theorem write_shown_after_answer:
  assumes "session_on other e dev n b (Answered t True (Save_register addr text) # es @ [Fetched now editing answer]) u"
    and "\<not> ui_refreshInFlight u" and "list_all (\<lambda>ev. \<not> is_fetched ev) es"
    and "u' = page_session other (Answered t True (Save_register addr text) # es) u"
    and "\<not> editLocked now editing (ui_page u')"
  shows "\<exists>k \<ge> n. pv_registers (ui_shown (page_step other (Fetched now editing answer) u'))
     = renderRegisterTable (List.map uint (holding_image e (dev k)))"
proof -
  let ?u = "page_step other (Answered t True (Save_register addr text)) u"
  have f: "ui_refreshInFlight ?u" using assms(2) by (simp add: answered_def refresh_begin_def)
  have "session_on other e dev (Suc n) n (es @ [Fetched now editing answer]) ?u"
    using assms(1,2) by simp
  from flight_answer [OF this f assms(3)] obtain k
    where "n \<le> k" "answers_from e (dev k) answer" "ui_refreshInFlight u'"
    by (auto simp: assms(4))
  with fetched_shows_registers [OF _ _ assms(5)] show ?thesis by blast
qed

text \<open>C32. Saving an address row writes what the user typed, and the page then shows it. For every text the page
  accepts, both requests are answered with success, the two registers of the row hold the four octets and
  nothing else of the device changes; and when they are answered with no other refresh in flight, the refresh
  begun by the handler, ended by the device's answers once no field is edited, fills the table with the row
  that reads the canonical text of the same address, which the page would accept again as the same words. A
  text it does not accept sends nothing, and holds the tables for the correction.\<close>

theorem page_address_saved:
  assumes "(name, msw) \<in> {(''Adresse IP'', 2), (''Masque'', 4), (''Gateway'', 6)}" and "lsw = msw + 1"
    and "\<And>rq. headers_ok (headers rq) (snd (snd rq))"
    and "length (mb_holding_regs (m7_modbus (ww_m7 ww))) = 60"
    and "act = Save_address msw lsw text"
    and "(ok, ww') = page_send client we headers (page_requests other act) ww"
    and "ua = page_session other (Pressed t act # es) u" and "\<not> ui_refreshInFlight ua"
    and "uf = page_session other (Answered t' ok act # fs) ua" and "list_all (\<lambda>ev. \<not> is_fetched ev) fs"
    and "answers_from e (ww_m7 ww') answer" and "\<not> editLocked now editing (ui_page uf)"
  shows "case ipWords other text of
      None \<Rightarrow> ok \<and> ww' = ww \<and> hold_until (page_step other (Pressed t act) u) = t + edit_hold_ms
    | Some (a, b) \<Rightarrow> ok
        \<and> ww' = ww\<lparr>ww_m7 := reg_set (of_nat lsw) (word_of_int b) (reg_set (of_nat msw) (word_of_int a) (ww_m7 ww))\<rparr>
        \<and> Ip_row name msw lsw (ipFrom a b)
          \<in> set (pv_registers (ui_shown (page_step other (Fetched now editing answer) uf)))
        \<and> ipWords other (ipFrom a b) = Some (a, b)"
proof -
  have m: "msw \<in> {2, 4, 6}" using assms(1) by auto
  note written = address_row_written [OF m assms(2-4) assms(6) [unfolded assms(5)]]
  have shown: "ipRow name msw lsw (List.map uint (holding_image e (ww_m7 ww')))
      \<in> set (pv_registers (ui_shown (page_step other (Fetched now editing answer) uf)))" if ok
  proof -
    have "ui_refreshInFlight (page_step other (Answered t' ok act) ua)"
      using assms(8) that by (simp add: assms(5) answered_def refresh_begin_def)
    from flight_kept [OF this assms(10)] have "ui_refreshInFlight uf" by (simp add: assms(9))
    from fetched_shows_registers [OF assms(11) this assms(12)] show ?thesis
      using address_rows_shown [OF assms(1)] by (simp add: assms(2))
  qed
  show ?thesis
  proof (cases "ipWords other text")
    case None
    with written show ?thesis by (simp add: assms(5) pressed_def hold_until_def holdEdit_def)
  next
    case (Some ab)
    with written [of name e] shown show ?thesis by (auto split: prod.splits)
  qed
qed

text \<open>But a \<open>refresh\<close> called while one is in flight returns at once. So when the timer's refresh has read the
  registers before a write, the page shows after the write, with the hold released, the registers as they
  were before it, until the next turn of the timer.\<close>

definition register_press :: "nat \<Rightarrow> string \<Rightarrow> int \<Rightarrow> (string \<Rightarrow> http_response option) \<Rightarrow> page_event list" where
  "register_press addr text now answer =
     [Pressed now (Save_register addr text), Answered now True (Save_register addr text), Fetched now False answer]"

lemma press_during_refresh_shows_before:
  assumes "answers_from e (dev 0) answer" and "\<not> ui_refreshInFlight u" and "0 \<le> now"
    and "u' = page_session other (Timer # register_press addr text now answer) u"
  shows "session_on other e dev 0 0 (Timer # register_press addr text now answer) u
     \<and> pv_registers (ui_shown u') = renderRegisterTable (List.map uint (holding_image e (dev 0)))
     \<and> \<not> ui_refreshInFlight u'"
  using assms(2,3)
  by (simp add: assms(4) register_press_def pressed_def answered_def refresh_begin_def refresh_end_def upt_rec
      page_refresh_from [OF assms(1)] releaseEdit_def Let_def render_def editLocked_def assms(1))

text \<open>A device whose register 50 is saved from the page.\<close>

definition saved_dev :: "nat \<Rightarrow> m7" where
  "saved_dev k = (if k = 0 then m7_boot else reg_set 50 7 m7_boot)"

lemma saved_dev_answers:
  "answers_from (we_m7 web_env_dotted) (saved_dev k)
     (\<lambda>path. Some (fst (snd (handle_http_request client web_env_dotted (http_request ''GET'' path [] [])
        (web_world_of (saved_dev k))))))"
proof -
  have "plain_config (m7_net (saved_dev k))" "nd_mode (m7_net (saved_dev k)) < 2 ^ 32"
    by (simp_all add: saved_dev_def m7_boot_def reg_set_def net_cfg_boot_def plain_config_def default_texts c_def)
  then show ?thesis
    using server_answers [of web_env_dotted "web_world_of (saved_dev k)" client "[]"]
    by (simp add: web_env_dotted_def dotted_plain dotted_length web_world_of_def)
qed

theorem write_shown_after_answer_witness:
  "\<exists>k \<ge> 1. pv_registers (ui_shown (page_step (\<lambda>_. Int_num 0) (Fetched 40 False (\<lambda>path. Some (fst (snd
       (handle_http_request (\<lambda>_. 0) web_env_dotted (http_request ''GET'' path [] []) (web_world_of (saved_dev 1)))))))
     (page_session (\<lambda>_. Int_num 0) [Answered 30 True (Save_register 50 ''7''), Timer]
       (page_ui_boot\<lparr>ui_refreshInFlight := False\<rparr>))))
   = renderRegisterTable (List.map uint (holding_image (we_m7 web_env_dotted) (saved_dev k)))"
proof -
  let ?o = "\<lambda>_. Int_num 0" and ?u = "page_ui_boot\<lparr>ui_refreshInFlight := False\<rparr>"
    and ?a = "\<lambda>path. Some (fst (snd (handle_http_request (\<lambda>_. 0) web_env_dotted (http_request ''GET'' path [] [])
      (web_world_of (saved_dev 1)))))"
  have "session_on ?o (we_m7 web_env_dotted) saved_dev 1 0
      (Answered 30 True (Save_register 50 ''7'') # [Timer] @ [Fetched 40 False ?a]) ?u"
    using saved_dev_answers [of 1 "\<lambda>_. 0"] by (simp add: upt_rec answered_def refresh_begin_def del: One_nat_def)
  from write_shown_after_answer [OF this _ _ refl] show ?thesis
    by (simp add: is_fetched_def answered_def refresh_begin_def editLocked_def page_ui_boot_def page_boot_def)
qed

theorem page_address_saved_witness:
  "Ip_row ''Adresse IP'' 2 3 ''10.0.1.7'' \<in> set (pv_registers (ui_shown (page_session (\<lambda>_. Other_num ''NaN'')
     [Pressed 20 (Save_address 2 3 ''10.0.1.7''), Answered 30 True (Save_address 2 3 ''10.0.1.7''), Timer,
      Fetched 40 False (\<lambda>path. Some (fst (snd (handle_http_request (\<lambda>_. 0) web_env_dotted (http_request ''GET'' path [] [])
        (web_world_of (reg_set 3 263 (reg_set 2 2560 m7_boot)))))))]
     (page_ui_boot\<lparr>ui_refreshInFlight := False\<rparr>))))"
proof -
  let ?o = "\<lambda>_ :: string. Other_num ''NaN''" and ?act = "Save_address 2 3 ''10.0.1.7''"
    and ?u = "page_ui_boot\<lparr>ui_refreshInFlight := False\<rparr>" and ?w = "reg_set 3 263 (reg_set 2 2560 m7_boot) :: m7"
  let ?a = "\<lambda>path. Some (fst (snd (handle_http_request (\<lambda>_. 0) web_env_dotted (http_request ''GET'' path [] [])
      (web_world_of ?w))))"
  obtain ok ww' where h: "(ok, ww') = page_send (\<lambda>_. 0) web_env_example (\<lambda>_. []) (page_requests ?o ?act) (web_world_of m7_boot)"
    by (metis prod.exhaust)
  have len: "length (mb_holding_regs (m7_modbus (ww_m7 (web_world_of m7_boot)))) = 60"
    using modbus_inv_length [OF modbus_boot_inv] by (simp add: web_world_of_def)
  have sent: "ok" "ww_m7 ww' = ?w"
    using address_row_written [OF _ _ _ len h] by (simp_all add: ipWords_example web_world_of_def)
  have "plain_config (m7_net ?w)" "nd_mode (m7_net ?w) < 2 ^ 32"
    by (simp_all add: m7_boot_def reg_set_def net_cfg_boot_def plain_config_def default_texts c_def)
  then have a: "answers_from (we_m7 web_env_dotted) (ww_m7 ww') ?a"
    using server_answers [of web_env_dotted "web_world_of ?w" "\<lambda>_. 0" "[]"]
    by (simp add: sent web_env_dotted_def dotted_plain dotted_length web_world_of_def)
  have p: "ui_page (page_session ?o [Pressed 20 ?act, Answered 30 ok ?act, Timer] ?u) = releaseEdit page_boot"
    by (simp add: sent pressed_def answered_def refresh_begin_def ipWords_example page_ui_boot_def)
  from page_address_saved [where es = "[]" and fs = "[Timer]" and name = "''Adresse IP''" and now = 40 and editing = False
      and t = 20 and t' = 30 and u = ?u, OF _ _ _ len refl h refl _ refl _ a]
  show ?thesis
    using p by (simp add: sent ipWords_example is_fetched_def editLocked_def releaseEdit_def page_boot_def
        pressed_def page_ui_boot_def refresh_begin_def answered_def ipFrom_example)
qed

section \<open>The reboot button\<close>

text \<open>A confirmed reboot disables its button until its request fails, so a second press sends nothing.\<close>

lemma reboot_button:
  "ui_reboot_disabled (page_step other (Pressed now (Reboot True)) u)"
  "ui_reboot_disabled (page_step other (Answered now ok (Reboot True)) u) = (ok \<and> ui_reboot_disabled u)"
  "page_step other (Pressed now (Reboot False)) u = u"
  by (simp_all add: pressed_def answered_def)

end
