(* ===== verification/Shell_Tables.thy ===== *)
theory Shell_Tables
  imports M7_Remote App_Lcd
begin

text \<open>
  The tables through which Zephyr's shell finds the handlers of a command: \<open>m4_cmds\<close> of
  \<open>app_m7/src/ipc/app_ipc.c\<close>, \<open>net_cfg_cmds\<close> of \<open>app_m7/src/net/net_cfg.c\<close> and the commands of
  \<open>app_m7/src/shell/util_cmds.c\<close>. An entry is the name, the help, the handler and the counts of mandatory
  and optional arguments (the name included; both 0 for \<open>SHELL_CMD\<close>, which leaves them unchecked).
\<close>

record 'h shell_entry =
  se_name :: string
  se_help :: string
  se_handler :: 'h
  se_mandatory :: nat
  se_optional :: nat

definition SHELL_CMD_ARG :: "string \<Rightarrow> string \<Rightarrow> 'h \<Rightarrow> nat \<Rightarrow> nat \<Rightarrow> 'h shell_entry" where
  "SHELL_CMD_ARG name help handler mand opt =
     \<lparr>se_name = name, se_help = help, se_handler = handler, se_mandatory = mand, se_optional = opt\<rparr>"

definition SHELL_CMD :: "string \<Rightarrow> string \<Rightarrow> 'h \<Rightarrow> 'h shell_entry" where
  "SHELL_CMD name help handler = SHELL_CMD_ARG name help handler 0 0"

text \<open>A handler of \<open>m4\<close> takes what Zephyr answers, for \<open>ping\<close> also the times and the messages received
  meanwhile, and the arguments with the name.\<close>

record m4_shell_env =
  mse_env :: m7_env
  mse_start_ms :: u32
  mse_end_ms :: u32
  mse_received :: "(u32 \<times> u8 list) list"

type_synonym m4_handler = "m4_shell_env \<Rightarrow> string list \<Rightarrow> m7 \<Rightarrow> shell_result"

definition m4_prints :: "m7 \<Rightarrow> int \<times> shell_line list \<Rightarrow> shell_result" where
  "m4_prints w r = (fst r, snd r, None, w)"

definition m4_cmds :: "m4_handler shell_entry list" where
  "m4_cmds =
     [SHELL_CMD ''ping'' ''Ping the M4 over IPC''
        (\<lambda>s argv w. cmd_m4_ping (mse_env s) (mse_start_ms s) (mse_end_ms s) (mse_received s) w),
      SHELL_CMD ''status'' ''Show M7-to-M4 IPC status'' (\<lambda>s argv w. m4_prints w (cmd_m4_status w)),
      SHELL_CMD ''state'' ''Show cached M4 motor state'' (\<lambda>s argv w. m4_prints w (cmd_m4_state (mse_env s) w)),
      SHELL_CMD ''remote'' ''Enable M4 remote mode'' (\<lambda>s argv w. cmd_m4_remote (mse_env s) w),
      SHELL_CMD ''local'' ''Return M4 to local control'' (\<lambda>s argv w. cmd_m4_local (mse_env s) w),
      SHELL_CMD ''start'' ''Start motor in remote mode'' (\<lambda>s argv w. cmd_m4_start (mse_env s) w),
      SHELL_CMD ''stop'' ''Stop motor with ramp in remote mode'' (\<lambda>s argv w. cmd_m4_stop (mse_env s) w),
      SHELL_CMD ''quickstop'' ''Stop motor immediately in remote mode'' (\<lambda>s argv w. cmd_m4_quick_stop (mse_env s) w),
      SHELL_CMD ''reset'' ''Clear remote STOP latch and reset motor'' (\<lambda>s argv w. cmd_m4_reset (mse_env s) w),
      SHELL_CMD ''forward'' ''Select forward direction while stopped'' (\<lambda>s argv w. cmd_m4_forward (mse_env s) w),
      SHELL_CMD ''reverse'' ''Select reverse direction while stopped'' (\<lambda>s argv w. cmd_m4_reverse (mse_env s) w),
      SHELL_CMD_ARG ''duty'' ''Set remote duty: 800..1000'' (\<lambda>s argv w. cmd_m4_duty (mse_env s) argv w) 2 0,
      SHELL_CMD ''pause'' ''Pause remote refresh for timeout validation'' (\<lambda>s argv w. cmd_m4_pause_refresh w)]"

text \<open>A handler of \<open>ip\<close>: the lines of \<open>show\<close>, or the result of a store.\<close>

type_synonym net_cfg_handler =
  "pton \<Rightarrow> int \<Rightarrow> string list \<Rightarrow> net_cfg_data \<Rightarrow> int \<times> string list \<times> net_cfg_store option \<times> net_cfg_data"

definition net_cfg_cmds :: "net_cfg_handler shell_entry list" where
  "net_cfg_cmds =
     [SHELL_CMD ''show'' ''Show current network config''
        (\<lambda>pton save_ret argv cfg. let (ret, lines) = cmd_net_cfg_show cfg in (ret, lines, None, cfg)),
      SHELL_CMD ''dhcp'' ''Switch to DHCP mode'' (\<lambda>pton save_ret argv cfg. (case cmd_net_cfg_dhcp pton save_ret cfg of
        (ret, store, cfg) \<Rightarrow> (ret, [], store, cfg))),
      SHELL_CMD ''static'' ''Set static IP: static <ip> [mask] [gw]''
        (\<lambda>pton save_ret argv cfg. (case cmd_net_cfg_static pton save_ret argv cfg of
           (ret, store, cfg) \<Rightarrow> (ret, [], store, cfg)))]"

text \<open>The commands without subcommands; \<open>reboot\<close> does not return.\<close>

definition util_cmds :: "(nat \<Rightarrow> int option \<times> string list) shell_entry list" where
  "util_cmds =
     [SHELL_CMD ''reboot'' ''Reboot the board'' (\<lambda>uptime_ms. (None, cmd_reboot)),
      SHELL_CMD ''uptime'' ''Show system uptime''
        (\<lambda>uptime_ms. let (ret, lines) = cmd_uptime uptime_ms in (Some ret, lines))]"

section \<open>The tables name every command once\<close>

definition shell_handler :: "'h shell_entry list \<Rightarrow> string \<Rightarrow> 'h option" where
  "shell_handler table name = map_option se_handler (find (\<lambda>c. se_name c = name) table)"

lemmas shell_table_defs = shell_handler_def m4_cmds_def net_cfg_cmds_def util_cmds_def SHELL_CMD_def SHELL_CMD_ARG_def

lemma shell_names_distinct:
  "distinct (List.map se_name m4_cmds)" "distinct (List.map se_name net_cfg_cmds)"
  "distinct (List.map se_name util_cmds)"
  by (simp_all add: shell_table_defs)

definition shell_words :: "shell_command \<Rightarrow> string list" where
  "shell_words c = (case c of
       M4_remote \<Rightarrow> [''remote''] | M4_local \<Rightarrow> [''local''] | M4_start \<Rightarrow> [''start''] | M4_stop \<Rightarrow> [''stop'']
     | M4_quickstop \<Rightarrow> [''quickstop''] | M4_reset \<Rightarrow> [''reset''] | M4_forward \<Rightarrow> [''forward'']
     | M4_reverse \<Rightarrow> [''reverse''] | M4_duty argv \<Rightarrow> argv | M4_pause \<Rightarrow> [''pause''])"

text \<open>The commands of \<open>run_shell\<close> are the table's: each is the handler found under its name.\<close>

lemma m4_table_runs:
  assumes "\<And>argv. c = M4_duty argv \<Longrightarrow> argv \<noteq> [] \<and> hd argv = ''duty''"
  shows "\<exists>h. shell_handler m4_cmds (hd (shell_words c)) = Some h
     \<and> h s (shell_words c) w = run_shell (mse_env s) c w"
proof (cases c)
  case (M4_duty argv)
  then obtain r where "argv = ''duty'' # r" using assms by (cases argv) auto
  then show ?thesis by (simp add: M4_duty shell_words_def run_shell_def shell_table_defs)
qed (simp_all add: shell_words_def run_shell_def shell_table_defs)

end
