(* ===== verification/Keep_Alive.thy ===== *)
theory Keep_Alive
  imports Two_Cores
begin

unbundle bit_operations_syntax

text \<open>
  The counterpart of \<open>M4_Timeout\<close>: a motor that runs in remote mode is not stopped by the Cortex-M4 program
  while commands keep arriving in time.
\<close>

section \<open>Quiet buttons\<close>

text \<open>The event of each button is the one of the table \<open>buttons\<close>; no operation changes it.\<close>

definition buttons_wired :: "app_button list \<Rightarrow> bool" where
  "buttons_wired bs \<longleftrightarrow> List.map button_event bs = List.map button_event buttons_boot"

lemma buttons_init_loop_wired:
  "List.map button_event (snd (buttons_init_loop f g k bs)) = List.map button_event bs"
  by (induction f g k bs rule: buttons_init_loop.induct) (auto simp: Let_def case_prod_beta)

lemma buttons_poll_loop_wired:
  "List.map button_event (snd (buttons_poll_loop f k e bs)) = List.map button_event bs"
proof (induction bs arbitrary: k e)
  case (Cons b bs)
  then show ?case by (cases "button_poll (f k) (e, b)") (use button_poll_event [of "f k" e b] in \<open>simp add: Let_def case_prod_beta\<close>)
qed simp

lemma m4_step_wired: "m4_step drv w w' \<Longrightarrow> buttons_wired (m4_buttons w) \<Longrightarrow> buttons_wired (m4_buttons w')"
  by (erule m4_stepE) (auto simp: buttons_wired_def m4_main_iteration_def Let_def case_prod_beta
      app_motor_buttons_poll_def buttons_poll_loop_wired)

lemma m4_reachable_wired: "m4_reachable drv w \<Longrightarrow> buttons_wired (m4_buttons w)"
proof (induction rule: m4_reachable.induct)
  case (start a b c d e f g h w)
  then show ?case
    by (cases a) (auto simp: buttons_wired_def m4_main_init_def m4_boot_def app_motor_buttons_init_def
        buttons_init_loop_wired Let_def case_prod_beta)
qed (rule m4_step_wired)

text \<open>A reading of 0 and a failed read give no event.\<close>

lemma button_poll_quiet: "r \<le> 0 \<Longrightarrow> fst (button_poll r (events, b)) = events"
  by (auto simp: button_poll_def Let_def)

lemma button_poll_either: "fst (button_poll r (events, b)) = events \<or> fst (button_poll r (events, b)) = events OR button_event b"
  by (auto simp: button_poll_def Let_def)

lemma buttons_wired_cases:
  assumes "buttons_wired bs"
  obtains a b c d where "bs = [a, b, c, d]" "button_event a = 1" "button_event b = 2" "button_event c = 4" "button_event d = 8"
proof -
  have "List.map button_event bs = [1, 2, 4, 8]"
    using assms by (simp add: buttons_wired_def buttons_boot_def button_boot_def c_def)
  then show thesis using that by (auto simp: map_eq_Cons_conv)
qed

lemma quiet_buttons:
  assumes "buttons_wired bs" and "pins 1 \<le> 0" and "pins 3 \<le> 0"
  shows "fst (app_motor_buttons_poll pins bs) AND APP_BUTTON_EVENT_STOP = 0"
    and "fst (app_motor_buttons_poll pins bs) AND APP_BUTTON_EVENT_RESET = 0"
proof -
  obtain a b c d where bs: "bs = [a, b, c, d]" and ev: "button_event a = 1" "button_event c = 4"
    using assms(1) by (rule buttons_wired_cases)
  define x where "x = fst (button_poll (pins 0) (0, a))"
  have n: "Suc (Suc 0) = 2" "Suc 2 = 3" by simp_all
  have "fst (app_motor_buttons_poll pins bs) = fst (button_poll (pins 2) (x, c))"
    using assms(2,3) by (simp add: bs app_motor_buttons_poll_def Let_def case_prod_beta n x_def button_poll_quiet)
  moreover have "x = 0 \<or> x = 1" using button_poll_either [of "pins 0" 0 a] ev by (simp add: x_def)
  ultimately have "fst (app_motor_buttons_poll pins bs) \<in> {0, 1, 4, 1 OR 4}"
    using button_poll_either [of "pins 2" x c] ev by auto
  then show "fst (app_motor_buttons_poll pins bs) AND APP_BUTTON_EVENT_STOP = 0"
    "fst (app_motor_buttons_poll pins bs) AND APP_BUTTON_EVENT_RESET = 0"
    by (auto simp: c_def)
qed

section \<open>What a supplied turn does\<close>

text \<open>The environment of an undisturbed turn: \<open>STOP\<close> and \<open>RESET\<close> are not pressed and the ADC answers.\<close>

definition calm_input :: "m4_input \<Rightarrow> bool" where
  "calm_input i \<longleftrightarrow> in_pins i 1 \<le> 0 \<and> in_pins i 3 \<le> 0 \<and> 0 \<le> in_adc_sequence_ret i \<and> 0 \<le> in_adc_read_ret i"

definition pwm_works :: "motor_drv \<Rightarrow> bool" where
  "pwm_works drv \<longleftrightarrow> (\<forall>t p. 0 \<le> drv t (Pwm_set_pulse p))"

lemma direction_code_direction: "direction_code d = direction_code APP_MOTOR_DIRECTION_FORWARD \<or> direction_code d = direction_code APP_MOTOR_DIRECTION_REVERSE"
  by (cases d) simp_all

text \<open>A command that asks for the run to go on. Its direction need not be the one of the motor.\<close>

definition run_on_command :: "app_motor_command_message \<Rightarrow> bool" where
  "run_on_command message \<longleftrightarrow> plain_command message \<and> command_words message ! APP_MOTOR_COMMAND_CONTROL AND APP_MOTOR_COMMAND_RUN \<noteq> 0"

lemma apply_run_on:
  assumes "command_is_valid message len" and "run_on_command message" and "motor_state m = APP_MOTOR_STATE_RUNNING"
  shows "snd (snd (apply_remote_command drv now message (s, m))) = command_motor message m"
  using assms(2,3)
  by (simp add: apply_remote_command_valid [OF assms(1) _ refl] run_on_command_def plain_command_def apply_remote_control_def
      app_motor_set_direction_def app_motor_start_def Let_def case_prod_beta direction_code_direction)

text \<open>The motor runs in remote mode on a command of the given time and timeout.\<close>

definition running_on :: "u32 \<Rightarrow> u16 \<Rightarrow> m4_ipc \<times> motor \<Rightarrow> bool" where
  "running_on ts timeout sm \<longleftrightarrow> m4_remote_mode (fst sm) \<and> \<not> m4_remote_timed_out (fst sm)
     \<and> m4_remote_command_timestamp_ms (fst sm) = ts \<and> m4_remote_timeout_ms (fst sm) = timeout
     \<and> motor_state (snd sm) = APP_MOTOR_STATE_RUNNING"

lemma process_pending_running:
  assumes "running_on ts timeout (s, m)" and "m4_ipc_inv s"
    and "m4_command_pending s \<Longrightarrow> run_on_command (m4_pending_command s)"
  shows "running_on (if m4_command_pending s then now else ts)
      (if m4_command_pending s then command_words (m4_pending_command s) ! APP_MOTOR_COMMAND_TIMEOUT_MS else timeout)
      (process_pending_command drv now (s, m))"
    and "motor_direction (snd (process_pending_command drv now (s, m))) = motor_direction m"
proof -
  let ?msg = "m4_pending_command s"
  have "running_on now (command_words ?msg ! APP_MOTOR_COMMAND_TIMEOUT_MS)
        (snd (apply_remote_command drv now ?msg (s\<lparr>m4_command_pending := False\<rparr>, m)))
      \<and> motor_direction (snd (snd (apply_remote_command drv now ?msg (s\<lparr>m4_command_pending := False\<rparr>, m)))) = motor_direction m"
    if p: "m4_command_pending s"
  proof -
    have v: "command_is_valid ?msg sizeof_command" using assms(2) p by (simp add: m4_ipc_inv_def)
    have mode: "command_words ?msg ! APP_MOTOR_COMMAND_MODE \<noteq> 0"
      using assms(3) [OF p] by (simp add: run_on_command_def plain_command_def)
    show ?thesis
      using apply_remote_command_remote [OF mode, where drv = drv and now = now and s = "s\<lparr>m4_command_pending := False\<rparr>" and m = m]
        apply_run_on [OF v assms(3) [OF p], of m drv now "s\<lparr>m4_command_pending := False\<rparr>"] assms(1)
      by (simp add: running_on_def)
  qed
  then show "running_on (if m4_command_pending s then now else ts)
      (if m4_command_pending s then command_words ?msg ! APP_MOTOR_COMMAND_TIMEOUT_MS else timeout)
      (process_pending_command drv now (s, m))"
    and "motor_direction (snd (process_pending_command drv now (s, m))) = motor_direction m"
    using assms(1) by (simp_all add: process_pending_command_def)
qed

lemma process_running:
  assumes "running_on ts timeout (process_pending_command drv a (s, m))" and "b - ts \<le> ucast timeout"
  shows "running_on ts timeout (fst (app_ipc_process_m4 drv a b r (s, m)))"
    and "snd (fst (app_ipc_process_m4 drv a b r (s, m))) = snd (process_pending_command drv a (s, m))"
  using assms
  by (auto simp: running_on_def app_ipc_process_m4_def process_remote_timeout_def Let_def case_prod_beta)

lemma potentiometer_poll_answers:
  "0 \<le> q \<Longrightarrow> 0 \<le> r \<Longrightarrow> fst (app_motor_potentiometer_poll q r x p) = 0"
  by (simp add: app_motor_potentiometer_poll_def Let_def)

lemma app_motor_process_runs_on:
  assumes "pwm_works drv" and "motor_inv m" and "motor_state m = APP_MOTOR_STATE_RUNNING"
  shows "motor_state (snd (app_motor_process drv e m)) = APP_MOTOR_STATE_RUNNING"
    and "motor_direction (snd (app_motor_process drv e m)) = motor_direction m"
proof -
  let ?n = "motor_ramp_next (motor_duty_permille m) (motor_target_duty_permille m)
    (motor_ramp_step (ucast (motor_run_ramp_permille_per_second m)) e)"
  have "unat (motor_duty_permille m) \<le> 1000" "unat (motor_target_duty_permille m) \<le> 1000"
    using assms(2) by (simp_all add: motor_inv_def motor_values_ok_def c_def to_nat_simps)
  then have "?n \<le> APP_MOTOR_DUTY_MAX_PERMILLE" by (auto simp: c_def to_nat_simps motor_ramp_next_unat)
  note pwm = motor_set_pwm_eq [OF this, of drv m]
  have "\<not> drv (motor_io m) (Pwm_set_pulse p) < 0" for p using assms(1) by (simp add: pwm_works_def not_less)
  then show "motor_state (snd (app_motor_process drv e m)) = APP_MOTOR_STATE_RUNNING"
    "motor_direction (snd (app_motor_process drv e m)) = motor_direction m"
    using assms(3) by (simp_all add: app_motor_process_def motor_ramp_towards_def pwm Let_def)
qed

text \<open>A turn of an undisturbed program with a command that is not too old.\<close>

lemma supplied_turn:
  assumes "m4_reachable drv w" and "pwm_works drv" and "calm_input i" and "running_on ts timeout (m4_link w, m4_motor w)"
    and "m4_command_pending (m4_link w) \<Longrightarrow> run_on_command (m4_pending_command (m4_link w))"
    and "ts' = (if m4_command_pending (m4_link w) then in_now_command i else ts)"
    and "timeout' = (if m4_command_pending (m4_link w)
      then command_words (m4_pending_command (m4_link w)) ! APP_MOTOR_COMMAND_TIMEOUT_MS else timeout)"
    and "in_now_timeout i - ts' \<le> ucast timeout'" and "w' = fst (m4_main_iteration drv leds i w)"
  shows "running_on ts' timeout' (m4_link w', m4_motor w')"
    and "motor_direction (m4_motor w') = motor_direction (m4_motor w)"
proof -
  have inv: "m4_ipc_inv (m4_link w)" "motor_inv (m4_motor w)" using m4_reachable_inv [OF assms(1)] by (simp_all add: m4_inv_def)
  note p = process_pending_running [OF assms(4) inv(1) assms(5), where now = "in_now_command i" and drv = drv, folded assms(6,7)]
  let ?p = "fst (app_ipc_process_m4 drv (in_now_command i) (in_now_timeout i) (in_send_ret i) (m4_link w, m4_motor w))"
  note q = process_running [OF p(1) assms(8), of "in_send_ret i"]
  have remote: "m4_remote_mode (fst ?p)" and run: "motor_state (snd ?p) = APP_MOTOR_STATE_RUNNING"
    using q(1) by (simp_all add: running_on_def)
  have t: "turn_sm drv i w = ?p"
    using assms(3) remote potentiometer_poll_answers
    by (simp add: turn_sm_def m4_handle_duty_def calm_input_def app_ipc_is_remote_mode_def case_prod_beta)
  have "turn_events i w AND APP_BUTTON_EVENT_STOP = 0" "turn_events i w AND APP_BUTTON_EVENT_RESET = 0"
    using quiet_buttons [OF m4_reachable_wired [OF assms(1)]] assms(3) by (simp_all add: turn_events_def calm_input_def)
  then have e: "m4_handle_events drv (turn_events i w) ?p = ?p"
    using remote by (simp add: m4_handle_events_def app_ipc_is_remote_mode_def case_prod_beta)
  have "motor_inv (snd ?p)" using app_ipc_process_m4_inv(2) [OF inv] .
  note m = app_motor_process_runs_on [OF assms(2) this run]
  note motor = m4_turn_motor [of drv leds i w, folded assms(9), unfolded t e]
  show "motor_direction (m4_motor w') = motor_direction (m4_motor w)"
    using m(2) q(2) p(2) by (simp add: motor)
  obtain now b x l mm where "m4_link w' = fst (app_ipc_publish_motor_state now b x l (fst ?p) mm)"
    using m4_turn_link [of drv leds i w] unfolding assms(9) t e by blast
  then have "same_deadman (fst ?p) (m4_link w')" by (simp add: publish_deadman)
  then show "running_on ts' timeout' (m4_link w', m4_motor w')"
    using q(1) m(1) by (simp add: running_on_def same_deadman_def motor)
qed

section \<open>Supplied runs\<close>

text \<open>Commands come in time: \<open>ts\<close> and \<open>timeout\<close> are those of the command in force, \<open>waiting\<close> is the timeout
  of a command that has been received and waits for the next turn. Every turn is undisturbed and finds the
  command in force no older than its timeout; every valid command received asks for the run to go on.\<close>

fun supplied :: "u32 \<Rightarrow> u16 \<Rightarrow> u16 option \<Rightarrow> m4_event list \<Rightarrow> bool" where
  "supplied ts timeout waiting [] = True"
| "supplied ts timeout waiting (M4_turn leds i # evs) =
     (let ts = (if waiting = None then ts else in_now_command i);
          timeout = (case waiting of None \<Rightarrow> timeout | Some t \<Rightarrow> t)
      in calm_input i \<and> in_now_timeout i - ts \<le> ucast timeout \<and> supplied ts timeout None evs)"
| "supplied ts timeout waiting (M4_received data # evs) =
     (if command_buffer data
      then run_on_command (command_of data)
           \<and> supplied ts timeout (Some (command_words (command_of data) ! APP_MOTOR_COMMAND_TIMEOUT_MS)) evs
      else supplied ts timeout waiting evs)"
| "supplied ts timeout waiting (M4_bound # evs) = supplied ts timeout waiting evs"
| "supplied ts timeout waiting (M4_unbound # evs) = supplied ts timeout waiting evs"

definition waiting_timeout :: "m4_ipc \<Rightarrow> u16 option" where
  "waiting_timeout s = (if m4_command_pending s
     then Some (command_words (m4_pending_command s) ! APP_MOTOR_COMMAND_TIMEOUT_MS) else None)"

lemma received_keeps_deadman: "same_deadman s (endpoint_received_m4 data s)"
  by (simp add: endpoint_received_m4_def same_deadman_def Let_def)

lemma running_on_same: "running_on ts timeout (s, m) \<Longrightarrow> same_deadman s s' \<Longrightarrow> running_on ts timeout (s', m)"
  by (simp add: running_on_def same_deadman_def)

lemma supplied_run:
  assumes "m4_reachable drv w" and "pwm_works drv" and "running_on ts timeout (m4_link w, m4_motor w)"
    and "m4_command_pending (m4_link w) \<Longrightarrow> run_on_command (m4_pending_command (m4_link w))"
    and "supplied ts timeout (waiting_timeout (m4_link w)) evs"
  shows "\<exists>ts timeout. running_on ts timeout (m4_link (m4_run drv evs w), m4_motor (m4_run drv evs w))"
    and "motor_direction (m4_motor (m4_run drv evs w)) = motor_direction (m4_motor w)"
proof -
  have "(\<exists>ts timeout. running_on ts timeout (m4_link (m4_run drv evs w), m4_motor (m4_run drv evs w)))
      \<and> motor_direction (m4_motor (m4_run drv evs w)) = motor_direction (m4_motor w)"
    using assms(1,3-)
  proof (induction evs arbitrary: w ts timeout)
    case (Cons ev evs)
    let ?w = "m4_exec drv ev w"
    have r: "m4_reachable drv ?w" using Cons.prems(1) m4_exec_step by (blast intro: m4_reachable.step)
    show ?case
    proof (cases ev)
      case (M4_turn leds i)
      let ?p = "m4_command_pending (m4_link w)"
      define ts' where "ts' = (if ?p then in_now_command i else ts)"
      define timeout' where "timeout' = (if ?p then command_words (m4_pending_command (m4_link w)) ! APP_MOTOR_COMMAND_TIMEOUT_MS
        else timeout)"
      have sup: "calm_input i" "in_now_timeout i - ts' \<le> ucast timeout'" "supplied ts' timeout' None evs"
        using Cons.prems(4) by (auto simp: M4_turn ts'_def timeout'_def waiting_timeout_def Let_def split: if_splits)
      have w: "?w = fst (m4_main_iteration drv leds i w)" by (simp add: M4_turn m4_exec_def)
      note t = supplied_turn [OF Cons.prems(1) assms(2) sup(1) Cons.prems(2,3) ts'_def timeout'_def sup(2) w]
      have "\<not> m4_command_pending (m4_link ?w)"
        using turn_mailbox [of drv leds i w] by (simp add: w mailbox_def split: if_splits)
      with Cons.IH [OF r t(1)] sup(3) t(2) show ?thesis by (simp add: waiting_timeout_def)
    next
      case (M4_received data)
      have m: "m4_motor ?w = m4_motor w" and l: "m4_link ?w = endpoint_received_m4 data (m4_link w)"
        by (simp_all add: M4_received m4_exec_def)
      note mb = endpoint_received_m4_mailbox [of data "m4_link w"]
      have on: "running_on ts timeout (m4_link ?w, m4_motor ?w)"
        unfolding l m by (rule running_on_same [OF Cons.prems(2) received_keeps_deadman])
      have p: "m4_command_pending (m4_link ?w) \<Longrightarrow> run_on_command (m4_pending_command (m4_link ?w))"
        unfolding l mb using Cons.prems(3,4) by (auto simp: M4_received split: if_splits)
      have "supplied ts timeout (waiting_timeout (m4_link ?w)) evs"
        unfolding l mb waiting_timeout_def using Cons.prems(4) by (auto simp: M4_received waiting_timeout_def split: if_splits)
      from Cons.IH [OF r on p this] show ?thesis by (simp add: m)
    next
      case M4_bound
      then have w: "m4_motor ?w = m4_motor w" "m4_link ?w = (m4_link w)\<lparr>m4_endpoint_bound := True\<rparr>"
        by (simp_all add: m4_exec_def endpoint_bound_callback_m4_def)
      show ?thesis using Cons.IH [OF r, of ts timeout] Cons.prems
        by (simp add: w [unfolded M4_bound] M4_bound running_on_def waiting_timeout_def cong: if_cong)
    next
      case M4_unbound
      then have w: "m4_motor ?w = m4_motor w" "m4_link ?w = (m4_link w)\<lparr>m4_endpoint_bound := False\<rparr>"
        by (simp_all add: m4_exec_def endpoint_unbound_callback_m4_def)
      show ?thesis using Cons.IH [OF r, of ts timeout] Cons.prems
        by (simp add: w [unfolded M4_unbound] M4_unbound running_on_def waiting_timeout_def cong: if_cong)
    qed
  qed auto
  then show "\<exists>ts timeout. running_on ts timeout (m4_link (m4_run drv evs w), m4_motor (m4_run drv evs w))"
    and "motor_direction (m4_motor (m4_run drv evs w)) = motor_direction (m4_motor w)" by blast+
qed

section \<open>The refresh of the Cortex-M7\<close>

text \<open>A stored command that the refresh work keeps sending and that asks for the run to go on.\<close>

definition refresh_runs :: "m7_ipc \<Rightarrow> bool" where
  "refresh_runs l \<longleftrightarrow> rc_enabled (m7_remote_command l) \<and> m7_endpoint_initialized l \<and> m7_endpoint_is_bound l
     \<and> remote_bits_ok l \<and> rc_control (m7_remote_command l) AND APP_MOTOR_COMMAND_RUN \<noteq> 0
     \<and> rc_control (m7_remote_command l) AND APP_MOTOR_COMMAND_RESET_FAULT = 0
     \<and> rc_control (m7_remote_command l) AND APP_MOTOR_COMMAND_QUICK_STOP = 0"

definition refresh_buffer :: "u16 \<Rightarrow> u8 list \<Rightarrow> bool" where
  "refresh_buffer timeout b \<longleftrightarrow> command_buffer b \<and> run_on_command (command_of b)
     \<and> command_words (command_of b) ! APP_MOTOR_COMMAND_TIMEOUT_MS = timeout"

text \<open>Operations of the Cortex-M7 that do not concern the link.\<close>

definition off_link :: "sys_op \<Rightarrow> bool" where
  "off_link p \<longleftrightarrow> (case p of Main_turn \<Rightarrow> True | Eip_event a b ev \<Rightarrow> True | Probe a b k bytes fam \<Rightarrow> True
     | Lcd_loop e now a b \<Rightarrow> True | Lcd_reboot now \<Rightarrow> True | Lcd_sleep a b d \<Rightarrow> True | Lcd_touch \<Rightarrow> True | _ \<Rightarrow> False)"

text \<open>
  A schedule of both cores that keeps the motor supplied. \<open>ts\<close> is when the command in force was taken up,
  \<open>waiting\<close> tells whether a refresh has been received since the last turn, \<open>n\<close> is the number of refreshes in
  the channel. Refreshes may be delayed, bunched and lost, as long as every turn finds the command in force no
  older than \<open>timeout\<close>.
\<close>

fun refreshed :: "u16 \<Rightarrow> u32 \<Rightarrow> bool \<Rightarrow> nat \<Rightarrow> core_op list \<Rightarrow> bool" where
  "refreshed timeout ts waiting n [] = True"
| "refreshed timeout ts waiting n (op # ops) =
     (case op of
        Service (Refresh_work e) \<Rightarrow> 0 \<le> fst (ipc_send_loop (me_send e) 0) \<and> refreshed timeout ts waiting (Suc n) ops
      | Service p \<Rightarrow> off_link p \<and> refreshed timeout ts waiting n ops
      | Deliver_down \<Rightarrow> refreshed timeout ts (waiting \<or> 0 < n) (n - 1) ops
      | Lose_down k \<Rightarrow> refreshed timeout ts waiting (if k < n then n - 1 else n) ops
      | Control_turn leds i taken \<Rightarrow>
          (let ts = (if waiting then in_now_command i else ts)
           in calm_input i \<and> in_now_timeout i - ts \<le> ucast timeout \<and> refreshed timeout ts False n ops)
      | Deliver_up now \<Rightarrow> refreshed timeout ts waiting n ops
      | Lose_up k \<Rightarrow> refreshed timeout ts waiting n ops
      | M4_link_bound \<Rightarrow> refreshed timeout ts waiting n ops
      | _ \<Rightarrow> False)"

definition supplied_cores :: "u16 \<Rightarrow> u32 \<Rightarrow> bool \<Rightarrow> nat \<Rightarrow> cores \<Rightarrow> bool" where
  "supplied_cores timeout ts waiting n c \<longleftrightarrow> running_on ts timeout (m4_link (co_m4 c), m4_motor (co_m4 c))
     \<and> waiting = m4_command_pending (m4_link (co_m4 c))
     \<and> (waiting \<longrightarrow> run_on_command (m4_pending_command (m4_link (co_m4 c)))
          \<and> command_words (m4_pending_command (m4_link (co_m4 c))) ! APP_MOTOR_COMMAND_TIMEOUT_MS = timeout)
     \<and> n = length (co_down c) \<and> list_all (refresh_buffer timeout) (co_down c)
     \<and> refresh_runs (co_link c) \<and> rc_timeout_ms (m7_remote_command (co_link c)) = timeout
     \<and> m7_refresh_scheduled (co_link c)"

text \<open>One expiry of the refresh work.\<close>

lemma refresh_work_link:
  assumes "modbus_inv w" and "refresh_runs (m7_link w)" and "0 \<le> fst (ipc_send_loop (me_send e) 0)"
  defines "w' \<equiv> snd (remote_refresh_work_handler e w)"
  shows "refresh_runs (m7_link w')" "m7_remote_command (m7_link w') = m7_remote_command (m7_link w)"
    "m7_refresh_scheduled (m7_link w')"
    "m7_outbox (m7_link w') = m7_outbox (m7_link w) @ [command_bytes (remote_message True (m7_link w))]"
proof -
  let ?l = "(m7_link w)\<lparr>m7_refresh_scheduled := False\<rparr>"
  have msg: "remote_message True ?l = remote_message True (m7_link w)" by (simp add: remote_message_def Let_def)
  have up: "m7_endpoint_initialized ?l" "m7_endpoint_is_bound ?l" using assms(2) by (simp_all add: refresh_runs_def)
  obtain l' where s: "send_remote_command_locked (me_send e) True ?l
      = (fst (ipc_send_loop (me_send e) 0), Some (command_bytes (remote_message True (m7_link w))), l')"
    and l': "m7_remote_command l' = m7_remote_command (m7_link w)" "m7_endpoint_initialized l'" "m7_endpoint_is_bound l'"
      "m7_outbox l' = m7_outbox (m7_link w) @ [command_bytes (remote_message True (m7_link w))]"
    using up assms(3) by (simp add: send_remote_command_locked_def msg [symmetric] remote_message_def Let_def case_prod_beta sizeof_defs)
  have w': "m7_link w' = l'\<lparr>m7_refresh_scheduled := True\<rparr>"
    using assms(2,3) by (simp add: w'_def remote_refresh_work_handler_def refresh_runs_def s Let_def motor_set_mode_effect)
  show "refresh_runs (m7_link w')" "m7_remote_command (m7_link w') = m7_remote_command (m7_link w)"
    "m7_refresh_scheduled (m7_link w')"
    "m7_outbox (m7_link w') = m7_outbox (m7_link w) @ [command_bytes (remote_message True (m7_link w))]"
    using assms(2) by (simp_all add: w' l' refresh_runs_def remote_bits_ok_def)
qed

lemma refresh_buffer_message:
  assumes "refresh_runs l" and "m7_command_ok l"
  shows "refresh_buffer (rc_timeout_ms (m7_remote_command l)) (command_bytes (remote_message True l))"
proof -
  have "command_is_valid (remote_message True l) 36"
    using remote_message_valid [OF assms(2)] assms(1) by (simp add: refresh_runs_def remote_bits_ok_def)
  moreover have "run_on_command (remote_message True l)"
    using assms remote_message_run(1,7) [of l] unfolding run_on_command_def plain_command_def refresh_runs_def by simp
  ultimately show ?thesis
    using remote_message_run(5) [of l] by (simp add: refresh_buffer_def command_buffer_def remote_message_size)
qed

lemma off_link_keeps: "off_link p \<Longrightarrow> m7_link (sy_m7 (sys_step p s)) = m7_link (sy_m7 s)"
  by (cases p) (simp_all add: off_link_def sys_step_def sys_m7_def main_turn_def app_modbus_tcp_heartbeat_tick_def modbus_set_def)

lemma off_link_receives: "off_link p \<Longrightarrow> \<not> receives p"
  by (cases p) (simp_all add: off_link_def receives_def)

lemma refresh_step:
  assumes "cores_reachable drv c" and "supplied_cores timeout ts waiting n c" and "0 \<le> fst (ipc_send_loop (me_send e) 0)"
  shows "supplied_cores timeout ts waiting (Suc n) (core_step drv (Service (Refresh_work e)) c)"
proof -
  have inv: "modbus_inv (sy_m7 (co_m7 c))" using cores_m7_inv [OF assms(1)] by (simp add: sys_inv_def)
  have runs: "refresh_runs (m7_link (sy_m7 (co_m7 c)))" using assms(2) by (simp add: supplied_cores_def co_link_def)
  note l = refresh_work_link [OF inv runs assms(3)]
  have b: "refresh_buffer timeout (command_bytes (remote_message True (co_link c)))"
    using refresh_buffer_message [OF runs modbus_inv_command_ok [OF inv]] assms(2) by (simp add: supplied_cores_def co_link_def)
  have step: "core_step drv (Service (Refresh_work e)) c = run_m7 (sys_step (Refresh_work e) (co_m7 c)) c"
    by (simp add: core_step_def receives_def)
  have "co_down (core_step drv (Service (Refresh_work e)) c) = co_down c @ [command_bytes (remote_message True (co_link c))]"
    unfolding step by (rule run_m7_outbox(2)) (simp add: sys_step_def sys_m7_def co_outbox_def co_link_def l(4))
  then show ?thesis
    using assms(2) l b by (simp add: supplied_cores_def step co_link_def sys_step_def sys_m7_def)
qed

lemma deliver_step:
  assumes "supplied_cores timeout ts waiting n c"
  shows "supplied_cores timeout ts (waiting \<or> 0 < n) (n - 1) (core_step drv Deliver_down c)"
proof (cases "co_down c")
  case Nil
  with assms show ?thesis by (simp add: core_step_def supplied_cores_def)
next
  case (Cons b bs)
  have b: "refresh_buffer timeout b" using assms Cons by (simp add: supplied_cores_def)
  have "running_on ts timeout (endpoint_received_m4 b (m4_link (co_m4 c)), m4_motor (co_m4 c))"
    using assms by (intro running_on_same [OF _ received_keeps_deadman]) (simp add: supplied_cores_def)
  with assms b Cons show ?thesis
    by (simp add: core_step_def supplied_cores_def co_link_def endpoint_received_m4_mailbox refresh_buffer_def)
qed

lemma turn_step:
  assumes "cores_reachable drv c" and "pwm_works drv" and "supplied_cores timeout ts waiting n c"
    and "ts' = (if waiting then in_now_command i else ts)" and "calm_input i" and "in_now_timeout i - ts' \<le> ucast timeout"
    and "c' = core_step drv (Control_turn leds i taken) c"
  shows "supplied_cores timeout ts' False n c'" "motor_direction (m4_motor (co_m4 c')) = motor_direction (m4_motor (co_m4 c))"
proof -
  have s: "running_on ts timeout (m4_link (co_m4 c), m4_motor (co_m4 c))"
    "m4_command_pending (m4_link (co_m4 c)) \<Longrightarrow> run_on_command (m4_pending_command (m4_link (co_m4 c)))"
    "ts' = (if m4_command_pending (m4_link (co_m4 c)) then in_now_command i else ts)"
    "timeout = (if m4_command_pending (m4_link (co_m4 c))
       then command_words (m4_pending_command (m4_link (co_m4 c))) ! APP_MOTOR_COMMAND_TIMEOUT_MS else timeout)"
    using assms(3,4) by (auto simp: supplied_cores_def)
  have w: "co_m4 c' = fst (m4_main_iteration drv leds i (co_m4 c))" by (simp add: assms(7) core_step_turn)
  note t = supplied_turn [OF cores_m4_boot [OF assms(1)] assms(2,5) s assms(6) w]
  show "motor_direction (m4_motor (co_m4 c')) = motor_direction (m4_motor (co_m4 c))" by (rule t(2))
  have "\<not> m4_command_pending (m4_link (co_m4 c'))"
    using turn_mailbox [of drv leds i "co_m4 c"] by (simp add: w mailbox_def split: if_splits)
  moreover have "co_down c' = co_down c" "co_link c' = co_link c"
    by (simp_all add: assms(7) core_step_turn control_turn_def Let_def case_prod_beta co_link_def)
  ultimately show "supplied_cores timeout ts' False n c'" using t(1) assms(3) by (simp add: supplied_cores_def)
qed

lemma without_length: "length (without k xs) = (if k < length xs then length xs - 1 else length xs)"
  by (auto simp: without_def)

lemma other_steps:
  assumes "supplied_cores timeout ts waiting n c"
  shows "off_link p \<Longrightarrow> supplied_cores timeout ts waiting n (core_step drv (Service p) c)"
    and "supplied_cores timeout ts waiting (if k < n then n - 1 else n) (core_step drv (Lose_down k) c)"
    and "supplied_cores timeout ts waiting n (core_step drv (Deliver_up now) c)"
    and "supplied_cores timeout ts waiting n (core_step drv (Lose_up k) c)"
    and "supplied_cores timeout ts waiting n (core_step drv M4_link_bound c)"
proof -
  show "supplied_cores timeout ts waiting n (core_step drv (Service p) c)" if "off_link p"
    using assms off_link_keeps [OF that, of "co_m7 c"] off_link_receives [OF that]
    by (simp add: core_step_def supplied_cores_def co_link_def run_m7_def new_messages_def)
  have "list_all P (without k xs)" if "list_all P xs" for P and xs :: "u8 list list"
    using that by (auto simp: list_all_iff without_def dest: in_set_takeD in_set_dropD)
  with assms show "supplied_cores timeout ts waiting (if k < n then n - 1 else n) (core_step drv (Lose_down k) c)"
    by (simp add: core_step_def supplied_cores_def co_link_def without_length)
  have "refresh_runs (endpoint_received_m7 now b l) = refresh_runs l"
    "m7_refresh_scheduled (endpoint_received_m7 now b l) = m7_refresh_scheduled l" for b l
    by (simp_all add: refresh_runs_def remote_bits_ok_def endpoint_received_m7_def Let_def)
  with assms show "supplied_cores timeout ts waiting n (core_step drv (Deliver_up now) c)"
    by (simp add: core_step_def supplied_cores_def co_link_def endpoint_received_m7_command split: list.split)
  show "supplied_cores timeout ts waiting n (core_step drv (Lose_up k) c)"
    "supplied_cores timeout ts waiting n (core_step drv M4_link_bound c)"
    using assms by (simp_all add: core_step_def supplied_cores_def co_link_def endpoint_bound_callback_m4_def running_on_def)
qed

lemma refreshed_run:
  assumes "cores_reachable drv c" and "pwm_works drv" and "supplied_cores timeout ts waiting n c"
    and "refreshed timeout ts waiting n ops"
  shows "(\<exists>ts waiting n. supplied_cores timeout ts waiting n (core_run drv ops c))
    \<and> motor_direction (m4_motor (co_m4 (core_run drv ops c))) = motor_direction (m4_motor (co_m4 c))"
  using assms(1,3,4)
proof (induction ops arbitrary: c ts waiting n)
  case (Cons op ops)
  let ?c = "core_step drv op c"
  have r: "cores_reachable drv ?c" by (rule cores_step [OF Cons.prems(1)])
  have "\<exists>ts waiting n. supplied_cores timeout ts waiting n ?c \<and> refreshed timeout ts waiting n ops
      \<and> motor_direction (m4_motor (co_m4 ?c)) = motor_direction (m4_motor (co_m4 c))"
  proof (cases op)
    case (Service p)
    have d: "motor_direction (m4_motor (co_m4 ?c)) = motor_direction (m4_motor (co_m4 c))"
      by (simp add: Service core_step_def)
    show ?thesis
    proof (cases "\<exists>e. p = Refresh_work e")
      case True
      then obtain e where p: "p = Refresh_work e" by blast
      with Cons.prems(3) Service have f: "0 \<le> fst (ipc_send_loop (me_send e) 0)" "refreshed timeout ts waiting (Suc n) ops" by simp_all
      show ?thesis using refresh_step [OF Cons.prems(1,2) f(1)] f(2) d unfolding Service p by blast
    next
      case False
      with Cons.prems(3) Service have f: "off_link p" "refreshed timeout ts waiting n ops" by (auto split: sys_op.splits)
      show ?thesis using other_steps(1) [OF Cons.prems(2) f(1)] f(2) d unfolding Service by blast
    qed
  next
    case (Control_turn leds i taken)
    have t: "calm_input i" "in_now_timeout i - (if waiting then in_now_command i else ts) \<le> ucast timeout"
      "refreshed timeout (if waiting then in_now_command i else ts) False n ops"
      using Cons.prems(3) by (simp_all add: Control_turn Let_def)
    show ?thesis
      using turn_step [OF Cons.prems(1) assms(2) Cons.prems(2) refl t(1,2) refl, of leds taken] t(3) unfolding Control_turn by blast
  next
    case Deliver_down
    with deliver_step [OF Cons.prems(2), of drv] Cons.prems(3) show ?thesis
      by (intro exI [of _ ts] exI [of _ "waiting \<or> 0 < n"] exI [of _ "n - 1"]) (simp add: core_step_def split: list.split)
  next
    case (Lose_down k)
    with other_steps(2) [OF Cons.prems(2), of k drv] Cons.prems(3) show ?thesis
      by (intro exI [of _ ts] exI [of _ waiting] exI [of _ "if k < n then n - 1 else n"]) (simp add: core_step_def)
  next
    case (Deliver_up now)
    with other_steps(3) [OF Cons.prems(2), of drv now] Cons.prems(3) show ?thesis
      by (intro exI [of _ ts] exI [of _ waiting] exI [of _ n]) (simp add: core_step_def split: list.split)
  next
    case (Lose_up k)
    with other_steps(4) [OF Cons.prems(2), of drv k] Cons.prems(3) show ?thesis
      by (intro exI [of _ ts] exI [of _ waiting] exI [of _ n]) (simp add: core_step_def)
  next
    case M4_link_bound
    with other_steps(5) [OF Cons.prems(2), of drv] Cons.prems(3) show ?thesis
      by (intro exI [of _ ts] exI [of _ waiting] exI [of _ n]) (simp add: core_step_def)
  qed (use Cons.prems(3) in simp_all)
  then obtain ts' waiting' n' where s: "supplied_cores timeout ts' waiting' n' ?c" "refreshed timeout ts' waiting' n' ops"
    and d: "motor_direction (m4_motor (co_m4 ?c)) = motor_direction (m4_motor (co_m4 c))" by blast
  have "core_run drv (op # ops) c = core_run drv ops ?c" by (simp add: core_run_def)
  then show ?case using Cons.IH [OF r s] d by simp
qed (auto simp: core_run_def)

section \<open>Properties\<close>

text \<open>A motor that runs remotely goes on running as long as the Cortex-M4 is supplied: in every run of its
  program in which each turn finds the command in force no older than its timeout, every valid command received
  asks for the run to go on, \<open>STOP\<close> and \<open>RESET\<close> are not pressed, and the ADC and the PWM driver answer, the
  motor stays \<open>RUNNING\<close> in its direction, its outputs driven with at least the minimum duty, and no timeout is
  reported. A direction bit that differs from the motor's direction, a latched STOP and the start and
  direction buttons change nothing.\<close>

theorem supplied_motor_runs_on:
  assumes "m4_reachable drv w" and "pwm_works drv" and "m4_remote_mode (m4_link w)"
    and "motor_state (m4_motor w) = APP_MOTOR_STATE_RUNNING" and "\<not> m4_command_pending (m4_link w)"
    and "supplied (m4_remote_command_timestamp_ms (m4_link w)) (m4_remote_timeout_ms (m4_link w)) None evs"
    and "w' = m4_run drv evs w"
  shows "motor_state (m4_motor w') = APP_MOTOR_STATE_RUNNING \<and> m4_remote_mode (m4_link w')
    \<and> \<not> m4_remote_timed_out (m4_link w') \<and> motor_direction (m4_motor w') = motor_direction (m4_motor w)
    \<and> APP_MOTOR_DUTY_MIN_PERMILLE \<le> motor_duty_permille (m4_motor w')
    \<and> outputs_drive (motor_direction (m4_motor w')) (motor_duty_permille (m4_motor w')) (motor_io (m4_motor w'))"
proof -
  have on: "running_on (m4_remote_command_timestamp_ms (m4_link w)) (m4_remote_timeout_ms (m4_link w)) (m4_link w, m4_motor w)"
    using m4_reachable_deadman [OF assms(1)] assms(3,4) by (auto simp: running_on_def deadman_inv_def)
  have "supplied (m4_remote_command_timestamp_ms (m4_link w)) (m4_remote_timeout_ms (m4_link w)) (waiting_timeout (m4_link w)) evs"
    using assms(5,6) by (simp add: waiting_timeout_def)
  note run = supplied_run [OF assms(1,2) on _ this, folded assms(7)]
  have "motor_inv (m4_motor w')"
    using m4_reachable_inv [OF m4_run_reachable [OF assms(1)]] by (simp add: assms(7) m4_inv_def)
  then show ?thesis using run assms(5) by (auto simp: running_on_def motor_inv_def motor_values_ok_def motor_outputs_ok_def)
qed

text \<open>C4. The refresh keeps the motor running across both cores: from every reachable state in which the motor runs
  remotely with the timeout of the command stored on the Cortex-M7, that command asks for a run, its refresh is
  scheduled and nothing is on its way, every schedule of both cores in which each turn finds the command in force
  no older than the timeout - refreshes sent at any times, delayed, bunched or lost, the other services working,
  state messages delivered or lost - leaves the motor \<open>RUNNING\<close> in its direction with driven outputs, reports no
  timeout and keeps the refresh scheduled.\<close>

theorem refresh_keeps_motor_running:
  assumes "cores_reachable drv c" and "pwm_works drv" and "remote_running (m4_link (co_m4 c), m4_motor (co_m4 c))"
    and "refresh_runs (co_link c)" and "m7_refresh_scheduled (co_link c)"
    and "m4_remote_timeout_ms (m4_link (co_m4 c)) = rc_timeout_ms (m7_remote_command (co_link c))"
    and "co_down c = []" and "\<not> m4_command_pending (m4_link (co_m4 c))"
    and "refreshed (rc_timeout_ms (m7_remote_command (co_link c))) (m4_remote_command_timestamp_ms (m4_link (co_m4 c))) False 0 ops"
    and "c' = core_run drv ops c"
  shows "remote_running (m4_link (co_m4 c'), m4_motor (co_m4 c')) \<and> \<not> m4_remote_timed_out (m4_link (co_m4 c'))
    \<and> motor_direction (m4_motor (co_m4 c')) = motor_direction (m4_motor (co_m4 c))
    \<and> outputs_drive (motor_direction (m4_motor (co_m4 c'))) (motor_duty_permille (m4_motor (co_m4 c'))) (motor_io (m4_motor (co_m4 c')))
    \<and> refresh_runs (co_link c') \<and> m7_refresh_scheduled (co_link c')"
proof -
  let ?ts = "m4_remote_command_timestamp_ms (m4_link (co_m4 c))"
  have "deadman_inv (m4_link (co_m4 c), m4_motor (co_m4 c))" using m4_reachable_deadman [OF cores_m4_boot [OF assms(1)]] .
  then have "supplied_cores (rc_timeout_ms (m7_remote_command (co_link c))) ?ts False 0 c"
    using assms(3-8) by (auto simp: supplied_cores_def running_on_def remote_running_def deadman_inv_def)
  from refreshed_run [OF assms(1,2) this assms(9)] obtain ts waiting n where
    s: "supplied_cores (rc_timeout_ms (m7_remote_command (co_link c))) ts waiting n c'"
    and d: "motor_direction (m4_motor (co_m4 c')) = motor_direction (m4_motor (co_m4 c))"
    unfolding assms(10) by blast
  have "cores_reachable drv c'" using cores_run_reachable [OF assms(1)] by (simp add: assms(10))
  then have "motor_inv (m4_motor (co_m4 c'))" using m4_reachable_inv [OF cores_m4_boot] by (simp add: m4_inv_def)
  with s d show ?thesis
    by (auto simp: supplied_cores_def running_on_def remote_running_def motor_inv_def motor_outputs_ok_def)
qed

section \<open>Concrete runs\<close>

text \<open>The command in force dates from time 5 and has a timeout of 1000 ms. Of the three refreshes the second is
  lost; the last turn would have found the first command expired.\<close>

definition refresh_ops_example :: "core_op list" where
  "refresh_ops_example = [Control_turn False (idle_input 900) True, Service (Refresh_work m7_env_example), Deliver_down,
     Service Main_turn, Control_turn False (idle_input 1000) True, Service (Refresh_work m7_env_example), Lose_down 0,
     Control_turn True (idle_input 1900) False, Deliver_up 1901, Service (Refresh_work m7_env_example), Deliver_down,
     Control_turn False (idle_input 2000) True]"

lemma pwm_works_zero: "pwm_works drv_zero"
  by (simp add: pwm_works_def drv_zero_def)

lemma calm_idle: "calm_input (idle_input now)"
  by (simp add: calm_input_def idle_input_def)

lemma refresh_ops_example_refreshed: "refreshed 1000 5 False 0 refresh_ops_example"
  using calm_idle ipc_send_loop_success [of "\<lambda>_. 36" 0]
  by (simp add: refresh_ops_example_def m7_env_example_def off_link_def Let_def) (simp add: idle_input_def)

lemma link_example_refreshes:
  "refresh_runs link_example \<and> m7_refresh_scheduled link_example \<and> rc_timeout_ms (m7_remote_command link_example) = 1000"
  unfolding link_example_def link_started_def by code_simp

lemma turn_example_fields:
  "m4_remote_timeout_ms (m4_link (fst (m4_main_iteration drv_zero False (idle_input 5) m4_received_example))) = 1000
   \<and> m4_remote_command_timestamp_ms (m4_link (fst (m4_main_iteration drv_zero False (idle_input 5) m4_received_example))) = 5
   \<and> \<not> m4_command_pending (m4_link (fst (m4_main_iteration drv_zero False (idle_input 5) m4_received_example)))"
  unfolding m4_received_example_def link_example_def link_started_def by code_simp

theorem refresh_keeps_motor_running_witness:
  "motor_state (m4_motor (co_m4 (core_run drv_zero refresh_ops_example (core_run drv_zero ops_example cores_example))))
     = APP_MOTOR_STATE_RUNNING"
proof -
  let ?c = "core_run drv_zero ops_example cores_example"
  obtain b where l: "co_link ?c = endpoint_received_m7 6 b link_example" using run_example(5) by blast
  have link: "refresh_runs (co_link ?c)" "m7_refresh_scheduled (co_link ?c)" "rc_timeout_ms (m7_remote_command (co_link ?c)) = 1000"
    using link_example_refreshes
    by (simp_all add: l refresh_runs_def remote_bits_ok_def endpoint_received_m7_def Let_def)
  show ?thesis
    using refresh_keeps_motor_running [OF cores_example_reachable pwm_works_zero _ link(1,2) _ run_example(3) _ _ refl]
      turn_example turn_example_fields refresh_ops_example_refreshed
    by (simp add: run_example(1) link(3) remote_running_def)
qed

theorem supplied_motor_runs_on_witness:
  "motor_state (m4_motor (m4_run drv_zero [M4_turn True (idle_input 1005), M4_unbound,
     M4_received (command_bytes (command_example 7 0x101)), M4_turn False (idle_input 1100), M4_turn False (idle_input 2100)]
     m4_remote_running)) = APP_MOTOR_STATE_RUNNING" (is "motor_state (m4_motor (m4_run _ ?evs _)) = _")
proof -
  let ?b = "command_bytes (command_example 7 0x101)"
  have b: "command_buffer ?b" "run_on_command (command_of ?b)" "command_words (command_of ?b) ! APP_MOTOR_COMMAND_TIMEOUT_MS = 1000"
    by code_simp+
  have "supplied 5 1000 None ?evs"
    by (simp add: b calm_idle Let_def del: One_nat_def) (simp add: idle_input_def)
  then show ?thesis
    using supplied_motor_runs_on [OF m4_remote_running_reachable pwm_works_zero _ _ _ _ refl, of ?evs]
      m4_remote_running_fields by (simp del: m4_run_Cons supplied.simps)
qed

end
