(* ===== verification/Config_Cycle.thy ===== *)
theory Config_Cycle
  imports M7_Main Web_Page
begin

unbundle bit_operations_syntax

text \<open>
  The life of a network configuration across the components of the Cortex-M7: the registers a client writes
  (\<open>Modbus_Tcp\<close>), the save command that hands the configuration to the settings (\<open>Net_Cfg\<close>, the blob taken in
  \<open>m7_stored\<close>), the reboot that loads it again and configures the interface (\<open>M7_Main\<close>, the calls in \<open>sy_iface\<close>), and the indicator of the web page (\<open>Web_Page\<close>).
\<close>

section \<open>Storage and interface\<close>

text \<open>The settings answer with the blob they keep, the last one \<open>settings_save_one\<close> has taken.\<close>

definition settings_hold :: "net_cfg_store option \<Rightarrow> settings_answers \<Rightarrow> bool" where
  "settings_hold stored sa \<longleftrightarrow> stored = Some (sa_blob sa) \<and> sa_blob_len sa = sizeof_net_cfg_store"

text \<open>The calls on the interface that configure the address, mask and gateway of the registers, or DHCP.\<close>

definition regs_actions :: "m7 \<Rightarrow> net_action list" where
  "regs_actions w =
     (if reg_get APP_MB_HREG_MODE w = 1
      then [Net_add_address (reg_address APP_MB_HREG_IP_MSW w),
            Net_set_netmask (reg_address APP_MB_HREG_IP_MSW w) (reg_address APP_MB_HREG_MASK_MSW w),
            Net_set_gateway (reg_address APP_MB_HREG_GW_MSW w)]
      else [Net_dhcp_start])"

text \<open>Addresses as \<open>net_addr_pton\<close> and \<open>net_addr_ntop\<close> are documented: inverse, in at most 15 characters.\<close>

definition address_texts_ok :: "pton \<Rightarrow> ntop \<Rightarrow> bool" where
  "address_texts_ok pton ntop \<longleftrightarrow> (\<forall>a. pton (ntop a) = Some a \<and> length (ntop a) \<le> 15)"

lemma net_cfg_of_regs_texts:
  assumes "address_texts_ok pton ntop"
  shows "length (nd_ip (net_cfg_of_regs ntop w)) \<le> 15" "length (nd_mask (net_cfg_of_regs ntop w)) \<le> 15"
    "length (nd_gw (net_cfg_of_regs ntop w)) \<le> 15"
    and "pton (nd_ip (net_cfg_of_regs ntop w)) = Some (reg_address APP_MB_HREG_IP_MSW w)"
    and "pton (nd_mask (net_cfg_of_regs ntop w)) = Some (reg_address APP_MB_HREG_MASK_MSW w)"
    and "pton (nd_gw (net_cfg_of_regs ntop w)) = Some (reg_address APP_MB_HREG_GW_MSW w)"
proof -
  have t: "pton (ntop a) = Some a" "length (ntop a) \<le> 15" for a using assms by (simp_all add: address_texts_ok_def)
  show "length (nd_ip (net_cfg_of_regs ntop w)) \<le> 15" "length (nd_mask (net_cfg_of_regs ntop w)) \<le> 15"
    "length (nd_gw (net_cfg_of_regs ntop w)) \<le> 15"
    by (simp_all add: net_cfg_of_regs_def ipv4_words_to_string_def t)
  show "pton (nd_ip (net_cfg_of_regs ntop w)) = Some (reg_address APP_MB_HREG_IP_MSW w)"
    and "pton (nd_mask (net_cfg_of_regs ntop w)) = Some (reg_address APP_MB_HREG_MASK_MSW w)"
    and "pton (nd_gw (net_cfg_of_regs ntop w)) = Some (reg_address APP_MB_HREG_GW_MSW w)"
    using ipv4_words_of_string(3) [of pton ntop, OF t]
    by (simp_all add: net_cfg_of_regs_def reg_address_def c_def)
qed

lemma copy_of_regs:
  assumes "address_texts_ok pton ntop"
  shows "net_cfg_copy (net_cfg_of_regs ntop w) = net_cfg_of_regs ntop w"
  using net_cfg_of_regs_texts(1-3) [OF assms] by (simp add: net_cfg_copy_def)

text \<open>What is stored is loaded again.\<close>

lemma load_stored_regs:
  assumes "address_texts_ok pton ntop" and "reg_get APP_MB_HREG_MODE w \<le> 1" and "settings_hold (Some (net_cfg_save (net_cfg_of_regs ntop w))) sa"
  shows "net_cfg_load pton sa net_cfg_boot = (0, None, net_cfg_of_regs ntop w)"
proof -
  let ?d = "net_cfg_of_regs ntop w"
  note t = net_cfg_of_regs_texts [OF assms(1), of w]
  have "nd_mode ?d = 0 \<or> nd_mode ?d = 1" using assms(2) by (auto simp: net_cfg_of_regs_def word_le_nat_alt)
  then have mode: "mode_of_u8 (of_nat (nd_mode ?d)) = nd_mode ?d" by (auto simp: mode_of_u8_def c_def)
  have "net_cfg_boot\<lparr>nd_mode := nd_mode ?d, nd_ip := nd_ip ?d, nd_mask := nd_mask ?d, nd_gw := nd_gw ?d\<rparr> = ?d"
    by (cases ?d) (simp add: net_cfg_boot_def)
  moreover have "sa_blob sa = net_cfg_save ?d" "sa_blob_len sa = sizeof_net_cfg_store"
    using assms(3) by (simp_all add: settings_hold_def)
  ultimately show ?thesis
    using t mode by (simp add: net_cfg_load_def net_cfg_store_is_valid_def net_cfg_is_ipv4_string_def net_cfg_save_def)
qed

lemma start_stored_regs:
  assumes "address_texts_ok pton ntop" and "reg_get APP_MB_HREG_MODE w \<le> 1"
  shows "net_cfg_start pton True True True (net_cfg_of_regs ntop w) = (0, regs_actions w)"
proof -
  note t = net_cfg_of_regs_texts [OF assms(1), of w]
  have "nd_mode (net_cfg_of_regs ntop w) = NET_CFG_STATIC \<longleftrightarrow> reg_get APP_MB_HREG_MODE w = 1"
    by (simp add: net_cfg_of_regs_def NET_CFG_STATIC_def word_unat_eq_iff)
  then show ?thesis
    by (simp add: net_cfg_start_def net_cfg_get_saved_def copy_of_regs [OF assms(1)] t regs_actions_def)
qed

text \<open>The words of a configuration that came from registers.\<close>

lemma regs_show_regs:
  assumes "address_texts_ok pton ntop" and "regs_show_cfg pton (net_cfg_of_regs ntop w) v" and "1 \<le> a" and "a \<le> 7"
  shows "reg_get a v = reg_get a w"
proof -
  have t: "pton (ntop x) = Some x" "length (ntop x) \<le> 15" for x using assms(1) by (simp_all add: address_texts_ok_def)
  have s: "snprintk16 (ipv4_words_to_string ntop m l) = ipv4_words_to_string ntop m l" for m l
    by (simp add: ipv4_words_to_string_def t)
  note words = ipv4_words_of_string(1,2) [of pton ntop, OF t, unfolded s]
  have r: "reg_get k v = reg_get k w" if "k \<in> {1, 2, 3, 4, 5, 6, 7}" for k
    using that assms(2) by (auto simp: regs_show_cfg_def net_cfg_of_regs_def words c_def)
  have "unat a \<in> {1, 2, 3, 4, 5, 6, 7}" using assms(3,4) by (auto simp: word_le_nat_alt)
  then have "a \<in> {1, 2, 3, 4, 5, 6, 7}" by (auto simp: word_unat_eq_iff)
  with r show ?thesis by blast
qed

section \<open>Properties\<close>

lemma save_then_start:
  assumes "modbus_inv w" and "\<not> mb_command_pending (m7_modbus w)" and "reg_get APP_MB_HREG_MODE w \<le> 1"
    and "0 \<le> me_submit_ret e" and "me_timely e" and "0 \<le> me_save_ret e" and "address_texts_ok (me_pton e) (me_ntop e)"
    and "(r, w') = holding_reg_wr e APP_MB_HREG_COMMAND APP_MB_CMD_SAVE w"
    and "settings_hold (m7_stored w') (se_settings se)" and "0 \<le> se_settings_ret se"
    and "me_pton (se_m7 se) = me_pton e" and "se_led_ready se" and "me_has_iface (se_m7 se)"
  obtains failures s where "r = 0" and "m7_net w' = net_cfg_of_regs (me_ntop e) w"
    and "main_start se sys_boot = (None, failures, s)" and "m7_net (sy_m7 s) = m7_net w'"
    and "\<And>a. 1 \<le> a \<Longrightarrow> a \<le> 7 \<Longrightarrow> reg_get a (sy_m7 s) = reg_get a w"
    and "sy_iface s = snd (net_cfg_start (me_pton e) True (se_add_ok se) (se_netmask_ok se) (net_cfg_of_regs (me_ntop e) w))"
proof -
  have t: "me_pton e (me_ntop e a) = Some a" "length (me_ntop e a) \<le> 15" for a
    using assms(7) by (simp_all add: address_texts_ok_def)
  have save: "r = 0" "m7_net w' = net_cfg_of_regs (me_ntop e) w"
    "m7_stored w' = Some (net_cfg_save (net_cfg_of_regs (me_ntop e) w))"
    using save_command_effect [OF assms(1-6) t assms(8)] by blast+
  have load: "started_cfg se = net_cfg_of_regs (me_ntop e) w"
    using load_stored_regs [OF assms(7,3) assms(9) [unfolded save(3)]] assms(10,11) by (simp add: started_cfg_def)
  obtain failures s where s: "main_start se sys_boot = (None, failures, s)" "m7_net (sy_m7 s) = started_cfg se"
    "regs_show_cfg (me_pton (se_m7 se)) (net_cfg_get_saved (started_cfg se)) (sy_m7 s)"
    "sy_iface s = snd (net_cfg_start (me_pton (se_m7 se)) True (se_add_ok se) (se_netmask_ok se) (started_cfg se))"
    using main_start_reaches_loop [OF assms(12,13)] by blast
  have "regs_show_cfg (me_pton e) (net_cfg_of_regs (me_ntop e) w) (sy_m7 s)"
    using s(3) by (simp add: load assms(11) net_cfg_get_saved_def copy_of_regs [OF assms(7)])
  from that [OF save(1,2) s(1) _ regs_show_regs [OF assms(7) this]] show thesis
    by (simp add: s(2,4) load save(2) assms(11))
qed

text \<open>C30. A saved configuration survives the reboot. When a client has written mode and addresses and the save
  command is taken in time, and at the next start the settings answer with the blob \<open>settings_save_one\<close> has taken
  last, that start reaches the loop with the saved configuration in force; the registers for mode, address, mask
  and gateway read as the client wrote them; and the calls that start makes on the interface, when it accepts them, configure
  exactly the addresses of those registers, or DHCP in the other mode.\<close>

theorem saved_configuration_survives_reboot:
  assumes "modbus_inv w" and "\<not> mb_command_pending (m7_modbus w)" and "reg_get APP_MB_HREG_MODE w \<le> 1"
    and "0 \<le> me_submit_ret e" and "me_timely e" and "0 \<le> me_save_ret e" and "address_texts_ok (me_pton e) (me_ntop e)"
    and "(r, w') = holding_reg_wr e APP_MB_HREG_COMMAND APP_MB_CMD_SAVE w"
    and "settings_hold (m7_stored w') (se_settings se)" and "0 \<le> se_settings_ret se"
    and "me_pton (se_m7 se) = me_pton e" and "se_led_ready se" and "me_has_iface (se_m7 se)"
    and "se_add_ok se" and "se_netmask_ok se"
  shows "\<exists>failures s. main_start se sys_boot = (None, failures, s) \<and> r = 0
    \<and> m7_net (sy_m7 s) = net_cfg_of_regs (me_ntop e) w
    \<and> (\<forall>a\<in>{APP_MB_HREG_MODE..APP_MB_HREG_GW_LSW}. reg_get a (sy_m7 s) = reg_get a w)
    \<and> sy_iface s = regs_actions w"
proof -
  obtain failures s where s: "r = 0" "m7_net w' = net_cfg_of_regs (me_ntop e) w"
    "main_start se sys_boot = (None, failures, s)" "m7_net (sy_m7 s) = m7_net w'"
    "\<And>a. 1 \<le> a \<Longrightarrow> a \<le> 7 \<Longrightarrow> reg_get a (sy_m7 s) = reg_get a w"
    "sy_iface s = snd (net_cfg_start (me_pton e) True True True (net_cfg_of_regs (me_ntop e) w))"
    using save_then_start [OF assms(1-13)] assms(14,15) by auto
  then show ?thesis using start_stored_regs [OF assms(7,3)] by (intro exI [of _ failures] exI [of _ s]) (simp add: c_def)
qed

text \<open>The interface as the calls of \<open>regs_actions\<close> leave it in static mode, seen by the page's requests.\<close>

definition iface_static :: "m7 \<Rightarrow> m7_env \<Rightarrow> bool" where
  "iface_static w e \<longleftrightarrow> me_has_iface e
     \<and> me_addrs e = Some [(True, NET_ADDR_MANUAL, reg_address APP_MB_HREG_IP_MSW w)]
     \<and> me_netmask_of e (reg_address APP_MB_HREG_IP_MSW w) = reg_address APP_MB_HREG_MASK_MSW w
     \<and> me_gateway e = reg_address APP_MB_HREG_GW_MSW w"

text \<open>After a static configuration has been saved and the device has started again, the page shows that nothing
  is left to do.\<close>

theorem static_configuration_page_settles:
  assumes "modbus_inv w" and "\<not> mb_command_pending (m7_modbus w)" and "reg_get APP_MB_HREG_MODE w = 1"
    and "0 \<le> me_submit_ret e" and "me_timely e" and "0 \<le> me_save_ret e" and "address_texts_ok (me_pton e) (me_ntop e)"
    and "(r, w') = holding_reg_wr e APP_MB_HREG_COMMAND APP_MB_CMD_SAVE w"
    and "settings_hold (m7_stored w') (se_settings se)" and "0 \<le> se_settings_ret se"
    and "me_pton (se_m7 se) = me_pton e" and "se_led_ready se" and "me_has_iface (se_m7 se)"
    and "main_start se sys_boot = (None, failures, s)"
    and "iface_static w e'" and "me_ntop e' = dotted" and "answers_from e' (sy_m7 s) answer"
    and "page_refresh now editing answer (p, v) = (p', v')"
  shows "pv_config_state v' = ''Configuration a jour''"
proof -
  have m: "reg_get APP_MB_HREG_MODE w \<le> 1" using assms(3) by simp
  have regs: "reg_get a (sy_m7 s) = reg_get a w" if "1 \<le> a" "a \<le> 7" for a
    using save_then_start [OF assms(1,2) m assms(4-13)] assms(14) that by (metis Pair_inject)
  have addr: "reg_address k (sy_m7 s) = reg_address k w" if "k \<in> {2, 4, 6}" for k
    using that regs [of 2] regs [of 3] regs [of 4] regs [of 5] regs [of 6] regs [of 7] by (auto simp: reg_address_def)
  have i: "me_has_iface e'" "me_addrs e' = Some [(True, NET_ADDR_MANUAL, reg_address 2 w)]"
    "me_netmask_of e' (reg_address 2 w) = reg_address 4 w" "me_gateway e' = reg_address 6 w"
    using assms(15) by (simp_all add: iface_static_def c_def)
  have "net_cfg_select [(True, NET_ADDR_MANUAL, reg_address 2 w)] (nd_mode (m7_net (sy_m7 s)), None)
      = (NET_CFG_STATIC, Some (reg_address 2 w))" by simp
  from page_config_indicator [OF this assms(16) i(1,2) assms(17,18)] show ?thesis
    using addr regs [of 1] assms(3) i by (simp add: c_def)
qed

section \<open>A concrete cycle\<close>

text \<open>Dotted addresses read back, by the parser of the page.\<close>

definition pton_dotted :: pton where
  "pton_dotted text = (case ipWords (\<lambda>_. Other_num ''NaN'') text of None \<Rightarrow> None
     | Some (msw, lsw) \<Rightarrow> Some (word_of_int (msw * 65536 + lsw)))"

lemma dotted_texts_ok: "address_texts_ok pton_dotted dotted"
proof -
  have "ipWords (\<lambda>_. Other_num ''NaN'') (dotted a) = Some (uint a div 65536, uint a mod 65536)" for a
    unfolding dotted_ipFrom using uint_lt2p [of a] by (intro ipWords_ipFrom) (simp_all add: pos_imp_zdiv_nonneg_iff)
  moreover have "word_of_int (uint a div 65536 * 65536 + uint a mod 65536) = a" for a :: u32
    by (simp only: div_mult_mod_eq word_of_int_uint)
  ultimately show ?thesis
    by (simp only: address_texts_ok_def pton_dotted_def dotted_length option.case prod.case simp_thms)
qed

definition env_dotted :: m7_env where
  "env_dotted = m7_env_example\<lparr>me_ntop := dotted, me_pton := pton_dotted\<rparr>"

definition start_again :: start_env where
  "start_again = start_example\<lparr>se_settings := settings_example (net_cfg_save (net_cfg_of_regs dotted m7_boot)),
     se_m7 := env_dotted\<lparr>me_has_iface := True\<rparr>\<rparr>"

lemma start_again_fields:
  assumes "(r, w') = holding_reg_wr env_dotted APP_MB_HREG_COMMAND APP_MB_CMD_SAVE m7_boot"
  shows "modbus_inv m7_boot" "\<not> mb_command_pending (m7_modbus m7_boot)" "reg_get APP_MB_HREG_MODE m7_boot = 1"
    "0 \<le> me_submit_ret env_dotted" "me_timely env_dotted" "0 \<le> me_save_ret env_dotted"
    "address_texts_ok (me_pton env_dotted) (me_ntop env_dotted)" "settings_hold (m7_stored w') (se_settings start_again)"
    "0 \<le> se_settings_ret start_again" "me_pton (se_m7 start_again) = me_pton env_dotted" "se_led_ready start_again"
    "me_has_iface (se_m7 start_again)" "se_add_ok start_again" "se_netmask_ok start_again"
proof -
  show f: "modbus_inv m7_boot" "\<not> mb_command_pending (m7_modbus m7_boot)" "reg_get APP_MB_HREG_MODE m7_boot = 1"
    "0 \<le> me_submit_ret env_dotted" "me_timely env_dotted" "0 \<le> me_save_ret env_dotted"
    "address_texts_ok (me_pton env_dotted) (me_ntop env_dotted)"
    using modbus_boot_inv dotted_texts_ok
    by (simp_all add: env_dotted_def m7_env_example_def m7_boot_def modbus_boot_def reg_get_def c_def)
  have t: "me_pton env_dotted (me_ntop env_dotted a) = Some a" "length (me_ntop env_dotted a) \<le> 15" for a
    using f(7) by (simp_all add: address_texts_ok_def)
  have "m7_stored w' = Some (net_cfg_save (net_cfg_of_regs (me_ntop env_dotted) m7_boot))"
    using save_command_effect [OF f(1,2) _ f(4-6) t assms] f(3) by simp
  then show "settings_hold (m7_stored w') (se_settings start_again)"
    by (simp add: settings_hold_def start_again_def settings_example_def sizeof_net_cfg_store_def env_dotted_def)
  show "0 \<le> se_settings_ret start_again" "me_pton (se_m7 start_again) = me_pton env_dotted" "se_led_ready start_again"
    "me_has_iface (se_m7 start_again)" "se_add_ok start_again" "se_netmask_ok start_again"
    by (simp_all add: start_again_def start_example_def)
qed

theorem saved_configuration_survives_reboot_witness:
  "\<exists>failures s. main_start start_again sys_boot = (None, failures, s) \<and> reg_get 3 (sy_m7 s) = reg_get 3 m7_boot
     \<and> sy_iface s = regs_actions m7_boot"
proof -
  obtain r w' where h: "(r, w') = holding_reg_wr env_dotted APP_MB_HREG_COMMAND APP_MB_CMD_SAVE m7_boot"
    by (metis prod.exhaust)
  note f = start_again_fields [OF h]
  have m: "reg_get APP_MB_HREG_MODE m7_boot \<le> 1" using f(3) by simp
  from saved_configuration_survives_reboot [OF f(1,2) m f(4-7) h f(8-14)] show ?thesis by (auto simp: c_def)
qed

text \<open>The web server of the started device, its interface configured as the calls leave it.\<close>

definition web_env_static :: web_env where
  "web_env_static = web_env_example\<lparr>we_m7 := env_dotted\<lparr>me_has_iface := True,
     me_addrs := Some [(True, NET_ADDR_MANUAL, reg_address 2 m7_boot)],
     me_netmask_of := (\<lambda>_. reg_address 4 m7_boot), me_gateway := reg_address 6 m7_boot\<rparr>\<rparr>"

theorem static_configuration_page_settles_witness:
  "pv_config_state (snd (page_refresh 0 False (\<lambda>path. Some (fst (snd (handle_http_request (\<lambda>_. 0) web_env_static
       (http_request ''GET'' path [] []) (web_world_of (sy_m7 (snd (snd (main_start start_again sys_boot)))))))))
     (page_boot, page_view_boot))) = ''Configuration a jour''"
proof -
  obtain r w' where h: "(r, w') = holding_reg_wr env_dotted APP_MB_HREG_COMMAND APP_MB_CMD_SAVE m7_boot"
    by (metis prod.exhaust)
  note f = start_again_fields [OF h]
  have m: "reg_get APP_MB_HREG_MODE m7_boot \<le> 1" using f(3) by simp
  obtain failures s where s: "main_start start_again sys_boot = (None, failures, s)" "m7_net (sy_m7 s) = m7_net w'"
      "m7_net w' = net_cfg_of_regs (me_ntop env_dotted) m7_boot"
    using save_then_start [OF f(1,2) m f(4-7) h f(8-12)] by metis
  let ?ww = "web_world_of (sy_m7 s)"
  let ?answer = "\<lambda>path. Some (fst (snd (handle_http_request (\<lambda>_. 0) web_env_static (http_request ''GET'' path [] []) ?ww)))"
  have "answers_from (we_m7 web_env_static) (ww_m7 ?ww) ?answer"
    by (rule server_answers)
      (simp_all add: web_env_static_def env_dotted_def web_world_of_def s net_cfg_of_regs_def ipv4_words_to_string_def
        plain_config_def dotted_plain dotted_length f(3) del: One_nat_def)
  then have a: "answers_from (we_m7 web_env_static) (sy_m7 s) ?answer" by (simp add: web_world_of_def)
  obtain p' v' where p: "page_refresh 0 False ?answer (page_boot, page_view_boot) = (p', v')" by (rule prod.exhaust)
  have "iface_static m7_boot (we_m7 web_env_static)" "me_ntop (we_m7 web_env_static) = dotted"
    by (simp_all add: iface_static_def web_env_static_def env_dotted_def c_def)
  from static_configuration_page_settles [OF f(1-7) h f(8-12) s(1) this a p] show ?thesis by (simp add: s(1) p)
qed

end
