(* ===== verification/Wiring.thy ===== *)
theory Wiring
  imports M7_Main Modbus_Server M4_Timeout
begin

text \<open>
  How the parts are connected: the callback tables handed to Zephyr's IPC service and Modbus library, the hooks
  one module registers in another, and the threads. The other theories call the functions directly; the lemmas
  here show that these are the calls the tables lead to.
\<close>

section \<open>The endpoints of the inter-core link\<close>

text \<open>\<open>struct ipc_ept_cfg\<close>: a missing callback is \<open>NULL\<close>, and the driver skips it.\<close>

record 's ipc_ept_cfg =
  ept_name :: string
  ept_bound :: "('s \<Rightarrow> 's) option"
  ept_unbound :: "('s \<Rightarrow> 's) option"
  ept_received :: "(u8 list \<Rightarrow> 's \<Rightarrow> 's) option"
  ept_error :: "('s \<Rightarrow> 's) option"

datatype ept_event = Ept_bound | Ept_unbound | Ept_received "u8 list" | Ept_error

definition ept_callback :: "('s \<Rightarrow> 's) option \<Rightarrow> 's \<Rightarrow> 's" where
  "ept_callback cb s = (case cb of None \<Rightarrow> s | Some f \<Rightarrow> f s)"

definition ept_dispatch :: "'s ipc_ept_cfg \<Rightarrow> ept_event \<Rightarrow> 's \<Rightarrow> 's" where
  "ept_dispatch cfg ev s =
     (case ev of
        Ept_bound \<Rightarrow> ept_callback (ept_bound cfg) s
      | Ept_unbound \<Rightarrow> ept_callback (ept_unbound cfg) s
      | Ept_received data \<Rightarrow> ept_callback (map_option (\<lambda>f. f data) (ept_received cfg)) s
      | Ept_error \<Rightarrow> ept_callback (ept_error cfg) s)"

definition APP_IPC_ENDPOINT_NAME :: string where "APP_IPC_ENDPOINT_NAME = ''motor-control''"

definition endpoint_config_m4 :: "m4_ipc ipc_ept_cfg" where
  "endpoint_config_m4 = \<lparr>ept_name = APP_IPC_ENDPOINT_NAME, ept_bound = Some endpoint_bound_callback_m4,
     ept_unbound = Some endpoint_unbound_callback_m4, ept_received = Some endpoint_received_m4, ept_error = None\<rparr>"

text \<open>\<open>now\<close> is what \<open>k_uptime_get_32\<close> answers to the callback.\<close>

definition endpoint_config_m7 :: "u32 \<Rightarrow> m7_ipc ipc_ept_cfg" where
  "endpoint_config_m7 now = \<lparr>ept_name = APP_IPC_ENDPOINT_NAME, ept_bound = Some endpoint_bound_callback_m7,
     ept_unbound = Some endpoint_unbound_m7, ept_received = Some (endpoint_received_m7 now), ept_error = Some endpoint_error_m7\<rparr>"

text \<open>The events of the runs of the Cortex-M4 are turns and what its table does with the events of the driver;
  an error of the driver changes nothing there.\<close>

lemma m4_exec_dispatch:
  "m4_exec drv ev w =
     (case ev of
        M4_turn leds i \<Rightarrow> fst (m4_main_iteration drv leds i w)
      | M4_received data \<Rightarrow> w\<lparr>m4_link := ept_dispatch endpoint_config_m4 (Ept_received data) (m4_link w)\<rparr>
      | M4_bound \<Rightarrow> w\<lparr>m4_link := ept_dispatch endpoint_config_m4 Ept_bound (m4_link w)\<rparr>
      | M4_unbound \<Rightarrow> w\<lparr>m4_link := ept_dispatch endpoint_config_m4 Ept_unbound (m4_link w)\<rparr>)"
  "ept_dispatch endpoint_config_m4 Ept_error s = s"
  by (cases ev) (simp_all add: m4_exec_def ept_dispatch_def ept_callback_def endpoint_config_m4_def)

text \<open>Whatever the driver reports at any time, the Cortex-M4 stays in its reachable states.\<close>

lemma m4_dispatch_reachable:
  assumes "m4_reachable drv w"
  shows "m4_reachable drv (w\<lparr>m4_link := ept_dispatch endpoint_config_m4 ev (m4_link w)\<rparr>)"
proof (cases ev)
  case Ept_error
  then show ?thesis using assms by (simp add: m4_exec_dispatch(2))
qed (use assms in \<open>auto simp: ept_dispatch_def ept_callback_def endpoint_config_m4_def intro: m4_reachable.step m4_step.intros\<close>)

lemma m7_ops_dispatch:
  "sys_step Link_bound s = sys_m7 (\<lambda>w. w\<lparr>m7_link := ept_dispatch (endpoint_config_m7 now) Ept_bound (m7_link w)\<rparr>) s"
  "sys_step Link_unbound s = sys_m7 (\<lambda>w. w\<lparr>m7_link := ept_dispatch (endpoint_config_m7 now) Ept_unbound (m7_link w)\<rparr>) s"
  "sys_step Link_error s = sys_m7 (\<lambda>w. w\<lparr>m7_link := ept_dispatch (endpoint_config_m7 now) Ept_error (m7_link w)\<rparr>) s"
  by (simp_all add: sys_step_def ept_dispatch_def ept_callback_def endpoint_config_m7_def)

section \<open>The units of the Modbus server\<close>

record modbus_user_callbacks =
  cb_input_reg_rd :: "m7_env \<Rightarrow> u16 \<Rightarrow> m7 \<Rightarrow> (int + u16) \<times> m7"
  cb_holding_reg_rd :: "m7_env \<Rightarrow> u16 \<Rightarrow> m7 \<Rightarrow> (int + u16) \<times> m7"
  cb_holding_reg_wr :: "m7_env \<Rightarrow> u16 \<Rightarrow> u16 \<Rightarrow> m7 \<Rightarrow> int \<times> m7"

definition server_callbacks :: modbus_user_callbacks where
  "server_callbacks = \<lparr>cb_input_reg_rd = routed_input_reg_rd, cb_holding_reg_rd = routed_holding_reg_rd,
     cb_holding_reg_wr = routed_holding_reg_wr\<rparr>"

text \<open>\<open>struct modbus_iface_param\<close>; the mode is \<open>MODBUS_MODE_RAW\<close> and \<open>user_data\<close> is \<open>NULL\<close>.\<close>

record modbus_iface_param =
  mp_user_cb :: modbus_user_callbacks
  mp_unit_id :: u8
  mp_raw_tx_cb :: "nat \<Rightarrow> modbus_adu \<Rightarrow> modbus_adu \<Rightarrow> modbus_adu"

definition server_param_unit1 :: modbus_iface_param where
  "server_param_unit1 = \<lparr>mp_user_cb = server_callbacks, mp_unit_id = APP_MODBUS_UNIT_ID, mp_raw_tx_cb = raw_tx_cb\<rparr>"

definition server_param_unit2 :: modbus_iface_param where
  "server_param_unit2 = \<lparr>mp_user_cb = server_callbacks, mp_unit_id = APP_MODBUS_SCANNER_UNIT_ID, mp_raw_tx_cb = raw_tx_cb\<rparr>"

definition APP_MODBUS_FC23_READ_WRITE_REGS :: u8 where "APP_MODBUS_FC23_READ_WRITE_REGS = 0x17"

text \<open>A request goes to the interface whose parameters carry its unit; both interfaces run the same callbacks,
  which tell the units apart by the unit of the request in progress.\<close>

lemma units_routed:
  assumes "mb_server_iface_unit1 (m7_modbus w) = iface1" and "mb_server_iface_unit2 (m7_modbus w) = iface2"
  shows "modbus_iface_for_unit w (mp_unit_id server_param_unit1) = iface1"
    and "modbus_iface_for_unit w (mp_unit_id server_param_unit2) = iface2"
    and "mp_user_cb server_param_unit1 = mp_user_cb server_param_unit2"
  using assms
  by (simp_all add: modbus_iface_for_unit_def server_param_unit1_def server_param_unit2_def APP_MODBUS_UNIT_ID_def
      APP_MODBUS_SCANNER_UNIT_ID_def)

section \<open>Hooks\<close>

text \<open>The static function pointers \<open>change_cb\<close> of \<open>net_cfg.c\<close> and \<open>unit1_reg_rd\<close>, \<open>unit1_reg_wr\<close> of
  \<open>app_modbus_scanner.c\<close>, before and after a registration.\<close>

definition net_cfg_register_change_cb :: "('w \<Rightarrow> 'w) option \<Rightarrow> ('w \<Rightarrow> 'w) option \<Rightarrow> ('w \<Rightarrow> 'w) option" where
  "net_cfg_register_change_cb cb change_cb = cb"

definition app_modbus_scanner_init :: "'r option \<Rightarrow> 'x option \<Rightarrow> 'r option \<times> 'x option \<Rightarrow> 'r option \<times> 'x option" where
  "app_modbus_scanner_init reg_rd reg_wr hooks = (reg_rd, reg_wr)"

text \<open>The start of the Modbus server registers the hooks with which \<open>Modbus_Tcp\<close> models saving and the
  scanner: whatever was registered before, a saved configuration reaches the registers, and the scanner reads and
  writes them.\<close>

lemma hooks_registered:
  "net_cfg_notify_changed (net_cfg_register_change_cb (Some (modbus_net_cfg_changed e)) old) w = modbus_sync_from_saved_cfg e w"
  "m7_set_saved e d w =
     (let (ret, stored, cfg) = net_cfg_set_saved (me_pton e) (me_save_ret e) (Some d) (m7_net w);
          w = (settings_keep (me_save_ret e) stored w)\<lparr>m7_net := cfg\<rparr>
      in (ret, if ret = 0 then net_cfg_notify_changed (net_cfg_register_change_cb (Some (modbus_net_cfg_changed e)) old) w else w))"
  "scanner_output_wr e addr reg w =
     (let (rd, wr) = app_modbus_scanner_init (Some (holding_reg_rd e)) (Some (holding_reg_wr e)) old2;
          (r, sc, w) = app_modbus_scanner_output_reg_wr rd wr (me_now e) addr reg (m7_scanner w, w)
      in (r, w\<lparr>m7_scanner := sc\<rparr>))"
  by (simp_all add: net_cfg_notify_changed_def net_cfg_register_change_cb_def modbus_net_cfg_changed_def m7_set_saved_def
      scanner_output_wr_def app_modbus_scanner_init_def Let_def case_prod_beta)

text \<open>Without a display in the build \<open>app_lcd_start\<close> is the other definition of \<open>app_lcd.c\<close>; the start of
  the device logs it and goes on.\<close>

definition app_lcd_start_disabled :: "lcd \<Rightarrow> int \<times> lcd" where
  "app_lcd_start_disabled s = (- ENODEV, s)"

section \<open>Threads\<close>

definition APP_MODBUS_THREAD_STACK_SIZE :: nat where "APP_MODBUS_THREAD_STACK_SIZE = 4096"
definition APP_MODBUS_THREAD_PRIORITY :: int where "APP_MODBUS_THREAD_PRIORITY = 7"
definition APP_MODBUS_CMD_WORKQ_STACK_SIZE :: nat where "APP_MODBUS_CMD_WORKQ_STACK_SIZE = 3072"
definition APP_MODBUS_CMD_WORKQ_PRIORITY :: int where "APP_MODBUS_CMD_WORKQ_PRIORITY = 8"
definition APP_EIP_STACK_SIZE :: nat where "APP_EIP_STACK_SIZE = 12288"
definition APP_EIP_THREAD_PRIORITY :: int where "APP_EIP_THREAD_PRIORITY = 7"
definition APP_WEB_THREAD_STACK_SIZE :: nat where "APP_WEB_THREAD_STACK_SIZE = 6144"
definition APP_WEB_THREAD_PRIORITY :: int where "APP_WEB_THREAD_PRIORITY = 8"
definition APP_DPWS_THREAD_STACK_SIZE :: nat where "APP_DPWS_THREAD_STACK_SIZE = 4096"
definition APP_DPWS_THREAD_PRIORITY :: int where "APP_DPWS_THREAD_PRIORITY = 8"
definition APP_LCD_THREAD_STACK_SIZE :: nat where "APP_LCD_THREAD_STACK_SIZE = 4096"
definition APP_LCD_THREAD_PRIORITY :: int where "APP_LCD_THREAD_PRIORITY = 9"

text \<open>A smaller value is more urgent; positive priorities are preemptible.\<close>

record thread_cfg =
  th_name :: string
  th_stack :: nat
  th_priority :: int

definition modbus_tcp_thread_cfg :: thread_cfg where
  "modbus_tcp_thread_cfg = \<lparr>th_name = ''modbus_tcp'',
     th_stack = APP_MODBUS_THREAD_STACK_SIZE, th_priority = APP_MODBUS_THREAD_PRIORITY\<rparr>"

definition modbus_cmd_workq_cfg :: thread_cfg where
  "modbus_cmd_workq_cfg = \<lparr>th_name = ''modbus_cmd_wq'',
     th_stack = APP_MODBUS_CMD_WORKQ_STACK_SIZE, th_priority = APP_MODBUS_CMD_WORKQ_PRIORITY\<rparr>"

definition eip_thread_cfg :: thread_cfg where
  "eip_thread_cfg = \<lparr>th_name = ''opener'',
     th_stack = APP_EIP_STACK_SIZE, th_priority = APP_EIP_THREAD_PRIORITY\<rparr>"

definition app_web_thread_cfg :: thread_cfg where
  "app_web_thread_cfg = \<lparr>th_name = ''app_web'',
     th_stack = APP_WEB_THREAD_STACK_SIZE, th_priority = APP_WEB_THREAD_PRIORITY\<rparr>"

definition dpws_thread_cfg :: thread_cfg where
  "dpws_thread_cfg = \<lparr>th_name = ''dpws'',
     th_stack = APP_DPWS_THREAD_STACK_SIZE, th_priority = APP_DPWS_THREAD_PRIORITY\<rparr>"

definition app_lcd_thread_cfg :: thread_cfg where
  "app_lcd_thread_cfg = \<lparr>th_name = ''app_lcd'',
     th_stack = APP_LCD_THREAD_STACK_SIZE, th_priority = APP_LCD_THREAD_PRIORITY\<rparr>"

definition app_threads :: "thread_cfg list" where
  "app_threads = [modbus_tcp_thread_cfg, modbus_cmd_workq_cfg, eip_thread_cfg, app_web_thread_cfg, dpws_thread_cfg,
     app_lcd_thread_cfg]"

text \<open>The names are distinct, every thread is preemptible, the two field protocols are more urgent than every
  other thread, and the work queue that completes a SAVE is less urgent than the server that waits for it.\<close>

lemma app_threads_order:
  "distinct (List.map th_name app_threads)"
  "list_all (\<lambda>t. 0 < th_priority t) app_threads"
  "\<forall>t\<in>set app_threads. t \<notin> {modbus_tcp_thread_cfg, eip_thread_cfg} \<longrightarrow>
     th_priority modbus_tcp_thread_cfg < th_priority t \<and> th_priority eip_thread_cfg < th_priority t"
  by (simp_all add: app_threads_def modbus_tcp_thread_cfg_def modbus_cmd_workq_cfg_def eip_thread_cfg_def
      app_web_thread_cfg_def dpws_thread_cfg_def app_lcd_thread_cfg_def APP_MODBUS_THREAD_PRIORITY_def
      APP_MODBUS_CMD_WORKQ_PRIORITY_def APP_EIP_THREAD_PRIORITY_def APP_WEB_THREAD_PRIORITY_def
      APP_DPWS_THREAD_PRIORITY_def APP_LCD_THREAD_PRIORITY_def)

text \<open>The heap \<open>CipCalloc\<close> takes its blocks from.\<close>

definition APP_EIP_HEAP_SIZE :: nat where "APP_EIP_HEAP_SIZE = 32768"

end
