(* ===== verification/Spec2Isabelle.thy ===== *)
theory Spec2Isabelle
  imports M4_Main M7_Ipc Ipc_End_To_End Net_Cfg Modbus_Service Modbus_Server M7_Remote Ident App_Eip Opener_Port
    App_Dpws Web_Service Web_Requests App_Lcd M7_Main Command_Chain M4_Timeout Link_Interface Two_Cores Modbus_Work Lock_Order
    Web_Json Web_Page Page_Session Shell_Tables Keep_Alive Config_Cycle Wiring
begin

text \<open>
  A verification of the firmware of an STM32H747 motor controller with industrial Ethernet.

  The program. Two cores share one board. The Cortex-M4 (\<open>app_m4/\<close>) drives a DC motor through an
  H-bridge from a 10 ms loop, reads four buttons and a potentiometer, and takes commands from the other
  core. The Cortex-M7 (\<open>app_m7/\<close>) is the network side: Modbus TCP, EtherNet/IP, a web server, discovery,
  an LCD and a shell; it keeps the network configuration and forwards motor commands. The cores exchange
  packed little-endian frames over Zephyr's IPC service (\<open>app_shared/\<close>): PING and PONG, motor commands
  from the M7, motor states from the M4.

  The theories, in the order of the code:
  \<^item> \<open>IE_Prelude\<close>: the C integers as words, error codes, byte order.
  \<^item> \<open>Motor_Control\<close>, \<open>Motor_Buttons\<close>, \<open>Motor_Potentiometer\<close>: the files of the same names in \<open>app_m4/src\<close>:
    the bridge controller with its fault handling and ramps, the debouncing of the buttons, the filter
    of the potentiometer.
  \<^item> \<open>Ipc_Protocol\<close>: \<open>app_ipc_protocol.h\<close> and \<open>app_motor_contract.h\<close>, with the byte layout of the
    three messages; the locale \<open>wire_format\<close> states what an encoding promises and is interpreted for each.
  \<^item> \<open>M4_Ipc\<close>: \<open>app_m4/src/app_ipc.c\<close>, the M4's endpoint, the command semantics, the remote timeout,
    the STOP latch and the published state. \<open>M4_Main\<close>: \<open>app_m4/src/main.c\<close>, the control loop, and the
    step relation of the whole M4 program, in which turns of the loop interleave with received buffers.
  \<^item> \<open>M7_Ipc\<close>: the M7's endpoint, ping, retries, submission and state cache of
    \<open>app_m7/src/ipc/app_ipc.c\<close>. \<open>Ipc_End_To_End\<close>: both endpoints together, as bytes.
  \<^item> \<open>Net_Cfg\<close>: \<open>app_m7/src/net/net_cfg.c\<close>, the stored network configuration.
  \<^item> \<open>Modbus_Map\<close>, \<open>Modbus_Scanner\<close>, \<open>Modbus_Tcp\<close>: the files of \<open>app_m7/src/protocols/modbus\<close>. The scanner
    relies on a register bank, the locale \<open>register_bank\<close>, which \<open>Modbus_Tcp\<close> interprets on its own
    registers. \<open>Modbus_Service\<close> holds what a client obtains. \<open>Modbus_Server\<close> is the server's thread: the
    accept loop, and as a step relation the exchange of requests and responses with the Modbus library.
  \<^item> \<open>C_Text\<close>: the C string functions the program uses (\<open>strstr\<close>, \<open>strchr\<close>, \<open>strtoul\<close>, \<open>snprintk\<close> and the
    printing of numbers). \<open>M7_Remote\<close>: the rest of \<open>app_m7/src/ipc/app_ipc.c\<close>, the refresh work and the
    shell commands, which call the Modbus server.
  \<^item> \<open>Ident\<close>: \<open>core/ident.c\<close>, the identity of board and firmware. \<open>App_Dpws\<close>: \<open>protocols/dpws/app_dpws.c\<close>,
    the discovery messages.
  \<^item> \<open>App_Eip\<close>: \<open>protocols/eip/app_eip.c\<close>, the assemblies over the scanner window and the start of OpENer;
    \<open>Opener_Port\<close>: the socket, clock and error functions of \<open>opener_zephyr_port.c\<close>, and OpENer's
    configuration headers.
  \<^item> \<open>App_Web\<close>: \<open>web/app_web.c\<close>, the HTTP server; \<open>Web_Service\<close> holds its invariants and the sizes of its
    documents, \<open>Web_Requests\<close> what a client's request does. \<open>Web_Json\<close>: a reader of the JSON the server
    prints, and what its documents read as. \<open>Web_Page\<close>: the script of \<open>web/app_web_assets.h\<close>, what the page
    shows of the documents and the requests its buttons send. \<open>Page_Session\<close>: the HTML document, its menu and
    views, and the page as a run of events with its edit hold and its single refresh in flight.
  \<^item> \<open>App_Lcd\<close>: \<open>ui/app_lcd.c\<close>, the dashboard with its buttons, standby and wake, and \<open>shell/util_cmds.c\<close>.
    \<open>Shell_Tables\<close>: the tables through which the shell finds the commands.
  \<^item> \<open>M7_Main\<close>: \<open>core/main.c\<close>, the start of the services, and all services of the Cortex-M7 as steps of
    one state. \<open>Command_Chain\<close>: a command from a client on the Cortex-M7 to the motor on the Cortex-M4.
  \<^item> \<open>M4_Timeout\<close>: runs of the Cortex-M4 program over time, with the age of the command in force.
    \<open>Link_Interface\<close>: the locale \<open>link_client\<close>, through which the services of the Cortex-M7 use the link;
    interpreted on the trace of messages they hand to it. \<open>Two_Cores\<close>: the programs of both cores and the
    messages in flight between them, which the driver delivers in order or loses. \<open>Keep_Alive\<close>: schedules of
    both cores in which the refresh comes in time, and the motor that runs on through them.
  \<^item> \<open>Config_Cycle\<close>: a configuration from the client's write over the stored settings to the next start and
    the page shown then.
  \<^item> \<open>Modbus_Work\<close>: the save command of \<open>app_modbus_tcp.c\<close> a critical section at a time, with its clients, the
    work queue and the semaphore. \<open>Lock_Order\<close>: the mutexes of the Cortex-M7 and the order in which the
    operations take them; the locale \<open>lock_discipline\<close> has two interpretations on them.
  \<^item> \<open>Wiring\<close>: the callback tables of the endpoints and of the Modbus server, the hooks the modules register
    in each other, and the threads with their stacks and priorities.

  State. A module's static variables are one record, named as in the source with a prefix: \<open>motor\<close>,
  \<open>m4_ipc\<close>, \<open>m7_ipc\<close>, \<open>scanner\<close>, \<open>modbus\<close>, \<open>eip\<close>, \<open>web\<close>, \<open>dpws\<close>, \<open>lcd\<close>; \<open>m7\<close> puts \<open>m7_ipc\<close>, \<open>scanner\<close> and
  \<open>modbus\<close> together with the network configuration, and \<open>m7_sys\<close> all of the Cortex-M7. Two fields record what
  leaves the program for Zephyr: \<open>m7_stored\<close> the blob \<open>settings_save_one\<close> has taken last, \<open>sy_iface\<close> the calls on the
  network interface. An operation takes the record and returns it updated, with its \<open>int\<close> result. What
  Zephyr answers (drivers, clocks, settings, sockets, address conversion) is an argument, in \<open>motor_drv\<close>,
  \<open>m7_env\<close>, \<open>web_env\<close>, \<open>board\<close> and \<open>start_env\<close>; hypotheses about it are named in the theorems that need them. A section under a mutex is
  one step. Log output is left out.

  What is shown.
  \<^item> Motor: the controller's invariant under every sequence of operations and driver failures, no
    short circuit of the bridge, the start profile, the arrival of a ramped stop, faults and direction.
  \<^item> M4: an invariant of all reachable states, the priority and the latching of the STOP button,
    isolation of remote from local control, the exact remote timeout across clock wrap-around.
  \<^item> The link: messages lose nothing, a submitted command arrives word for word, the state cache shows
    the published state, a ping is answered; the retry loop ends after at most 21 attempts.
  \<^item> Modbus: the mapping tables stay valid under every sequence of accesses, the effect of every plain
    write, of \<open>APPLY\<close>, of the save command, of the scanner window and of function code 23.
  \<^item> The Modbus thread: replies match their requests in every interleaving without an expired wait, and
    what happens after one.
  \<^item> Shell: its commands are accepted by the M4, the refresh, the return to local mode.
  \<^item> EtherNet/IP: the output assembly commands the motor, the input assembly equals the Modbus view of the
    scanner, the connection count, allocation without overflow, the shutdown of the stack.
  \<^item> Web: register reads and writes agree with Modbus, documents fit their buffers, reading is safe, a
    motor command has the documented effect; the texts printed are read back, each document as the JSON
    value of the state. Page: a saved address is written, and shown by the refresh its handler begins; the motor's state and
    mode are named as the Cortex-M4 published them, the indicator compares the configuration word by word;
    in every session one view is shown, a field being edited is not rebuilt, and a write that is answered with
    no refresh in flight is followed by a table of the device since.
  \<^item> Discovery and identity: texts and documents fit their buffers, replies carry the probe's message id,
    the announced addresses are the ones served.
  \<^item> Dashboard: the two clicks of a reboot, a dark panel can be woken.
  \<^item> Composition: the invariants of all components of the Cortex-M7 hold from every start under every
    order of its clients' operations, the refresh stays in the contract, and an HTTP request's values
    arrive at the motor. The start logs exactly the failures that occurred.
  \<^item> Both cores: a motor that runs remotely runs on the last command the Cortex-M4 took up, which the
    Cortex-M7 sent and checked, and that is no older than its timeout; without commands it comes to rest;
    commands are executed in order and at most once; the state the Cortex-M7 shows is that of a turn. The
    refresh that comes in time keeps the motor running, and a saved configuration survives the next start, up to the calls on the
    interface.
  \<^item> Concurrency: an accepted save is done exactly once in every interleaving; the exact answer and effect of every
    write of the command register, which some interleaving also has; and the mutexes cannot deadlock as long as the motor is commanded in one way only.
  \<^item> Divergences: theorems that show what the code does where it does not do what it means to
    (\<open>quick_stop_run_bypasses_latch\<close>, \<open>local_command_effect\<close>, \<open>reset_refresh_clears_latch\<close>, the silent drop
    in \<open>submitted_command_arrives\<close>, \<open>modbus_late_response_answers_next_request\<close>, \<open>web_signs_ignored\<close>,
    \<open>web_refused_command_leaves_control\<close>, \<open>web_split_put_refused\<close>, \<open>dpws_message_id_with_attribute_lost\<close>,
    \<open>lcd_frozen_after_long_standby\<close>, \<open>save_answer_of_another\<close>, \<open>apply_refresh_deadlock\<close>,
    \<open>page_dhcp_asks_reboot\<close>, \<open>page_empty_field_saves_zero\<close>, \<open>page_starts_forward\<close>,
    \<open>press_during_refresh_shows_before\<close>).

  Bounds. No fuel is used: every loop of the modelled code is structural over its buffer, table or list
  of events, or has a measure (\<open>ipc_send_loop\<close>, bounded by \<open>APP_IPC_SEND_RETRY_MS\<close>; \<open>web_send_all\<close>, the
  bytes left; the digits of a number). Loops that wait for the network run over the list of answers they
  get, with \<open>None\<close> when it ends before the loop does. Fields, registers, clocks and sequence numbers are
  words of their C width and wrap as in C; \<open>size_t\<close> and \<open>unsigned long\<close> have 32 bits.

  Not modelled: the drawing of the dashboard by LVGL and the panel's driver; the style sheet of the web page,
  its two constant charts (floating point) and the bytes of its picture, which the server takes as arguments like
  the texts of the page; the host tools (Python) and the build configuration, which are no part of the
  firmware's C code. Stack sizes and priorities are data of \<open>Wiring\<close>; the scheduler itself is Zephyr's. OpENer, the Modbus library and Zephyr are parameters. In \<open>M7_Main\<close> an operation of one
  thread is a step of its own; \<open>Modbus_Work\<close> and \<open>Lock_Order\<close> take the two places apart where the code's locks
  do not ensure that (\<open>command_done\<close>, and \<open>holding_regs_lock\<close> with \<open>remote_command_lock\<close>).
\<close>

end
